(* ===== verification/Prelude.thy ===== *)
theory Prelude
  imports Main "HOL-Library.List_Lexorder" "HOL-Library.Char_ord" "HOL-Library.Word"
begin

text \<open>
  Shared vocabulary of the development: the parts of Go's standard library the runtime uses on
  strings (\<open>strings.HasPrefix\<close>, \<open>TrimSuffix\<close>, \<open>Split\<close>, \<open>ContainsAny\<close>, \<open>Index\<close>), the
  wrap-around of \<open>int32\<close> counters, the outcome of \<open>encoding/json\<close> on a stored value, and the
  generic lemmas on lists, maps and step relations that the component theories share.
  Strings are byte lists; \<open>List_Lexorder\<close> and \<open>Char_ord\<close> give them Go's bytewise order.
\<close>

named_theorems op_defs \<open>definitions of operations, unfolded together\<close>
named_theorems go_string \<open>facts about the modelled string functions\<close>

section \<open>Go strings\<close>

definition HasPrefix :: "string \<Rightarrow> string \<Rightarrow> bool" where
  "HasPrefix s p \<longleftrightarrow> length p \<le> length s \<and> take (length p) s = p"

definition HasSuffix :: "string \<Rightarrow> string \<Rightarrow> bool" where
  "HasSuffix s p \<longleftrightarrow> length p \<le> length s \<and> drop (length s - length p) s = p"

definition TrimSuffix :: "string \<Rightarrow> string \<Rightarrow> string" where
  "TrimSuffix s p = (if HasSuffix s p then take (length s - length p) s else s)"

definition ContainsAny :: "string \<Rightarrow> string \<Rightarrow> bool" where
  "ContainsAny s cs \<longleftrightarrow> list_ex (\<lambda>c. c \<in> set cs) s"

text \<open>\<open>strings.Split\<close> at a one-byte separator: always at least one segment.\<close>

fun Split :: "char \<Rightarrow> string \<Rightarrow> string list" where
  "Split c [] = [[]]"
| "Split c (x # xs) =
     (if x = c then [] # Split c xs else (x # hd (Split c xs)) # tl (Split c xs))"

text \<open>The same, evaluating the recursive call once.\<close>

definition split_cons :: "char \<Rightarrow> char \<Rightarrow> string list \<Rightarrow> string list" where
  "split_cons c x segs = (if x = c then [] # segs else (x # hd segs) # tl segs)"

lemma Split_code [code]:
  "Split c [] = [[]]"
  "Split c (x # xs) = split_cons c x (Split c xs)"
  by (simp_all add: split_cons_def)

text \<open>\<open>strings.Index\<close> of a one-byte substring; \<open>None\<close> is Go's \<open>-1\<close>.\<close>

fun IndexByte :: "char \<Rightarrow> string \<Rightarrow> nat option" where
  "IndexByte c [] = None"
| "IndexByte c (x # xs) = (if x = c then Some 0 else map_option Suc (IndexByte c xs))"

lemma HasPrefix_iff [go_string]: "HasPrefix s p \<longleftrightarrow> (\<exists>t. s = p @ t)"
proof
  assume "HasPrefix s p"
  then have "s = p @ drop (length p) s"
    by (metis HasPrefix_def append_take_drop_id)
  then show "\<exists>t. s = p @ t" ..
qed (auto simp: HasPrefix_def)

lemma HasPrefix_refl [simp]: "HasPrefix (p @ t) p"
  by (auto simp: go_string)

lemma HasPrefix_Nil [simp]: "HasPrefix s []"
  by (simp add: HasPrefix_def)

lemma Split_not_Nil [simp]: "Split c s \<noteq> []"
  by (induction s) auto

lemma length_Split_pos [simp]: "0 < length (Split c s)"
  by simp

lemma length_Split [go_string]: "length (Split c s) = Suc (count_list s c)"
  by (induction s) auto

lemma Split_no_sep: "c \<notin> set s \<Longrightarrow> Split c s = [s]"
  by (induction s) auto

lemma Split_append_sep [go_string]:
  "Split c (s @ c # t) = Split c s @ Split c t"
  by (induction s) auto

lemma Split_segments: "seg \<in> set (Split c s) \<Longrightarrow> c \<notin> set seg"
proof (induction s arbitrary: seg)
  case Nil
  then show ?case by simp
next
  case (Cons x xs)
  have hd_in: "hd (Split c xs) \<in> set (Split c xs)"
    and tl_in: "set (tl (Split c xs)) \<subseteq> set (Split c xs)"
    by (simp_all add: list.set_sel(2) subset_iff)
  show ?case
    using Cons.prems Cons.IH hd_in tl_in by (cases "x = c") (auto split: if_splits)
qed

lemma Split_subset: "seg \<in> set (Split c s) \<Longrightarrow> set seg \<subseteq> set s"
proof (induction s arbitrary: seg)
  case (Cons x xs)
  have hd_sub: "set (hd (Split c xs)) \<subseteq> set xs" by (rule Cons.IH) simp
  have tl_sub: "set seg \<subseteq> set xs" if "seg \<in> set (tl (Split c xs))" for seg
    by (rule Cons.IH) (use that in \<open>simp add: list.set_sel(2)\<close>)
  show ?case
  proof (cases "x = c")
    case True
    then show ?thesis using Cons.prems Cons.IH [of seg] by (cases "seg = []") auto
  next
    case False
    then show ?thesis using Cons.prems hd_sub tl_sub [of seg] by auto
  qed
qed simp

lemma Split_join: "concat (map ((#) c) (Split c s)) = c # s"
proof (induction s)
  case (Cons x xs)
  have "c # hd (Split c xs) @ concat (map ((#) c) (tl (Split c xs))) = c # xs"
    using Cons by (metis append_Cons concat.simps(2) list.collapse list.simps(9) Split_not_Nil)
  then show ?case using Cons by auto
qed simp

lemma Split_inject: "Split c s = Split c t \<longleftrightarrow> s = t"
  by (metis Split_join list.inject)

lemma hd_Split: "hd (Split c s) = takeWhile (\<lambda>x. x \<noteq> c) s"
  by (induction s) auto

lemma IndexByte_None: "IndexByte c s = None \<longleftrightarrow> c \<notin> set s"
  by (induction s) auto

lemma IndexByte_Some:
  "IndexByte c s = Some i \<Longrightarrow> i < length s \<and> s ! i = c \<and> c \<notin> set (take i s)"
  by (induction s arbitrary: i) (auto split: if_splits simp: nth_Cons')

text \<open>The \<open>%d\<close> verb on an unsigned number.\<close>

fun Itoa :: "nat \<Rightarrow> string" where
  "Itoa n = (if n < 10 then [char_of (48 + n)] else Itoa (n div 10) @ [char_of (48 + n mod 10)])"

declare Itoa.simps [simp del]

section \<open>\<open>int32\<close> counters and stored JSON\<close>

text \<open>The \<open>++\<close> of a signed 32-bit counter wraps to the least value.\<close>

definition wrap32 :: "int \<Rightarrow> int" where
  "wrap32 n = (n + 2 ^ 31) mod 2 ^ 32 - 2 ^ 31"

lemma wrap32_id: "- (2 ^ 31) \<le> n \<Longrightarrow> n < 2 ^ 31 \<Longrightarrow> wrap32 n = n"
  by (simp add: wrap32_def)

lemma wrap32_range: "- (2 ^ 31) \<le> wrap32 n \<and> wrap32 n < 2 ^ 31"
proof -
  have "0 \<le> (n + 2 ^ 31) mod 2 ^ 32" "(n + 2 ^ 31) mod 2 ^ 32 < 2 ^ 32"
    by simp_all
  then show ?thesis by (simp add: wrap32_def)
qed

text \<open>
  A value read back from a bucket is either the JSON encoding of a value of the expected type
  or bytes \<open>json.Unmarshal\<close> rejects.
\<close>

datatype 'a json = Json 'a | Corrupt

section \<open>Lists, maps and words\<close>

lemma sorted_sort_key_id [simp]: "sorted (map f (sort_key f xs))"
  by simp

lemma map_upd_other: "k' \<noteq> k \<Longrightarrow> (m(k \<mapsto> v)) k' = m k'"
  by simp

lemma unat_suc_bounded:
  fixes w :: "32 word"
  assumes "unat w < n" and "n \<le> 100"
  shows "unat (w + 1) = Suc (unat w)"
proof -
  have "unat w + 1 < 2 ^ 32" using assms by simp
  then show ?thesis by (simp add: unat_word_ariths)
qed

lemma length_filter_key: "length (filter (\<lambda>d. f d = x) xs) = count_list (map f xs) x"
  by (induction xs) auto

lemma count_list_filter: "P x \<Longrightarrow> count_list (filter P xs) x = count_list xs x"
  by (induction xs) auto

lemma count_list_distinct: "distinct xs \<Longrightarrow> x \<in> set xs \<Longrightarrow> count_list xs x = 1"
  by (induction xs) (auto simp: count_notin)

section \<open>Invariants of step relations\<close>

text \<open>
  The shape every state-machine argument of the development has: a predicate kept by each step
  holds along every run that starts in it.
\<close>

locale step_invariant =
  fixes step :: "'s \<Rightarrow> 's \<Rightarrow> bool" and I :: "'s \<Rightarrow> bool"
  assumes step_keeps: "step s t \<Longrightarrow> I s \<Longrightarrow> I t"
begin

lemma run_keeps: "step\<^sup>*\<^sup>* s t \<Longrightarrow> I s \<Longrightarrow> I t"
  by (induction rule: rtranclp_induct) (auto intro: step_keeps)

end

end
