(* ===== verification/KV.thy ===== *)
theory KV
  imports Prelude
begin

text \<open>
  The JetStream key-value interface every store of the runtime is built on. The client library
  is third-party code, so its operations are a parameter (\<open>kv_ops\<close>) of the definitions that use
  them and what the runtime relies on is the locale \<open>kv_store\<close>: an abstract view of a bucket as
  a finite map from keys to values with revisions, compare-and-set updates, and fresh revisions.
  A request that fails because the server is unreachable (\<open>ErrUnavailable\<close>) may or may not
  have taken effect; every other error is a refusal without effect. \<open>reliable_kv\<close> adds that
  admissible requests are answered. Two executable buckets interpret the locales: an in-memory
  bucket, and the same bucket behind a script of faults.
\<close>

datatype kv_error = ErrKeyNotFound | ErrKeyExists | ErrWrongLastSequence | ErrNoKeysFound | ErrUnavailable

record ('s, 'v) kv_ops =
  kv_create :: "string \<Rightarrow> 'v \<Rightarrow> 's \<Rightarrow> (kv_error + nat) \<times> 's"
  kv_get :: "string \<Rightarrow> 's \<Rightarrow> kv_error + ('v \<times> nat)"
  kv_update :: "string \<Rightarrow> 'v \<Rightarrow> nat \<Rightarrow> 's \<Rightarrow> (kv_error + nat) \<times> 's"
  kv_put :: "string \<Rightarrow> 'v \<Rightarrow> 's \<Rightarrow> (kv_error + nat) \<times> 's"
  kv_purge :: "string \<Rightarrow> 's \<Rightarrow> kv_error option \<times> 's"
  kv_keys :: "'s \<Rightarrow> kv_error + string list"

type_synonym 'v kv_map = "string \<rightharpoonup> 'v \<times> nat"

definition fresh_rev :: "'v kv_map \<Rightarrow> nat \<Rightarrow> bool" where
  "fresh_rev m r \<longleftrightarrow> (\<forall>k v q. m k = Some (v, q) \<longrightarrow> q < r)"

definition written :: "'v kv_map \<Rightarrow> string \<Rightarrow> 'v \<Rightarrow> 'v kv_map \<Rightarrow> bool" where
  "written m k v m' \<longleftrightarrow> (\<exists>r. fresh_rev m r \<and> m' = m(k \<mapsto> (v, r)))"

lemma fresh_rev_neq: "fresh_rev m r \<Longrightarrow> m k = Some (v, q) \<Longrightarrow> q \<noteq> r"
  by (auto simp: fresh_rev_def)

lemma written_other: "written m k v m' \<Longrightarrow> k' \<noteq> k \<Longrightarrow> m' k' = m k'"
  by (auto simp: written_def)

lemma written_same: "written m k v m' \<Longrightarrow> \<exists>r. m' k = Some (v, r)"
  by (auto simp: written_def)

section \<open>The interface\<close>

locale kv_store =
  fixes ops :: "('s, 'v) kv_ops" and view :: "'s \<Rightarrow> 'v kv_map"
  assumes get_some: "kv_get ops k s = Inr ent \<Longrightarrow> view s k = Some ent"
    and get_none: "kv_get ops k s = Inl ErrKeyNotFound \<Longrightarrow> view s k = None"
    and create_ok: "kv_create ops k v s = (Inr r, s') \<Longrightarrow>
          view s k = None \<and> fresh_rev (view s) r \<and> view s' = (view s)(k \<mapsto> (v, r))"
    and create_err: "kv_create ops k v s = (Inl e, s') \<Longrightarrow>
          view s' = view s \<or> (e = ErrUnavailable \<and> view s k = None \<and> written (view s) k v (view s'))"
    and update_ok: "kv_update ops k v q s = (Inr r, s') \<Longrightarrow>
          (\<exists>u. view s k = Some (u, q)) \<and> fresh_rev (view s) r \<and> view s' = (view s)(k \<mapsto> (v, r))"
    and update_err: "kv_update ops k v q s = (Inl e, s') \<Longrightarrow>
          view s' = view s \<or>
          (e = ErrUnavailable \<and> (\<exists>u. view s k = Some (u, q)) \<and> written (view s) k v (view s'))"
    and put_ok: "kv_put ops k v s = (Inr r, s') \<Longrightarrow>
          fresh_rev (view s) r \<and> view s' = (view s)(k \<mapsto> (v, r))"
    and put_err: "kv_put ops k v s = (Inl e, s') \<Longrightarrow>
          view s' = view s \<or> (e = ErrUnavailable \<and> written (view s) k v (view s'))"
    and purge_ok: "kv_purge ops k s = (None, s') \<Longrightarrow> view s' = (view s)(k := None)"
    and purge_err: "kv_purge ops k s = (Some e, s') \<Longrightarrow>
          view s' = view s \<or> (e = ErrUnavailable \<and> view s' = (view s)(k := None))"
    and purge_missing: "kv_purge ops k s = (Some ErrKeyNotFound, s') \<Longrightarrow> view s k = None"
    and keys_ok: "kv_keys ops s = Inr ks \<Longrightarrow> distinct ks \<and> set ks = dom (view s)"
    and keys_none: "kv_keys ops s = Inl ErrNoKeysFound \<Longrightarrow> view s = Map.empty"
begin

text \<open>Whatever it answers, a write leaves the view alone or sets the one key it names.\<close>

lemma create_cases:
  "kv_create ops k v s = (res, s') \<Longrightarrow>
     view s' = view s \<or> (view s k = None \<and> written (view s) k v (view s'))"
  by (cases res) (auto dest: create_ok create_err simp: written_def)

lemma update_cases:
  "kv_update ops k v q s = (res, s') \<Longrightarrow>
     view s' = view s \<or> ((\<exists>u. view s k = Some (u, q)) \<and> written (view s) k v (view s'))"
  by (cases res) (auto dest: update_ok update_err simp: written_def)

lemma put_cases:
  "kv_put ops k v s = (res, s') \<Longrightarrow> view s' = view s \<or> written (view s) k v (view s')"
  by (cases res) (use put_ok put_err in \<open>fastforce simp: written_def\<close>)+

lemma purge_cases:
  "kv_purge ops k s = (res, s') \<Longrightarrow> view s' = view s \<or> view s' = (view s)(k := None)"
  by (cases res) (auto dest: purge_ok purge_err)

text \<open>Optimistic concurrency: a revision that is not the stored one changes nothing.\<close>

lemma stale_update:
  assumes "kv_update ops k v q s = (res, s')" and "\<And>u. view s k \<noteq> Some (u, q)"
  shows "view s' = view s \<and> (\<exists>e. res = Inl e)"
proof (cases res)
  case (Inl e)
  then show ?thesis using update_cases [OF assms(1)] assms(2) by auto
next
  case (Inr r)
  then show ?thesis using update_ok [of k v q s r s'] assms by auto
qed

text \<open>Of two writers that read the same revision, only the first succeeds.\<close>

lemma second_writer_fails:
  assumes "kv_update ops k v q s = (Inr r, s1)" and "kv_update ops k v' q s1 = (res, s2)"
  shows "view s2 = view s1 \<and> (\<exists>e. res = Inl e)"
proof (rule stale_update [OF assms(2)])
  fix u
  from update_ok [OF assms(1)] obtain u0 where "view s k = Some (u0, q)"
    and "fresh_rev (view s) r" and "view s1 = (view s)(k \<mapsto> (v, r))" by blast
  then show "view s1 k \<noteq> Some (u, q)" using fresh_rev_neq by fastforce
qed

end

locale reliable_kv = kv_store +
  assumes get_present: "view s k = Some ent \<Longrightarrow> kv_get ops k s = Inr ent"
    and get_absent: "view s k = None \<Longrightarrow> kv_get ops k s = Inl ErrKeyNotFound"
    and create_absent: "view s k = None \<Longrightarrow> \<exists>r s'. kv_create ops k v s = (Inr r, s')"
    and create_exists: "view s k = Some ent \<Longrightarrow> kv_create ops k v s = (Inl ErrKeyExists, s)"
    and update_match: "view s k = Some (u, q) \<Longrightarrow> \<exists>r s'. kv_update ops k v q s = (Inr r, s')"
    and put_done: "\<exists>r s'. kv_put ops k v s = (Inr r, s')"
    and purge_done: "\<exists>s'. kv_purge ops k s = (None, s')"
    and keys_some: "view s k = Some ent \<Longrightarrow> \<exists>ks. kv_keys ops s = Inr ks"
    and keys_empty: "view s = Map.empty \<Longrightarrow> kv_keys ops s = Inl ErrNoKeysFound"
begin

lemma get_iff: "kv_get ops k s = (case view s k of None \<Rightarrow> Inl ErrKeyNotFound | Some e \<Rightarrow> Inr e)"
  by (cases "view s k") (simp_all add: get_present get_absent)

lemma keys_answered: "kv_keys ops s = Inl ErrNoKeysFound \<and> view s = Map.empty \<or>
   (\<exists>ks. kv_keys ops s = Inr ks \<and> distinct ks \<and> set ks = dom (view s))"
proof (cases "view s = Map.empty")
  case True
  then show ?thesis by (simp add: keys_empty)
next
  case False
  then obtain k e where "view s k = Some e" by (metis not_None_eq ext)
  then obtain ks where "kv_keys ops s = Inr ks" using keys_some by blast
  then show ?thesis using keys_ok by blast
qed

end

section \<open>An in-memory bucket\<close>

record 'v bucket =
  bk_entries :: "(string \<times> 'v \<times> nat) list"
  bk_seq :: nat

definition empty_bucket :: "'v bucket" where
  "empty_bucket = \<lparr>bk_entries = [], bk_seq = 0\<rparr>"

definition mem_view :: "'v bucket \<Rightarrow> 'v kv_map" where
  "mem_view b = map_of (bk_entries b)"

definition next_seq :: "'v bucket \<Rightarrow> nat" where
  "next_seq b = Suc (fold max (map (snd \<circ> snd) (bk_entries b)) (bk_seq b))"

definition mem_write :: "string \<Rightarrow> 'v \<Rightarrow> 'v bucket \<Rightarrow> (kv_error + nat) \<times> 'v bucket" where
  "mem_write k v b = (let r = next_seq b in
     (Inr r, \<lparr>bk_entries = (k, v, r) # filter (\<lambda>e. fst e \<noteq> k) (bk_entries b), bk_seq = r\<rparr>))"

definition mem_create :: "string \<Rightarrow> 'v \<Rightarrow> 'v bucket \<Rightarrow> (kv_error + nat) \<times> 'v bucket" where
  "mem_create k v b = (case mem_view b k of None \<Rightarrow> mem_write k v b | Some _ \<Rightarrow> (Inl ErrKeyExists, b))"

definition mem_get :: "string \<Rightarrow> 'v bucket \<Rightarrow> kv_error + ('v \<times> nat)" where
  "mem_get k b = (case mem_view b k of None \<Rightarrow> Inl ErrKeyNotFound | Some e \<Rightarrow> Inr e)"

definition mem_update :: "string \<Rightarrow> 'v \<Rightarrow> nat \<Rightarrow> 'v bucket \<Rightarrow> (kv_error + nat) \<times> 'v bucket" where
  "mem_update k v q b = (case mem_view b k of
      None \<Rightarrow> (Inl ErrWrongLastSequence, b)
    | Some (u, r) \<Rightarrow> if r = q then mem_write k v b else (Inl ErrWrongLastSequence, b))"

definition mem_purge :: "string \<Rightarrow> 'v bucket \<Rightarrow> kv_error option \<times> 'v bucket" where
  "mem_purge k b = (None,
     \<lparr>bk_entries = filter (\<lambda>e. fst e \<noteq> k) (bk_entries b), bk_seq = next_seq b\<rparr>)"

definition mem_keys :: "'v bucket \<Rightarrow> kv_error + string list" where
  "mem_keys b = (if bk_entries b = [] then Inl ErrNoKeysFound
                 else Inr (remdups (map fst (bk_entries b))))"

definition mem_ops :: "('v bucket, 'v) kv_ops" where
  "mem_ops = \<lparr>kv_create = mem_create, kv_get = mem_get, kv_update = mem_update,
     kv_put = mem_write, kv_purge = mem_purge, kv_keys = mem_keys\<rparr>"

lemmas mem_defs [op_defs] = mem_ops_def mem_create_def mem_get_def mem_update_def mem_purge_def
  mem_keys_def mem_write_def mem_view_def Let_def

lemma fold_max_ge: "(a::nat) \<le> fold max xs a \<and> (\<forall>x\<in>set xs. x \<le> fold max xs a)"
  by (induction xs arbitrary: a) (auto, (meson max.bounded_iff)+)

lemma next_seq_fresh: "fresh_rev (mem_view b) (next_seq b)"
proof -
  have "q < next_seq b" if "map_of (bk_entries b) k = Some (v, q)" for k v q
  proof -
    from map_of_SomeD [OF that] have "q \<in> set (map (snd \<circ> snd) (bk_entries b))" by force
    then show ?thesis
      using fold_max_ge [of "bk_seq b" "map (snd \<circ> snd) (bk_entries b)"]
      by (auto simp: next_seq_def less_Suc_eq_le)
  qed
  then show ?thesis by (auto simp: fresh_rev_def mem_view_def)
qed

lemma map_of_filter_key:
  "map_of (filter (\<lambda>e. fst e \<noteq> k) es) = (map_of es)(k := None)"
  by (induction es) auto

lemma mem_write_view:
  "mem_write k v b = (Inr r, b') \<longleftrightarrow>
     r = next_seq b \<and> b' = \<lparr>bk_entries = (k, v, r) # filter (\<lambda>e. fst e \<noteq> k) (bk_entries b), bk_seq = r\<rparr>"
  by (auto simp: mem_write_def Let_def)

lemma mem_view_write:
  "mem_view \<lparr>bk_entries = (k, v, r) # filter (\<lambda>e. fst e \<noteq> k) es, bk_seq = n\<rparr> = (map_of es)(k \<mapsto> (v, r))"
  by (simp add: mem_view_def map_of_filter_key)

lemma mem_write_ok:
  "mem_write k v b = (res, b') \<Longrightarrow> res = Inr (next_seq b) \<and> mem_view b' = (mem_view b)(k \<mapsto> (v, next_seq b))"
  by (auto simp: mem_write_def Let_def mem_view_def map_of_filter_key)

interpretation mem: reliable_kv mem_ops mem_view
proof
  fix k :: string and s s' :: "'v bucket" and v :: 'v and e r q
  show "kv_get mem_ops k s = Inr e \<Longrightarrow> mem_view s k = Some e" for e
    by (simp add: mem_ops_def mem_get_def split: option.splits)
  show "kv_get mem_ops k s = Inl ErrKeyNotFound \<Longrightarrow> mem_view s k = None"
    by (simp add: mem_ops_def mem_get_def split: option.splits)
  show "kv_create mem_ops k v s = (Inr r, s') \<Longrightarrow>
      mem_view s k = None \<and> fresh_rev (mem_view s) r \<and> mem_view s' = (mem_view s)(k \<mapsto> (v, r))"
    by (auto simp: mem_ops_def mem_create_def next_seq_fresh dest!: mem_write_ok split: option.splits)
  show "kv_create mem_ops k v s = (Inl e, s') \<Longrightarrow>
      mem_view s' = mem_view s \<or>
      (e = ErrUnavailable \<and> mem_view s k = None \<and> written (mem_view s) k v (mem_view s'))" for e
    by (auto simp: mem_ops_def mem_create_def dest!: mem_write_ok split: option.splits)
  show "kv_update mem_ops k v q s = (Inr r, s') \<Longrightarrow>
      (\<exists>u. mem_view s k = Some (u, q)) \<and> fresh_rev (mem_view s) r \<and> mem_view s' = (mem_view s)(k \<mapsto> (v, r))"
    by (auto simp: mem_ops_def mem_update_def next_seq_fresh dest!: mem_write_ok
        split: option.splits prod.splits if_splits)
  show "kv_update mem_ops k v q s = (Inl e, s') \<Longrightarrow>
      mem_view s' = mem_view s \<or>
      (e = ErrUnavailable \<and> (\<exists>u. mem_view s k = Some (u, q)) \<and> written (mem_view s) k v (mem_view s'))" for e
    by (auto simp: mem_ops_def mem_update_def dest!: mem_write_ok
        split: option.splits prod.splits if_splits)
  show "kv_put mem_ops k v s = (Inr r, s') \<Longrightarrow>
      fresh_rev (mem_view s) r \<and> mem_view s' = (mem_view s)(k \<mapsto> (v, r))"
    by (auto simp: mem_ops_def next_seq_fresh dest!: mem_write_ok)
  show "kv_put mem_ops k v s = (Inl e, s') \<Longrightarrow>
      mem_view s' = mem_view s \<or> (e = ErrUnavailable \<and> written (mem_view s) k v (mem_view s'))" for e
    by (auto simp: mem_ops_def dest!: mem_write_ok)
  show "kv_purge mem_ops k s = (None, s') \<Longrightarrow> mem_view s' = (mem_view s)(k := None)"
    by (auto simp: mem_ops_def mem_purge_def mem_view_def map_of_filter_key)
  show "kv_purge mem_ops k s = (Some e, s') \<Longrightarrow>
      mem_view s' = mem_view s \<or> (e = ErrUnavailable \<and> mem_view s' = (mem_view s)(k := None))" for e
    by (simp add: mem_ops_def mem_purge_def)
  show "kv_purge mem_ops k s = (Some ErrKeyNotFound, s') \<Longrightarrow> mem_view s k = None"
    by (simp add: mem_ops_def mem_purge_def)
  show "kv_keys mem_ops s = Inr ks \<Longrightarrow> distinct ks \<and> set ks = dom (mem_view s)" for ks
    by (drule sym [of _ "Inr ks"])
      (simp add: mem_ops_def mem_keys_def mem_view_def dom_map_of_conv_image_fst split: if_splits)
  show "kv_keys mem_ops s = Inl ErrNoKeysFound \<Longrightarrow> mem_view s = Map.empty"
    by (auto simp: mem_ops_def mem_keys_def mem_view_def split: if_splits)
  show "mem_view s k = Some e \<Longrightarrow> kv_get mem_ops k s = Inr e" for e
    by (simp add: mem_ops_def mem_get_def)
  show "mem_view s k = None \<Longrightarrow> kv_get mem_ops k s = Inl ErrKeyNotFound"
    by (simp add: mem_ops_def mem_get_def)
  show "mem_view s k = None \<Longrightarrow> \<exists>r s'. kv_create mem_ops k v s = (Inr r, s')"
    by (simp add: mem_ops_def mem_create_def mem_write_def Let_def)
  show "mem_view s k = Some e \<Longrightarrow> kv_create mem_ops k v s = (Inl ErrKeyExists, s)" for e
    by (simp add: mem_ops_def mem_create_def)
  show "mem_view s k = Some (u, q) \<Longrightarrow> \<exists>r s'. kv_update mem_ops k v q s = (Inr r, s')" for u
    by (simp add: mem_ops_def mem_update_def mem_write_def Let_def)
  show "\<exists>r s'. kv_put mem_ops k v s = (Inr r, s')"
    by (simp add: mem_ops_def mem_write_def Let_def)
  show "\<exists>s'. kv_purge mem_ops k s = (None, s')"
    by (simp add: mem_ops_def mem_purge_def)
  show "mem_view s k = Some e \<Longrightarrow> \<exists>ks. kv_keys mem_ops s = Inr ks" for e
    by (auto simp: mem_ops_def mem_keys_def mem_view_def)
  show "mem_view s = Map.empty \<Longrightarrow> kv_keys mem_ops s = Inl ErrNoKeysFound"
    by (auto simp: mem_ops_def mem_keys_def mem_view_def)
qed

section \<open>A bucket behind a script of faults\<close>

text \<open>
  Each write consumes one entry of the script: \<open>Deliver\<close> lets it through, \<open>Lose\<close> drops the
  request, \<open>LoseAck\<close> performs it and loses the answer. An exhausted script delivers.
\<close>

datatype fault = Deliver | Lose | LoseAck

type_synonym 'v flaky = "'v bucket \<times> fault list"

definition flaky_view :: "'v flaky \<Rightarrow> 'v kv_map" where
  "flaky_view s = mem_view (fst s)"

definition flaky_write ::
  "('v bucket \<Rightarrow> (kv_error + nat) \<times> 'v bucket) \<Rightarrow> 'v flaky \<Rightarrow> (kv_error + nat) \<times> 'v flaky" where
  "flaky_write f s = (case snd s of
      [] \<Rightarrow> (let (res, b) = f (fst s) in (res, (b, [])))
    | Deliver # fs \<Rightarrow> (let (res, b) = f (fst s) in (res, (b, fs)))
    | Lose # fs \<Rightarrow> (Inl ErrUnavailable, (fst s, fs))
    | LoseAck # fs \<Rightarrow> (let (res, b) = f (fst s) in (Inl ErrUnavailable, (b, fs))))"

definition flaky_purge :: "string \<Rightarrow> 'v flaky \<Rightarrow> kv_error option \<times> 'v flaky" where
  "flaky_purge k s = (case snd s of
      [] \<Rightarrow> (None, (snd (mem_purge k (fst s)), []))
    | Deliver # fs \<Rightarrow> (None, (snd (mem_purge k (fst s)), fs))
    | Lose # fs \<Rightarrow> (Some ErrUnavailable, (fst s, fs))
    | LoseAck # fs \<Rightarrow> (Some ErrUnavailable, (snd (mem_purge k (fst s)), fs)))"

definition flaky_ops :: "('v flaky, 'v) kv_ops" where
  "flaky_ops = \<lparr>kv_create = \<lambda>k v. flaky_write (mem_create k v),
     kv_get = \<lambda>k s. mem_get k (fst s),
     kv_update = \<lambda>k v q. flaky_write (mem_update k v q),
     kv_put = \<lambda>k v. flaky_write (mem_write k v),
     kv_purge = flaky_purge,
     kv_keys = \<lambda>s. mem_keys (fst s)\<rparr>"

lemma flaky_write_cases:
  assumes "flaky_write f s = (res, s')"
  shows "f (fst s) = (res, fst s') \<or> (\<exists>e. res = Inl ErrUnavailable \<and>
           (fst s' = fst s \<or> (\<exists>res0. f (fst s) = (res0, fst s'))))"
  using assms by (auto simp: flaky_write_def split: list.splits fault.splits prod.splits)

lemma flaky_purge_cases:
  assumes "flaky_purge k s = (res, s')"
  shows "(res = None \<and> flaky_view s' = (flaky_view s)(k := None)) \<or>
    (res = Some ErrUnavailable \<and> (flaky_view s' = flaky_view s \<or> flaky_view s' = (flaky_view s)(k := None)))"
  using assms
  by (auto simp: flaky_purge_def flaky_view_def mem_purge_def mem_view_def map_of_filter_key
      split: list.splits fault.splits)

interpretation flaky: kv_store flaky_ops flaky_view
proof
  fix k :: string and s s' :: "'v flaky" and v :: 'v and r q
  show "kv_get flaky_ops k s = Inr e \<Longrightarrow> flaky_view s k = Some e" for e
    by (simp add: flaky_ops_def flaky_view_def mem_get_def split: option.splits)
  show "kv_get flaky_ops k s = Inl ErrKeyNotFound \<Longrightarrow> flaky_view s k = None"
    by (simp add: flaky_ops_def flaky_view_def mem_get_def split: option.splits)
  show "kv_create flaky_ops k v s = (Inr r, s') \<Longrightarrow>
      flaky_view s k = None \<and> fresh_rev (flaky_view s) r \<and> flaky_view s' = (flaky_view s)(k \<mapsto> (v, r))"
    by (auto simp: flaky_ops_def flaky_view_def mem_create_def next_seq_fresh
        dest!: flaky_write_cases mem_write_ok split: option.splits)
  show "kv_create flaky_ops k v s = (Inl e, s') \<Longrightarrow>
      flaky_view s' = flaky_view s \<or>
      (e = ErrUnavailable \<and> flaky_view s k = None \<and> written (flaky_view s) k v (flaky_view s'))" for e
    by (auto simp: flaky_ops_def flaky_view_def mem_create_def written_def
        dest!: flaky_write_cases mem_write_ok split: option.splits intro!: next_seq_fresh)
  show "kv_update flaky_ops k v q s = (Inr r, s') \<Longrightarrow>
      (\<exists>u. flaky_view s k = Some (u, q)) \<and> fresh_rev (flaky_view s) r \<and> flaky_view s' = (flaky_view s)(k \<mapsto> (v, r))"
    by (auto simp: flaky_ops_def flaky_view_def mem_update_def next_seq_fresh
        dest!: flaky_write_cases mem_write_ok split: option.splits prod.splits if_splits)
  show "kv_update flaky_ops k v q s = (Inl e, s') \<Longrightarrow>
      flaky_view s' = flaky_view s \<or>
      (e = ErrUnavailable \<and> (\<exists>u. flaky_view s k = Some (u, q)) \<and> written (flaky_view s) k v (flaky_view s'))" for e
    by (auto simp: flaky_ops_def flaky_view_def mem_update_def written_def
        dest!: flaky_write_cases mem_write_ok split: option.splits prod.splits if_splits
        intro!: next_seq_fresh)
  show "kv_put flaky_ops k v s = (Inr r, s') \<Longrightarrow>
      fresh_rev (flaky_view s) r \<and> flaky_view s' = (flaky_view s)(k \<mapsto> (v, r))"
    by (auto simp: flaky_ops_def flaky_view_def next_seq_fresh dest!: flaky_write_cases mem_write_ok)
  show "kv_put flaky_ops k v s = (Inl e, s') \<Longrightarrow>
      flaky_view s' = flaky_view s \<or> (e = ErrUnavailable \<and> written (flaky_view s) k v (flaky_view s'))" for e
    by (auto simp: flaky_ops_def flaky_view_def written_def dest!: flaky_write_cases mem_write_ok
        intro!: next_seq_fresh)
  show "kv_purge flaky_ops k s = (None, s') \<Longrightarrow> flaky_view s' = (flaky_view s)(k := None)"
    by (auto simp: flaky_ops_def dest!: flaky_purge_cases)
  show "kv_purge flaky_ops k s = (Some e, s') \<Longrightarrow>
      flaky_view s' = flaky_view s \<or> (e = ErrUnavailable \<and> flaky_view s' = (flaky_view s)(k := None))" for e
    by (auto simp: flaky_ops_def dest!: flaky_purge_cases)
  show "kv_purge flaky_ops k s = (Some ErrKeyNotFound, s') \<Longrightarrow> flaky_view s k = None"
    by (auto simp: flaky_ops_def dest!: flaky_purge_cases)
  show "kv_keys flaky_ops s = Inr ks \<Longrightarrow> distinct ks \<and> set ks = dom (flaky_view s)" for ks
    using mem.keys_ok [of "fst s" ks] by (simp add: flaky_ops_def flaky_view_def mem_ops_def)
  show "kv_keys flaky_ops s = Inl ErrNoKeysFound \<Longrightarrow> flaky_view s = Map.empty"
    using mem.keys_none [of "fst s"] by (simp add: flaky_ops_def flaky_view_def mem_ops_def)
qed

end
