(* ===== verification/Protocol.thy ===== *)
theory Protocol
  imports Prelude
begin

text \<open>
  The event envelope (\<open>core/eventbus/eventbus.go\<close>), the protobuf messages that travel as its
  payload (\<open>protocol/proto/agentosprotocol/v1\<close>), and the services of the process environment:
  UUID generation, the clock, the acceptance of a publication by the event bus, of a stream by
  JetStream, of a subscription and of a message by the federation transport, the texts of the \<open>%q\<close>
  verb and of a \<open>Duration\<close> (\<open>sv_quote\<close>, \<open>sv_duration\<close>), and the protobuf codec. All of these
  are parameters (\<open>services\<close>); a payload is a value of an arbitrary type \<open>'b\<close> of byte strings
  that only the codec looks into. The \<open>world\<close> threads the number of calls made so far, so each
  answer may differ, together with everything published.
\<close>

section \<open>The event envelope\<close>

type_synonym labels = "string \<rightharpoonup> string"

record 'b event =
  ev_ID :: string
  ev_Type :: string
  ev_SourceNode :: string
  ev_SourceAgent :: string
  ev_TargetAgent :: string
  ev_WorkflowID :: string
  ev_CorrelationID :: string
  ev_Timestamp :: int
  ev_Metadata :: labels
  ev_Payload :: 'b

text \<open>An event literal in which only the fields that follow are set.\<close>

definition zero_event :: "'b \<Rightarrow> 'b event" where
  "zero_event data = \<lparr>ev_ID = [], ev_Type = [], ev_SourceNode = [], ev_SourceAgent = [],
     ev_TargetAgent = [], ev_WorkflowID = [], ev_CorrelationID = [], ev_Timestamp = 0,
     ev_Metadata = Map.empty, ev_Payload = data\<rparr>"

section \<open>Protobuf messages\<close>

record pb_Capability =
  pc_name :: string
  pc_version :: string
  pc_description :: string
  pc_parameters :: labels
  pc_category :: string
  pc_action :: string
  pc_input_types :: "string list"
  pc_output_types :: "string list"

record AgentRegisterPayload =
  arp_agent_id :: string
  arp_agent_type :: string
  arp_version :: string
  arp_capabilities :: "pb_Capability list"
  arp_labels :: labels

record AgentUnregisterPayload =
  aup_agent_id :: string
  aup_reason :: string

record AgentErrorPayload =
  aep_agent_id :: string
  aep_error_code :: string
  aep_message :: string
  aep_stack_trace :: string
  aep_workflow_id :: string

record HealthPingPayload =
  hpi_agent_id :: string
  hpi_sequence :: int

record HealthPongPayload =
  hpo_agent_id :: string
  hpo_sequence :: int
  hpo_status :: int

record CapabilityAnnouncePayload =
  cap_ann_agent_id :: string
  cap_ann_capabilities :: "pb_Capability list"

record DiscoveryRequestPayload =
  drq_capability_name :: string
  drq_version_constraint :: string

record AgentCapabilityMatch =
  acm_agent_id :: string
  acm_agent_type :: string
  acm_capabilities :: "pb_Capability list"
  acm_source_node :: string

record pb_WorkflowError =
  pwe_code :: string
  pwe_message :: string
  pwe_step_index :: "32 word"
  pwe_agent_id :: string

record 'b pb_StepDefinition =
  psd_name :: string
  psd_capability :: string
  psd_timeout_seconds :: "32 word"
  psd_input :: 'b
  psd_human_approval :: bool
  psd_prompt :: string
  psd_resource_ids :: "string list"

record 'b pb_WorkflowDefinition =
  pwd_name :: string
  pwd_steps :: "'b pb_StepDefinition list"
  pwd_initiator :: string

record 'b pb_StepResult =
  psr_step_index :: "32 word"
  psr_agent_id :: string
  psr_status :: int
  psr_result :: 'b
  psr_error :: "pb_WorkflowError option"
  psr_completed_at :: int

record 'b WorkflowStepPayload =
  wsp_step_index :: "32 word"
  wsp_step :: "'b pb_StepDefinition option"
  wsp_workflow_id :: string
  wsp_previous_results :: "'b pb_StepResult list"
  wsp_input :: 'b

record 'b WorkflowStepResultPayload =
  wsr_step_index :: "32 word"
  wsr_status :: int
  wsr_result :: 'b
  wsr_error :: "pb_WorkflowError option"

record 'b WorkflowCompletePayload =
  wcp_workflow_id :: string
  wcp_results :: "'b pb_StepResult list"
  wcp_started_at :: int
  wcp_completed_at :: int

record WorkflowFailedPayload =
  wfp_workflow_id :: string
  wfp_error :: "pb_WorkflowError option"
  wfp_failed_step :: "32 word"
  wfp_started_at :: int
  wfp_failed_at :: int

record 'b WorkflowStateResponsePayload =
  wst_workflow_id :: string
  wst_status :: int
  wst_definition :: "'b pb_WorkflowDefinition option"
  wst_current_step :: "32 word"
  wst_step_results :: "'b pb_StepResult list"
  wst_assigned_agent :: string
  wst_error :: "pb_WorkflowError option"
  wst_created_at :: int
  wst_updated_at :: int

text \<open>Protobuf enums are open: a decoded value may be outside the declared ones.\<close>

datatype DecisionAction = ActionUnspecified | ActionApprove | ActionReject | ActionOther int

record 'b HumanDecisionRequestPayload =
  hdq_decision_id :: string
  hdq_workflow_id :: string
  hdq_step_index :: "32 word"
  hdq_step_name :: string
  hdq_prompt :: string
  hdq_input :: "'b option"
  hdq_previous_results :: "'b pb_StepResult list"
  hdq_resource_ids :: "string list"
  hdq_conflict_ids :: "string list"

record HumanDecisionResponsePayload =
  hdr_decision_id :: string
  hdr_workflow_id :: string
  hdr_action :: DecisionAction
  hdr_operator_id :: string
  hdr_comment :: string
  hdr_responded_at :: int

record DecisionConflictPayload =
  dcp_conflict_group_id :: string
  dcp_decision_ids :: "string list"
  dcp_workflow_ids :: "string list"
  dcp_resource_ids :: "string list"
  dcp_detected_at :: int

record DecisionResolvedPayload =
  drp_decision_id :: string
  drp_workflow_id :: string
  drp_action :: DecisionAction
  drp_conflict_group_id :: string
  drp_related_decision_ids :: "string list"
  drp_resolved_at :: int

record NodeRegisterPayload =
  nrp_node_id :: string
  nrp_address :: string
  nrp_version :: string
  nrp_joined_at :: int
  nrp_capabilities_count :: int

record NodeUnregisterPayload =
  nup_node_id :: string
  nup_reason :: string

record NodeHealthPingPayload =
  nhp_node_id :: string
  nhp_sequence :: int

record NodeHealthPongPayload =
  nho_node_id :: string
  nho_sequence :: int
  nho_status :: int
  nho_agent_count :: int
  nho_workflow_count :: int

record FederationCapabilityPayload =
  fcp_node_id :: string
  fcp_agent_id :: string
  fcp_agent_type :: string
  fcp_capabilities :: "pb_Capability list"

record FederationCapabilityRemovePayload =
  fcr_node_id :: string
  fcr_agent_id :: string
  fcr_reason :: string

record 'b FederationRelayPayload =
  frp_source_node_id :: string
  frp_target_node_id :: string
  frp_original_event :: 'b
  frp_relay_id :: string
  frp_relay_timestamp :: int

text \<open>Every message the runtime encodes.\<close>

datatype 'b message =
    MAgentError AgentErrorPayload
  | MHealthPing HealthPingPayload
  | MHealthPong HealthPongPayload
  | MAgentRegister AgentRegisterPayload
  | MAgentUnregister AgentUnregisterPayload
  | MCapabilityAnnounce CapabilityAnnouncePayload
  | MDiscoveryResponse "AgentCapabilityMatch list"
  | MWorkflowStep "'b WorkflowStepPayload"
  | MWorkflowStepResult "'b WorkflowStepResultPayload"
  | MWorkflowComplete "'b WorkflowCompletePayload"
  | MWorkflowFailed WorkflowFailedPayload
  | MWorkflowState "'b WorkflowStateResponsePayload"
  | MDecisionRequest "'b HumanDecisionRequestPayload"
  | MDecisionResponse HumanDecisionResponsePayload
  | MDecisionConflict DecisionConflictPayload
  | MDecisionResolved DecisionResolvedPayload
  | MNodeRegister NodeRegisterPayload
  | MNodeUnregister NodeUnregisterPayload
  | MNodePing NodeHealthPingPayload
  | MNodePong NodeHealthPongPayload
  | MFederationCapability FederationCapabilityPayload
  | MFederationCapabilityRemove FederationCapabilityRemovePayload
  | MAgentEvent "'b event"
  | MFederationRelay "'b FederationRelayPayload"

section \<open>Services of the environment\<close>

record 'b services =
  sv_uuid :: "nat \<Rightarrow> string"
  sv_now :: "nat \<Rightarrow> int"
  sv_bus :: "nat \<Rightarrow> 'b event \<Rightarrow> bool"
  sv_stream :: "nat \<Rightarrow> string \<Rightarrow> bool"
  sv_wire :: "nat \<Rightarrow> string \<Rightarrow> bool"
  sv_subscribe :: "nat \<Rightarrow> string \<Rightarrow> bool"
  sv_quote :: "string \<Rightarrow> string"
  sv_duration :: "int \<Rightarrow> string"
  sv_nil :: 'b
  sv_decerr :: "'b \<Rightarrow> string"
  sv_marshal :: "'b message \<Rightarrow> 'b option"
  sv_dec_register :: "'b \<Rightarrow> AgentRegisterPayload option"
  sv_dec_unregister :: "'b \<Rightarrow> AgentUnregisterPayload option"
  sv_dec_error :: "'b \<Rightarrow> AgentErrorPayload option"
  sv_dec_ping :: "'b \<Rightarrow> HealthPingPayload option"
  sv_dec_pong :: "'b \<Rightarrow> HealthPongPayload option"
  sv_dec_announce :: "'b \<Rightarrow> CapabilityAnnouncePayload option"
  sv_dec_discovery :: "'b \<Rightarrow> DiscoveryRequestPayload option"
  sv_dec_start :: "'b \<Rightarrow> 'b pb_WorkflowDefinition option option"
  sv_dec_step :: "'b \<Rightarrow> 'b WorkflowStepPayload option"
  sv_dec_step_result :: "'b \<Rightarrow> 'b WorkflowStepResultPayload option"
  sv_dec_state_request :: "'b \<Rightarrow> string option"
  sv_dec_decision :: "'b \<Rightarrow> HumanDecisionResponsePayload option"
  sv_dec_node_register :: "'b \<Rightarrow> NodeRegisterPayload option"
  sv_dec_node_unregister :: "'b \<Rightarrow> NodeUnregisterPayload option"
  sv_dec_node_ping :: "'b \<Rightarrow> NodeHealthPingPayload option"
  sv_dec_node_pong :: "'b \<Rightarrow> NodeHealthPongPayload option"
  sv_dec_fed_capability :: "'b \<Rightarrow> FederationCapabilityPayload option"
  sv_dec_fed_remove :: "'b \<Rightarrow> FederationCapabilityRemovePayload option"
  sv_dec_relay :: "'b \<Rightarrow> 'b FederationRelayPayload option"
  sv_dec_agent_event :: "'b \<Rightarrow> 'b event option"

text \<open>
  Counters of the calls made, the events the bus accepted in order (\<open>w_sent\<close>), and the messages
  the federation transport accepted (\<open>w_wire\<close>).
\<close>

record 'b world =
  w_uuids :: nat
  w_clock :: nat
  w_attempts :: nat
  w_sent :: "'b event list"
  w_wire :: "(string \<times> 'b) list"

definition empty_world :: "'b world" where
  "empty_world = \<lparr>w_uuids = 0, w_clock = 0, w_attempts = 0, w_sent = [], w_wire = []\<rparr>"

definition new_uuid :: "'b services \<Rightarrow> 'b world \<Rightarrow> string \<times> 'b world" where
  "new_uuid sv w = (sv_uuid sv (w_uuids w), w\<lparr>w_uuids := Suc (w_uuids w)\<rparr>)"

definition time_now :: "'b services \<Rightarrow> 'b world \<Rightarrow> int \<times> 'b world" where
  "time_now sv w = (sv_now sv (w_clock w), w\<lparr>w_clock := Suc (w_clock w)\<rparr>)"

definition bus_publish :: "'b services \<Rightarrow> 'b event \<Rightarrow> 'b world \<Rightarrow> bool \<times> 'b world" where
  "bus_publish sv e w =
     (let w' = w\<lparr>w_attempts := Suc (w_attempts w)\<rparr>
      in if sv_bus sv (w_attempts w) e then (True, w'\<lparr>w_sent := w_sent w @ [e]\<rparr>) else (False, w'))"

definition wire_publish :: "'b services \<Rightarrow> string \<Rightarrow> 'b \<Rightarrow> 'b world \<Rightarrow> bool \<times> 'b world" where
  "wire_publish sv subject data w =
     (let w' = w\<lparr>w_attempts := Suc (w_attempts w)\<rparr>
      in if sv_wire sv (w_attempts w) subject
         then (True, w'\<lparr>w_wire := w_wire w @ [(subject, data)]\<rparr>) else (False, w'))"

text \<open>
  Encoding a message and publishing it with a fresh ID and timestamp: the last lines of every
  \<open>publish...\<close> method. \<open>None\<close> is success.
\<close>

datatype publish_error = MarshalFailed | PublishFailed

definition emit :: "'b services \<Rightarrow> 'b message \<Rightarrow> ('b \<Rightarrow> 'b event) \<Rightarrow> 'b world \<Rightarrow>
    publish_error option \<times> 'b world" where
  "emit sv msg mk w = (case sv_marshal sv msg of
      None \<Rightarrow> (Some MarshalFailed, w)
    | Some data \<Rightarrow>
        (let (uid, w1) = new_uuid sv w; (ts, w2) = time_now sv w1;
             (ok, w3) = bus_publish sv ((mk data)\<lparr>ev_ID := uid, ev_Timestamp := ts\<rparr>) w2
         in (if ok then None else Some PublishFailed, w3)))"

text \<open>
  Services that accept every publication and decode nothing, the base of the closed examples.
\<close>

definition null_services :: "'b \<Rightarrow> 'b services" where
  "null_services nil = \<lparr>sv_uuid = (\<lambda>n. replicate (Suc n) CHR ''u''), sv_now = (\<lambda>n. int n),
     sv_bus = (\<lambda>_ _. True), sv_stream = (\<lambda>_ _. True), sv_wire = (\<lambda>_ _. True),
     sv_subscribe = (\<lambda>_ _. True), sv_quote = (\<lambda>s. s), sv_duration = (\<lambda>_. ''d''),
     sv_nil = nil, sv_decerr = (\<lambda>_. []), sv_marshal = (\<lambda>_. Some nil), sv_dec_register = (\<lambda>_. None),
     sv_dec_unregister = (\<lambda>_. None), sv_dec_error = (\<lambda>_. None), sv_dec_ping = (\<lambda>_. None), sv_dec_pong = (\<lambda>_. None),
     sv_dec_announce = (\<lambda>_. None), sv_dec_discovery = (\<lambda>_. None), sv_dec_start = (\<lambda>_. None),
     sv_dec_step = (\<lambda>_. None), sv_dec_step_result = (\<lambda>_. None), sv_dec_state_request = (\<lambda>_. None), sv_dec_decision = (\<lambda>_. None),
     sv_dec_node_register = (\<lambda>_. None), sv_dec_node_unregister = (\<lambda>_. None),
     sv_dec_node_ping = (\<lambda>_. None), sv_dec_node_pong = (\<lambda>_. None),
     sv_dec_fed_capability = (\<lambda>_. None), sv_dec_fed_remove = (\<lambda>_. None),
     sv_dec_relay = (\<lambda>_. None), sv_dec_agent_event = (\<lambda>_. None)\<rparr>"

section \<open>What a step of the runtime may do to the world\<close>

text \<open>Publications are only ever appended.\<close>

definition extends :: "'b world \<Rightarrow> 'b world \<Rightarrow> bool" where
  "extends w w' \<longleftrightarrow> (\<exists>es. w_sent w' = w_sent w @ es) \<and> (\<exists>ms. w_wire w' = w_wire w @ ms)"

lemma extends_refl [simp, intro]: "extends w w"
  by (auto simp: extends_def)

lemma extends_trans [trans]: "extends w w' \<Longrightarrow> extends w' w'' \<Longrightarrow> extends w w''"
  by (auto simp: extends_def)

lemma new_uuid_sent [simp]: "w_sent (snd (new_uuid sv w)) = w_sent w"
  "w_wire (snd (new_uuid sv w)) = w_wire w"
  by (simp_all add: new_uuid_def)

lemma time_now_sent [simp]: "w_sent (snd (time_now sv w)) = w_sent w"
  "w_wire (snd (time_now sv w)) = w_wire w"
  by (simp_all add: time_now_def)

lemma bus_publish_True:
  "bus_publish sv e w = (True, w') \<Longrightarrow> w_sent w' = w_sent w @ [e] \<and> w_wire w' = w_wire w"
  by (auto simp: bus_publish_def Let_def split: if_splits)

lemma bus_publish_False:
  "bus_publish sv e w = (False, w') \<Longrightarrow> w_sent w' = w_sent w \<and> w_wire w' = w_wire w"
  by (auto simp: bus_publish_def Let_def split: if_splits)

lemma wire_publish_True:
  "wire_publish sv t d w = (True, w') \<Longrightarrow> w_wire w' = w_wire w @ [(t, d)] \<and> w_sent w' = w_sent w"
  by (auto simp: wire_publish_def Let_def split: if_splits)

lemma wire_publish_False:
  "wire_publish sv t d w = (False, w') \<Longrightarrow> w_wire w' = w_wire w \<and> w_sent w' = w_sent w"
  by (auto simp: wire_publish_def Let_def split: if_splits)

lemma bus_publish_extends: "bus_publish sv e w = (ok, w') \<Longrightarrow> extends w w'"
  by (cases ok) (auto simp: extends_def dest: bus_publish_True bus_publish_False)

lemma wire_publish_extends: "wire_publish sv t d w = (ok, w') \<Longrightarrow> extends w w'"
  by (cases ok) (auto simp: extends_def dest: wire_publish_True wire_publish_False)

text \<open>\<open>emit\<close> either appends exactly one event carrying the encoded message, or nothing.\<close>

lemma emit_None:
  assumes "emit sv msg mk w = (None, w')"
  obtains data uid ts where "sv_marshal sv msg = Some data"
    and "w_sent w' = w_sent w @ [(mk data)\<lparr>ev_ID := uid, ev_Timestamp := ts\<rparr>]"
    and "w_wire w' = w_wire w"
  using assms
  by (auto simp: emit_def new_uuid_def time_now_def Let_def
      split: option.splits prod.splits if_splits dest!: bus_publish_True)

lemma emit_Some:
  "emit sv msg mk w = (Some e, w') \<Longrightarrow> w_sent w' = w_sent w \<and> w_wire w' = w_wire w"
  by (auto simp: emit_def new_uuid_def time_now_def Let_def
      split: option.splits prod.splits if_splits dest!: bus_publish_False)

lemma emit_extends: "emit sv msg mk w = (res, w') \<Longrightarrow> extends w w'"
proof (cases res)
  case None
  moreover assume "emit sv msg mk w = (res, w')"
  ultimately have "emit sv msg mk w = (None, w')" by simp
  then show ?thesis by (rule emit_None) (auto simp: extends_def)
next
  case (Some e)
  moreover assume "emit sv msg mk w = (res, w')"
  ultimately show ?thesis by (auto simp: extends_def dest: emit_Some)
qed

end
