(* ===== verification/Taxonomy.thy ===== *)
theory Taxonomy
  imports Prelude
begin

text \<open>
  The capability taxonomy (\<open>core/taxonomy\<close>): the standard catalog with its 48 entries in 8
  reserved categories, exact lookup, glob queries through \<open>path.Match\<close>, validation of a
  capability name as standard or vendor, and the automatic completion of a standard capability.
  The lemmas show that the catalog data is consistent, what exactly \<open>Validate\<close> accepts, and that
  \<open>AutoMap\<close> completes standard capabilities, is idempotent and leaves vendor ones alone.
\<close>

section \<open>Types\<close>

record TaxonomyCategory =
  tc_Name :: string
  tc_Description :: string

record TaxonomyEntry =
  te_Name :: string
  te_Category :: string
  te_Action :: string
  te_Description :: string
  te_InputTypes :: "string list"
  te_OutputTypes :: "string list"
  te_CatalogVersion :: string

record tax_Capability =
  tx_Name :: string
  tx_Version :: string
  tx_Description :: string
  tx_Parameters :: "string \<rightharpoonup> string"
  tx_Category :: string
  tx_Action :: string
  tx_InputTypes :: "string list"
  tx_OutputTypes :: "string list"

record standardCatalog =
  sc_entries :: "string \<rightharpoonup> TaxonomyEntry"
  sc_categories :: "string \<rightharpoonup> TaxonomyCategory"

datatype taxonomy_error = InvalidName string | ReservedCategory string

section \<open>Catalog data\<close>

definition catalogVersion :: string where
  "catalogVersion = ''v1.0''"

definition std :: "string \<Rightarrow> string \<Rightarrow> string \<Rightarrow> string \<Rightarrow> string list \<Rightarrow> string list \<Rightarrow> TaxonomyEntry" where
  "std n c a d ins outs = \<lparr>te_Name = n, te_Category = c, te_Action = a, te_Description = d,
     te_InputTypes = ins, te_OutputTypes = outs, te_CatalogVersion = ''v1.0''\<rparr>"

definition standardEntries :: "TaxonomyEntry list" where
  "standardEntries = [
     std ''nlp.summarization'' ''nlp'' ''summarization'' ''Summarize text content'' [''text/plain'', ''application/json''] [''text/plain''],
     std ''nlp.translation'' ''nlp'' ''translation'' ''Translate between languages'' [''text/plain''] [''text/plain''],
     std ''nlp.sentiment'' ''nlp'' ''sentiment'' ''Analyze text sentiment'' [''text/plain''] [''application/json''],
     std ''nlp.extraction'' ''nlp'' ''extraction'' ''Extract entities from text'' [''text/plain''] [''application/json''],
     std ''nlp.classification'' ''nlp'' ''classification'' ''Classify text into categories'' [''text/plain''] [''application/json''],
     std ''nlp.generation'' ''nlp'' ''generation'' ''Generate text from prompts'' [''text/plain'', ''application/json''] [''text/plain''],
     std ''nlp.embedding'' ''nlp'' ''embedding'' ''Generate vector embeddings'' [''text/plain''] [''application/json''],
     std ''nlp.qa'' ''nlp'' ''qa'' ''Answer questions from context'' [''application/json''] [''application/json''],
     std ''code.generation'' ''code'' ''generation'' ''Generate source code'' [''text/plain'', ''application/json''] [''text/plain''],
     std ''code.review'' ''code'' ''review'' ''Review code for issues'' [''text/plain''] [''application/json''],
     std ''code.refactoring'' ''code'' ''refactoring'' ''Refactor existing code'' [''text/plain''] [''text/plain''],
     std ''code.testing'' ''code'' ''testing'' ''Generate test cases'' [''text/plain''] [''text/plain''],
     std ''code.documentation'' ''code'' ''documentation'' ''Generate documentation'' [''text/plain''] [''text/plain''],
     std ''code.completion'' ''code'' ''completion'' ''Complete partial code'' [''text/plain''] [''text/plain''],
     std ''code.analysis'' ''code'' ''analysis'' ''Static analysis and metrics'' [''text/plain''] [''application/json''],
     std ''vision.ocr'' ''vision'' ''ocr'' ''Extract text from images'' [''image/png'', ''image/jpeg''] [''text/plain''],
     std ''vision.classification'' ''vision'' ''classification'' ''Classify images'' [''image/png'', ''image/jpeg''] [''application/json''],
     std ''vision.detection'' ''vision'' ''detection'' ''Detect objects in images'' [''image/png'', ''image/jpeg''] [''application/json''],
     std ''vision.segmentation'' ''vision'' ''segmentation'' ''Segment image regions'' [''image/png'', ''image/jpeg''] [''application/json''],
     std ''vision.generation'' ''vision'' ''generation'' ''Generate images from prompts'' [''text/plain''] [''image/png''],
     std ''vision.captioning'' ''vision'' ''captioning'' ''Generate image captions'' [''image/png'', ''image/jpeg''] [''text/plain''],
     std ''data.extraction'' ''data'' ''extraction'' ''Extract structured data from sources'' [''application/json'', ''text/plain''] [''application/json''],
     std ''data.transformation'' ''data'' ''transformation'' ''Transform data between formats'' [''application/json''] [''application/json''],
     std ''data.validation'' ''data'' ''validation'' ''Validate data against rules'' [''application/json''] [''application/json''],
     std ''data.enrichment'' ''data'' ''enrichment'' ''Enrich data with external sources'' [''application/json''] [''application/json''],
     std ''data.aggregation'' ''data'' ''aggregation'' ''Aggregate and summarize datasets'' [''application/json''] [''application/json''],
     std ''data.search'' ''data'' ''search'' ''Search across data sources'' [''application/json''] [''application/json''],
     std ''decision.approval'' ''decision'' ''approval'' ''Request human or automated approval'' [''application/json''] [''application/json''],
     std ''decision.routing'' ''decision'' ''routing'' ''Route requests to appropriate handler'' [''application/json''] [''application/json''],
     std ''decision.classification'' ''decision'' ''classification'' ''Classify inputs for decision paths'' [''application/json''] [''application/json''],
     std ''decision.scoring'' ''decision'' ''scoring'' ''Score items against criteria'' [''application/json''] [''application/json''],
     std ''decision.recommendation'' ''decision'' ''recommendation'' ''Generate recommendations'' [''application/json''] [''application/json''],
     std ''decision.escalation'' ''decision'' ''escalation'' ''Escalate to higher authority'' [''application/json''] [''application/json''],
     std ''communication.notification'' ''communication'' ''notification'' ''Send notifications'' [''application/json''] [''application/json''],
     std ''communication.email'' ''communication'' ''email'' ''Send and manage email'' [''application/json''] [''application/json''],
     std ''communication.messaging'' ''communication'' ''messaging'' ''Send messages via channels'' [''application/json''] [''application/json''],
     std ''communication.scheduling'' ''communication'' ''scheduling'' ''Schedule meetings and events'' [''application/json''] [''application/json''],
     std ''communication.translation'' ''communication'' ''translation'' ''Translate communications'' [''text/plain''] [''text/plain''],
     std ''orchestration.workflow'' ''orchestration'' ''workflow'' ''Manage sub-workflows'' [''application/json''] [''application/json''],
     std ''orchestration.delegation'' ''orchestration'' ''delegation'' ''Delegate tasks to other agents'' [''application/json''] [''application/json''],
     std ''orchestration.monitoring'' ''orchestration'' ''monitoring'' ''Monitor agent and system status'' [''application/json''] [''application/json''],
     std ''orchestration.retry'' ''orchestration'' ''retry'' ''Retry failed operations'' [''application/json''] [''application/json''],
     std ''orchestration.aggregation'' ''orchestration'' ''aggregation'' ''Aggregate results from multiple agents'' [''application/json''] [''application/json''],
     std ''security.scanning'' ''security'' ''scanning'' ''Scan for vulnerabilities'' [''text/plain'', ''application/json''] [''application/json''],
     std ''security.validation'' ''security'' ''validation'' ''Validate credentials and tokens'' [''application/json''] [''application/json''],
     std ''security.audit'' ''security'' ''audit'' ''Audit trail and compliance'' [''application/json''] [''application/json''],
     std ''security.encryption'' ''security'' ''encryption'' ''Encrypt and decrypt data'' [''application/octet-stream''] [''application/octet-stream''],
     std ''security.authentication'' ''security'' ''authentication'' ''Authenticate users and agents'' [''application/json''] [''application/json'']]"

definition standardCategories :: "TaxonomyCategory list" where
  "standardCategories = [
     \<lparr>tc_Name = ''nlp'', tc_Description = ''Natural language processing and understanding''\<rparr>,
     \<lparr>tc_Name = ''code'', tc_Description = ''Source code analysis, generation, and transformation''\<rparr>,
     \<lparr>tc_Name = ''vision'', tc_Description = ''Image and visual content processing''\<rparr>,
     \<lparr>tc_Name = ''data'', tc_Description = ''Data extraction, transformation, and management''\<rparr>,
     \<lparr>tc_Name = ''decision'', tc_Description = ''Decision support, approval, and routing''\<rparr>,
     \<lparr>tc_Name = ''communication'', tc_Description = ''Messaging, notification, and scheduling''\<rparr>,
     \<lparr>tc_Name = ''orchestration'', tc_Description = ''Workflow coordination and monitoring''\<rparr>,
     \<lparr>tc_Name = ''security'', tc_Description = ''Security scanning, validation, and audit''\<rparr>]"

section \<open>\<open>path.Match\<close>\<close>

text \<open>
  The glob grammar of the standard library's \<open>path.Match\<close> on byte strings: \<open>*\<close> and \<open>?\<close> do not
  match a slash, a class is a non-empty list of (possibly escaped) ranges, and a malformed
  pattern is an error, here \<open>None\<close>.
\<close>

datatype glob_item = GStar | GAny | GChar char | GClass bool "(char \<times> char) list"

fun getEsc :: "string \<Rightarrow> (char \<times> string) option" where
  "getEsc [] = None"
| "getEsc (c # cs) =
     (if c = CHR ''-'' \<or> c = CHR '']'' then None
      else if c = CHR 0x5C then (case cs of d # (e # r) \<Rightarrow> Some (d, e # r) | _ \<Rightarrow> None)
      else if cs = [] then None else Some (c, cs))"

lemma getEsc_shorter: "getEsc s = Some (c, r) \<Longrightarrow> length r < length s"
  by (cases s) (auto split: if_splits list.splits)

function parseClass :: "string \<Rightarrow> (char \<times> char) list \<Rightarrow> ((char \<times> char) list \<times> string) option" where
  "parseClass s acc =
     (if s \<noteq> [] \<and> hd s = CHR '']'' \<and> acc \<noteq> [] then Some (rev acc, tl s)
      else case getEsc s of
          None \<Rightarrow> None
        | Some (lo, r) \<Rightarrow>
            (if r \<noteq> [] \<and> hd r = CHR ''-'' then
               (case getEsc (tl r) of
                  None \<Rightarrow> None
                | Some (hi, r') \<Rightarrow> parseClass r' ((lo, hi) # acc))
             else parseClass r ((lo, lo) # acc)))"
  by pat_completeness auto
termination
proof (relation "measure (\<lambda>(s, acc). length s)", goal_cases)
  case (2 s acc x lo r y hi r')
  then have "length r < length s" "length r' < length (tl r)" by (auto dest: getEsc_shorter)
  then show ?case by simp
next
  case (3 s acc x lo r)
  then show ?case by (auto dest: getEsc_shorter)
qed simp

declare parseClass.simps [simp del]

lemma parseClass_shorter: "parseClass s acc = Some (rs, r) \<Longrightarrow> length r < length s \<or> r = [] \<and> s = []"
proof (induction s acc rule: parseClass.induct)
  case (1 s acc)
  show ?case
  proof (cases "s \<noteq> [] \<and> hd s = CHR '']'' \<and> acc \<noteq> []")
    case True
    then have "parseClass s acc = Some (rev acc, tl s)" by (simp add: parseClass.simps [of s acc])
    then show ?thesis using "1.prems" True by (cases s) auto
  next
    case False
    note top = False
    obtain lo u where g: "getEsc s = Some (lo, u)"
      using "1.prems" False by (auto simp: parseClass.simps [of s] split: option.splits)
    then have u: "length u < length s" by (rule getEsc_shorter)
    show ?thesis
    proof (cases "u \<noteq> [] \<and> hd u = CHR ''-''")
      case True
      then obtain hi r' where h: "getEsc (tl u) = Some (hi, r')"
        and p: "parseClass r' ((lo, hi) # acc) = Some (rs, r)"
        using "1.prems" g top by (auto simp: parseClass.simps [of s] split: option.splits)
      from "1.IH"(1) [OF top g _ True h _ p] u getEsc_shorter [OF h] show ?thesis by fastforce
    next
      case False
      then have p: "parseClass u ((lo, lo) # acc) = Some (rs, r)"
        using "1.prems" g top by (auto simp: parseClass.simps [of s] split: option.splits)
      from "1.IH"(2) [OF top g _ False p] u show ?thesis by fastforce
    qed
  qed
qed

function parseGlob :: "string \<Rightarrow> glob_item list option" where
  "parseGlob [] = Some []"
| "parseGlob (c # cs) =
     (if c = CHR ''*'' then map_option (Cons GStar) (parseGlob cs)
      else if c = CHR ''?'' then map_option (Cons GAny) (parseGlob cs)
      else if c = CHR 0x5C then
        (case cs of [] \<Rightarrow> None | d # r \<Rightarrow> map_option (Cons (GChar d)) (parseGlob r))
      else if c = CHR ''['' then
        (let neg = (cs \<noteq> [] \<and> hd cs = CHR ''^''); body = (if neg then tl cs else cs)
         in case parseClass body [] of
              None \<Rightarrow> None
            | Some (rs, r) \<Rightarrow> map_option (Cons (GClass neg rs)) (parseGlob r))
      else map_option (Cons (GChar c)) (parseGlob cs))"
  by pat_completeness auto
termination
proof (relation "measure length", goal_cases)
  case (5 c cs neg body x rs r)
  have "length r \<le> length body" using parseClass_shorter [of body "[]" rs r] 5 by auto
  moreover have "length body \<le> length cs" using 5 by auto
  ultimately show ?case by simp
qed auto

fun matchItems :: "glob_item list \<Rightarrow> string \<Rightarrow> bool" where
  "matchItems [] s = (s = [])"
| "matchItems (GStar # ps) [] = matchItems ps []"
| "matchItems (GStar # ps) (x # xs) =
     (matchItems ps (x # xs) \<or> (x \<noteq> CHR ''/'' \<and> matchItems (GStar # ps) xs))"
| "matchItems (_ # ps) [] = False"
| "matchItems (GAny # ps) (x # xs) = (x \<noteq> CHR ''/'' \<and> matchItems ps xs)"
| "matchItems (GChar c # ps) (x # xs) = (x = c \<and> matchItems ps xs)"
| "matchItems (GClass neg rs # ps) (x # xs) =
     (list_ex (\<lambda>(lo, hi). lo \<le> x \<and> x \<le> hi) rs \<noteq> neg \<and> matchItems ps xs)"

definition path_Match :: "string \<Rightarrow> string \<Rightarrow> bool option" where
  "path_Match pattern name = map_option (\<lambda>ps. matchItems ps name) (parseGlob pattern)"

section \<open>Operations of the catalog\<close>

definition NewStandardCatalog :: standardCatalog where
  "NewStandardCatalog = \<lparr>
     sc_entries = fold (\<lambda>e m. m(te_Name e \<mapsto> e)) standardEntries Map.empty,
     sc_categories = fold (\<lambda>c m. m(tc_Name c \<mapsto> c)) standardCategories Map.empty\<rparr>"

definition Lookup :: "standardCatalog \<Rightarrow> string \<Rightarrow> TaxonomyEntry option" where
  "Lookup c name = sc_entries c name"

definition Query :: "standardCatalog \<Rightarrow> string \<Rightarrow> TaxonomyEntry list" where
  "Query c pattern = filter (\<lambda>e. path_Match pattern (te_Name e) = Some True) standardEntries"

definition Categories :: "standardCatalog \<Rightarrow> TaxonomyCategory list" where
  "Categories c = standardCategories"

definition IsStandardCategory :: "standardCatalog \<Rightarrow> string \<Rightarrow> bool" where
  "IsStandardCategory c name \<longleftrightarrow> sc_categories c name \<noteq> None"

definition Validate :: "standardCatalog \<Rightarrow> string \<Rightarrow> taxonomy_error option" where
  "Validate c capabilityName =
     (if sc_entries c capabilityName \<noteq> None then None
      else let parts = Split CHR ''.'' capabilityName in
        if length parts < 2 then Some (InvalidName capabilityName)
        else if IsStandardCategory c (hd parts) then Some (ReservedCategory (hd parts))
        else None)"

definition AutoMap :: "standardCatalog \<Rightarrow> tax_Capability \<Rightarrow> tax_Capability" where
  "AutoMap c cap = (case sc_entries c (tx_Name cap) of
      None \<Rightarrow> cap
    | Some entry \<Rightarrow> cap\<lparr>
        tx_Category := te_Category entry,
        tx_Action := te_Action entry,
        tx_InputTypes := (if tx_InputTypes cap = [] then te_InputTypes entry else tx_InputTypes cap),
        tx_OutputTypes := (if tx_OutputTypes cap = [] then te_OutputTypes entry else tx_OutputTypes cap)\<rparr>)"

text \<open>\<open>core/taxonomy/validator.go\<close>: the thin wrapper the registry layer uses.\<close>

definition IsVendor :: "standardCatalog \<Rightarrow> string \<Rightarrow> bool" where
  "IsVendor c capabilityName \<longleftrightarrow> Lookup c capabilityName = None \<and> Validate c capabilityName = None"

section \<open>The data is consistent\<close>

lemmas tax_defs = std_def standardEntries_def standardCategories_def

lemma length_standardEntries: "length standardEntries = 48"
  by (simp add: standardEntries_def)

lemma distinct_standard_names: "distinct (map te_Name standardEntries)"
  by (simp add: tax_defs)

lemma standard_names_split:
  "list_all (\<lambda>e. te_Name e = te_Category e @ ''.'' @ te_Action e \<and> CHR ''.'' \<notin> set (te_Category e))
     standardEntries"
  by (simp add: tax_defs)

lemma standard_categories_known:
  "list_all (\<lambda>e. te_Category e \<in> set (map tc_Name standardCategories)) standardEntries"
  by (simp add: tax_defs)

lemma standard_types_nonempty:
  "list_all (\<lambda>e. te_InputTypes e \<noteq> [] \<and> te_OutputTypes e \<noteq> []) standardEntries"
  by (simp add: tax_defs)

section \<open>Lookup in the standard catalog\<close>

lemma fold_upd_map_of:
  "distinct (map f xs) \<Longrightarrow>
     fold (\<lambda>e m. m(f e \<mapsto> e)) xs m0 k = (case map_of (map (\<lambda>e. (f e, e)) xs) k of
        None \<Rightarrow> m0 k | Some e \<Rightarrow> Some e)"
proof (induction xs arbitrary: m0)
  case (Cons x xs)
  have "f x \<notin> dom (map_of (map (\<lambda>e. (f e, e)) xs))"
    using Cons.prems by (auto dest!: map_of_SomeD)
  then show ?case using Cons by (auto split: option.splits)
qed simp

lemma distinct_standard_categories: "distinct (map tc_Name standardCategories)"
  by (simp add: tax_defs)

lemma Lookup_standard:
  "Lookup NewStandardCatalog n = map_of (map (\<lambda>e. (te_Name e, e)) standardEntries) n"
  by (simp add: Lookup_def NewStandardCatalog_def fold_upd_map_of [OF distinct_standard_names]
      split: option.splits)

lemma Lookup_Some_iff:
  "Lookup NewStandardCatalog n = Some e \<longleftrightarrow> e \<in> set standardEntries \<and> te_Name e = n"
proof -
  have "distinct (map fst (map (\<lambda>e. (te_Name e, e)) standardEntries))"
    by (simp add: o_def distinct_standard_names)
  then show ?thesis by (auto simp: Lookup_standard map_of_eq_Some_iff)
qed

lemma IsStandardCategory_iff:
  "IsStandardCategory NewStandardCatalog n \<longleftrightarrow> n \<in> set (map tc_Name standardCategories)"
proof -
  have "map_of (map (\<lambda>c. (tc_Name c, c)) standardCategories) n \<noteq> None \<longleftrightarrow>
        n \<in> set (map tc_Name standardCategories)"
    using map_of_eq_None_iff [of "map (\<lambda>c. (tc_Name c, c)) standardCategories" n]
    by (auto simp: o_def image_image)
  then show ?thesis
    by (auto simp: IsStandardCategory_def NewStandardCatalog_def
        fold_upd_map_of [OF distinct_standard_categories] split: option.splits)
qed

lemma Lookup_types_nonempty:
  "Lookup NewStandardCatalog n = Some e \<Longrightarrow> te_InputTypes e \<noteq> [] \<and> te_OutputTypes e \<noteq> []"
  using standard_types_nonempty by (simp add: Lookup_Some_iff list_all_iff)

text \<open>The namespace of a dotted name: what precedes its first dot.\<close>

lemma dotted_name_iff:
  "2 \<le> length (Split CHR ''.'' n) \<longleftrightarrow> (\<exists>ns rest. n = ns @ CHR ''.'' # rest \<and> CHR ''.'' \<notin> set ns)"
proof
  assume "2 \<le> length (Split CHR ''.'' n)"
  then have "CHR ''.'' \<in> set n"
    by (metis Split_no_sep One_nat_def Suc_1 length_Cons list.size(3) not_less_eq_eq order_refl)
  then show "\<exists>ns rest. n = ns @ CHR ''.'' # rest \<and> CHR ''.'' \<notin> set ns"
    using split_list_first by metis
qed (auto simp: length_Split)

lemma Split_namespace:
  "CHR ''.'' \<notin> set ns \<Longrightarrow> hd (Split CHR ''.'' (ns @ CHR ''.'' # rest)) = ns"
  unfolding hd_Split by (induction ns) auto

lemma namespace_unique:
  assumes "ns @ CHR ''.'' # rest = ns' @ CHR ''.'' # rest'"
    and "CHR ''.'' \<notin> set ns" and "CHR ''.'' \<notin> set ns'"
  shows "ns = ns' \<and> rest = rest'"
  using assms by (metis Split_namespace append_same_eq list.inject same_append_eq)

text \<open>
  The names \<open>Validate\<close> accepts as vendor capabilities are exactly those whose
  namespace, the part before the first dot, is not one of the eight reserved categories.
\<close>

lemma IsVendor_standard_iff:
  "IsVendor NewStandardCatalog n \<longleftrightarrow>
     (\<exists>ns rest. n = ns @ CHR ''.'' # rest \<and> CHR ''.'' \<notin> set ns \<and>
        ns \<notin> set (map tc_Name standardCategories))"
proof -
  have std_reserved: "ns \<in> set (map tc_Name standardCategories)"
    if "Lookup NewStandardCatalog (ns @ CHR ''.'' # rest) = Some e" "CHR ''.'' \<notin> set ns" for ns rest e
  proof -
    from that(1) have "e \<in> set standardEntries" and n: "te_Name e = ns @ CHR ''.'' # rest"
      by (simp_all add: Lookup_Some_iff)
    then have "te_Name e = te_Category e @ ''.'' @ te_Action e" "CHR ''.'' \<notin> set (te_Category e)"
      "te_Category e \<in> set (map tc_Name standardCategories)"
      using standard_names_split standard_categories_known by (auto simp: list_all_iff)
    then show ?thesis using n that(2) namespace_unique by (metis append_Cons append_Nil)
  qed
  show ?thesis (is "?L \<longleftrightarrow> ?R")
  proof
    assume ?L
    then have len: "2 \<le> length (Split CHR ''.'' n)"
      and cat: "hd (Split CHR ''.'' n) \<notin> set (map tc_Name standardCategories)"
      by (auto simp: IsVendor_def Validate_def Lookup_def Let_def IsStandardCategory_iff
          split: if_splits)
    then show ?R by (metis dotted_name_iff Split_namespace)
  next
    assume ?R
    then obtain ns rest where n: "n = ns @ CHR ''.'' # rest" and nd: "CHR ''.'' \<notin> set ns"
      and nc: "ns \<notin> set (map tc_Name standardCategories)" by blast
    then have "Lookup NewStandardCatalog n = None" using std_reserved by (metis not_None_eq)
    moreover have "2 \<le> length (Split CHR ''.'' n)" using n nd dotted_name_iff by blast
    ultimately show ?L using n nd nc
      by (simp add: IsVendor_def Validate_def Let_def Split_namespace IsStandardCategory_iff)
  qed
qed

section \<open>Completion of capabilities\<close>

lemma AutoMap_keeps [simp]:
  "tx_Name (AutoMap c cap) = tx_Name cap" "tx_Version (AutoMap c cap) = tx_Version cap"
  "tx_Description (AutoMap c cap) = tx_Description cap" "tx_Parameters (AutoMap c cap) = tx_Parameters cap"
  by (simp_all add: AutoMap_def split: option.splits)

lemma AutoMap_idem: "AutoMap c (AutoMap c cap) = AutoMap c cap"
  by (auto simp: AutoMap_def split: option.splits)

lemma AutoMap_vendor: "Lookup c (tx_Name cap) = None \<Longrightarrow> AutoMap c cap = cap"
  by (simp add: AutoMap_def Lookup_def)

lemma AutoMap_standard:
  assumes "Lookup NewStandardCatalog (tx_Name cap) = Some e"
  shows "tx_Name cap = tx_Category (AutoMap NewStandardCatalog cap) @ ''.'' @
           tx_Action (AutoMap NewStandardCatalog cap)"
    and "tx_InputTypes (AutoMap NewStandardCatalog cap) \<noteq> []"
    and "tx_OutputTypes (AutoMap NewStandardCatalog cap) \<noteq> []"
proof -
  from assms have e: "e \<in> set standardEntries" "te_Name e = tx_Name cap"
    by (simp_all add: Lookup_Some_iff)
  then have "te_Name e = te_Category e @ ''.'' @ te_Action e"
    using standard_names_split by (auto simp: list_all_iff)
  then show "tx_Name cap = tx_Category (AutoMap NewStandardCatalog cap) @ ''.'' @
           tx_Action (AutoMap NewStandardCatalog cap)"
    using assms e by (simp add: AutoMap_def Lookup_def)
  show "tx_InputTypes (AutoMap NewStandardCatalog cap) \<noteq> []"
    "tx_OutputTypes (AutoMap NewStandardCatalog cap) \<noteq> []"
    using assms Lookup_types_nonempty [OF assms] by (auto simp: AutoMap_def Lookup_def)
qed

end
