(* ===== verification/Glob.thy ===== *)
theory Glob
  imports Prelude
begin

text \<open>
  Glob matching of capability names (\<open>core/registry/kv.go\<close>: \<open>globMatch\<close>, \<open>matchGlob\<close>): the
  backtracking matcher of the code and a declarative semantics of patterns, with the proof
  that the two agree.
\<close>

function globMatch :: "string \<Rightarrow> string \<Rightarrow> bool" where
  "globMatch [] s = (s = [])"
| "globMatch (p # ps) s =
     (if p = CHR ''*'' then
        (let rest = dropWhile (\<lambda>c. c = CHR ''*'') ps
         in if rest = [] then True
            else list_ex (\<lambda>i. globMatch rest (drop i s)) [0..<Suc (length s)])
      else if p = CHR ''?'' then
        (case s of [] \<Rightarrow> False | x # xs \<Rightarrow> globMatch ps xs)
      else
        (case s of [] \<Rightarrow> False | x # xs \<Rightarrow> p = x \<and> globMatch ps xs))"
  by pat_completeness auto
termination
proof (relation "measure (\<lambda>(p, s). length p)", goal_cases)
  case (2 p ps s rest i)
  have "length rest \<le> length ps" using 2 by (simp add: length_dropWhile_le)
  then show ?case by simp
qed auto

declare globMatch.simps(2) [simp del]

definition matchGlob :: "string \<Rightarrow> string \<Rightarrow> bool" where
  "matchGlob pattern name =
     (if \<not> ContainsAny pattern ''*?'' then pattern = name else globMatch pattern name)"

text \<open>\<open>*\<close> stands for any string, \<open>?\<close> for any one byte, anything else for itself.\<close>

inductive glob_sem :: "string \<Rightarrow> string \<Rightarrow> bool" where
  sem_nil: "glob_sem [] []"
| sem_star: "glob_sem p s \<Longrightarrow> glob_sem (CHR ''*'' # p) (u @ s)"
| sem_any: "glob_sem p s \<Longrightarrow> glob_sem (CHR ''?'' # p) (x # s)"
| sem_lit: "c \<noteq> CHR ''*'' \<Longrightarrow> c \<noteq> CHR ''?'' \<Longrightarrow> glob_sem p s \<Longrightarrow> glob_sem (c # p) (c # s)"

inductive_cases sem_NilE [elim!]: "glob_sem [] s"
inductive_cases sem_ConsE: "glob_sem (c # p) s"
inductive_simps sem_Nil_iff [simp]: "glob_sem [] s"

lemma sem_star_iff: "glob_sem (CHR ''*'' # p) s \<longleftrightarrow> (\<exists>i\<le>length s. glob_sem p (drop i s))"
proof
  assume "glob_sem (CHR ''*'' # p) s"
  then obtain u t where "s = u @ t" "glob_sem p t" by (auto elim: sem_ConsE)
  then show "\<exists>i\<le>length s. glob_sem p (drop i s)" by (intro exI [of _ "length u"]) simp
next
  assume "\<exists>i\<le>length s. glob_sem p (drop i s)"
  then obtain i where "glob_sem p (drop i s)" by blast
  then show "glob_sem (CHR ''*'' # p) s" using sem_star [of p "drop i s" "take i s"] by simp
qed

lemma sem_any_iff: "glob_sem (CHR ''?'' # p) s \<longleftrightarrow> (\<exists>x xs. s = x # xs \<and> glob_sem p xs)"
  by (auto elim: sem_ConsE intro: sem_any)

lemma sem_lit_iff:
  "c \<noteq> CHR ''*'' \<Longrightarrow> c \<noteq> CHR ''?'' \<Longrightarrow> glob_sem (c # p) s \<longleftrightarrow> (\<exists>xs. s = c # xs \<and> glob_sem p xs)"
  by (auto elim: sem_ConsE intro: sem_lit)

lemma sem_star_star: "glob_sem (CHR ''*'' # CHR ''*'' # p) s \<longleftrightarrow> glob_sem (CHR ''*'' # p) s"
proof
  assume "glob_sem (CHR ''*'' # CHR ''*'' # p) s"
  then obtain i j where ij: "i \<le> length s" "j \<le> length (drop i s)" "glob_sem p (drop j (drop i s))"
    by (auto simp: sem_star_iff)
  then show "glob_sem (CHR ''*'' # p) s"
    by (simp add: sem_star_iff) (intro exI [of _ "i + j"], auto simp: add.commute)
next
  assume "glob_sem (CHR ''*'' # p) s"
  then show "glob_sem (CHR ''*'' # CHR ''*'' # p) s" using sem_star [of "CHR ''*'' # p" s "[]"] by simp
qed

lemma sem_skip_stars:
  "glob_sem (CHR ''*'' # p) s \<longleftrightarrow> glob_sem (CHR ''*'' # dropWhile (\<lambda>c. c = CHR ''*'') p) s"
  by (induction p) (auto simp: sem_star_star)

lemma globMatch_star:
  assumes "rest = dropWhile (\<lambda>c. c = CHR ''*'') ps"
  shows "globMatch (CHR ''*'' # ps) s \<longleftrightarrow> rest = [] \<or> (\<exists>i\<le>length s. globMatch rest (drop i s))"
proof -
  have "globMatch (CHR ''*'' # ps) s \<longleftrightarrow>
        (rest = [] \<or> list_ex (\<lambda>i. globMatch rest (drop i s)) [0..<Suc (length s)])"
    unfolding assms by (simp only: globMatch.simps(2) Let_def simp_thms if_True) auto
  also have "list_ex (\<lambda>i. globMatch rest (drop i s)) [0..<Suc (length s)] \<longleftrightarrow>
             (\<exists>i\<le>length s. globMatch rest (drop i s))"
    unfolding list_ex_iff set_upt by (metis atLeast0LessThan less_Suc_eq_le lessThan_iff)
  finally show ?thesis .
qed

lemma globMatch_sem: "globMatch p s \<longleftrightarrow> glob_sem p s"
proof (induction p s rule: globMatch.induct)
  case (2 p ps s)
  consider (star) "p = CHR ''*''" | (any) "p = CHR ''?''" | (lit) "p \<noteq> CHR ''*''" "p \<noteq> CHR ''?''"
    by blast
  then show ?case
  proof cases
    case star
    define rest where rest: "rest = dropWhile (\<lambda>c. c = CHR ''*'') ps"
    have "glob_sem (p # ps) s \<longleftrightarrow> (\<exists>i\<le>length s. glob_sem rest (drop i s))"
      using star sem_skip_stars [of ps s] by (simp add: sem_star_iff rest)
    moreover have "\<exists>i\<le>length s. glob_sem rest (drop i s)" if "rest = []"
      unfolding that by (intro exI [of _ "length s"]) simp
    moreover have "globMatch rest (drop i s) \<longleftrightarrow> glob_sem rest (drop i s)"
      if "rest \<noteq> []" "i \<le> length s" for i
      by (rule "2.IH"(1) [OF star rest that(1)]) (use that(2) in auto)
    ultimately show ?thesis using star globMatch_star [OF rest] by blast
  next
    case any
    then show ?thesis using "2.IH"(2) by (auto simp: globMatch.simps(2) sem_any_iff split: list.split)
  next
    case lit
    then show ?thesis using "2.IH"(3) by (auto simp: globMatch.simps(2) sem_lit_iff split: list.split)
  qed
qed simp

lemma sem_literal: "\<not> ContainsAny p ''*?'' \<Longrightarrow> glob_sem p s \<longleftrightarrow> p = s"
  by (induction p arbitrary: s) (auto simp: ContainsAny_def sem_lit_iff)


end
