(* ===== verification/Registry.thy ===== *)
theory Registry
  imports KV Protocol Taxonomy Glob
begin

text \<open>
  The agent registry (\<open>core/registry\<close>: \<open>types.go\<close>, \<open>status.go\<close>, \<open>kv.go\<close>, \<open>handler.go\<close>) over a
  key-value bucket: registration with taxonomy validation, compare-and-set status updates, the
  heartbeat counters that drive an agent from ACTIVE over UNHEALTHY to DEAD, remote entries kept
  under composite keys, listing, and capability search. The lemmas are proved once in the locale
  \<open>agent_bucket\<close>, for any bucket that obeys the key-value laws, and the locale is interpreted on
  the registry over the in-memory and over the faulty bucket.
\<close>

section \<open>Types\<close>

datatype AgentLifecycleStatus =
  StatusRegistering | StatusActive | StatusUnhealthy | StatusDead | StatusUnregistered | StatusUnknown int

record Capability =
  cap_Name :: string
  cap_Version :: string
  cap_Description :: string
  cap_Parameters :: labels
  cap_Category :: string
  cap_Action :: string
  cap_InputTypes :: "string list"
  cap_OutputTypes :: "string list"

record AgentRegistration =
  reg_AgentID :: string
  reg_AgentType :: string
  reg_Version :: string
  reg_Capabilities :: "Capability list"
  reg_Labels :: labels
  reg_Status :: AgentLifecycleStatus
  reg_LastSeen :: int
  reg_MissedHeartbeats :: int
  reg_NodeID :: string
  reg_Origin :: string
  reg_Revision :: nat

definition IsRemote :: "AgentRegistration \<Rightarrow> bool" where
  "IsRemote r \<longleftrightarrow> reg_Origin r = ''remote''"

definition IsA2A :: "AgentRegistration \<Rightarrow> bool" where
  "IsA2A r \<longleftrightarrow> reg_Origin r = ''a2a''"

datatype validation_reason = NoAgentID | NoAgentType | NoCapabilities | NoNodeID
  | BadCapability taxonomy_error | VendorWithoutTypes string

datatype reg_error = ErrNotFound | ErrCASConflict | ErrValidation validation_reason
  | ErrStore kv_error | ErrUnmarshal

record ('s, 'c) KVRegistry =
  kr_kv :: "('s, AgentRegistration json) kv_ops"
  kr_catalogKV :: "('c, TaxonomyEntry json) kv_ops option"
  kr_catalog :: "standardCatalog option"
  kr_UnhealthyThreshold :: int
  kr_DeadThreshold :: int

section \<open>Construction: seeding the catalog bucket\<close>

text \<open>
  Each standard entry is created; an entry that already exists is left as it is, any other
  failure aborts the construction.
\<close>

fun seedEntries :: "('c, TaxonomyEntry json) kv_ops \<Rightarrow> TaxonomyEntry list \<Rightarrow> 'c \<Rightarrow> kv_error option \<times> 'c" where
  "seedEntries kv [] c = (None, c)"
| "seedEntries kv (e # es) c =
     (case kv_create kv (te_Name e) (Json e) c of
        (Inr _, c') \<Rightarrow> seedEntries kv es c'
      | (Inl err, c') \<Rightarrow> if err \<noteq> ErrKeyExists then (Some err, c') else seedEntries kv es c')"

definition seedCatalog :: "('c, TaxonomyEntry json) kv_ops \<Rightarrow> standardCatalog \<Rightarrow> 'c \<Rightarrow> kv_error option \<times> 'c" where
  "seedCatalog kv cat c = seedEntries kv (Query cat ''*.*'') c"

section \<open>Registration\<close>

definition to_tax :: "Capability \<Rightarrow> tax_Capability" where
  "to_tax cap = \<lparr>tx_Name = cap_Name cap, tx_Version = cap_Version cap,
     tx_Description = cap_Description cap, tx_Parameters = cap_Parameters cap,
     tx_Category = cap_Category cap, tx_Action = cap_Action cap,
     tx_InputTypes = cap_InputTypes cap, tx_OutputTypes = cap_OutputTypes cap\<rparr>"

definition of_tax :: "tax_Capability \<Rightarrow> Capability" where
  "of_tax tc = \<lparr>cap_Name = tx_Name tc, cap_Version = tx_Version tc,
     cap_Description = tx_Description tc, cap_Parameters = tx_Parameters tc,
     cap_Category = tx_Category tc, cap_Action = tx_Action tc,
     cap_InputTypes = tx_InputTypes tc, cap_OutputTypes = tx_OutputTypes tc\<rparr>"

definition storeVendorCapability ::
  "('c, TaxonomyEntry json) kv_ops \<Rightarrow> Capability \<Rightarrow> 'c \<Rightarrow> 'c" where
  "storeVendorCapability kv cap c =
     (let entry = \<lparr>te_Name = cap_Name cap,
            te_Category = (case IndexByte CHR ''.'' (cap_Name cap) of
               None \<Rightarrow> [] | Some idx \<Rightarrow> take idx (cap_Name cap)),
            te_Action = (case IndexByte CHR ''.'' (cap_Name cap) of
               None \<Rightarrow> [] | Some idx \<Rightarrow> drop (idx + 1) (cap_Name cap)),
            te_Description = cap_Description cap,
            te_InputTypes = cap_InputTypes cap, te_OutputTypes = cap_OutputTypes cap,
            te_CatalogVersion = ''vendor''\<rparr>
      in snd (kv_put kv (cap_Name cap) (Json entry) c))"

text \<open>The loop over the declared capabilities: validate, complete, remember vendor ones.\<close>

fun mapCapabilities ::
  "standardCatalog \<Rightarrow> ('c, TaxonomyEntry json) kv_ops option \<Rightarrow> Capability list \<Rightarrow> 'c \<Rightarrow>
     (reg_error + Capability list) \<times> 'c" where
  "mapCapabilities cat ckv [] c = (Inr [], c)"
| "mapCapabilities cat ckv (cap # caps) c =
     (case Validate cat (cap_Name cap) of
        Some err \<Rightarrow> (Inl (ErrValidation (BadCapability err)), c)
      | None \<Rightarrow>
          (let isVendor = (Lookup cat (cap_Name cap) = None) in
           if isVendor \<and> (cap_InputTypes cap = [] \<or> cap_OutputTypes cap = [])
           then (Inl (ErrValidation (VendorWithoutTypes (cap_Name cap))), c)
           else
             (let cap' = of_tax (AutoMap cat (to_tax cap));
                  c1 = (case ckv of
                          Some kv \<Rightarrow> if isVendor then storeVendorCapability kv cap' c else c
                        | None \<Rightarrow> c)
              in case mapCapabilities cat ckv caps c1 of
                   (Inl err, c2) \<Rightarrow> (Inl err, c2)
                 | (Inr caps', c2) \<Rightarrow> (Inr (cap' # caps'), c2))))"

text \<open>Create the key; if that fails, read it and overwrite it at the revision read.\<close>

definition upsert :: "('s, AgentRegistration json) kv_ops \<Rightarrow> string \<Rightarrow> AgentRegistration \<Rightarrow> 's \<Rightarrow>
    (reg_error + nat) \<times> 's" where
  "upsert kv key reg s =
     (case kv_create kv key (Json reg) s of
        (Inr rv, s') \<Rightarrow> (Inr rv, s')
      | (Inl _, s') \<Rightarrow>
          (case kv_get kv key s' of
             Inl err \<Rightarrow> (Inl (ErrStore err), s')
           | Inr (_, rev0) \<Rightarrow>
               (case kv_update kv key (Json reg) rev0 s' of
                  (Inl err, s'') \<Rightarrow> (Inl (ErrStore err), s'')
                | (Inr rv, s'') \<Rightarrow> (Inr rv, s''))))"

definition Register :: "('s, 'c) KVRegistry \<Rightarrow> AgentRegistration \<Rightarrow> int \<Rightarrow> 's \<times> 'c \<Rightarrow>
    (reg_error + nat) \<times> ('s \<times> 'c)" where
  "Register r reg now sc =
     (if reg_AgentID reg = [] then (Inl (ErrValidation NoAgentID), sc)
      else if reg_AgentType reg = [] then (Inl (ErrValidation NoAgentType), sc)
      else if reg_Capabilities reg = [] then (Inl (ErrValidation NoCapabilities), sc)
      else
        (case (case kr_catalog r of
                 None \<Rightarrow> (Inr (reg_Capabilities reg), snd sc)
               | Some cat \<Rightarrow> mapCapabilities cat (kr_catalogKV r) (reg_Capabilities reg) (snd sc)) of
           (Inl err, c') \<Rightarrow> (Inl err, (fst sc, c'))
         | (Inr caps, c') \<Rightarrow>
             (let reg' = reg\<lparr>reg_Capabilities := caps, reg_Status := StatusActive,
                             reg_LastSeen := now, reg_MissedHeartbeats := 0\<rparr>;
                  (res, s') = upsert (kr_kv r) (reg_AgentID reg) reg' (fst sc)
              in (res, (s', c')))))"

definition Deregister :: "('s, 'c) KVRegistry \<Rightarrow> string \<Rightarrow> 's \<Rightarrow> reg_error option \<times> 's" where
  "Deregister r agentID s =
     (case kv_purge (kr_kv r) agentID s of
        (None, s') \<Rightarrow> (None, s')
      | (Some err, s') \<Rightarrow> (if err = ErrKeyNotFound then None else Some (ErrStore err), s'))"

section \<open>Reading\<close>

definition Get :: "('s, 'c) KVRegistry \<Rightarrow> string \<Rightarrow> 's \<Rightarrow> reg_error + (AgentRegistration \<times> nat)" where
  "Get r agentID s =
     (case kv_get (kr_kv r) agentID s of
        Inl err \<Rightarrow> Inl (if err = ErrKeyNotFound then ErrNotFound else ErrStore err)
      | Inr (Corrupt, rv) \<Rightarrow> Inl ErrUnmarshal
      | Inr (Json reg, rv) \<Rightarrow> Inr (reg\<lparr>reg_Revision := rv\<rparr>, rv))"

fun getAll :: "('s, 'c) KVRegistry \<Rightarrow> string list \<Rightarrow> 's \<Rightarrow> reg_error + AgentRegistration list" where
  "getAll r [] s = Inr []"
| "getAll r (k # ks) s =
     (case Get r k s of
        Inl err \<Rightarrow> if err = ErrNotFound then getAll r ks s else Inl err
      | Inr (reg, _) \<Rightarrow>
          (case getAll r ks s of Inl err \<Rightarrow> Inl err | Inr regs \<Rightarrow> Inr (reg # regs)))"

definition List :: "('s, 'c) KVRegistry \<Rightarrow> 's \<Rightarrow> reg_error + AgentRegistration list" where
  "List r s =
     (case kv_keys (kr_kv r) s of
        Inl err \<Rightarrow> if err = ErrNoKeysFound then Inr [] else Inl (ErrStore err)
      | Inr ks \<Rightarrow> getAll r ks s)"

section \<open>Compare-and-set updates\<close>

definition writeBack :: "('s, 'c) KVRegistry \<Rightarrow> string \<Rightarrow> AgentRegistration \<Rightarrow> nat \<Rightarrow> 's \<Rightarrow>
    (reg_error + nat) \<times> 's" where
  "writeBack r agentID reg revision s =
     (case kv_update (kr_kv r) agentID (Json reg) revision s of
        (Inl _, s') \<Rightarrow> (Inl ErrCASConflict, s')
      | (Inr rv, s') \<Rightarrow> (Inr rv, s'))"

definition UpdateStatus :: "('s, 'c) KVRegistry \<Rightarrow> string \<Rightarrow> AgentLifecycleStatus \<Rightarrow> nat \<Rightarrow> 's \<Rightarrow>
    (reg_error + nat) \<times> 's" where
  "UpdateStatus r agentID status revision s =
     (case Get r agentID s of
        Inl err \<Rightarrow> (Inl err, s)
      | Inr (reg, _) \<Rightarrow> writeBack r agentID (reg\<lparr>reg_Status := status\<rparr>) revision s)"

definition beat :: "int \<Rightarrow> AgentRegistration \<Rightarrow> AgentRegistration" where
  "beat now reg = reg\<lparr>reg_MissedHeartbeats := 0, reg_LastSeen := now,
     reg_Status := (if reg_Status reg = StatusUnhealthy then StatusActive else reg_Status reg)\<rparr>"

definition RecordHeartbeat :: "('s, 'c) KVRegistry \<Rightarrow> string \<Rightarrow> nat \<Rightarrow> int \<Rightarrow> 's \<Rightarrow>
    (reg_error + nat) \<times> 's" where
  "RecordHeartbeat r agentID revision now s =
     (case Get r agentID s of
        Inl err \<Rightarrow> (Inl err, s)
      | Inr (reg, _) \<Rightarrow> writeBack r agentID (beat now reg) revision s)"

definition miss :: "int \<Rightarrow> int \<Rightarrow> AgentRegistration \<Rightarrow> AgentRegistration" where
  "miss unhealthy dead reg =
     (let n = wrap32 (reg_MissedHeartbeats reg + 1) in
      reg\<lparr>reg_MissedHeartbeats := n,
          reg_Status := (if dead \<le> n \<and> reg_Status reg = StatusUnhealthy then StatusDead
                         else if unhealthy \<le> n \<and> reg_Status reg = StatusActive then StatusUnhealthy
                         else reg_Status reg)\<rparr>)"

definition IncrementMissedHeartbeats :: "('s, 'c) KVRegistry \<Rightarrow> string \<Rightarrow> nat \<Rightarrow> 's \<Rightarrow>
    (reg_error + (AgentLifecycleStatus \<times> nat)) \<times> 's" where
  "IncrementMissedHeartbeats r agentID revision s =
     (case Get r agentID s of
        Inl err \<Rightarrow> (Inl err, s)
      | Inr (reg, _) \<Rightarrow>
          (let reg' = miss (kr_UnhealthyThreshold r) (kr_DeadThreshold r) reg in
           case writeBack r agentID reg' revision s of
             (Inl err, s') \<Rightarrow> (Inl err, s')
           | (Inr rv, s') \<Rightarrow> (Inr (reg_Status reg', rv), s')))"

section \<open>Remote entries\<close>

definition remoteKey :: "string \<Rightarrow> string \<Rightarrow> string" where
  "remoteKey nodeID agentID = ''remote.'' @ nodeID @ ''.'' @ agentID"

definition RegisterRemote :: "('s, 'c) KVRegistry \<Rightarrow> AgentRegistration \<Rightarrow> int \<Rightarrow> 's \<Rightarrow> reg_error option \<times> 's" where
  "RegisterRemote r reg now s =
     (if reg_AgentID reg = [] then (Some (ErrValidation NoAgentID), s)
      else if reg_NodeID reg = [] then (Some (ErrValidation NoNodeID), s)
      else
        (let reg' = reg\<lparr>reg_Origin := ''remote'', reg_Status := StatusActive,
                        reg_LastSeen := now, reg_MissedHeartbeats := 0\<rparr>
         in case upsert (kr_kv r) (remoteKey (reg_NodeID reg) (reg_AgentID reg)) reg' s of
              (Inl err, s') \<Rightarrow> (Some err, s')
            | (Inr _, s') \<Rightarrow> (None, s')))"

fun purgeKeys :: "('s, 'c) KVRegistry \<Rightarrow> string \<Rightarrow> string list \<Rightarrow> 's \<Rightarrow> reg_error option \<times> 's" where
  "purgeKeys r prefix [] s = (None, s)"
| "purgeKeys r prefix (k # ks) s =
     (if \<not> HasPrefix k prefix then purgeKeys r prefix ks s
      else case kv_purge (kr_kv r) k s of
             (None, s') \<Rightarrow> purgeKeys r prefix ks s'
           | (Some err, s') \<Rightarrow>
               if err \<noteq> ErrKeyNotFound then (Some (ErrStore err), s') else purgeKeys r prefix ks s')"

definition DeregisterRemotesByNode :: "('s, 'c) KVRegistry \<Rightarrow> string \<Rightarrow> 's \<Rightarrow> reg_error option \<times> 's" where
  "DeregisterRemotesByNode r nodeID s =
     (case kv_keys (kr_kv r) s of
        Inl err \<Rightarrow> (if err = ErrNoKeysFound then None else Some (ErrStore err), s)
      | Inr ks \<Rightarrow> purgeKeys r (''remote.'' @ nodeID @ ''.'') ks s)"

section \<open>Capability search\<close>

definition capabilityMatches :: "string \<Rightarrow> Capability \<Rightarrow> bool \<Rightarrow> bool" where
  "capabilityMatches query cap isGlob =
     (if \<not> isGlob then cap_Name cap = query else matchGlob query (cap_Name cap))"

definition versionMatches :: "string \<Rightarrow> string \<Rightarrow> bool" where
  "versionMatches constraint version =
     (constraint \<noteq> [] \<longrightarrow> HasPrefix version (TrimSuffix (TrimSuffix constraint ''x'') ''X''))"

definition offers :: "string \<Rightarrow> string \<Rightarrow> AgentRegistration \<Rightarrow> bool" where
  "offers query constraint agent \<longleftrightarrow>
     list_ex (\<lambda>cap. capabilityMatches query cap (ContainsAny query ''*?'') \<and>
        versionMatches constraint (cap_Version cap)) (reg_Capabilities agent)"

definition FindByCapability :: "('s, 'c) KVRegistry \<Rightarrow> string \<Rightarrow> string \<Rightarrow> 's \<Rightarrow>
    reg_error + AgentRegistration list" where
  "FindByCapability r capabilityName versionConstraint s =
     (case List r s of
        Inl err \<Rightarrow> Inl err
      | Inr all \<Rightarrow> Inr (sort_key reg_AgentID
          (filter (\<lambda>a. reg_Status a = StatusActive \<and> offers capabilityName versionConstraint a) all)))"

section \<open>The event handler\<close>

record ('s, 'c, 'b) regHandler =
  rh_registry :: "('s, 'c) KVRegistry"
  rh_nodeID :: string

definition reg_publishError :: "'b services \<Rightarrow> string \<Rightarrow> string \<Rightarrow> string \<Rightarrow> string \<Rightarrow> 'b world \<Rightarrow>
    publish_error option \<times> 'b world" where
  "reg_publishError sv nodeID agentID code message w =
     emit sv (MAgentError \<lparr>aep_agent_id = agentID, aep_error_code = code, aep_message = message,
                aep_stack_trace = [], aep_workflow_id = []\<rparr>)
       (\<lambda>data. (zero_event data)\<lparr>ev_Type := ''agent.error'', ev_SourceNode := nodeID,
                                ev_SourceAgent := ''runtime''\<rparr>) w"

definition of_pb_cap :: "pb_Capability \<Rightarrow> Capability" where
  "of_pb_cap c = \<lparr>cap_Name = pc_name c, cap_Version = pc_version c,
     cap_Description = pc_description c, cap_Parameters = pc_parameters c,
     cap_Category = [], cap_Action = [], cap_InputTypes = [], cap_OutputTypes = []\<rparr>"

text \<open>
  The text of the error a handler reports is a parameter: \<open>errText\<close> is \<open>err.Error()\<close>. A returned
  error is the failure to publish the error event; registration failures are reported as events.
\<close>

definition handleRegister :: "'b services \<Rightarrow> (reg_error \<Rightarrow> string) \<Rightarrow> ('s, 'c, 'b) regHandler \<Rightarrow>
    'b event \<Rightarrow> ('s \<times> 'c) \<Rightarrow> 'b world \<Rightarrow> publish_error option \<times> ('s \<times> 'c) \<times> 'b world" where
  "handleRegister sv errText h evt sc w =
     (case sv_dec_register sv (ev_Payload evt) of
        None \<Rightarrow> (let (res, w') = reg_publishError sv (rh_nodeID h) (ev_SourceAgent evt)
                     ''INVALID_PAYLOAD'' (''failed to unmarshal register payload: '' @ sv_decerr sv (ev_Payload evt)) w
                 in (res, sc, w'))
      | Some payload \<Rightarrow>
          (let reg = \<lparr>reg_AgentID = arp_agent_id payload, reg_AgentType = arp_agent_type payload,
                 reg_Version = arp_version payload,
                 reg_Capabilities = map of_pb_cap (arp_capabilities payload),
                 reg_Labels = arp_labels payload, reg_Status = StatusRegistering,
                 reg_LastSeen = 0, reg_MissedHeartbeats = 0, reg_NodeID = rh_nodeID h,
                 reg_Origin = [], reg_Revision = 0\<rparr>;
               (now, w1) = time_now sv w
           in case Register (rh_registry h) reg now sc of
                (Inr _, sc') \<Rightarrow> (None, sc', w1)
              | (Inl err, sc') \<Rightarrow>
                  (let (res, w2) = reg_publishError sv (rh_nodeID h) (arp_agent_id payload)
                         ''REGISTRATION_FAILED'' (errText err) w1
                   in (res, sc', w2))))"

datatype handler_error = HandlerPublish publish_error | HandlerRegistry reg_error

definition handleUnregister :: "'b services \<Rightarrow> ('s, 'c, 'b) regHandler \<Rightarrow> 'b event \<Rightarrow> 's \<Rightarrow> 'b world \<Rightarrow>
    handler_error option \<times> 's \<times> 'b world" where
  "handleUnregister sv h evt s w =
     (case sv_dec_unregister sv (ev_Payload evt) of
        None \<Rightarrow> (let (res, w') = reg_publishError sv (rh_nodeID h) (ev_SourceAgent evt)
                     ''INVALID_PAYLOAD'' (''failed to unmarshal unregister payload: '' @ sv_decerr sv (ev_Payload evt)) w
                 in (map_option HandlerPublish res, s, w'))
      | Some payload \<Rightarrow>
          (let (res, s') = Deregister (rh_registry h) (aup_agent_id payload) s
           in (map_option HandlerRegistry res, s', w)))"

lemmas reg_defs [op_defs] = Get_def UpdateStatus_def RecordHeartbeat_def IncrementMissedHeartbeats_def
  writeBack_def Deregister_def RegisterRemote_def

section \<open>Pure facts\<close>

lemma beat_simps [simp]:
  "reg_AgentID (beat now reg) = reg_AgentID reg" "reg_MissedHeartbeats (beat now reg) = 0"
  "reg_LastSeen (beat now reg) = now" "reg_Capabilities (beat now reg) = reg_Capabilities reg"
  by (simp_all add: beat_def)

lemma miss_simps [simp]:
  "reg_AgentID (miss u d reg) = reg_AgentID reg"
  "reg_MissedHeartbeats (miss u d reg) = wrap32 (reg_MissedHeartbeats reg + 1)"
  by (simp_all add: miss_def Let_def)

text \<open>The edges of the lifecycle that heartbeats and their absence can take.\<close>

inductive lifecycle_edge :: "AgentLifecycleStatus \<Rightarrow> AgentLifecycleStatus \<Rightarrow> bool" where
  edge_same: "lifecycle_edge st st"
| edge_unhealthy: "lifecycle_edge StatusActive StatusUnhealthy"
| edge_recover: "lifecycle_edge StatusUnhealthy StatusActive"
| edge_dead: "lifecycle_edge StatusUnhealthy StatusDead"

inductive_cases lifecycle_from_dead: "lifecycle_edge StatusDead st"

lemma beat_edge: "lifecycle_edge (reg_Status reg) (reg_Status (beat now reg))"
  by (auto simp: beat_def intro: lifecycle_edge.intros)

lemma miss_edge: "lifecycle_edge (reg_Status reg) (reg_Status (miss u d reg))"
  by (auto simp: miss_def Let_def intro: lifecycle_edge.intros)

text \<open>The status of an agent that registered and then missed \<open>n\<close> pings in a row.\<close>

definition silent_status :: "nat \<Rightarrow> nat \<Rightarrow> nat \<Rightarrow> AgentLifecycleStatus" where
  "silent_status unhealthy dead n =
     (if n < unhealthy then StatusActive
      else if n < max dead (Suc unhealthy) then StatusUnhealthy else StatusDead)"

lemma miss_silent:
  assumes "reg_MissedHeartbeats reg = int n" and "reg_Status reg = silent_status u d n"
    and "0 < u" and "0 < d" and "Suc n < 2 ^ 31"
  shows "reg_MissedHeartbeats (miss (int u) (int d) reg) = int (Suc n) \<and>
    reg_Status (miss (int u) (int d) reg) = silent_status u d (Suc n)"
proof -
  have "wrap32 (int n + 1) = int (Suc n)" using assms(5) by (subst wrap32_id) auto
  then show ?thesis using assms(1-4) by (auto simp: miss_def Let_def silent_status_def max_def split: if_splits)
qed

lemma offers_revision [simp]: "offers n v (reg\<lparr>reg_Revision := q\<rparr>) = offers n v reg"
  by (simp add: offers_def)

section \<open>The registry over a lawful bucket\<close>

locale agent_bucket = kv_store "kr_kv r" view
  for r :: "('s, 'c) KVRegistry" and view :: "'s \<Rightarrow> AgentRegistration json kv_map"
begin

lemma Get_Inr:
  "Get r k s = Inr (reg, q) \<Longrightarrow>
     q = reg_Revision reg \<and> (\<exists>reg0. view s k = Some (Json reg0, q) \<and> reg = reg0\<lparr>reg_Revision := q\<rparr>)"
  by (auto simp: Get_def split: sum.splits prod.splits json.splits dest!: get_some)

lemma Get_NotFound: "Get r k s = Inl ErrNotFound \<Longrightarrow> view s k = None"
  by (auto simp: Get_def split: sum.splits prod.splits json.splits if_splits dest: get_none)

lemma getAll_Inr:
  assumes "getAll r ks s = Inr regs"
  shows "set regs = {reg0\<lparr>reg_Revision := q\<rparr> | k reg0 q. k \<in> set ks \<and> view s k = Some (Json reg0, q)}"
  using assms
proof (induction ks arbitrary: regs)
  case Nil
  then show ?case by simp
next
  case (Cons k ks)
  show ?case
  proof (cases "Get r k s")
    case (Inl err)
    then have "err = ErrNotFound" and rest: "getAll r ks s = Inr regs"
      using Cons.prems by (auto split: if_splits)
    then have "view s k = None" using Inl Get_NotFound by simp
    then show ?thesis using Cons.IH [OF rest] by auto
  next
    case (Inr p)
    then obtain reg q where p: "p = (reg, q)" by (cases p)
    then obtain regs' where rest: "getAll r ks s = Inr regs'" and regs: "regs = reg # regs'"
      using Inr Cons.prems by (auto split: sum.splits)
    from Get_Inr Inr p obtain reg0 where "view s k = Some (Json reg0, q)" "reg = reg0\<lparr>reg_Revision := q\<rparr>"
      by blast
    then show ?thesis using Cons.IH [OF rest] regs by auto
  qed
qed

lemma List_Inr:
  assumes "List r s = Inr regs"
  shows "set regs = {reg0\<lparr>reg_Revision := q\<rparr> | k reg0 q. view s k = Some (Json reg0, q)}"
proof (cases "kv_keys (kr_kv r) s")
  case (Inl err)
  then have "regs = []" "view s = Map.empty"
    using assms keys_none by (auto simp: List_def split: if_splits)
  then show ?thesis by simp
next
  case (Inr ks)
  then have "getAll r ks s = Inr regs" "set ks = dom (view s)"
    using assms keys_ok by (auto simp: List_def)
  then show ?thesis using getAll_Inr by blast
qed

lemma FindByCapability_Inr:
  assumes "FindByCapability r name vc s = Inr regs"
  shows "sorted (map reg_AgentID regs)"
    and "set regs = {reg0\<lparr>reg_Revision := q\<rparr> | k reg0 q. view s k = Some (Json reg0, q) \<and>
           reg_Status reg0 = StatusActive \<and> offers name vc reg0}"
proof -
  from assms obtain all where all: "List r s = Inr all"
    and regs: "regs = sort_key reg_AgentID
      (filter (\<lambda>a. reg_Status a = StatusActive \<and> offers name vc a) all)"
    by (auto simp: FindByCapability_def split: sum.splits)
  show "sorted (map reg_AgentID regs)" by (simp add: regs)
  show "set regs = {reg0\<lparr>reg_Revision := q\<rparr> | k reg0 q. view s k = Some (Json reg0, q) \<and>
           reg_Status reg0 = StatusActive \<and> offers name vc reg0}"
    unfolding regs using List_Inr [OF all] by (auto, blast)
qed

text \<open>A compare-and-set tail either leaves the view alone or writes the one key at its revision.\<close>

lemma writeBack_cases:
  assumes "writeBack r k reg q s = (res, s')"
  shows "view s' = view s \<or> ((\<exists>u. view s k = Some (u, q)) \<and> written (view s) k (Json reg) (view s'))"
    and "res = Inr rv \<Longrightarrow> fresh_rev (view s) rv \<and> view s' = (view s)(k \<mapsto> (Json reg, rv))"
  using assms
  by (auto simp: writeBack_def split: prod.splits sum.splits dest: update_cases update_ok)

lemma writeBack_stale:
  assumes "writeBack r k reg q s = (res, s')" and "\<And>u. view s k \<noteq> Some (u, q)"
  shows "view s' = view s \<and> res = Inl ErrCASConflict"
proof -
  obtain res0 where "kv_update (kr_kv r) k (Json reg) q s = (res0, s')"
    using assms(1) by (auto simp: writeBack_def split: prod.splits sum.splits)
  moreover from stale_update [OF this assms(2)] obtain e where "res0 = Inl e" "view s' = view s" by blast
  ultimately show ?thesis using assms(1) by (auto simp: writeBack_def)
qed

lemma upsert_cases:
  assumes "upsert (kr_kv r) k reg s = (res, s')"
  shows "\<forall>k'. k' \<noteq> k \<longrightarrow> view s' k' = view s k'"
    and "view s' k = view s k \<or> (\<exists>rv. view s' k = Some (Json reg, rv))"
    and "res = Inr rv \<Longrightarrow> view s' k = Some (Json reg, rv)"
proof -
  obtain cres s1 where c: "kv_create (kr_kv r) k (Json reg) s = (cres, s1)" by fastforce
  have one: "\<forall>k'. k' \<noteq> k \<longrightarrow> view s1 k' = view s k'"
    "view s1 k = view s k \<or> (\<exists>rv. view s1 k = Some (Json reg, rv))"
    using create_cases [OF c] by (auto simp: written_def)
  show "\<forall>k'. k' \<noteq> k \<longrightarrow> view s' k' = view s k'"
    using assms c one
    by (auto simp: upsert_def written_def split: sum.splits prod.splits dest!: update_cases)
  show "view s' k = view s k \<or> (\<exists>rv. view s' k = Some (Json reg, rv))"
    using assms c one
    by (auto simp: upsert_def written_def split: sum.splits prod.splits dest!: update_cases)
  show "res = Inr rv \<Longrightarrow> view s' k = Some (Json reg, rv)"
    using assms c
    by (auto simp: upsert_def split: sum.splits prod.splits dest!: update_ok create_ok)
qed

lemma purgeKeys_view:
  assumes "purgeKeys r prefix ks s = (None, s')" and "dom (view s) \<subseteq> set ks \<union> {k. \<not> HasPrefix k prefix}"
  shows "view s' = (\<lambda>k. if HasPrefix k prefix then None else view s k)"
  using assms
proof (induction ks arbitrary: s)
  case Nil
  then have "view s k = None" if "HasPrefix k prefix" for k using that by auto
  then show ?case using Nil by (auto simp: fun_eq_iff)
next
  case (Cons k ks)
  show ?case
  proof (cases "HasPrefix k prefix")
    case False
    then show ?thesis using Cons by (auto simp: subset_iff)
  next
    case True
    then obtain s1 res where p: "kv_purge (kr_kv r) k s = (res, s1)"
      and rest: "purgeKeys r prefix ks s1 = (None, s')" and ok: "res = None \<or> res = Some ErrKeyNotFound"
      using Cons.prems by (auto split: prod.splits option.splits if_splits)
    have v: "view s1 = (view s)(k := None)"
    proof (cases res)
      case None
      then show ?thesis using p purge_ok by simp
    next
      case (Some e)
      then have "view s k = None" using ok p purge_missing by simp
      then show ?thesis using purge_cases [OF p] by (auto simp: fun_upd_idem)
    qed
    then have "dom (view s1) \<subseteq> set ks \<union> {k. \<not> HasPrefix k prefix}"
      using Cons.prems(2) by auto
    from Cons.IH [OF rest this] show ?thesis using v True by (auto simp: fun_eq_iff)
  qed
qed

lemma DeregisterRemotesByNode_None:
  assumes "DeregisterRemotesByNode r nodeID s = (None, s')"
  shows "view s' = (\<lambda>k. if HasPrefix k (''remote.'' @ nodeID @ ''.'') then None else view s k)"
proof (cases "kv_keys (kr_kv r) s")
  case (Inl err)
  then have "s' = s" "view s = Map.empty"
    using assms keys_none by (auto simp: DeregisterRemotesByNode_def split: if_splits)
  then show ?thesis by (simp add: fun_eq_iff)
next
  case (Inr ks)
  then have "purgeKeys r (''remote.'' @ nodeID @ ''.'') ks s = (None, s')" "set ks = dom (view s)"
    using assms keys_ok by (auto simp: DeregisterRemotesByNode_def)
  then show ?thesis by (intro purgeKeys_view) auto
qed

lemma Register_Inr:
  assumes "Register r reg now (s, c) = (Inr rv, (s', c'))"
  obtains caps where
    "case kr_catalog r of None \<Rightarrow> caps = reg_Capabilities reg \<and> c' = c
     | Some cat \<Rightarrow> mapCapabilities cat (kr_catalogKV r) (reg_Capabilities reg) c = (Inr caps, c')"
    and "view s' = (view s)(reg_AgentID reg \<mapsto> (Json (reg\<lparr>reg_Capabilities := caps,
           reg_Status := StatusActive, reg_LastSeen := now, reg_MissedHeartbeats := 0\<rparr>), rv))"
    and "reg_AgentID reg \<noteq> []" and "reg_AgentType reg \<noteq> []" and "reg_Capabilities reg \<noteq> []"
proof -
  from assms obtain caps where
    c: "(case kr_catalog r of None \<Rightarrow> (Inr (reg_Capabilities reg), c)
       | Some cat \<Rightarrow> mapCapabilities cat (kr_catalogKV r) (reg_Capabilities reg) c) = (Inr caps, c')"
    and u: "upsert (kr_kv r) (reg_AgentID reg) (reg\<lparr>reg_Capabilities := caps,
           reg_Status := StatusActive, reg_LastSeen := now, reg_MissedHeartbeats := 0\<rparr>) s = (Inr rv, s')"
    and ne: "reg_AgentID reg \<noteq> []" "reg_AgentType reg \<noteq> []" "reg_Capabilities reg \<noteq> []"
    by (auto simp: Register_def Let_def cong: option.case_cong split: if_splits sum.splits prod.splits)
  have "view s' = (view s)(reg_AgentID reg \<mapsto> (Json (reg\<lparr>reg_Capabilities := caps,
           reg_Status := StatusActive, reg_LastSeen := now, reg_MissedHeartbeats := 0\<rparr>), rv))"
    using upsert_cases(1) [OF u] upsert_cases(3) [OF u refl] by (auto simp: fun_eq_iff)
  with c ne show ?thesis by (intro that [of caps]) (auto split: option.splits)
qed

text \<open>Every compare-and-set operation at a revision that is not the stored one has no effect.\<close>

lemma UpdateStatus_stale:
  assumes "UpdateStatus r k st q s = (res, s')" and "\<And>u. view s k \<noteq> Some (u, q)"
  shows "view s' = view s \<and> (\<exists>e. res = Inl e)"
  using assms(1) writeBack_stale [OF _ assms(2)]
  by (auto simp: UpdateStatus_def split: sum.splits prod.splits dest!: writeBack_stale [OF _ assms(2)])

lemma RecordHeartbeat_stale:
  assumes "RecordHeartbeat r k q now s = (res, s')" and "\<And>u. view s k \<noteq> Some (u, q)"
  shows "view s' = view s \<and> (\<exists>e. res = Inl e)"
  using assms(1)
  by (auto simp: RecordHeartbeat_def split: sum.splits prod.splits dest!: writeBack_stale [OF _ assms(2)])

lemma IncrementMissedHeartbeats_stale:
  assumes "IncrementMissedHeartbeats r k q s = (res, s')" and "\<And>u. view s k \<noteq> Some (u, q)"
  shows "view s' = view s \<and> (\<exists>e. res = Inl e)"
  using assms(1)
  by (auto simp: IncrementMissedHeartbeats_def Let_def split: sum.splits prod.splits
      dest!: writeBack_stale [OF _ assms(2)])

text \<open>
  A heartbeat, or a missed one, changes at most its agent's entry, and that entry along an
  edge of the lifecycle.
\<close>

lemma writeBack_get:
  assumes "Get r k s = Inr (reg, q0)" and "writeBack r k reg' q s = (res, s')"
  shows "view s' = view s \<or>
    (\<exists>reg0 rv. view s k = Some (Json reg0, q) \<and> reg = reg0\<lparr>reg_Revision := q\<rparr> \<and>
       fresh_rev (view s) rv \<and> view s' = (view s)(k \<mapsto> (Json reg', rv)))"
  using writeBack_cases(1) [OF assms(2)] Get_Inr [OF assms(1)] by (auto simp: written_def)

lemma RecordHeartbeat_effect:
  assumes "RecordHeartbeat r k q now s = (res, s')"
  shows "view s' = view s \<or>
    (\<exists>reg0 rv. view s k = Some (Json reg0, q) \<and> fresh_rev (view s) rv \<and>
       view s' = (view s)(k \<mapsto> (Json (beat now (reg0\<lparr>reg_Revision := q\<rparr>)), rv)))"
  using assms by (auto simp: RecordHeartbeat_def split: sum.splits prod.splits dest!: writeBack_get)

lemma IncrementMissedHeartbeats_effect:
  assumes "IncrementMissedHeartbeats r k q s = (res, s')"
  shows "view s' = view s \<or>
    (\<exists>reg0 rv. view s k = Some (Json reg0, q) \<and> fresh_rev (view s) rv \<and>
       view s' = (view s)(k \<mapsto>
         (Json (miss (kr_UnhealthyThreshold r) (kr_DeadThreshold r) (reg0\<lparr>reg_Revision := q\<rparr>)), rv)))"
  using assms
  by (auto simp: IncrementMissedHeartbeats_def Let_def split: sum.splits prod.splits dest!: writeBack_get)

lemma Deregister_view:
  assumes "Deregister r k s = (res, s')"
  shows "view s' = view s \<or> view s' = (view s)(k := None)"
    and "res = None \<Longrightarrow> view s' = (view s)(k := None)"
proof -
  obtain pres where p: "kv_purge (kr_kv r) k s = (pres, s')"
    using assms by (auto simp: Deregister_def split: prod.splits option.splits)
  show "view s' = view s \<or> view s' = (view s)(k := None)" using purge_cases [OF p] .
  assume "res = None"
  then consider "pres = None" | "pres = Some ErrKeyNotFound"
    using assms p by (auto simp: Deregister_def split: option.splits if_splits)
  then show "view s' = (view s)(k := None)"
  proof cases
    case 1
    then show ?thesis using p purge_ok by simp
  next
    case 2
    then have "view s k = None" using p purge_missing by simp
    then show ?thesis using purge_cases [OF p] by (auto simp: fun_upd_idem)
  qed
qed

end

section \<open>Runs of the health monitor's operations\<close>

text \<open>
  What the monitors do to the bucket between registrations: record a heartbeat, count a missed
  one, remove an agent.
\<close>

inductive monitor_step :: "('s, 'c) KVRegistry \<Rightarrow> 's \<Rightarrow> 's \<Rightarrow> bool" for r where
  step_beat: "RecordHeartbeat r k q now s = (res, s') \<Longrightarrow> monitor_step r s s'"
| step_miss: "IncrementMissedHeartbeats r k q s = (res', s') \<Longrightarrow> monitor_step r s s'"
| step_remove: "Deregister r k s = (res'', s') \<Longrightarrow> monitor_step r s s'"

definition dead_or_gone :: "('s \<Rightarrow> AgentRegistration json kv_map) \<Rightarrow> string \<Rightarrow> 's \<Rightarrow> bool" where
  "dead_or_gone view k s \<longleftrightarrow> (case view s k of
      Some (Json reg, _) \<Rightarrow> reg_Status reg = StatusDead | Some (Corrupt, _) \<Rightarrow> False | None \<Rightarrow> True)"

lemma dead_or_gone_upd:
  "view s' = (view s)(k' \<mapsto> (Json reg', rv)) \<Longrightarrow> view s k' = Some (Json reg0, q) \<Longrightarrow>
   (reg_Status reg0 = StatusDead \<Longrightarrow> reg_Status reg' = StatusDead) \<Longrightarrow>
   dead_or_gone view k s \<Longrightarrow> dead_or_gone view k s'"
  by (auto simp: dead_or_gone_def)

sublocale agent_bucket \<subseteq> dead: step_invariant "monitor_step r" "dead_or_gone view k" for k
proof
  fix s s' assume "monitor_step r s s'" and I: "dead_or_gone view k s"
  then show "dead_or_gone view k s'"
  proof cases
    case (step_beat k' q now res)
    from RecordHeartbeat_effect [OF this] show ?thesis
      using I dead_or_gone_upd [of view s' s k' _ _ _ q k]
      by (elim disjE exE conjE) (auto simp: dead_or_gone_def beat_def split: if_splits)
  next
    case (step_miss k' q res)
    from IncrementMissedHeartbeats_effect [OF this] show ?thesis
      using I dead_or_gone_upd [of view s' s k' _ _ _ q k]
      by (elim disjE exE conjE) (auto simp: dead_or_gone_def miss_def Let_def split: if_splits)
  next
    case (step_remove k' res)
    from Deregister_view(1) [OF this] show ?thesis
      using I by (auto simp: dead_or_gone_def)
  qed
qed

section \<open>The read interface the other components use\<close>

record registry_if =
  ri_get :: "string \<Rightarrow> reg_error + (AgentRegistration \<times> nat)"
  ri_list :: "reg_error + AgentRegistration list"
  ri_find :: "string \<Rightarrow> string \<Rightarrow> reg_error + AgentRegistration list"

definition registry_reads :: "('s, 'c) KVRegistry \<Rightarrow> 's \<Rightarrow> registry_if" where
  "registry_reads r s = \<lparr>ri_get = (\<lambda>k. Get r k s), ri_list = List r s,
     ri_find = (\<lambda>n v. FindByCapability r n v s)\<rparr>"

locale agent_directory =
  fixes ri :: registry_if
  assumes find_sorted: "ri_find ri n v = Inr agents \<Longrightarrow> sorted (map reg_AgentID agents)"
    and find_set: "ri_find ri n v = Inr agents \<Longrightarrow> ri_list ri = Inr all \<Longrightarrow>
      set agents = {a \<in> set all. reg_Status a = StatusActive \<and> offers n v a}"
    and find_lists: "ri_find ri n v = Inr agents \<Longrightarrow> \<exists>all. ri_list ri = Inr all"
    and find_answers: "ri_list ri = Inr all \<Longrightarrow> \<exists>agents. ri_find ri n v = Inr agents"
    and get_listed: "ri_get ri k = Inr (a, q) \<Longrightarrow> ri_list ri = Inr all \<Longrightarrow> a \<in> set all"
begin

lemma find_active:
  "ri_find ri n v = Inr agents \<Longrightarrow> a \<in> set agents \<Longrightarrow> reg_Status a = StatusActive \<and> offers n v a"
  using find_set find_lists by blast

lemma find_least:
  assumes "ri_find ri n v = Inr (a # agents)" and "ri_list ri = Inr all"
    and "b \<in> set all" "reg_Status b = StatusActive" "offers n v b"
  shows "reg_AgentID a \<le> reg_AgentID b"
proof -
  have "b \<in> set (a # agents)" using find_set [OF assms(1,2)] assms(3-5) by blast
  moreover have "sorted (map reg_AgentID (a # agents))" using find_sorted assms(1) by blast
  ultimately show ?thesis by auto
qed

end

sublocale agent_bucket \<subseteq> dir: agent_directory "registry_reads r s" for s
proof
  fix n v k a q and agents all :: "AgentRegistration list"
  show "ri_find (registry_reads r s) n v = Inr agents \<Longrightarrow> sorted (map reg_AgentID agents)"
    using FindByCapability_Inr(1) by (simp add: registry_reads_def)
  show "ri_find (registry_reads r s) n v = Inr agents \<Longrightarrow> \<exists>all. ri_list (registry_reads r s) = Inr all"
    by (auto simp: registry_reads_def FindByCapability_def split: sum.splits)
  show "ri_list (registry_reads r s) = Inr all \<Longrightarrow> \<exists>agents. ri_find (registry_reads r s) n v = Inr agents"
    by (simp add: registry_reads_def FindByCapability_def)
  show "ri_find (registry_reads r s) n v = Inr agents \<Longrightarrow> ri_list (registry_reads r s) = Inr all \<Longrightarrow>
      set agents = {a \<in> set all. reg_Status a = StatusActive \<and> offers n v a}"
    by (auto simp: registry_reads_def FindByCapability_def)
  show "ri_get (registry_reads r s) k = Inr (a, q) \<Longrightarrow> ri_list (registry_reads r s) = Inr all \<Longrightarrow> a \<in> set all"
    using List_Inr [of s all] by (auto simp: registry_reads_def dest!: Get_Inr)
qed

section \<open>The registry over the concrete buckets\<close>

definition mem_registry :: "int \<Rightarrow> int \<Rightarrow> standardCatalog option \<Rightarrow>
    (AgentRegistration json bucket, TaxonomyEntry json bucket) KVRegistry" where
  "mem_registry u d cat = \<lparr>kr_kv = mem_ops, kr_catalogKV = map_option (\<lambda>_. mem_ops) cat,
     kr_catalog = cat, kr_UnhealthyThreshold = u, kr_DeadThreshold = d\<rparr>"

definition flaky_registry :: "int \<Rightarrow> int \<Rightarrow> standardCatalog option \<Rightarrow>
    (AgentRegistration json flaky, TaxonomyEntry json flaky) KVRegistry" where
  "flaky_registry u d cat = \<lparr>kr_kv = flaky_ops, kr_catalogKV = map_option (\<lambda>_. flaky_ops) cat,
     kr_catalog = cat, kr_UnhealthyThreshold = u, kr_DeadThreshold = d\<rparr>"

interpretation mem_reg: agent_bucket "mem_registry u d cat" mem_view for u d cat
  by (simp add: agent_bucket_def mem_registry_def mem.kv_store_axioms)

interpretation flaky_reg: agent_bucket "flaky_registry u d cat" flaky_view for u d cat
  by (simp add: agent_bucket_def flaky_registry_def flaky.kv_store_axioms)

section \<open>Properties\<close>

lemma mapCapabilities_Inr:
  assumes "mapCapabilities NewStandardCatalog ckv caps c = (Inr caps', c')"
  shows "map cap_Name caps' = map cap_Name caps \<and> (\<forall>cap\<in>set caps'.
     Validate NewStandardCatalog (cap_Name cap) = None \<and>
     cap_InputTypes cap \<noteq> [] \<and> cap_OutputTypes cap \<noteq> [] \<and>
     (Lookup NewStandardCatalog (cap_Name cap) \<noteq> None \<longrightarrow>
        cap_Name cap = cap_Category cap @ ''.'' @ cap_Action cap))"
  using assms
proof (induction caps arbitrary: c caps')
  case Nil
  then show ?case by simp
next
  case (Cons cap caps)
  let ?cap' = "of_tax (AutoMap NewStandardCatalog (to_tax cap))"
  obtain c1 rest where v: "Validate NewStandardCatalog (cap_Name cap) = None"
    and t: "Lookup NewStandardCatalog (cap_Name cap) = None \<longrightarrow> cap_InputTypes cap \<noteq> [] \<and> cap_OutputTypes cap \<noteq> []"
    and r: "mapCapabilities NewStandardCatalog ckv caps c1 = (Inr rest, c')" and caps': "caps' = ?cap' # rest"
    using Cons.prems by (auto simp: Let_def split: option.splits if_splits sum.splits prod.splits)
  have n: "cap_Name ?cap' = cap_Name cap" by (simp add: of_tax_def to_tax_def)
  have "cap_InputTypes ?cap' \<noteq> [] \<and> cap_OutputTypes ?cap' \<noteq> [] \<and>
    (Lookup NewStandardCatalog (cap_Name cap) \<noteq> None \<longrightarrow>
       cap_Name cap = cap_Category ?cap' @ ''.'' @ cap_Action ?cap')"
  proof (cases "Lookup NewStandardCatalog (cap_Name cap)")
    case None
    then show ?thesis using t AutoMap_vendor [of NewStandardCatalog "to_tax cap"]
      by (simp add: to_tax_def of_tax_def)
  next
    case (Some e)
    then show ?thesis using AutoMap_standard [of "to_tax cap" e] by (simp add: to_tax_def of_tax_def)
  qed
  then show ?case using Cons.IH [OF r] v n caps' by simp
qed

definition ex_capability :: Capability where
  "ex_capability = \<lparr>cap_Name = ''nlp.qa'', cap_Version = ''1.0.0'', cap_Description = [],
     cap_Parameters = Map.empty, cap_Category = [], cap_Action = [], cap_InputTypes = [],
     cap_OutputTypes = []\<rparr>"

definition ex_registration :: "string \<Rightarrow> AgentRegistration" where
  "ex_registration n = \<lparr>reg_AgentID = n, reg_AgentType = ''worker'', reg_Version = ''1'',
     reg_Capabilities = [ex_capability], reg_Labels = Map.empty, reg_Status = StatusRegistering,
     reg_LastSeen = 0, reg_MissedHeartbeats = 0, reg_NodeID = ''n1'', reg_Origin = [], reg_Revision = 0\<rparr>"

text \<open>
  C25. A successful registration stores exactly one entry, under the agent's ID: ACTIVE, no missed
  heartbeats, last seen now, with the declared capabilities in order, each of them a valid
  standard or vendor name with non-empty input and output types, and a standard one split into
  its category and action. Nothing else in the bucket changes.
\<close>

theorem register_stores_validated:
  assumes "agent_bucket r view" and "kr_catalog r = Some NewStandardCatalog"
    and "Register r reg now (s, c) = (Inr rv, (s', c'))"
  shows "\<exists>caps. view s' = (view s)(reg_AgentID reg \<mapsto> (Json (reg\<lparr>reg_Capabilities := caps,
           reg_Status := StatusActive, reg_LastSeen := now, reg_MissedHeartbeats := 0\<rparr>), rv)) \<and>
     reg_AgentID reg \<noteq> [] \<and> caps \<noteq> [] \<and> map cap_Name caps = map cap_Name (reg_Capabilities reg) \<and>
     (\<forall>cap\<in>set caps. Validate NewStandardCatalog (cap_Name cap) = None \<and>
        cap_InputTypes cap \<noteq> [] \<and> cap_OutputTypes cap \<noteq> [] \<and>
        (Lookup NewStandardCatalog (cap_Name cap) \<noteq> None \<longrightarrow>
           cap_Name cap = cap_Category cap @ ''.'' @ cap_Action cap))"
proof -
  obtain caps where
    caps: "mapCapabilities NewStandardCatalog (kr_catalogKV r) (reg_Capabilities reg) c = (Inr caps, c')"
    and v: "view s' = (view s)(reg_AgentID reg \<mapsto> (Json (reg\<lparr>reg_Capabilities := caps,
           reg_Status := StatusActive, reg_LastSeen := now, reg_MissedHeartbeats := 0\<rparr>), rv))"
    and ne: "reg_AgentID reg \<noteq> []" "reg_Capabilities reg \<noteq> []"
    by (rule agent_bucket.Register_Inr [OF assms(1,3)]) (simp add: assms(2))
  from mapCapabilities_Inr [OF caps] ne have "caps \<noteq> []" by auto
  with mapCapabilities_Inr [OF caps] v ne show ?thesis by blast
qed

theorem register_stores_validated_witness:
  "\<exists>s' c' caps. Register (mem_registry 3 6 (Some NewStandardCatalog)) (ex_registration ''a1'') 7
       (empty_bucket, empty_bucket) = (Inr 1, (s', c')) \<and>
     mem_view s' ''a1'' = Some (Json ((ex_registration ''a1'')\<lparr>reg_Capabilities := caps,
        reg_Status := StatusActive, reg_LastSeen := 7, reg_MissedHeartbeats := 0\<rparr>), 1) \<and>
     map cap_Name caps = [''nlp.qa'']"
proof -
  let ?r = "mem_registry 3 6 (Some NewStandardCatalog)"
  have "fst (Register ?r (ex_registration ''a1'') 7 (empty_bucket, empty_bucket)) = Inr 1"
    by code_simp
  then obtain s' c' where h: "Register ?r (ex_registration ''a1'') 7 (empty_bucket, empty_bucket) = (Inr 1, (s', c'))"
    by (metis prod.exhaust_sel)
  have "kr_catalog ?r = Some NewStandardCatalog" by (simp add: mem_registry_def)
  from register_stores_validated [OF mem_reg.agent_bucket_axioms this h] h show ?thesis
    by (auto simp: ex_registration_def ex_capability_def)
qed

text \<open>
  Optimistic concurrency: a status change, a recorded heartbeat or a counted miss that carries
  a revision other than the stored one fails and leaves the bucket as it is, whatever the other
  arguments are.
\<close>

lemma stale_revision_no_effect:
  assumes "agent_bucket r view" and "\<And>u. view s k \<noteq> Some (u, q)"
  shows "view (snd (UpdateStatus r k st q s)) = view s \<and> (\<exists>e. fst (UpdateStatus r k st q s) = Inl e) \<and>
    view (snd (RecordHeartbeat r k q now s)) = view s \<and> (\<exists>e. fst (RecordHeartbeat r k q now s) = Inl e) \<and>
    view (snd (IncrementMissedHeartbeats r k q s)) = view s \<and>
    (\<exists>e. fst (IncrementMissedHeartbeats r k q s) = Inl e)"
  using agent_bucket.UpdateStatus_stale [OF assms(1) prod.collapse [symmetric] assms(2)]
    agent_bucket.RecordHeartbeat_stale [OF assms(1) prod.collapse [symmetric] assms(2)]
    agent_bucket.IncrementMissedHeartbeats_stale [OF assms(1) prod.collapse [symmetric] assms(2)]
  by blast

definition ex_bucket :: "AgentRegistration json bucket" where
  "ex_bucket = \<lparr>bk_entries = [(''a1'', Json ((ex_registration ''a1'')\<lparr>reg_Status := StatusDead\<rparr>), 4)], bk_seq = 4\<rparr>"

lemma stale_revision_no_effect_witness:
  "mem_view (snd (RecordHeartbeat (mem_registry 3 6 None) ''a1'' 3 9 ex_bucket)) = mem_view ex_bucket"
proof -
  have "mem_view ex_bucket ''a1'' \<noteq> Some (u, 3)" for u
    by (simp add: mem_view_def ex_bucket_def)
  from stale_revision_no_effect [OF mem_reg.agent_bucket_axioms this] show ?thesis by blast
qed

text \<open>
  A heartbeat or a counted miss moves the agent's own entry along an edge of the lifecycle
  (ACTIVE to UNHEALTHY, UNHEALTHY back to ACTIVE or on to DEAD, or no change) and no other entry;
  no entry appears or disappears.
\<close>

lemma heartbeats_follow_lifecycle:
  assumes "agent_bucket r view"
    and "RecordHeartbeat r k q now s = (res, s') \<or> IncrementMissedHeartbeats r k q s = (res', s')"
    and "view s k' = Some (Json a, q1)"
  shows "\<exists>b q2. view s' k' = Some (Json b, q2) \<and> lifecycle_edge (reg_Status a) (reg_Status b) \<and>
           reg_AgentID b = reg_AgentID a \<and> (k' \<noteq> k \<longrightarrow> b = a \<and> q2 = q1)"
proof -
  have edge: "lifecycle_edge (reg_Status a) (reg_Status (f (a\<lparr>reg_Revision := q\<rparr>)))"
    if "\<And>reg. lifecycle_edge (reg_Status reg) (reg_Status (f reg))" for f
    using that [of "a\<lparr>reg_Revision := q\<rparr>"] by simp
  show ?thesis
    using assms(2)
  proof
    assume "RecordHeartbeat r k q now s = (res, s')"
    from agent_bucket.RecordHeartbeat_effect [OF assms(1) this] assms(3) edge [OF beat_edge]
    show ?thesis by (cases "k' = k") (auto intro: edge_same)
  next
    assume "IncrementMissedHeartbeats r k q s = (res', s')"
    from agent_bucket.IncrementMissedHeartbeats_effect [OF assms(1) this] assms(3) edge [OF miss_edge]
    show ?thesis by (cases "k' = k") (auto intro: edge_same)
  qed
qed

lemma heartbeats_follow_lifecycle_witness:
  "\<exists>b q2. mem_view (snd (RecordHeartbeat (mem_registry 3 6 None) ''a1'' 4 9 ex_bucket)) ''a1'' = Some (Json b, q2)
      \<and> lifecycle_edge StatusDead (reg_Status b)"
proof -
  have v: "mem_view ex_bucket ''a1'' = Some (Json ((ex_registration ''a1'')\<lparr>reg_Status := StatusDead\<rparr>), 4)"
    by (simp add: mem_view_def ex_bucket_def)
  have "RecordHeartbeat (mem_registry 3 6 None) ''a1'' 4 9 ex_bucket =
     (fst (RecordHeartbeat (mem_registry 3 6 None) ''a1'' 4 9 ex_bucket),
      snd (RecordHeartbeat (mem_registry 3 6 None) ''a1'' 4 9 ex_bucket))" by simp
  from heartbeats_follow_lifecycle [OF mem_reg.agent_bucket_axioms disjI1 [OF this] v] show ?thesis by auto
qed

context agent_bucket
begin

lemma dead_run_keeps: "(monitor_step r)\<^sup>*\<^sup>* s s' \<Longrightarrow> dead_or_gone view k s \<Longrightarrow> dead_or_gone view k s'"
  by (rule dead.run_keeps)

end

text \<open>
  Dead agents stay dead: along any sequence of heartbeats, counted misses and removals, at
  whatever revisions and on whatever agents, an agent that is DEAD is still DEAD or has been
  removed. Only a new registration brings it back.
\<close>

theorem dead_agents_stay_dead:
  assumes "agent_bucket r view" and "(monitor_step r)\<^sup>*\<^sup>* s s'"
    and "view s k = Some (Json reg, q)" and "reg_Status reg = StatusDead"
  shows "view s' k = None \<or> (\<exists>reg' q'. view s' k = Some (Json reg', q') \<and> reg_Status reg' = StatusDead)"
proof -
  have "dead_or_gone view k s" using assms(3,4) by (simp add: dead_or_gone_def)
  then have "dead_or_gone view k s'" using agent_bucket.dead_run_keeps [OF assms(1,2)] by blast
  then show ?thesis by (auto simp: dead_or_gone_def split: option.splits json.splits prod.splits)
qed

theorem dead_agents_stay_dead_witness:
  "let s' = snd (RecordHeartbeat (mem_registry 3 6 None) ''a1'' 4 9 ex_bucket) in
     mem_view s' ''a1'' = None \<or>
     (\<exists>reg' q'. mem_view s' ''a1'' = Some (Json reg', q') \<and> reg_Status reg' = StatusDead)"
proof -
  let ?r = "mem_registry 3 6 None"
  have run: "(monitor_step ?r)\<^sup>*\<^sup>* ex_bucket (snd (RecordHeartbeat ?r ''a1'' 4 9 ex_bucket))"
    by (rule r_into_rtranclp, rule step_beat, rule prod.collapse [symmetric])
  have v: "mem_view ex_bucket ''a1'' = Some (Json ((ex_registration ''a1'')\<lparr>reg_Status := StatusDead\<rparr>), 4)"
    by (simp add: mem_view_def ex_bucket_def)
  from dead_agents_stay_dead [OF mem_reg.agent_bucket_axioms run v] show ?thesis by simp
qed

text \<open>
  C3. Capability search is sound and complete: the agents returned are exactly the stored,
  readable entries that are ACTIVE and declare a capability whose name matches the query (literally,
  or as a glob when the query has a wildcard) in a version that satisfies the constraint, each
  carrying its stored revision, in ascending order of agent ID.
\<close>

theorem find_by_capability_correct:
  assumes "agent_bucket r view" and "FindByCapability r name vc s = Inr agents"
  shows "sorted (map reg_AgentID agents) \<and>
    set agents = {reg\<lparr>reg_Revision := q\<rparr> | k reg q. view s k = Some (Json reg, q) \<and>
      reg_Status reg = StatusActive \<and>
      (\<exists>cap\<in>set (reg_Capabilities reg). glob_sem name (cap_Name cap) \<and>
         (vc = [] \<or> HasPrefix (cap_Version cap) (TrimSuffix (TrimSuffix vc ''x'') ''X'')))}"
proof -
  have "offers name vc reg \<longleftrightarrow> (\<exists>cap\<in>set (reg_Capabilities reg). glob_sem name (cap_Name cap) \<and>
         (vc = [] \<or> HasPrefix (cap_Version cap) (TrimSuffix (TrimSuffix vc ''x'') ''X'')))" for reg
    by (auto simp: offers_def list_ex_iff capabilityMatches_def versionMatches_def globMatch_sem
        matchGlob_def sem_literal)
  then show ?thesis using agent_bucket.FindByCapability_Inr [OF assms] by simp
qed

theorem find_by_capability_correct_witness:
  "\<exists>agents. FindByCapability (mem_registry 3 6 None) ''nlp.*'' ''1.x''
       \<lparr>bk_entries = [(''a1'', Json ((ex_registration ''a1'')\<lparr>reg_Status := StatusActive\<rparr>), 1)], bk_seq = 1\<rparr>
       = Inr agents \<and> sorted (map reg_AgentID agents)"
proof -
  let ?b = "\<lparr>bk_entries = [(''a1'', Json ((ex_registration ''a1'')\<lparr>reg_Status := StatusActive\<rparr>), 1)],
              bk_seq = 1::nat\<rparr>"
  have "FindByCapability (mem_registry 3 6 None) ''nlp.*'' ''1.x'' ?b \<noteq> Inl e" for e
    by (simp add: FindByCapability_def List_def Get_def mem_registry_def mem_defs)
  then obtain agents where h: "FindByCapability (mem_registry 3 6 None) ''nlp.*'' ''1.x'' ?b = Inr agents"
    by (metis sum.exhaust)
  from find_by_capability_correct [OF mem_reg.agent_bucket_axioms h] h show ?thesis by blast
qed

lemma remoteKey_prefix:
  assumes "CHR ''.'' \<notin> set n" and "CHR ''.'' \<notin> set m"
    and "HasPrefix (remoteKey m a) (''remote.'' @ n @ ''.'')"
  shows "m = n"
proof -
  from assms(3) obtain t where "m @ CHR ''.'' # a = n @ CHR ''.'' # t"
    by (auto simp: HasPrefix_iff remoteKey_def)
  from namespace_unique [OF this assms(2,1)] show ?thesis ..
qed

text \<open>
  Purging a node is exact: when \<open>DeregisterRemotesByNode\<close> reports success, every entry whose key
  starts with the node's prefix is gone and every other entry is as it was; in particular the
  remote entries of another node survive if neither node ID contains a dot.
\<close>

lemma purge_node_exact:
  assumes "agent_bucket r view" and "DeregisterRemotesByNode r n s = (None, s')"
  shows "view s' = (\<lambda>k. if HasPrefix k (''remote.'' @ n @ ''.'') then None else view s k) \<and>
    (\<forall>a. view s' (remoteKey n a) = None) \<and>
    (\<forall>m a. CHR ''.'' \<notin> set n \<and> CHR ''.'' \<notin> set m \<and> m \<noteq> n \<longrightarrow>
       view s' (remoteKey m a) = view s (remoteKey m a))"
proof -
  have v: "view s' = (\<lambda>k. if HasPrefix k (''remote.'' @ n @ ''.'') then None else view s k)"
    using agent_bucket.DeregisterRemotesByNode_None [OF assms] .
  have p: "HasPrefix (remoteKey n a) (''remote.'' @ n @ ''.'')" for a
    using HasPrefix_refl [of "''remote.'' @ n @ ''.''" a] by (simp add: remoteKey_def)
  show ?thesis unfolding v using p remoteKey_prefix by auto
qed

definition ex_remotes :: "AgentRegistration json bucket" where
  "ex_remotes = \<lparr>bk_entries = [(remoteKey ''n1'' ''a'', Corrupt, 1), (remoteKey ''n1.eu'' ''b'', Corrupt, 2)],
     bk_seq = 2\<rparr>"

lemma purge_node_exact_witness:
  "mem_view (snd (DeregisterRemotesByNode (mem_registry 3 6 None) ''n1'' ex_remotes)) (remoteKey ''n1'' ''a'') = None"
proof -
  let ?x = "DeregisterRemotesByNode (mem_registry 3 6 None) ''n1'' ex_remotes"
  have "fst ?x = None" by code_simp
  then have "?x = (None, snd ?x)" by (metis prod.collapse)
  from purge_node_exact [OF mem_reg.agent_bucket_axioms this] show ?thesis by blast
qed

text \<open>
  The node prefix is ambiguous for dotted node IDs: purging node \<open>n\<close> also removes the entries
  of every node whose ID extends \<open>n\<close> by a dot and a suffix.
\<close>

lemma purge_removes_dotted_nodes:
  assumes "agent_bucket r view" and "DeregisterRemotesByNode r n s = (None, s')"
  shows "view s' (remoteKey (n @ ''.'' @ m) a) = None"
  using agent_bucket.DeregisterRemotesByNode_None [OF assms]
    HasPrefix_refl [of "''remote.'' @ n @ ''.''" "m @ ''.'' @ a"]
  by (simp add: remoteKey_def)

lemma purge_removes_dotted_nodes_witness:
  "mem_view ex_remotes (remoteKey ''n1.eu'' ''b'') = Some (Corrupt, 2) \<and>
   mem_view (snd (DeregisterRemotesByNode (mem_registry 3 6 None) ''n1'' ex_remotes))
     (remoteKey (''n1'' @ ''.'' @ ''eu'') ''b'') = None"
proof
  show "mem_view ex_remotes (remoteKey ''n1.eu'' ''b'') = Some (Corrupt, 2)"
    by (simp add: mem_view_def ex_remotes_def remoteKey_def)
  let ?x = "DeregisterRemotesByNode (mem_registry 3 6 None) ''n1'' ex_remotes"
  have "fst ?x = None" by code_simp
  then have "?x = (None, snd ?x)" by (metis prod.collapse)
  from purge_removes_dotted_nodes [OF mem_reg.agent_bucket_axioms this]
  show "mem_view (snd ?x) (remoteKey (''n1'' @ ''.'' @ ''eu'') ''b'') = None" .
qed

lemma mapCapabilities_typed:
  "mapCapabilities cat ckv caps c = (Inr caps', c') \<Longrightarrow> cap \<in> set caps \<Longrightarrow>
     Lookup cat (cap_Name cap) = None \<Longrightarrow> cap_InputTypes cap \<noteq> []"
proof (induction caps arbitrary: c caps')
  case (Cons x xs)
  obtain c1 rest where "mapCapabilities cat ckv xs c1 = (Inr rest, c')"
    and "Lookup cat (cap_Name x) = None \<Longrightarrow> cap_InputTypes x \<noteq> []"
    using Cons.prems(1) by (auto simp: Let_def split: option.splits if_splits sum.splits prod.splits)
  then show ?case using Cons.IH Cons.prems(2,3) by auto
qed simp

text \<open>
  C31. Vendor capabilities cannot be registered over the event bus when the catalog is active: the
  handler copies only name, version, description and parameters of a declared capability, and
  the registry requires a vendor capability to state its input and output types, so an
  \<open>agent.register\<close> event that declares one never changes the registry.
\<close>

theorem vendor_registration_by_event_fails:
  assumes "kr_catalog (rh_registry h) = Some cat" and "sv_dec_register sv (ev_Payload evt) = Some payload"
    and "pc \<in> set (arp_capabilities payload)" and "Lookup cat (pc_name pc) = None"
  shows "fst (fst (snd (handleRegister sv errText h evt (s, c) w))) = s"
proof -
  let ?caps = "map of_pb_cap (arp_capabilities payload)"
  let ?m = "mapCapabilities cat (kr_catalogKV (rh_registry h)) ?caps c"
  have "fst ?m \<noteq> Inr caps'" for caps'
    using mapCapabilities_typed [of cat _ ?caps c caps' "snd ?m" "of_pb_cap pc"] assms(3,4)
    by (metis (no_types, lifting) Capability.select_convs(1,7) image_eqI list.set_map of_pb_cap_def prod.collapse)
  then obtain err c' where m: "?m = (Inl err, c')" by (metis obj_sumE prod.collapse)
  have "fst (Register (rh_registry h) reg now (s, c)) \<noteq> Inr v \<and> fst (snd (Register (rh_registry h) reg now (s, c))) = s"
    if "reg_Capabilities reg = ?caps" for reg now v
    using that assms(1) m by (simp add: Register_def)
  then show ?thesis
    by (simp add: handleRegister_def assms(2) Let_def split_beta split: prod.split sum.split)
qed

text \<open>Services for closed examples, whose byte strings are register payloads.\<close>

definition ex_services :: "AgentRegisterPayload services" where
  "ex_services = (null_services \<lparr>arp_agent_id = [], arp_agent_type = [], arp_version = [],
     arp_capabilities = [], arp_labels = Map.empty\<rparr>)\<lparr>sv_dec_register := Some\<rparr>"

definition ex_vendor_payload :: AgentRegisterPayload where
  "ex_vendor_payload = \<lparr>arp_agent_id = ''a1'', arp_agent_type = ''worker'', arp_version = ''1'',
     arp_capabilities = [\<lparr>pc_name = ''acme.skill'', pc_version = ''1'', pc_description = [],
       pc_parameters = Map.empty, pc_category = [], pc_action = [],
       pc_input_types = [''text/plain''], pc_output_types = [''text/plain'']\<rparr>],
     arp_labels = Map.empty\<rparr>"

theorem vendor_registration_by_event_fails_witness:
  "fst (fst (snd (handleRegister ex_services (\<lambda>_. [])
     \<lparr>rh_registry = mem_registry 3 6 (Some NewStandardCatalog), rh_nodeID = ''n1''\<rparr>
     (zero_event ex_vendor_payload) (ex_bucket, empty_bucket) empty_world))) = ex_bucket"
proof (rule vendor_registration_by_event_fails [where cat = NewStandardCatalog and payload = ex_vendor_payload
      and pc = "hd (arp_capabilities ex_vendor_payload)"])
  show "Lookup NewStandardCatalog (pc_name (hd (arp_capabilities ex_vendor_payload))) = None"
    by (simp add: ex_vendor_payload_def Lookup_standard tax_defs)
qed (simp_all add: mem_registry_def ex_services_def null_services_def zero_event_def ex_vendor_payload_def)

end
