(* ===== verification/Streams.thy ===== *)
theory Streams
  imports Protocol "HOL-Library.AList"
begin

text \<open>
  Streams (\<open>core/router/streams.go\<close>, \<open>core/workflow/stream_manager.go\<close>): the registry that maps
  event types to JetStream streams, NATS subject matching, and the manager of per-workflow
  streams. The dynamic entries are an association list whose order stands for the unspecified
  iteration order of a Go map; no lemma depends on it. Shown: direct and workflow subjects are
  always mapped, and the manager's table and the registry's dynamic entries stay in step.
\<close>

section \<open>Subject matching\<close>

fun matchTokens :: "string list \<Rightarrow> string list \<Rightarrow> bool" where
  "matchTokens [] [] = True"
| "matchTokens (p # ps) (t # ts) = ((p = ''*'' \<or> p = t) \<and> matchTokens ps ts)"
| "matchTokens _ _ = False"

definition matchSubject :: "string \<Rightarrow> string \<Rightarrow> bool" where
  "matchSubject pattern eventType =
     (pattern = eventType \<or>
      (1 < length pattern \<and> last pattern = CHR ''>'' \<and> HasPrefix eventType (butlast pattern)) \<or>
      matchTokens (Split CHR ''.'' pattern) (Split CHR ''.'' eventType))"

lemma matchTokens_literal: "''*'' \<notin> set ps \<Longrightarrow> matchTokens ps ts \<longleftrightarrow> ps = ts"
  by (induction ps ts rule: matchTokens.induct) auto

text \<open>Without wildcards a pattern matches itself only.\<close>

lemma matchSubject_literal:
  assumes "CHR ''>'' \<notin> set p" and "CHR ''*'' \<notin> set p"
  shows "matchSubject p e \<longleftrightarrow> p = e"
proof -
  have "''*'' \<notin> set (Split CHR ''.'' p)" using Split_subset [of "''*''" "CHR ''.''" p] assms(2) by auto
  then have "matchTokens (Split CHR ''.'' p) (Split CHR ''.'' e) \<longleftrightarrow> p = e"
    by (simp add: matchTokens_literal Split_inject)
  moreover have "\<not> (1 < length p \<and> last p = CHR ''>'')"
    using assms(1) by (metis last_in_set length_greater_0_conv not_one_less_zero list.size(3))
  ultimately show ?thesis by (auto simp: matchSubject_def)
qed

lemma matchSubject_suffix: "p \<noteq> [] \<Longrightarrow> matchSubject (p @ ''>'') (p @ t)"
  by (simp add: matchSubject_def)

section \<open>The stream registry\<close>

record StreamConfig =
  st_Name :: string
  st_Subjects :: "string list"
  st_MaxAge :: int

record StreamRegistry =
  sr_streams :: "StreamConfig list"
  sr_dynamic :: "(string \<times> StreamConfig) list"

definition hours :: "int \<Rightarrow> int" where
  "hours n = n * 3600000000000"

definition NewStreamRegistry :: "StreamConfig list \<Rightarrow> StreamRegistry" where
  "NewStreamRegistry configs = \<lparr>sr_streams = configs, sr_dynamic = []\<rparr>"

definition DefaultStreamRegistry :: StreamRegistry where
  "DefaultStreamRegistry = NewStreamRegistry [
     \<lparr>st_Name = ''AGENTS'', st_Subjects = [''agent.register'', ''agent.unregister'', ''agent.error'',
        ''workflow.start'', ''workflow.state.request'', ''workflow.state.response''], st_MaxAge = hours 24\<rparr>,
     \<lparr>st_Name = ''HEALTH'', st_Subjects = [''agent.health.ping'', ''agent.health.pong''], st_MaxAge = hours 1\<rparr>,
     \<lparr>st_Name = ''DIRECT'', st_Subjects = [''agent.direct.>''], st_MaxAge = hours 24\<rparr>,
     \<lparr>st_Name = ''DISCOVERY'', st_Subjects = [''agent.capability.announce'', ''agent.discovery.request'',
        ''agent.discovery.response''], st_MaxAge = hours 24\<rparr>,
     \<lparr>st_Name = ''HUMAN'', st_Subjects = [''human.decision.request'', ''human.decision.response''], st_MaxAge = hours 24\<rparr>,
     \<lparr>st_Name = ''COORDINATION'', st_Subjects = [''decision.conflict'', ''decision.resolved''], st_MaxAge = hours 24\<rparr>,
     \<lparr>st_Name = ''FEDERATION'', st_Subjects = [''federation.>''], st_MaxAge = hours 24\<rparr>,
     \<lparr>st_Name = ''SIMULATION'', st_Subjects = [''simulation.>''], st_MaxAge = hours 24\<rparr>]"

definition RegisterDynamic :: "string \<Rightarrow> string list \<Rightarrow> StreamRegistry \<Rightarrow> StreamRegistry" where
  "RegisterDynamic name subjects r = r\<lparr>sr_dynamic :=
     AList.update name \<lparr>st_Name = name, st_Subjects = subjects, st_MaxAge = 0\<rparr> (sr_dynamic r)\<rparr>"

definition UnregisterDynamic :: "string \<Rightarrow> StreamRegistry \<Rightarrow> StreamRegistry" where
  "UnregisterDynamic name r = r\<lparr>sr_dynamic := AList.delete name (sr_dynamic r)\<rparr>"

definition carries :: "string \<Rightarrow> StreamConfig \<Rightarrow> bool" where
  "carries eventType cfg \<longleftrightarrow> list_ex (\<lambda>subj. matchSubject subj eventType) (st_Subjects cfg)"

definition StreamForEventType :: "string \<Rightarrow> StreamRegistry \<Rightarrow> string option" where
  "StreamForEventType eventType r =
     (case find (carries eventType) (sr_streams r) of
        Some cfg \<Rightarrow> Some (st_Name cfg)
      | None \<Rightarrow> map_option st_Name (find (carries eventType) (map snd (sr_dynamic r))))"

lemma StreamForEventType_dynamic:
  assumes "(name, cfg) \<in> set (sr_dynamic r)" and "carries eventType cfg"
  shows "StreamForEventType eventType r \<noteq> None"
proof -
  have "find (carries eventType) (map snd (sr_dynamic r)) \<noteq> None"
    using assms by (auto simp: find_None_iff image_iff Bex_def)
  then show ?thesis by (auto simp: StreamForEventType_def split: option.splits)
qed

section \<open>The workflow stream manager\<close>

record streamInfo =
  si_name :: string
  si_subjects :: "string list"
  si_createdAt :: int

record 'b env =
  en_world :: "'b world"
  en_active :: "(string \<times> streamInfo) list"
  en_streams :: StreamRegistry

definition wf_stream :: "string \<Rightarrow> string" where
  "wf_stream workflowID = ''WF-'' @ workflowID"

definition wf_subjects :: "string \<Rightarrow> string list" where
  "wf_subjects workflowID = [''workflow.'' @ workflowID @ ''.>'']"

text \<open>\<open>EnsureStream\<close> of the bus, answered by the environment.\<close>

definition ensureStream :: "'b services \<Rightarrow> string \<Rightarrow> 'b env \<Rightarrow> bool \<times> 'b env" where
  "ensureStream sv name en =
     (let w = en_world en in
      (sv_stream sv (w_attempts w) name, en\<lparr>en_world := w\<lparr>w_attempts := Suc (w_attempts w)\<rparr>\<rparr>))"

definition GetOrCreateStream :: "'b services \<Rightarrow> string \<Rightarrow> 'b env \<Rightarrow> string option \<times> 'b env" where
  "GetOrCreateStream sv workflowID en =
     (let streamName = wf_stream workflowID; subjects = wf_subjects workflowID in
      case map_of (en_active en) workflowID of
        Some _ \<Rightarrow> (Some streamName, en)
      | None \<Rightarrow>
          (let (ok, en1) = ensureStream sv streamName en in
           if \<not> ok then (None, en1)
           else
             (let (now, w) = time_now sv (en_world en1)
              in (Some streamName,
                  en1\<lparr>en_world := w,
                      en_active := AList.update workflowID
                        \<lparr>si_name = streamName, si_subjects = subjects, si_createdAt = now\<rparr> (en_active en1),
                      en_streams := RegisterDynamic streamName subjects (en_streams en1)\<rparr>))))"

definition LookupStream :: "string \<Rightarrow> 'b env \<Rightarrow> string option" where
  "LookupStream workflowID en = map_option si_name (map_of (en_active en) workflowID)"

definition Cleanup :: "string \<Rightarrow> 'b env \<Rightarrow> 'b env" where
  "Cleanup workflowID en =
     en\<lparr>en_active := AList.delete workflowID (en_active en),
        en_streams := UnregisterDynamic (wf_stream workflowID) (en_streams en)\<rparr>"

definition ListActive :: "'b env \<Rightarrow> string list" where
  "ListActive en = map fst (en_active en)"

text \<open>
  The manager's table and the registry agree: a workflow is tracked exactly when its stream is
  registered, under the name and subject derived from its ID.
\<close>

definition streams_agree :: "'b env \<Rightarrow> bool" where
  "streams_agree en \<longleftrightarrow>
     (\<forall>wid. map_of (en_active en) wid = None \<longleftrightarrow> map_of (sr_dynamic (en_streams en)) (wf_stream wid) = None) \<and>
     (\<forall>wid info. map_of (en_active en) wid = Some info \<longrightarrow>
        si_name info = wf_stream wid \<and> si_subjects info = wf_subjects wid \<and>
        map_of (sr_dynamic (en_streams en)) (wf_stream wid) =
          Some \<lparr>st_Name = wf_stream wid, st_Subjects = wf_subjects wid, st_MaxAge = 0\<rparr>)"

lemma wf_stream_inject [simp]: "wf_stream a = wf_stream b \<longleftrightarrow> a = b"
  by (simp add: wf_stream_def)

lemma map_of_alist_update: "map_of (AList.update k v al) = (map_of al)(k \<mapsto> v)"
  by (simp add: update_conv')

lemma map_of_alist_delete: "map_of (AList.delete k al) = (map_of al)(k := None)"
  by (simp add: delete_conv')

lemma ensureStream_keeps:
  "ensureStream sv n en = (ok, en') \<Longrightarrow> en_active en' = en_active en \<and> en_streams en' = en_streams en \<and>
     w_sent (en_world en') = w_sent (en_world en) \<and> w_wire (en_world en') = w_wire (en_world en)"
  by (auto simp: ensureStream_def Let_def)

lemma GetOrCreateStream_cases:
  assumes "GetOrCreateStream sv wid en = (res, en')"
  obtains (known) info where "map_of (en_active en) wid = Some info" "res = Some (wf_stream wid)" "en' = en"
  | (failed) "map_of (en_active en) wid = None" "res = None" "en_active en' = en_active en"
      "en_streams en' = en_streams en"
  | (created) now where "map_of (en_active en) wid = None" "res = Some (wf_stream wid)"
      "map_of (en_active en') = (map_of (en_active en))(wid \<mapsto>
         \<lparr>si_name = wf_stream wid, si_subjects = wf_subjects wid, si_createdAt = now\<rparr>)"
      "en_streams en' = RegisterDynamic (wf_stream wid) (wf_subjects wid) (en_streams en)"
  using assms
  by (auto simp: GetOrCreateStream_def Let_def ensureStream_def time_now_def map_of_alist_update
      split: option.splits if_splits prod.splits)

lemma GetOrCreateStream_sent:
  "GetOrCreateStream sv wid en = (res, en') \<Longrightarrow>
     w_sent (en_world en') = w_sent (en_world en) \<and> w_wire (en_world en') = w_wire (en_world en)"
  by (auto simp: GetOrCreateStream_def Let_def ensureStream_def time_now_def
      split: option.splits if_splits prod.splits)

lemma streams_agree_create:
  assumes "GetOrCreateStream sv wid en = (res, en')" and "streams_agree en"
  shows "streams_agree en'"
  using assms(1)
proof (cases rule: GetOrCreateStream_cases)
  case known
  then show ?thesis using assms(2) by simp
next
  case failed
  then show ?thesis using assms(2) by (simp add: streams_agree_def)
next
  case (created now)
  have "map_of (sr_dynamic (en_streams en')) = (map_of (sr_dynamic (en_streams en)))(wf_stream wid \<mapsto>
      \<lparr>st_Name = wf_stream wid, st_Subjects = wf_subjects wid, st_MaxAge = 0\<rparr>)"
    using created by (simp add: RegisterDynamic_def map_of_alist_update)
  then show ?thesis using assms(2) created(3) by (auto simp: streams_agree_def)
qed

lemma streams_agree_cleanup: "streams_agree en \<Longrightarrow> streams_agree (Cleanup wid en)"
  by (auto simp: streams_agree_def Cleanup_def UnregisterDynamic_def map_of_alist_delete)

text \<open>The DIRECT stream carries every direct subject, whatever dynamic streams there are.\<close>

lemma direct_carried:
  "StreamForEventType (''agent.direct.'' @ agentID @ ''.'' @ ty) (DefaultStreamRegistry\<lparr>sr_dynamic := dyn\<rparr>)
     = Some ''DIRECT''"
proof -
  let ?e = "''agent.direct.'' @ agentID @ ''.'' @ ty"
  have "matchSubject ''agent.direct.>'' ?e"
    using matchSubject_suffix [of "''agent.direct.''" "agentID @ ''.'' @ ty"] by simp
  then show ?thesis
    by (simp add: StreamForEventType_def DefaultStreamRegistry_def NewStreamRegistry_def carries_def matchSubject_literal)
qed

section \<open>Properties\<close>

text \<open>
  Every direct subject is carried by the DIRECT stream of the default configuration, whatever
  the agent ID and the event type, and whatever dynamic streams exist.
\<close>

lemma direct_subject_mapped:
  "StreamForEventType (''agent.direct.'' @ agentID @ ''.'' @ ty) (DefaultStreamRegistry\<lparr>sr_dynamic := dyn\<rparr>)
     = Some ''DIRECT''"
  by (rule direct_carried)

text \<open>
  Once the stream of a workflow has been obtained, every event of that workflow has a stream;
  the call is idempotent; and it leaves the manager's table and the stream registry in step.
\<close>

lemma workflow_subject_mapped:
  assumes "streams_agree en" and "GetOrCreateStream sv wid en = (Some name, en')"
  shows "StreamForEventType (''workflow.'' @ wid @ ''.'' @ ty) (en_streams en') \<noteq> None \<and>
    name = wf_stream wid \<and> LookupStream wid en' = Some name \<and>
    GetOrCreateStream sv wid en' = (Some name, en') \<and> streams_agree en'"
proof -
  have agree: "streams_agree en'" using streams_agree_create [OF assms(2,1)] .
  have name: "name = wf_stream wid" and "map_of (en_active en') wid \<noteq> None"
    using assms(2) by (cases rule: GetOrCreateStream_cases; simp)+
  then obtain info where info: "map_of (en_active en') wid = Some info" by blast
  then have dyn: "map_of (sr_dynamic (en_streams en')) (wf_stream wid) =
      Some \<lparr>st_Name = wf_stream wid, st_Subjects = wf_subjects wid, st_MaxAge = 0\<rparr>"
    and "si_name info = wf_stream wid"
    using agree by (auto simp: streams_agree_def)
  moreover have "carries (''workflow.'' @ wid @ ''.'' @ ty)
      \<lparr>st_Name = wf_stream wid, st_Subjects = wf_subjects wid, st_MaxAge = 0\<rparr>"
    using matchSubject_suffix [of "''workflow.'' @ wid @ ''.''" ty] by (simp add: carries_def wf_subjects_def)
  ultimately show ?thesis
    using name info agree StreamForEventType_dynamic [OF map_of_SomeD [OF dyn]]
    by (simp add: LookupStream_def GetOrCreateStream_def)
qed

definition ex_env :: "'b env" where
  "ex_env = \<lparr>en_world = empty_world, en_active = [], en_streams = DefaultStreamRegistry\<rparr>"

lemma streams_agree_ex: "streams_agree ex_env"
  by (simp add: streams_agree_def ex_env_def DefaultStreamRegistry_def NewStreamRegistry_def)

lemma workflow_subject_mapped_witness:
  "\<exists>en'. GetOrCreateStream (null_services ()) ''w1'' ex_env = (Some ''WF-w1'', en') \<and>
     StreamForEventType (''workflow.'' @ ''w1'' @ ''.'' @ ''workflow.step'') (en_streams en') \<noteq> None"
proof -
  have "fst (GetOrCreateStream (null_services ()) ''w1'' ex_env) = Some ''WF-w1''"
    by (simp add: GetOrCreateStream_def ensureStream_def time_now_def ex_env_def null_services_def
        wf_stream_def Let_def)
  then obtain en' where h: "GetOrCreateStream (null_services ()) ''w1'' ex_env = (Some ''WF-w1'', en')"
    by (metis prod.collapse)
  from workflow_subject_mapped [OF streams_agree_ex h, of "''workflow.step''"] h show ?thesis by blast
qed

text \<open>
  Cleaning up a workflow forgets exactly that workflow: it is no longer tracked nor registered,
  every other one is as before, and the two tables stay in step.
\<close>

lemma cleanup_forgets_one:
  assumes "streams_agree en"
  shows "LookupStream wid (Cleanup wid en) = None \<and>
    (\<forall>w'. w' \<noteq> wid \<longrightarrow> LookupStream w' (Cleanup wid en) = LookupStream w' en) \<and>
    map_of (sr_dynamic (en_streams (Cleanup wid en))) (wf_stream wid) = None \<and>
    streams_agree (Cleanup wid en)"
  using streams_agree_cleanup [OF assms]
  by (simp add: LookupStream_def Cleanup_def UnregisterDynamic_def map_of_alist_delete)

lemma cleanup_forgets_one_witness:
  "LookupStream ''w1'' (Cleanup ''w1'' (snd (GetOrCreateStream (null_services ()) ''w1'' ex_env))) = None"
proof -
  have "streams_agree (snd (GetOrCreateStream (null_services ()) ''w1'' ex_env))"
    by (rule streams_agree_create [OF prod.collapse [symmetric] streams_agree_ex])
  from cleanup_forgets_one [OF this] show ?thesis by blast
qed

end
