(* ===== verification/Router.thy ===== *)
theory Router
  imports Registry Streams
begin

text \<open>
  The event router (\<open>core/router/strategy.go\<close>, \<open>router.go\<close>) and the federation relay it forwards
  to (\<open>core/federation/relay.go\<close>). The router reads the registry through \<open>registry_if\<close>, one
  snapshot per routed event, and reaches remote nodes through \<open>relay_if\<close>; the laws of a relay are
  the locale \<open>event_relay\<close>, interpreted on the implementation. Shown: what is published on every
  branch, that a routed event is never dropped silently, and the fan-out to a capability.
\<close>

section \<open>Strategies\<close>

datatype RoutingStrategy =
  StrategyBroadcast | StrategyDirect | StrategyWorkflow | StrategyCapability | StrategyRelay

fun strategy_String :: "RoutingStrategy \<Rightarrow> string" where
  "strategy_String StrategyBroadcast = ''broadcast''"
| "strategy_String StrategyDirect = ''direct''"
| "strategy_String StrategyWorkflow = ''workflow''"
| "strategy_String StrategyCapability = ''capability''"
| "strategy_String StrategyRelay = ''relay''"

definition ResolveStrategy :: "'b event \<Rightarrow> RoutingStrategy" where
  "ResolveStrategy event =
     (if ev_TargetAgent event \<noteq> [] then StrategyDirect
      else if ev_Metadata event ''route.capability'' \<noteq> None then StrategyCapability
      else if ev_WorkflowID event \<noteq> [] then StrategyWorkflow
      else StrategyBroadcast)"

section \<open>The federation relay\<close>

datatype relay_error = RelayMarshalEvent | RelayMarshalPayload | RelayPublish

record EventRelayImpl =
  er_nodeID :: string
  er_registry :: registry_if

definition Relay :: "'b services \<Rightarrow> EventRelayImpl \<Rightarrow> string \<Rightarrow> 'b event \<Rightarrow> 'b world \<Rightarrow>
    relay_error option \<times> 'b world" where
  "Relay sv r targetNodeID event w =
     (case sv_marshal sv (MAgentEvent event) of
        None \<Rightarrow> (Some RelayMarshalEvent, w)
      | Some originalBytes \<Rightarrow>
          (let (uid, w1) = new_uuid sv w; (now, w2) = time_now sv w1 in
           case sv_marshal sv (MFederationRelay \<lparr>frp_source_node_id = er_nodeID r,
                  frp_target_node_id = targetNodeID, frp_original_event = originalBytes,
                  frp_relay_id = uid, frp_relay_timestamp = now\<rparr>) of
             None \<Rightarrow> (Some RelayMarshalPayload, w2)
           | Some data \<Rightarrow>
               (let (ok, w3) = wire_publish sv
                      (''federation.relay.'' @ targetNodeID @ ''.'' @ ev_Type event) data w2
                in (if ok then None else Some RelayPublish, w3))))"

text \<open>The answer is the pair \<open>(isRemote, nodeID)\<close>, or the error of listing.\<close>

definition IsRemoteAgent :: "EventRelayImpl \<Rightarrow> string \<Rightarrow> reg_error + (bool \<times> string)" where
  "IsRemoteAgent r agentID =
     (case ri_get (er_registry r) agentID of
        Inr (reg, _) \<Rightarrow> Inr (if IsRemote reg then (True, reg_NodeID reg) else (False, []))
      | Inl _ \<Rightarrow>
          (case ri_list (er_registry r) of
             Inl err \<Rightarrow> Inl err
           | Inr agents \<Rightarrow>
               (case find (\<lambda>a. reg_AgentID a = agentID \<and> IsRemote a) agents of
                  Some a \<Rightarrow> Inr (True, reg_NodeID a)
                | None \<Rightarrow> Inr (False, []))))"

text \<open>The interface the router holds.\<close>

record 'b relay_if =
  rl_relay :: "string \<Rightarrow> 'b event \<Rightarrow> 'b world \<Rightarrow> relay_error option \<times> 'b world"
  rl_is_remote :: "string \<Rightarrow> reg_error + (bool \<times> string)"

definition relay_of :: "'b services \<Rightarrow> EventRelayImpl \<Rightarrow> 'b relay_if" where
  "relay_of sv r = \<lparr>rl_relay = Relay sv r, rl_is_remote = IsRemoteAgent r\<rparr>"

locale event_relay =
  fixes rl :: "'b relay_if"
  assumes relay_ok: "rl_relay rl node e w = (None, w') \<Longrightarrow>
      w_sent w' = w_sent w \<and> (\<exists>data. w_wire w' = w_wire w @ [(''federation.relay.'' @ node @ ''.'' @ ev_Type e, data)])"
    and relay_err: "rl_relay rl node e w = (Some err, w') \<Longrightarrow> w_sent w' = w_sent w \<and> w_wire w' = w_wire w"
begin

lemma relay_keeps_bus: "rl_relay rl node e w = (res, w') \<Longrightarrow> w_sent w' = w_sent w"
  by (cases res) (use relay_ok relay_err in blast)+

end

interpretation impl: event_relay "relay_of sv r" for sv r
proof
  fix node e w w' err
  show "rl_relay (relay_of sv r) node e w = (None, w') \<Longrightarrow> w_sent w' = w_sent w \<and>
      (\<exists>data. w_wire w' = w_wire w @ [(''federation.relay.'' @ node @ ''.'' @ ev_Type e, data)])"
    by (auto simp: relay_of_def Relay_def new_uuid_def time_now_def Let_def
        split: option.splits prod.splits if_splits dest!: wire_publish_True)
  show "rl_relay (relay_of sv r) node e w = (Some err, w') \<Longrightarrow> w_sent w' = w_sent w \<and> w_wire w' = w_wire w"
    by (auto simp: relay_of_def Relay_def new_uuid_def time_now_def Let_def
        split: option.splits prod.splits if_splits dest!: wire_publish_False)
qed

section \<open>The router\<close>

text \<open>
  The stream registry and the stream manager are in the environment the router acts on.
\<close>

record 'b DefaultRouter =
  dr_registry :: registry_if
  dr_relay :: "'b relay_if option"

datatype route_error =
  RouteEnsureStream | RouteList reg_error | RoutePublish publish_error | RouteRelay relay_error
  | RouteUnimplemented

definition SetRelay :: "'b relay_if option \<Rightarrow> 'b DefaultRouter \<Rightarrow> 'b DefaultRouter" where
  "SetRelay rl r = r\<lparr>dr_relay := rl\<rparr>"

definition on_world :: "('e \<Rightarrow> route_error) \<Rightarrow> ('b world \<Rightarrow> 'e option \<times> 'b world) \<Rightarrow> 'b env \<Rightarrow>
    route_error option \<times> 'b env" where
  "on_world err f en = (let (res, w) = f (en_world en) in (map_option err res, en\<lparr>en_world := w\<rparr>))"

definition Publish :: "'b services \<Rightarrow> 'b event \<Rightarrow> 'b world \<Rightarrow> publish_error option \<times> 'b world" where
  "Publish sv event w = (let (ok, w') = bus_publish sv event w in (if ok then None else Some PublishFailed, w'))"

definition publishError :: "'b services \<Rightarrow> string \<Rightarrow> string \<Rightarrow> string \<Rightarrow> 'b world \<Rightarrow>
    publish_error option \<times> 'b world" where
  "publishError sv agentID code message w =
     emit sv (MAgentError \<lparr>aep_agent_id = agentID, aep_error_code = code, aep_message = message,
                aep_stack_trace = [], aep_workflow_id = []\<rparr>)
       (\<lambda>data. (zero_event data)\<lparr>ev_Type := ''agent.error'', ev_SourceNode := ''runtime'',
                                ev_SourceAgent := ''router''\<rparr>) w"

definition isRelayedEvent :: "'b event \<Rightarrow> bool" where
  "isRelayedEvent event \<longleftrightarrow> ev_Metadata event ''federation.relayed'' = Some ''true''"

definition relayToNode :: "'b relay_if \<Rightarrow> string \<Rightarrow> 'b event \<Rightarrow> 'b env \<Rightarrow> route_error option \<times> 'b env" where
  "relayToNode rl nodeID event = on_world RouteRelay (rl_relay rl nodeID event)"

definition directEvent :: "'b event \<Rightarrow> 'b event" where
  "directEvent event = event\<lparr>ev_Type := ''agent.direct.'' @ ev_TargetAgent event @ ''.'' @ ev_Type event\<rparr>"

definition routeDirect :: "'b services \<Rightarrow> 'b DefaultRouter \<Rightarrow> 'b event \<Rightarrow> 'b env \<Rightarrow> route_error option \<times> 'b env" where
  "routeDirect sv r event en =
     (case ri_get (dr_registry r) (ev_TargetAgent event) of
        Inl _ \<Rightarrow>
          (case (case dr_relay r of
                   None \<Rightarrow> None
                 | Some rl \<Rightarrow> (case rl_is_remote rl (ev_TargetAgent event) of
                       Inr (True, nodeID) \<Rightarrow> Some (rl, nodeID) | _ \<Rightarrow> None)) of
             Some (rl, nodeID) \<Rightarrow> relayToNode rl nodeID event en
           | None \<Rightarrow> on_world RoutePublish (publishError sv (ev_SourceAgent event) ''ROUTER_TARGET_NOT_FOUND''
               (''target agent '' @ sv_quote sv (ev_TargetAgent event) @ '' not found in registry'')) en)
      | Inr (reg, _) \<Rightarrow>
          (case dr_relay r of
             Some rl \<Rightarrow>
               if IsRemote reg \<and> \<not> isRelayedEvent event then relayToNode rl (reg_NodeID reg) event en
               else on_world RoutePublish (Publish sv (directEvent event)) en
           | None \<Rightarrow> on_world RoutePublish (Publish sv (directEvent event)) en))"

definition routeWorkflow :: "'b services \<Rightarrow> 'b event \<Rightarrow> 'b env \<Rightarrow> route_error option \<times> 'b env" where
  "routeWorkflow sv event en =
     (case GetOrCreateStream sv (ev_WorkflowID event) en of
        (None, en') \<Rightarrow> (Some RouteEnsureStream, en')
      | (Some _, en') \<Rightarrow> on_world RoutePublish (Publish sv
           (event\<lparr>ev_Type := ''workflow.'' @ ev_WorkflowID event @ ''.'' @ ev_Type event\<rparr>)) en')"

definition routeBroadcast :: "'b services \<Rightarrow> 'b DefaultRouter \<Rightarrow> 'b event \<Rightarrow> 'b env \<Rightarrow> route_error option \<times> 'b env" where
  "routeBroadcast sv r event en =
     (case StreamForEventType (ev_Type event) (en_streams en) of
        None \<Rightarrow> on_world RoutePublish (publishError sv (ev_SourceAgent event) ''ROUTER_UNMAPPED_EVENT_TYPE''
          (''no stream mapped for event type '' @ sv_quote sv (ev_Type event))) en
      | Some _ \<Rightarrow> on_world RoutePublish (Publish sv event) en)"

text \<open>The loop that splits the active matching agents, in registry order.\<close>

fun matchAgents :: "string \<Rightarrow> AgentRegistration list \<Rightarrow> AgentRegistration list \<times> AgentRegistration list" where
  "matchAgents capability [] = ([], [])"
| "matchAgents capability (agent # agents) =
     (let (local, remote) = matchAgents capability agents in
      if reg_Status agent \<noteq> StatusActive then (local, remote)
      else if list_ex (\<lambda>cap. cap_Name cap = capability) (reg_Capabilities agent)
           then (if IsRemote agent then (local, agent # remote) else (agent # local, remote))
           else (local, remote))"

definition fanEvent :: "'b event \<Rightarrow> string \<Rightarrow> AgentRegistration \<Rightarrow> 'b event" where
  "fanEvent event uid agent = event\<lparr>ev_ID := uid, ev_TargetAgent := reg_AgentID agent,
     ev_Metadata := (ev_Metadata event)(''route.capability'' := None)\<rparr>"

fun fanOut :: "'b services \<Rightarrow> 'b DefaultRouter \<Rightarrow> 'b event \<Rightarrow> AgentRegistration list \<Rightarrow> 'b env \<Rightarrow>
    route_error option \<times> 'b env" where
  "fanOut sv r event [] en = (None, en)"
| "fanOut sv r event (agent # agents) en =
     (let (uid, w) = new_uuid sv (en_world en) in
      case routeDirect sv r (fanEvent event uid agent) (en\<lparr>en_world := w\<rparr>) of
        (Some err, en') \<Rightarrow> (Some err, en')
      | (None, en') \<Rightarrow> fanOut sv r event agents en')"

definition routeCapability :: "'b services \<Rightarrow> 'b DefaultRouter \<Rightarrow> 'b event \<Rightarrow> 'b env \<Rightarrow> route_error option \<times> 'b env" where
  "routeCapability sv r event en =
     (let capability = (case ev_Metadata event ''route.capability'' of Some c \<Rightarrow> c | None \<Rightarrow> []) in
      case ri_list (dr_registry r) of
        Inl err \<Rightarrow> (Some (RouteList err), en)
      | Inr agents \<Rightarrow>
          (let (local, remote) = matchAgents capability agents;
               matched = (if local = [] then remote else local)
           in if matched = [] then
                on_world RoutePublish (publishError sv (ev_SourceAgent event) ''ROUTER_NO_CAPABILITY_MATCH''
                  (''no agents found with capability '' @ sv_quote sv capability)) en
              else fanOut sv r event matched en))"

definition Route :: "'b services \<Rightarrow> 'b DefaultRouter \<Rightarrow> 'b event \<Rightarrow> 'b env \<Rightarrow> route_error option \<times> 'b env" where
  "Route sv r event en =
     (case ResolveStrategy event of
        StrategyDirect \<Rightarrow> routeDirect sv r event en
      | StrategyWorkflow \<Rightarrow> routeWorkflow sv event en
      | StrategyCapability \<Rightarrow> routeCapability sv r event en
      | StrategyBroadcast \<Rightarrow> routeBroadcast sv r event en
      | StrategyRelay \<Rightarrow> (Some RouteUnimplemented, en))"

section \<open>What each route publishes\<close>

text \<open>The bus events and the federation messages an action appends.\<close>

definition published :: "'b env \<Rightarrow> 'b env \<Rightarrow> 'b event list \<Rightarrow> (string \<times> 'b) list \<Rightarrow> bool" where
  "published en en' es ms \<longleftrightarrow> w_sent (en_world en') = w_sent (en_world en) @ es \<and>
     w_wire (en_world en') = w_wire (en_world en) @ ms"

lemma published_refl [simp]: "published en en [] []"
  by (simp add: published_def)

lemma published_trans:
  "published en en1 es ms \<Longrightarrow> published en1 en2 es' ms' \<Longrightarrow> published en en2 (es @ es') (ms @ ms')"
  by (simp add: published_def)

lemma published_uuid:
  "published (en\<lparr>en_world := snd (new_uuid sv (en_world en))\<rparr>) en' es ms \<longleftrightarrow> published en en' es ms"
  by (simp add: published_def)

definition router_error :: "'b services \<Rightarrow> string \<Rightarrow> string \<Rightarrow> string \<Rightarrow> 'b event \<Rightarrow> bool" where
  "router_error sv agentID code message e \<longleftrightarrow> ev_Type e = ''agent.error'' \<and> ev_SourceAgent e = ''router'' \<and>
     sv_marshal sv (MAgentError \<lparr>aep_agent_id = agentID, aep_error_code = code, aep_message = message,
                aep_stack_trace = [], aep_workflow_id = []\<rparr>) = Some (ev_Payload e)"

lemma Publish_published:
  assumes "on_world RoutePublish (Publish sv e) en = (res, en')"
  shows "published en en' (if res = None then [e] else []) [] \<and> en_active en' = en_active en \<and>
    en_streams en' = en_streams en"
  using assms
  by (auto simp: on_world_def Publish_def published_def Let_def split: prod.splits if_splits
      dest: bus_publish_True bus_publish_False)

lemma publishError_published:
  assumes "on_world RoutePublish (publishError sv a c m) en = (res, en')"
  obtains (sent) e where "res = None" "router_error sv a c m e" "published en en' [e] []"
  | (failed) err where "res = Some (RoutePublish err)" "published en en' [] []"
proof -
  obtain r w' where p: "publishError sv a c m (en_world en) = (r, w')" by fastforce
  with assms have res: "res = map_option RoutePublish r" "en' = en\<lparr>en_world := w'\<rparr>"
    by (auto simp: on_world_def)
  show thesis
  proof (cases r)
    case None
    with p have "publishError sv a c m (en_world en) = (None, w')" by simp
    then show thesis unfolding publishError_def
      by (rule emit_None) (rule sent, use res None in \<open>auto simp: published_def router_error_def zero_event_def\<close>)
  next
    case (Some e)
    with p show thesis by (intro failed [of e]) (use res in \<open>auto simp: published_def publishError_def dest: emit_Some\<close>)
  qed
qed

context event_relay
begin

lemma relayToNode_published:
  assumes "relayToNode rl node e en = (res, en')"
  shows "(res = None \<and> (\<exists>data. published en en' [] [(''federation.relay.'' @ node @ ''.'' @ ev_Type e, data)])) \<or>
    (res \<noteq> None \<and> published en en' [] [])"
proof -
  obtain r w' where p: "rl_relay rl node e (en_world en) = (r, w')" by fastforce
  with assms have "res = map_option RouteRelay r" "en' = en\<lparr>en_world := w'\<rparr>"
    by (auto simp: relayToNode_def on_world_def)
  with p show ?thesis using relay_ok relay_err by (cases r) (auto simp: published_def)
qed

end

text \<open>A router whose relay, if it has one, obeys the relay's laws.\<close>

definition sound_relay :: "'b DefaultRouter \<Rightarrow> bool" where
  "sound_relay r \<longleftrightarrow> (\<forall>rl. dr_relay r = Some rl \<longrightarrow> event_relay rl)"

lemma routeDirect_cases:
  assumes "routeDirect sv r e en = (res, en')" and "sound_relay r"
  obtains (delivered) reg q where "ri_get (dr_registry r) (ev_TargetAgent e) = Inr (reg, q)" "res = None"
      "IsRemote reg \<longrightarrow> dr_relay r = None \<or> isRelayedEvent e" "published en en' [directEvent e] []"
  | (relayed) node data where "res = None" "dr_relay r \<noteq> None"
      "published en en' [] [(''federation.relay.'' @ node @ ''.'' @ ev_Type e, data)]"
  | (reported) err x where "ri_get (dr_registry r) (ev_TargetAgent e) = Inl err" "res = None"
      "router_error sv (ev_SourceAgent e) ''ROUTER_TARGET_NOT_FOUND''
         (''target agent '' @ sv_quote sv (ev_TargetAgent e) @ '' not found in registry'') x"
      "published en en' [x] []"
  | (failed) err where "res = Some err" "published en en' [] []"
proof -
  have rl: "relayToNode rl node e en = (res, en') \<Longrightarrow> dr_relay r = Some rl \<Longrightarrow> thesis" for rl node
    using event_relay.relayToNode_published [of rl node e en res en'] assms(2) relayed failed
    by (auto simp: sound_relay_def)
  show thesis
  proof (cases "ri_get (dr_registry r) (ev_TargetAgent e)")
    case (Inl err)
    show thesis
    proof (cases "\<exists>rl node. dr_relay r = Some rl \<and> rl_is_remote rl (ev_TargetAgent e) = Inr (True, node)")
      case True
      then show thesis using assms(1) Inl rl by (auto simp: routeDirect_def)
    next
      case False
      then have "on_world RoutePublish (publishError sv (ev_SourceAgent e) ''ROUTER_TARGET_NOT_FOUND''
          (''target agent '' @ sv_quote sv (ev_TargetAgent e) @ '' not found in registry'')) en = (res, en')"
        using assms(1) Inl by (auto simp: routeDirect_def split: option.splits sum.splits bool.splits)
      then show thesis by (rule publishError_published) (use Inl reported failed in auto)
    qed
  next
    case (Inr p)
    obtain reg q where p: "p = (reg, q)" by fastforce
    show thesis
    proof (cases "IsRemote reg \<and> dr_relay r \<noteq> None \<and> \<not> isRelayedEvent e")
      case True
      then show thesis using assms(1) Inr p rl by (auto simp: routeDirect_def)
    next
      case False
      then have "on_world RoutePublish (Publish sv (directEvent e)) en = (res, en')"
        using assms(1) Inr p by (auto simp: routeDirect_def split: option.splits)
      from Publish_published [OF this] show thesis
        using False Inr p delivered failed by (cases res) auto
    qed
  qed
qed


lemma routeDirect_local:
  assumes "ri_get (dr_registry r) (ev_TargetAgent e) = Inr (reg, q)" and "\<not> IsRemote reg"
  shows "routeDirect sv r e en = on_world RoutePublish (Publish sv (directEvent e)) en"
  using assms by (simp add: routeDirect_def split: option.splits)

lemma matchAgents_filter:
  "matchAgents c agents =
     (filter (\<lambda>a. reg_Status a = StatusActive \<and> (\<exists>cap\<in>set (reg_Capabilities a). cap_Name cap = c) \<and> \<not> IsRemote a) agents,
      filter (\<lambda>a. reg_Status a = StatusActive \<and> (\<exists>cap\<in>set (reg_Capabilities a). cap_Name cap = c) \<and> IsRemote a) agents)"
  by (induction agents) (auto simp: list_ex_iff Let_def split: prod.splits)

text \<open>The events of a fan-out to local agents, with the identifiers drawn for them.\<close>

definition fanned :: "'b services \<Rightarrow> 'b event \<Rightarrow> nat \<Rightarrow> AgentRegistration list \<Rightarrow> 'b event list" where
  "fanned sv event k agents =
     map2 (\<lambda>uid a. directEvent (fanEvent event uid a)) (map (sv_uuid sv) [k..<k + length agents]) agents"

lemma fanned_Cons:
  "fanned sv e k (a # as) = directEvent (fanEvent e (sv_uuid sv k) a) # fanned sv e (Suc k) as"
proof -
  have "[k..<k + length (a # as)] = k # [Suc k..<Suc k + length as]" by (simp add: upt_rec)
  then show ?thesis by (simp add: fanned_def)
qed

lemma Publish_uuids: "on_world RoutePublish (Publish sv e) en = (res, en') \<Longrightarrow>
    w_uuids (en_world en') = w_uuids (en_world en)"
  by (auto simp: on_world_def Publish_def bus_publish_def Let_def split: if_splits)

lemma fanOut_local:
  assumes "fanOut sv r e agents en = (res, en')"
    and "\<And>a. a \<in> set agents \<Longrightarrow> \<exists>reg q. ri_get (dr_registry r) (reg_AgentID a) = Inr (reg, q) \<and> \<not> IsRemote reg"
  shows "\<exists>n\<le>length agents. published en en' (take n (fanned sv e (w_uuids (en_world en)) agents)) [] \<and>
    (res = None \<longleftrightarrow> n = length agents)"
  using assms
proof (induction agents arbitrary: en)
  case Nil
  then show ?case by (simp add: fanned_def)
next
  case (Cons a as)
  let ?en = "en\<lparr>en_world := snd (new_uuid sv (en_world en))\<rparr>"
    and ?e = "fanEvent e (sv_uuid sv (w_uuids (en_world en))) a"
  obtain r1 en1 where d: "routeDirect sv r ?e ?en = (r1, en1)" by fastforce
  have "ev_TargetAgent ?e = reg_AgentID a" by (simp add: fanEvent_def)
  moreover obtain reg q where "ri_get (dr_registry r) (reg_AgentID a) = Inr (reg, q)" "\<not> IsRemote reg"
    using Cons.prems(2) [of a] by auto
  ultimately have p: "on_world RoutePublish (Publish sv (directEvent ?e)) ?en = (r1, en1)"
    using routeDirect_local [of r ?e] d by simp
  have pub: "published en en1 (if r1 = None then [directEvent ?e] else []) []"
    using Publish_published [OF p] by (simp add: published_uuid)
  have k: "w_uuids (en_world en1) = Suc (w_uuids (en_world en))"
    using Publish_uuids [OF p] by (simp add: new_uuid_def)
  have f: "fanOut sv r e (a # as) en = (case r1 of None \<Rightarrow> fanOut sv r e as en1 | Some err \<Rightarrow> (Some err, en1))"
    using d by (simp add: new_uuid_def)
  show ?case
  proof (cases r1)
    case None
    then obtain n where "n \<le> length as" "res = None \<longleftrightarrow> n = length as"
      "published en1 en' (take n (fanned sv e (w_uuids (en_world en1)) as)) []"
      using Cons f by auto
    then show ?thesis using published_trans [OF pub] None k
      by (intro exI [of _ "Suc n"]) (auto simp: fanned_Cons)
  next
    case (Some err)
    then show ?thesis using Cons.prems(1) f pub by (intro exI [of _ 0]) auto
  qed
qed

lemma fanned_ids: "map ev_ID (fanned sv e k agents) = map (sv_uuid sv) [k..<k + length agents]"
proof (induction agents arbitrary: k)
  case (Cons a as)
  have "[k..<k + length (a # as)] = k # [Suc k..<Suc k + length as]" by (simp add: upt_rec)
  then show ?case using Cons by (simp add: fanned_Cons directEvent_def fanEvent_def)
qed (simp add: fanned_def)

lemma fanOut_published:
  assumes "fanOut sv r e agents en = (None, en')" and "sound_relay r"
  shows "\<exists>es ms. published en en' es ms \<and> (agents \<noteq> [] \<longrightarrow> es \<noteq> [] \<or> ms \<noteq> [])"
  using assms(1)
proof (induction agents arbitrary: en)
  case Nil
  then show ?case by (intro exI [of _ "[]"]) simp
next
  case (Cons a as)
  let ?en = "en\<lparr>en_world := snd (new_uuid sv (en_world en))\<rparr>"
    and ?e = "fanEvent e (sv_uuid sv (w_uuids (en_world en))) a"
  obtain en1 where d: "routeDirect sv r ?e ?en = (None, en1)" and "fanOut sv r e as en1 = (None, en')"
    using Cons.prems by (auto simp: new_uuid_def split: option.splits prod.splits)
  with Cons.IH obtain es ms where rest: "published en1 en' es ms" by blast
  have "\<exists>es ms. published ?en en1 es ms \<and> (es \<noteq> [] \<or> ms \<noteq> [])"
    using d assms(2) by (rule routeDirect_cases) blast+
  then obtain es1 ms1 where "published en en1 es1 ms1" and "es1 \<noteq> [] \<or> ms1 \<noteq> []"
    using published_uuid by blast
  with published_trans [OF _ rest] show ?case by (metis append_is_Nil_conv)
qed

section \<open>Properties\<close>


definition ex_agents :: "AgentRegistration json bucket" where
  "ex_agents = \<lparr>bk_entries =
     [(''a1'', Json ((ex_registration ''a1'')\<lparr>reg_Status := StatusActive\<rparr>), 1),
      (remoteKey ''n2'' ''a2'', Json ((ex_registration ''a2'')\<lparr>reg_Status := StatusActive,
         reg_NodeID := ''n2'', reg_Origin := ''remote''\<rparr>), 2)], bk_seq = 2\<rparr>"

definition ex_router :: "unit DefaultRouter" where
  "ex_router = \<lparr>dr_registry = registry_reads (mem_registry 3 6 None) ex_agents, dr_relay = None\<rparr>"

definition ex_event :: "unit event" where
  "ex_event = (zero_event ())\<lparr>ev_Type := ''task.run'', ev_TargetAgent := ''a1''\<rparr>"

lemma ex_route_sound: "sound_relay ex_router"
  by (simp add: sound_relay_def ex_router_def)


text \<open>
  An event addressed to an agent that the registry holds as local is delivered on exactly one
  subject, the agent's direct subject, which the DIRECT stream of the default configuration
  carries; the event is otherwise unchanged.
\<close>

lemma direct_event_delivered:
  assumes "ev_TargetAgent e \<noteq> []" and "ri_get (dr_registry r) (ev_TargetAgent e) = Inr (reg, q)"
    and "\<not> IsRemote reg" and "Route sv r e en = (None, en')"
    and "sr_streams (en_streams en) = sr_streams DefaultStreamRegistry"
  shows "published en en' [e\<lparr>ev_Type := ''agent.direct.'' @ ev_TargetAgent e @ ''.'' @ ev_Type e\<rparr>] [] \<and>
    StreamForEventType (''agent.direct.'' @ ev_TargetAgent e @ ''.'' @ ev_Type e) (en_streams en') = Some ''DIRECT''"
proof -
  have d: "on_world RoutePublish (Publish sv (directEvent e)) en = (None, en')"
    using assms(1,4) routeDirect_local [OF assms(2,3)] by (simp add: Route_def ResolveStrategy_def)
  from Publish_published [OF d] assms(5)
  have "en_streams en' = DefaultStreamRegistry\<lparr>sr_dynamic := sr_dynamic (en_streams en)\<rparr>" by simp
  then have "StreamForEventType (''agent.direct.'' @ ev_TargetAgent e @ ''.'' @ ev_Type e) (en_streams en') = Some ''DIRECT''"
    by (metis direct_carried)
  moreover have "published en en' [directEvent e] []" using Publish_published [OF d] by simp
  ultimately show ?thesis unfolding directEvent_def by blast
qed

lemma direct_event_delivered_witness:
  "published ex_env (snd (Route (null_services ()) ex_router ex_event ex_env))
     [ex_event\<lparr>ev_Type := ''agent.direct.a1.task.run''\<rparr>] []"
proof -
  have "fst (Route (null_services ()) ex_router ex_event ex_env) = None" by code_simp
  then have r: "Route (null_services ()) ex_router ex_event ex_env =
      (None, snd (Route (null_services ()) ex_router ex_event ex_env))" by (metis prod.collapse)
  have "case ri_get (dr_registry ex_router) (ev_TargetAgent ex_event) of
      Inr (reg, q) \<Rightarrow> \<not> IsRemote reg | Inl _ \<Rightarrow> False" by code_simp
  then obtain reg q where g: "ri_get (dr_registry ex_router) (ev_TargetAgent ex_event) = Inr (reg, q)" "\<not> IsRemote reg"
    by (auto split: sum.splits)
  have "ev_TargetAgent ex_event \<noteq> []" "sr_streams (en_streams ex_env) = sr_streams DefaultStreamRegistry"
    by (simp_all add: ex_event_def ex_env_def)
  from direct_event_delivered [OF this(1) g r this(2)] show ?thesis by (simp add: ex_event_def)
qed

text \<open>
  An event routed by capability goes to the active local agents offering it, in registry
  order, one copy each: addressed to the agent, on its direct subject, with an identifier of its
  own and without the routing key. If publishing fails in the middle exactly a prefix has been
  sent. With collision-free identifiers the copies are never taken for duplicates.
\<close>

theorem capability_fan_out:
  assumes "ev_TargetAgent e = []" and "ev_Metadata e ''route.capability'' = Some c"
    and "ri_list (dr_registry r) = Inr all"
    and "local = filter (\<lambda>a. reg_Status a = StatusActive \<and>
           (\<exists>cap\<in>set (reg_Capabilities a). cap_Name cap = c) \<and> \<not> IsRemote a) all"
    and "local \<noteq> []"
    and "\<forall>a\<in>set local. \<exists>reg q. ri_get (dr_registry r) (reg_AgentID a) = Inr (reg, q) \<and> \<not> IsRemote reg"
    and "Route sv r e en = (res, en')"
  shows "\<exists>uids n. length uids = length local \<and> n \<le> length local \<and> (res = None \<longleftrightarrow> n = length local) \<and>
    published en en' (take n (map2 (\<lambda>uid a. e\<lparr>ev_ID := uid, ev_TargetAgent := reg_AgentID a,
       ev_Metadata := (ev_Metadata e)(''route.capability'' := None),
       ev_Type := ''agent.direct.'' @ reg_AgentID a @ ''.'' @ ev_Type e\<rparr>) uids local)) [] \<and>
    (inj (sv_uuid sv) \<longrightarrow> distinct uids)"
proof -
  let ?k = "w_uuids (en_world en)"
  have "fanOut sv r e local en = (res, en')"
    using assms(1-5,7) by (simp add: Route_def ResolveStrategy_def routeCapability_def matchAgents_filter)
  from fanOut_local [OF this] assms(6) obtain n where n: "n \<le> length local" "res = None \<longleftrightarrow> n = length local"
    and p: "published en en' (take n (fanned sv e ?k local)) []" by blast
  have "fanned sv e ?k local = map2 (\<lambda>uid a. e\<lparr>ev_ID := uid, ev_TargetAgent := reg_AgentID a,
       ev_Metadata := (ev_Metadata e)(''route.capability'' := None),
       ev_Type := ''agent.direct.'' @ reg_AgentID a @ ''.'' @ ev_Type e\<rparr>)
      (map (sv_uuid sv) [?k..<?k + length local]) local"
    by (simp add: fanned_def directEvent_def fanEvent_def)
  with n p show ?thesis
    by (intro exI [of _ "map (sv_uuid sv) [?k..<?k + length local]"] exI [of _ n])
      (simp add: distinct_map inj_on_def)
qed

definition ex_cap_event :: "unit event" where
  "ex_cap_event = (zero_event ())\<lparr>ev_Type := ''task.run'', ev_Metadata := [''route.capability'' \<mapsto> ''nlp.qa'']\<rparr>"

theorem capability_fan_out_witness:
  "\<exists>uid. published ex_env (snd (Route (null_services ()) ex_router ex_cap_event ex_env))
     [ex_cap_event\<lparr>ev_ID := uid, ev_TargetAgent := ''a1'', ev_Metadata := (ev_Metadata ex_cap_event)(''route.capability'' := None),
        ev_Type := ''agent.direct.a1.task.run''\<rparr>] []"
proof -
  define all where "all = projr (ri_list (dr_registry ex_router))"
  define local where "local = filter (\<lambda>a. reg_Status a = StatusActive \<and>
           (\<exists>cap\<in>set (reg_Capabilities a). cap_Name cap = ''nlp.qa'') \<and> \<not> IsRemote a) all"
  have "isl (ri_list (dr_registry ex_router)) = False" by code_simp
  then have l: "ri_list (dr_registry ex_router) = Inr all" by (simp add: all_def)
  have "map reg_AgentID local = [''a1'']" unfolding local_def all_def by code_simp
  then obtain a where a: "local = [a]" "reg_AgentID a = ''a1''" by (auto simp: map_eq_Cons_conv)
  have "case ri_get (dr_registry ex_router) ''a1'' of
      Inr (reg, q) \<Rightarrow> \<not> IsRemote reg | Inl _ \<Rightarrow> False" by code_simp
  then have g: "\<forall>a\<in>set local. \<exists>reg q. ri_get (dr_registry ex_router) (reg_AgentID a) = Inr (reg, q) \<and> \<not> IsRemote reg"
    using a by (auto split: sum.splits)
  have "fst (Route (null_services ()) ex_router ex_cap_event ex_env) = None" by code_simp
  then have r: "Route (null_services ()) ex_router ex_cap_event ex_env =
      (None, snd (Route (null_services ()) ex_router ex_cap_event ex_env))" by (metis prod.collapse)
  have "ev_TargetAgent ex_cap_event = []" "ev_Metadata ex_cap_event ''route.capability'' = Some ''nlp.qa''"
    by (simp_all add: ex_cap_event_def zero_event_def)
  from capability_fan_out [OF this l local_def _ g r] a obtain uids where
    "length uids = 1" and
    p: "published ex_env (snd (Route (null_services ()) ex_router ex_cap_event ex_env))
      (map2 (\<lambda>uid a. ex_cap_event\<lparr>ev_ID := uid, ev_TargetAgent := reg_AgentID a,
         ev_Metadata := (ev_Metadata ex_cap_event)(''route.capability'' := None),
         ev_Type := ''agent.direct.'' @ reg_AgentID a @ ''.'' @ ev_Type ex_cap_event\<rparr>) uids [a]) []"
    by auto
  then obtain uid where "uids = [uid]" by (auto simp: length_Suc_conv)
  with p a(2) show ?thesis by (auto simp: ex_cap_event_def)
qed

text \<open>
  A broadcast event of a type no stream carries is not published; the router reports it as one
  \<open>agent.error\<close> event with code ROUTER_UNMAPPED_EVENT_TYPE, or returns the publication error.
\<close>

lemma unmapped_broadcast_reported:
  assumes "ResolveStrategy e = StrategyBroadcast" and "StreamForEventType (ev_Type e) (en_streams en) = None"
    and "Route sv r e en = (res, en')"
  shows "(res \<noteq> None \<and> published en en' [] []) \<or>
    (\<exists>x. res = None \<and> published en en' [x] [] \<and> router_error sv (ev_SourceAgent e) ''ROUTER_UNMAPPED_EVENT_TYPE''
       (''no stream mapped for event type '' @ sv_quote sv (ev_Type e)) x)"
proof -
  have "on_world RoutePublish (publishError sv (ev_SourceAgent e) ''ROUTER_UNMAPPED_EVENT_TYPE''
      (''no stream mapped for event type '' @ sv_quote sv (ev_Type e))) en = (res, en')"
    using assms by (simp add: Route_def routeBroadcast_def)
  then show ?thesis by (rule publishError_published) auto
qed

lemma unmapped_broadcast_reported_witness:
  "\<exists>x. published ex_env (snd (Route (null_services ()) ex_router (ex_event\<lparr>ev_TargetAgent := []\<rparr>) ex_env)) [x] [] \<and>
     router_error (null_services ()) [] ''ROUTER_UNMAPPED_EVENT_TYPE'' ''no stream mapped for event type task.run'' x"
proof -
  let ?e = "ex_event\<lparr>ev_TargetAgent := []\<rparr>"
  have "ResolveStrategy ?e = StrategyBroadcast" by (simp add: ResolveStrategy_def ex_event_def zero_event_def)
  moreover have "StreamForEventType (ev_Type ?e) (en_streams (ex_env :: unit env)) = None" by code_simp
  moreover have "fst (Route (null_services ()) ex_router ?e ex_env) = None" by code_simp
  ultimately show ?thesis
    using unmapped_broadcast_reported [of ?e ex_env "null_services ()" ex_router, OF _ _ prod.collapse [symmetric]]
    by (auto simp: ex_event_def zero_event_def null_services_def)
qed

text \<open>
  The loop guard does not cover the lookup that failed locally: an event that arrived over
  the federation, marked as relayed, is relayed again when its target is not registered here but
  is listed as an agent of another node.
\<close>

theorem relayed_event_relayed_again:
  assumes "isRelayedEvent e" and "ev_TargetAgent e \<noteq> []" and "dr_relay r = Some (relay_of sv impl)"
    and "ri_get (dr_registry r) (ev_TargetAgent e) = Inl err"
    and "IsRemoteAgent impl (ev_TargetAgent e) = Inr (True, node)"
    and "Route sv r e en = (None, en')"
  shows "\<exists>data. published en en' [] [(''federation.relay.'' @ node @ ''.'' @ ev_Type e, data)]"
proof -
  have "relayToNode (relay_of sv impl) node e en = (None, en')"
    using assms by (simp add: Route_def ResolveStrategy_def routeDirect_def relay_of_def)
  from impl.relayToNode_published [OF this] show ?thesis by auto
qed

definition ex_relay :: EventRelayImpl where
  "ex_relay = \<lparr>er_nodeID = ''n1'', er_registry = registry_reads (mem_registry 3 6 None) ex_agents\<rparr>"

definition ex_relaying_router :: "unit DefaultRouter" where
  "ex_relaying_router = \<lparr>dr_registry = registry_reads (mem_registry 3 6 None) ex_agents,
     dr_relay = Some (relay_of (null_services ()) ex_relay)\<rparr>"

theorem relayed_event_relayed_again_witness:
  "\<exists>data. published ex_env (snd (Route (null_services ()) ex_relaying_router
       (ex_event\<lparr>ev_TargetAgent := ''a2'', ev_Metadata := [''federation.relayed'' \<mapsto> ''true'']\<rparr>) ex_env))
     [] [(''federation.relay.n2.task.run'', data)]"
proof -
  let ?e = "ex_event\<lparr>ev_TargetAgent := ''a2'', ev_Metadata := [''federation.relayed'' \<mapsto> ''true'']\<rparr>"
  have "isl (ri_get (dr_registry ex_relaying_router) (ev_TargetAgent ?e))" by code_simp
  then obtain err where g: "ri_get (dr_registry ex_relaying_router) (ev_TargetAgent ?e) = Inl err"
    by (auto simp: isl_def)
  have m: "IsRemoteAgent ex_relay (ev_TargetAgent ?e) = Inr (True, ''n2'')" by code_simp
  have "fst (Route (null_services ()) ex_relaying_router ?e ex_env) = None" by code_simp
  then have r: "Route (null_services ()) ex_relaying_router ?e ex_env =
      (None, snd (Route (null_services ()) ex_relaying_router ?e ex_env))" by (metis prod.collapse)
  have "isRelayedEvent ?e" "ev_TargetAgent ?e \<noteq> []" "dr_relay ex_relaying_router = Some (relay_of (null_services ()) ex_relay)"
    by (simp_all add: isRelayedEvent_def ex_relaying_router_def)
  from relayed_event_relayed_again [OF this g m r] show ?thesis by (simp add: ex_event_def)
qed

end
