(* ===== verification/Workflow.thy ===== *)
theory Workflow
  imports Router
begin

text \<open>
  Workflow data, its persistent store and the step timers (\<open>core/workflow/types.go\<close>,
  \<open>errors.go\<close>, \<open>state.go\<close>, \<open>timeout.go\<close>). Step indexes are 32-bit words. The store writes a
  state as JSON, which drops the unexported field of a pending decision. A timer is armed until it
  is stopped or fires; firing and running its callback are separate steps, since Go runs the
  callback in a goroutine of its own.
\<close>

section \<open>Types\<close>

datatype WorkflowStatus =
  StatusUnspecified | StatusCreated | StatusRunning | StatusCompleted | StatusFailed | StatusWaitingHuman

fun status_int :: "WorkflowStatus \<Rightarrow> int" where
  "status_int StatusUnspecified = 0"
| "status_int StatusCreated = 1"
| "status_int StatusRunning = 2"
| "status_int StatusCompleted = 3"
| "status_int StatusFailed = 4"
| "status_int StatusWaitingHuman = 5"

text \<open>A step status arrives as an open protobuf enum and is kept as the integer it is.\<close>

type_synonym StepStatus = int

definition StepStatusSuccess :: StepStatus where "StepStatusSuccess = 1"
definition StepStatusFailure :: StepStatus where "StepStatusFailure = 2"

record 'b StepDefinition =
  sd_Name :: string
  sd_Capability :: string
  sd_TimeoutSeconds :: "32 word"
  sd_Input :: 'b
  sd_HumanApproval :: bool
  sd_Prompt :: string
  sd_ResourceIDs :: "string list"

record 'b WorkflowDefinition =
  wd_Name :: string
  wd_Steps :: "'b StepDefinition list"
  wd_Initiator :: string

record WorkflowError =
  we_Code :: string
  we_Message :: string
  we_StepIndex :: "32 word"
  we_AgentID :: string

definition newWorkflowError :: "string \<Rightarrow> string \<Rightarrow> 32 word \<Rightarrow> string \<Rightarrow> WorkflowError" where
  "newWorkflowError code message stepIndex agentID =
     \<lparr>we_Code = code, we_Message = message, we_StepIndex = stepIndex, we_AgentID = agentID\<rparr>"

record 'b StepResult =
  rs_StepIndex :: "32 word"
  rs_AgentID :: string
  rs_Status :: StepStatus
  rs_Result :: 'b
  rs_Error :: "WorkflowError option"
  rs_CompletedAt :: int

record PendingDecision =
  pd_DecisionID :: string
  pd_WorkflowID :: string
  pd_StepIndex :: "32 word"
  pd_StepName :: string
  pd_Prompt :: string
  pd_ResourceIDs :: "string list"
  pd_RequestedAt :: int
  pd_ConflictIDs :: "string list"
  pd_conflictGroupID :: string

record 'b WorkflowState =
  ws_WorkflowID :: string
  ws_Status :: WorkflowStatus
  ws_Definition :: "'b WorkflowDefinition"
  ws_CurrentStep :: "32 word"
  ws_StepResults :: "'b StepResult list"
  ws_AssignedAgent :: string
  ws_Error :: "WorkflowError option"
  ws_PendingDecision :: "PendingDecision option"
  ws_CreatedAt :: int
  ws_UpdatedAt :: int

definition DefaultStepTimeout :: int where
  "DefaultStepTimeout = 30 * 1000000000"

definition seconds :: "32 word \<Rightarrow> int" where
  "seconds n = uint n * 1000000000"

text \<open>The product stays inside \<open>int64\<close>, so no wrap-around is written out.\<close>

lemma seconds_int64: "0 \<le> seconds n \<and> seconds n < 2 ^ 63"
proof -
  have "uint n \<le> 2 ^ 32 - 1" using uint_lt2p [of n] by simp
  then have "seconds n \<le> (2 ^ 32 - 1) * 1000000000" unfolding seconds_def by (rule mult_right_mono) simp
  then show ?thesis by (simp add: seconds_def)
qed

datatype wf_error = WfNotFound | WfCASConflict | WfStore kv_error | WfUnmarshal
  | WfInvalidDefinition string | WfMissingID | WfDecode | WfMarshal | WfPublish publish_error
  | WfRoute route_error | WfEnsureStream | WfSubscribe | WfIndexOutOfRange

section \<open>The state store\<close>

text \<open>What is read back after a write: the unexported field is empty.\<close>

definition persisted :: "'b WorkflowState \<Rightarrow> 'b WorkflowState" where
  "persisted st = st\<lparr>ws_PendingDecision :=
     map_option (\<lambda>pd. pd\<lparr>pd_conflictGroupID := []\<rparr>) (ws_PendingDecision st)\<rparr>"

type_synonym ('s, 'b) wf_kv = "('s, 'b WorkflowState json) kv_ops"

definition store_Create :: "('s, 'b) wf_kv \<Rightarrow> string \<Rightarrow> 'b WorkflowState \<Rightarrow> 's \<Rightarrow> wf_error option \<times> 's" where
  "store_Create kv wid st s =
     (case kv_create kv wid (Json (persisted st)) s of
        (Inl err, s') \<Rightarrow> (Some (WfStore err), s')
      | (Inr _, s') \<Rightarrow> (None, s'))"

definition store_Get :: "('s, 'b) wf_kv \<Rightarrow> string \<Rightarrow> 's \<Rightarrow> wf_error + ('b WorkflowState \<times> nat)" where
  "store_Get kv wid s =
     (case kv_get kv wid s of
        Inl err \<Rightarrow> Inl (if err = ErrKeyNotFound then WfNotFound else WfStore err)
      | Inr (Corrupt, rv) \<Rightarrow> Inl WfUnmarshal
      | Inr (Json st, rv) \<Rightarrow> Inr (st, rv))"

fun readStates :: "('s, 'b) wf_kv \<Rightarrow> string list \<Rightarrow> 's \<Rightarrow> 'b WorkflowState list" where
  "readStates kv [] s = []"
| "readStates kv (k # ks) s =
     (case kv_get kv k s of
        Inr (Json st, _) \<Rightarrow> st # readStates kv ks s
      | _ \<Rightarrow> readStates kv ks s)"

definition ListAll :: "('s, 'b) wf_kv \<Rightarrow> 's \<Rightarrow> wf_error + 'b WorkflowState list" where
  "ListAll kv s =
     (case kv_keys kv s of
        Inl err \<Rightarrow> if err = ErrNoKeysFound then Inr [] else Inl (WfStore err)
      | Inr ks \<Rightarrow> Inr (readStates kv ks s))"

definition store_Update :: "('s, 'b) wf_kv \<Rightarrow> string \<Rightarrow> 'b WorkflowState \<Rightarrow> nat \<Rightarrow> 's \<Rightarrow> wf_error option \<times> 's" where
  "store_Update kv wid st revision s =
     (case kv_update kv wid (Json (persisted st)) revision s of
        (Inl _, s') \<Rightarrow> (Some WfCASConflict, s')
      | (Inr _, s') \<Rightarrow> (None, s'))"

lemma persisted_simps [simp]:
  "ws_WorkflowID (persisted st) = ws_WorkflowID st" "ws_Status (persisted st) = ws_Status st"
  "ws_Definition (persisted st) = ws_Definition st" "ws_CurrentStep (persisted st) = ws_CurrentStep st"
  "ws_StepResults (persisted st) = ws_StepResults st" "ws_Error (persisted st) = ws_Error st"
  "ws_AssignedAgent (persisted st) = ws_AssignedAgent st"
  "ws_CreatedAt (persisted st) = ws_CreatedAt st" "ws_UpdatedAt (persisted st) = ws_UpdatedAt st"
  "ws_PendingDecision (persisted st) =
     map_option (\<lambda>pd. pd\<lparr>pd_conflictGroupID := []\<rparr>) (ws_PendingDecision st)"
  by (simp_all add: persisted_def)

section \<open>Timers\<close>

text \<open>
  The callbacks of the two places that schedule: an agent step of the engine and a human decision
  of the coordinator.
\<close>

datatype callback =
    StepTimeout "32 word" int string
  | DecisionTimeout string "32 word"

record timer =
  tr_workflow :: string
  tr_duration :: int
  tr_call :: callback

text \<open>
  \<open>tm_timers\<close> is the manager's map, \<open>tm_armed\<close> the runtime's timers that have neither fired nor been
  stopped, \<open>tm_fired\<close> those whose goroutine has started and not yet taken the lock.
\<close>

record StepTimeoutManager =
  tm_timers :: "(string \<times> nat) list"
  tm_armed :: "(nat \<times> timer) list"
  tm_fired :: "timer list"
  tm_next :: nat

definition NewStepTimeoutManager :: StepTimeoutManager where
  "NewStepTimeoutManager = \<lparr>tm_timers = [], tm_armed = [], tm_fired = [], tm_next = 0\<rparr>"

definition stop_timer :: "nat option \<Rightarrow> StepTimeoutManager \<Rightarrow> StepTimeoutManager" where
  "stop_timer t m = (case t of None \<Rightarrow> m | Some i \<Rightarrow> m\<lparr>tm_armed := AList.delete i (tm_armed m)\<rparr>)"

definition Schedule :: "string \<Rightarrow> int \<Rightarrow> callback \<Rightarrow> StepTimeoutManager \<Rightarrow> StepTimeoutManager" where
  "Schedule workflowID duration call m =
     (let m1 = stop_timer (map_of (tm_timers m) workflowID) m; i = tm_next m1 in
      m1\<lparr>tm_armed := (i, \<lparr>tr_workflow = workflowID, tr_duration = duration, tr_call = call\<rparr>) # tm_armed m1,
         tm_timers := AList.update workflowID i (tm_timers m1),
         tm_next := Suc i\<rparr>)"

definition Cancel :: "string \<Rightarrow> StepTimeoutManager \<Rightarrow> StepTimeoutManager" where
  "Cancel workflowID m =
     (case map_of (tm_timers m) workflowID of
        None \<Rightarrow> m
      | Some i \<Rightarrow> (stop_timer (Some i) m)\<lparr>tm_timers := AList.delete workflowID (tm_timers m)\<rparr>)"

text \<open>The runtime lets an armed timer fire; its goroutine then takes the lock and forgets the entry.\<close>

definition fire :: "nat \<Rightarrow> StepTimeoutManager \<Rightarrow> StepTimeoutManager" where
  "fire i m =
     (case map_of (tm_armed m) i of
        None \<Rightarrow> m
      | Some t \<Rightarrow> m\<lparr>tm_armed := AList.delete i (tm_armed m), tm_fired := t # tm_fired m\<rparr>)"

definition enter_callback :: "timer \<Rightarrow> StepTimeoutManager \<Rightarrow> StepTimeoutManager" where
  "enter_callback t m =
     m\<lparr>tm_fired := remove1 t (tm_fired m), tm_timers := AList.delete (tr_workflow t) (tm_timers m)\<rparr>"

section \<open>Timers: cancelling\<close>

text \<open>Every running timer is the one the manager knows for its workflow.\<close>

definition tracked :: "StepTimeoutManager \<Rightarrow> bool" where
  "tracked m \<longleftrightarrow>
     (\<forall>i t. (i, t) \<in> set (tm_armed m) \<longrightarrow> map_of (tm_timers m) (tr_workflow t) = Some i \<and> i < tm_next m) \<and>
     (\<forall>w i. map_of (tm_timers m) w = Some i \<longrightarrow> i < tm_next m \<and>
        (\<forall>t. (i, t) \<in> set (tm_armed m) \<longrightarrow> tr_workflow t = w))"

lemma set_alist_delete: "set (AList.delete k al) = {p \<in> set al. fst p \<noteq> k}"
  by (auto simp: AList.delete_eq)

lemma tracked_new: "tracked NewStepTimeoutManager"
  by (simp add: tracked_def NewStepTimeoutManager_def)

lemma tracked_Schedule: "tracked m \<Longrightarrow> tracked (Schedule wid d c m)"
  by (auto simp: tracked_def Schedule_def stop_timer_def Let_def map_of_alist_update set_alist_delete less_Suc_eq
      split: option.splits)

lemma tracked_Cancel: "tracked m \<Longrightarrow> tracked (Cancel wid m)"
  by (auto simp: tracked_def Cancel_def stop_timer_def map_of_alist_delete set_alist_delete split: option.splits)

lemma tracked_fire: "tracked m \<Longrightarrow> tracked (fire i m)"
  by (auto simp: tracked_def fire_def set_alist_delete split: option.splits)

lemma tracked_enter:
  "tracked m \<Longrightarrow> (\<And>i u. (i, u) \<in> set (tm_armed m) \<Longrightarrow> tr_workflow u \<noteq> tr_workflow t) \<Longrightarrow> tracked (enter_callback t m)"
  by (auto simp: tracked_def enter_callback_def map_of_alist_delete)

lemma Cancel_stops: "tracked m \<Longrightarrow> \<forall>(i, t)\<in>set (tm_armed (Cancel wid m)). tr_workflow t \<noteq> wid"
  by (auto simp: tracked_def Cancel_def stop_timer_def set_alist_delete split: option.splits)

section \<open>The store as a map of workflow states\<close>

text \<open>
  A snapshot is a state and a revision read earlier; it is sound if the entry at that revision,
  should it still be the current one, is the state read.
\<close>

definition snapshot_ok :: "'b WorkflowState json kv_map \<Rightarrow> string \<Rightarrow> 'b WorkflowState \<Rightarrow> nat \<Rightarrow> bool" where
  "snapshot_ok m wid st q \<longleftrightarrow> (\<forall>v. m wid = Some (v, q) \<longrightarrow> v = Json st)"

locale workflow_store = kv_store kv view
  for kv :: "('s, 'b WorkflowState json) kv_ops" and view :: "'s \<Rightarrow> 'b WorkflowState json kv_map"
begin

lemma store_Get_Inr: "store_Get kv wid s = Inr (st, q) \<Longrightarrow> view s wid = Some (Json st, q)"
  by (auto simp: store_Get_def split: sum.splits json.splits prod.splits dest: get_some)

lemma store_Get_snapshot: "store_Get kv wid s = Inr (st, q) \<Longrightarrow> snapshot_ok (view s) wid st q"
  by (auto simp: snapshot_ok_def dest: store_Get_Inr)

lemma store_Update_None:
  assumes "store_Update kv wid st q s = (None, s')"
  obtains v r where "view s wid = Some (v, q)" "fresh_rev (view s) r"
    "view s' = (view s)(wid \<mapsto> (Json (persisted st), r))"
  using assms by (auto simp: store_Update_def split: sum.splits prod.splits dest: update_ok)

lemma store_Update_cases:
  assumes "store_Update kv wid st q s = (res, s')"
  obtains (same) "view s' = view s" "res \<noteq> None"
  | (wrote) v r where "view s wid = Some (v, q)" "fresh_rev (view s) r"
      "view s' = (view s)(wid \<mapsto> (Json (persisted st), r))"
proof (cases res)
  case None
  with assms have "store_Update kv wid st q s = (None, s')" by simp
  then show thesis by (rule store_Update_None) (rule wrote)
next
  case (Some e)
  with assms obtain k where "kv_update kv wid (Json (persisted st)) q s = (Inl k, s')"
    by (auto simp: store_Update_def split: sum.splits prod.splits)
  from update_err [OF this] show thesis using same wrote Some by (auto simp: written_def)
qed

lemma store_Update_stale:
  assumes "store_Update kv wid st q s = (res, s')" and "\<And>v. view s wid \<noteq> Some (v, q)"
  shows "view s' = view s \<and> res \<noteq> None"
  using assms(1) by (cases rule: store_Update_cases) (use assms(2) in auto)

lemma store_Create_cases:
  assumes "store_Create kv wid st s = (res, s')"
  obtains (same) "view s' = view s" "res \<noteq> None"
  | (wrote) r where "view s wid = None" "fresh_rev (view s) r"
      "view s' = (view s)(wid \<mapsto> (Json (persisted st), r))"
proof (cases res)
  case None
  with assms obtain r where "kv_create kv wid (Json (persisted st)) s = (Inr r, s')"
    by (auto simp: store_Create_def split: sum.splits prod.splits)
  from create_ok [OF this] show thesis using wrote by blast
next
  case (Some e)
  with assms obtain k where "kv_create kv wid (Json (persisted st)) s = (Inl k, s')"
    by (auto simp: store_Create_def split: sum.splits prod.splits)
  from create_err [OF this] show thesis using same wrote Some by (auto simp: written_def)
qed

lemma readStates_set:
  "st \<in> set (readStates kv ks s) \<Longrightarrow> \<exists>k\<in>set ks. \<exists>q. view s k = Some (Json st, q)"
proof (induction ks)
  case (Cons k ks)
  show ?case
  proof (cases "kv_get kv k s")
    case (Inr p)
    obtain v q where p: "p = (v, q)" by fastforce
    then have "view s k = Some (v, q)" using Inr get_some by blast
    then show ?thesis using Cons Inr p by (cases v) auto
  qed (use Cons in auto)
qed simp

end

interpretation mem_wf: workflow_store mem_ops mem_view
  by (simp add: workflow_store_def mem.kv_store_axioms)

interpretation flaky_wf: workflow_store flaky_ops flaky_view
  by (simp add: workflow_store_def flaky.kv_store_axioms)

section \<open>Timer properties\<close>

text \<open>
  Cancelling really stops a step: as long as no callback of an earlier timer of the workflow is
  still waiting for the lock, no timer of the workflow is left running after \<open>Cancel\<close>, and the
  timers of other workflows are untouched.
\<close>

lemma cancel_stops_timer:
  assumes "tracked m"
  shows "(\<forall>(i, t)\<in>set (tm_armed (Cancel wid m)). tr_workflow t \<noteq> wid) \<and>
    (\<forall>i t. tr_workflow t \<noteq> wid \<longrightarrow> ((i, t) \<in> set (tm_armed (Cancel wid m)) \<longleftrightarrow> (i, t) \<in> set (tm_armed m))) \<and>
    tracked (Cancel wid m)"
proof (intro conjI)
  show "\<forall>(i, t)\<in>set (tm_armed (Cancel wid m)). tr_workflow t \<noteq> wid" using assms by (rule Cancel_stops)
  show "\<forall>i t. tr_workflow t \<noteq> wid \<longrightarrow> ((i, t) \<in> set (tm_armed (Cancel wid m)) \<longleftrightarrow> (i, t) \<in> set (tm_armed m))"
    using assms by (auto simp: tracked_def Cancel_def stop_timer_def set_alist_delete split: option.splits)
qed (rule tracked_Cancel [OF assms])

lemma cancel_stops_timer_witness:
  "tm_armed (Cancel ''w'' (Schedule ''w'' 5 (DecisionTimeout ''d'' 0) NewStepTimeoutManager)) = []"
proof -
  let ?m = "Schedule ''w'' 5 (DecisionTimeout ''d'' 0) NewStepTimeoutManager"
  have "\<forall>(i, t)\<in>set (tm_armed ?m). tr_workflow t = ''w''"
    by (simp add: Schedule_def stop_timer_def NewStepTimeoutManager_def Let_def)
  moreover have "set (tm_armed (Cancel ''w'' ?m)) \<subseteq> set (tm_armed ?m)"
    by (auto simp: Cancel_def stop_timer_def set_alist_delete split: option.splits)
  ultimately have w: "tr_workflow t = ''w''" if "(i, t) \<in> set (tm_armed (Cancel ''w'' ?m))" for i t
    using that by blast
  have c: "\<forall>(i, t)\<in>set (tm_armed (Cancel ''w'' ?m)). tr_workflow t \<noteq> ''w''"
    using cancel_stops_timer [OF tracked_Schedule [OF tracked_new]] by blast
  have "p \<notin> set (tm_armed (Cancel ''w'' ?m))" for p
    using w [of "fst p" "snd p"] bspec [OF c, of p] by (auto simp: case_prod_unfold)
  then show ?thesis by (metis list.set_sel(1))
qed

text \<open>
  A callback that takes the lock late removes the entry of its successor: when a step timer
  fires while the next step of the same workflow is being scheduled, the timer of the next step
  is no longer known to the manager, and cancelling the workflow leaves it running.
\<close>

lemma late_callback_orphans_timer:
  "let m1 = Schedule wid d c NewStepTimeoutManager;
       m2 = Schedule wid d' c' (fire 0 m1);
       m3 = enter_callback \<lparr>tr_workflow = wid, tr_duration = d, tr_call = c\<rparr> m2
   in tm_fired m2 = [\<lparr>tr_workflow = wid, tr_duration = d, tr_call = c\<rparr>] \<and>
      tm_armed (Cancel wid m3) = [(1, \<lparr>tr_workflow = wid, tr_duration = d', tr_call = c'\<rparr>)]"
  by (simp add: Schedule_def fire_def enter_callback_def Cancel_def stop_timer_def NewStepTimeoutManager_def Let_def)

end
