(* ===== verification/Lifecycle.thy ===== *)
theory Lifecycle
  imports Workflow
begin

text \<open>
  The abstract lifecycle of a workflow, the specification the engine and the coordinator are shown
  to implement: \<open>wf_trans\<close> lists every change a stored workflow may undergo, \<open>store_step\<close> lifts
  it to the bucket. The invariants are proved on the specification alone: the shape of a stored
  state (\<open>wf_ok\<close>), that a finished workflow is never reopened, and that results are only appended.
\<close>

section \<open>Transitions of one workflow\<close>

definition terminal :: "'b WorkflowState \<Rightarrow> bool" where
  "terminal st \<longleftrightarrow> ws_Status st = StatusCompleted \<or> ws_Status st = StatusFailed"

abbreviation steps_of :: "'b WorkflowState \<Rightarrow> 'b StepDefinition list" where
  "steps_of st \<equiv> wd_Steps (ws_Definition st)"

text \<open>The label tells transitions that record a result from those that do not.\<close>

inductive wf_trans :: "bool \<Rightarrow> 'b WorkflowState \<Rightarrow> 'b WorkflowState \<Rightarrow> bool" where
  tr_assign: "\<not> terminal st \<Longrightarrow> wf_trans False st (st\<lparr>ws_AssignedAgent := a, ws_UpdatedAt := u\<rparr>)"
| tr_advance: "\<not> terminal st \<Longrightarrow> rs_Status r \<noteq> StepStatusFailure \<Longrightarrow>
    unat (ws_CurrentStep st + 1) < length (steps_of st) \<Longrightarrow>
    wf_trans True st (st\<lparr>ws_StepResults := ws_StepResults st @ [r], ws_CurrentStep := ws_CurrentStep st + 1,
      ws_UpdatedAt := u\<rparr>)"
| tr_complete: "\<not> terminal st \<Longrightarrow> rs_Status r \<noteq> StepStatusFailure \<Longrightarrow>
    length (steps_of st) \<le> unat (ws_CurrentStep st + 1) \<Longrightarrow>
    wf_trans True st (st\<lparr>ws_StepResults := ws_StepResults st @ [r], ws_CurrentStep := ws_CurrentStep st + 1,
      ws_Status := StatusCompleted, ws_UpdatedAt := u\<rparr>)"
| tr_fail: "\<not> terminal st \<Longrightarrow>
    wf_trans False st (st\<lparr>ws_Status := StatusFailed, ws_Error := Some err, ws_UpdatedAt := u\<rparr>)"
| tr_wait: "\<not> terminal st \<Longrightarrow> unat (ws_CurrentStep st) < length (steps_of st) \<Longrightarrow>
    sd_HumanApproval (steps_of st ! unat (ws_CurrentStep st)) \<Longrightarrow>
    pd_StepIndex pd = ws_CurrentStep st \<Longrightarrow> pd_WorkflowID pd = ws_WorkflowID st \<Longrightarrow> pd_conflictGroupID pd = [] \<Longrightarrow>
    wf_trans False st (st\<lparr>ws_Status := StatusWaitingHuman, ws_PendingDecision := Some pd, ws_UpdatedAt := u\<rparr>)"
| tr_approve: "ws_Status st = StatusWaitingHuman \<Longrightarrow>
    wf_trans False st (st\<lparr>ws_Status := StatusRunning, ws_PendingDecision := None, ws_UpdatedAt := u\<rparr>)"
| tr_refuse: "ws_Status st = StatusWaitingHuman \<Longrightarrow>
    wf_trans False st (st\<lparr>ws_Status := StatusFailed, ws_PendingDecision := None, ws_Error := Some err, ws_UpdatedAt := u\<rparr>)"
| tr_annotate: "ws_PendingDecision st = Some pd \<Longrightarrow>
    wf_trans False st (st\<lparr>ws_PendingDecision := Some (pd\<lparr>pd_ConflictIDs := ids\<rparr>)\<rparr>)"

section \<open>What every stored state satisfies\<close>

definition wf_def_ok :: "'b WorkflowDefinition \<Rightarrow> bool" where
  "wf_def_ok d \<longleftrightarrow> 1 \<le> length (wd_Steps d) \<and> length (wd_Steps d) \<le> 100 \<and>
     (\<forall>s\<in>set (wd_Steps d). sd_Capability s \<noteq> [] \<or> sd_HumanApproval s)"

definition wf_ok :: "string \<Rightarrow> 'b WorkflowState \<Rightarrow> bool" where
  "wf_ok wid st \<longleftrightarrow> ws_WorkflowID st = wid \<and> wf_def_ok (ws_Definition st) \<and> persisted st = st \<and>
     length (ws_StepResults st) = unat (ws_CurrentStep st) \<and>
     (\<forall>r\<in>set (ws_StepResults st). rs_Status r \<noteq> StepStatusFailure) \<and>
     (case ws_Status st of
        StatusRunning \<Rightarrow> unat (ws_CurrentStep st) < length (steps_of st) \<and> ws_PendingDecision st = None \<and> ws_Error st = None
      | StatusWaitingHuman \<Rightarrow> unat (ws_CurrentStep st) < length (steps_of st) \<and> ws_Error st = None \<and>
          (\<exists>pd. ws_PendingDecision st = Some pd \<and> pd_WorkflowID pd = wid \<and> pd_StepIndex pd \<le> ws_CurrentStep st)
      | StatusCompleted \<Rightarrow> unat (ws_CurrentStep st) = length (steps_of st) \<and> ws_Error st = None
      | StatusFailed \<Rightarrow> unat (ws_CurrentStep st) < length (steps_of st) \<and> ws_Error st \<noteq> None
      | _ \<Rightarrow> False)"

lemma persisted_id: "persisted st = st \<longleftrightarrow> (\<forall>pd. ws_PendingDecision st = Some pd \<longrightarrow> pd_conflictGroupID pd = [])"
proof
  assume "persisted st = st"
  then have "map_option (\<lambda>pd. pd\<lparr>pd_conflictGroupID := []\<rparr>) (ws_PendingDecision st) = ws_PendingDecision st"
    by (metis persisted_simps(10))
  then show "\<forall>pd. ws_PendingDecision st = Some pd \<longrightarrow> pd_conflictGroupID pd = []"
    by (auto split: option.splits) (metis PendingDecision.select_convs(9) PendingDecision.surjective PendingDecision.update_convs(9))
next
  assume "\<forall>pd. ws_PendingDecision st = Some pd \<longrightarrow> pd_conflictGroupID pd = []"
  then show "persisted st = st"
    by (cases "ws_PendingDecision st") (auto simp: persisted_def)
qed

lemma wf_ok_running_bound: "wf_ok wid st \<Longrightarrow> \<not> terminal st \<Longrightarrow>
    unat (ws_CurrentStep st) < length (steps_of st) \<and> unat (ws_CurrentStep st + 1) = Suc (unat (ws_CurrentStep st))"
proof -
  assume a: "wf_ok wid st" "\<not> terminal st"
  then have "unat (ws_CurrentStep st) < length (steps_of st)" "length (steps_of st) \<le> 100"
    by (auto simp: wf_ok_def wf_def_ok_def terminal_def split: WorkflowStatus.splits)
  then show ?thesis using unat_suc_bounded by blast
qed

lemma wf_trans_ok:
  assumes "wf_trans b st st'" and "wf_ok wid st"
  shows "wf_ok wid st'"
  using assms
proof cases
  case (tr_advance r u)
  then show ?thesis using assms(2) wf_ok_running_bound [OF assms(2)]
    by (auto simp: wf_ok_def persisted_id terminal_def word_le_nat_alt split: WorkflowStatus.splits)
next
  case (tr_complete r u)
  then show ?thesis using assms(2) wf_ok_running_bound [OF assms(2)]
    by (auto simp: wf_ok_def persisted_id terminal_def split: WorkflowStatus.splits)
qed (auto simp: wf_ok_def persisted_id terminal_def split: WorkflowStatus.splits)

text \<open>A transition keeps the identity, the definition and the results so far.\<close>

lemma wf_trans_grows:
  "wf_trans b st st' \<Longrightarrow> ws_WorkflowID st' = ws_WorkflowID st \<and> ws_Definition st' = ws_Definition st \<and>
     ws_CreatedAt st' = ws_CreatedAt st \<and> (\<exists>rs. ws_StepResults st' = ws_StepResults st @ rs \<and> length rs \<le> 1)"
  by (induction rule: wf_trans.induct) auto

definition same_outcome :: "'b WorkflowState \<Rightarrow> 'b WorkflowState \<Rightarrow> bool" where
  "same_outcome st st' \<longleftrightarrow> ws_Status st' = ws_Status st \<and> ws_Error st' = ws_Error st \<and>
     ws_StepResults st' = ws_StepResults st \<and> ws_CurrentStep st' = ws_CurrentStep st \<and>
     ws_Definition st' = ws_Definition st"

lemma wf_trans_terminal: "wf_trans b st st' \<Longrightarrow> terminal st \<Longrightarrow> same_outcome st st'"
  by (induction rule: wf_trans.induct) (auto simp: same_outcome_def terminal_def)

section \<open>Transitions of the bucket\<close>

inductive store_step :: "bool \<Rightarrow> 'b WorkflowState json kv_map \<Rightarrow> 'b WorkflowState json kv_map \<Rightarrow> bool" where
  st_create: "m wid = None \<Longrightarrow> fresh_rev m r \<Longrightarrow> wf_ok wid st \<Longrightarrow> ws_CurrentStep st = 0 \<Longrightarrow> \<not> terminal st \<Longrightarrow>
    store_step True m (m(wid \<mapsto> (Json st, r)))"
| st_change: "m wid = Some (Json st, q) \<Longrightarrow> wf_trans b st st' \<Longrightarrow> fresh_rev m r \<Longrightarrow>
    store_step b m (m(wid \<mapsto> (Json st', r)))"

abbreviation store_run :: "'b WorkflowState json kv_map \<Rightarrow> 'b WorkflowState json kv_map \<Rightarrow> bool" where
  "store_run \<equiv> (\<lambda>m m'. \<exists>b. store_step b m m')\<^sup>*\<^sup>*"

abbreviation side_run :: "'b WorkflowState json kv_map \<Rightarrow> 'b WorkflowState json kv_map \<Rightarrow> bool" where
  "side_run \<equiv> (store_step False)\<^sup>*\<^sup>*"

lemma labelled_run_store: "(store_step b)\<^sup>*\<^sup>* m m' \<Longrightarrow> store_run m m'"
  by (rule mono_rtranclp [THEN mp]) auto

lemma side_run_store: "side_run m m' \<Longrightarrow> store_run m m'"
  by (rule labelled_run_store)

definition bucket_ok :: "'b WorkflowState json kv_map \<Rightarrow> bool" where
  "bucket_ok m \<longleftrightarrow> (\<forall>wid v q. m wid = Some (v, q) \<longrightarrow> (\<exists>st. v = Json st \<and> wf_ok wid st))"

definition finished :: "string \<Rightarrow> 'b WorkflowState \<Rightarrow> 'b WorkflowState json kv_map \<Rightarrow> bool" where
  "finished wid st m \<longleftrightarrow> terminal st \<and> (\<exists>st' q. m wid = Some (Json st', q) \<and> same_outcome st st')"

definition progressed :: "string \<Rightarrow> 'b WorkflowState \<Rightarrow> 'b WorkflowState json kv_map \<Rightarrow> bool" where
  "progressed wid st m \<longleftrightarrow> (\<exists>st' q rs. m wid = Some (Json st', q) \<and> ws_Definition st' = ws_Definition st \<and>
     ws_StepResults st' = ws_StepResults st @ rs)"

text \<open>The revision of an entry never decreases, and an entry at an old revision is the old entry.\<close>

definition revision_bound :: "string \<Rightarrow> 'v \<Rightarrow> nat \<Rightarrow> 'v kv_map \<Rightarrow> bool" where
  "revision_bound wid v q m \<longleftrightarrow> (\<exists>v' q'. m wid = Some (v', q') \<and> q \<le> q' \<and> (q = q' \<longrightarrow> v' = v))"

lemma bucket_ok_step: "store_step b m m' \<Longrightarrow> bucket_ok m \<Longrightarrow> bucket_ok m'"
  by (induction rule: store_step.induct) (auto simp: bucket_ok_def dest: wf_trans_ok)

lemma finished_step: "store_step b m m' \<Longrightarrow> finished wid st m \<Longrightarrow> finished wid st m'"
proof (induction rule: store_step.induct)
  case (st_change m w s q b s' r)
  then show ?case using wf_trans_terminal [of b s s']
    by (fastforce simp: finished_def same_outcome_def terminal_def)
qed (auto simp: finished_def)

lemma progressed_step: "store_step b m m' \<Longrightarrow> progressed wid st m \<Longrightarrow> progressed wid st m'"
proof (induction rule: store_step.induct)
  case (st_change m w s q b s' r)
  then show ?case using wf_trans_grows [of b s s'] by (fastforce simp: progressed_def)
qed (auto simp: progressed_def)

lemma revision_bound_step: "store_step b m m' \<Longrightarrow> revision_bound wid v q m \<Longrightarrow> revision_bound wid v q m'"
  by (induction rule: store_step.induct) (fastforce simp: revision_bound_def fresh_rev_def)+

interpretation ok_inv: step_invariant "\<lambda>m m'. \<exists>b. store_step b m m'" bucket_ok
  by unfold_locales (blast intro: bucket_ok_step)

interpretation finished_inv: step_invariant "\<lambda>m m'. \<exists>b. store_step b m m'" "finished wid st" for wid st
  by unfold_locales (blast intro: finished_step)

interpretation progressed_inv: step_invariant "\<lambda>m m'. \<exists>b. store_step b m m'" "progressed wid st" for wid st
  by unfold_locales (blast intro: progressed_step)

text \<open>A run without results keeps them, and never completes a workflow.\<close>

definition undecided :: "string \<Rightarrow> 'b WorkflowState \<Rightarrow> 'b WorkflowState json kv_map \<Rightarrow> bool" where
  "undecided wid st m \<longleftrightarrow> (\<exists>st' q. m wid = Some (Json st', q) \<and> ws_StepResults st' = ws_StepResults st \<and>
     ws_CurrentStep st' = ws_CurrentStep st \<and> ws_Definition st' = ws_Definition st \<and> ws_Status st' \<noteq> StatusCompleted)"

lemma undecided_step: "store_step False m m' \<Longrightarrow> undecided wid st m \<Longrightarrow> undecided wid st m'"
proof (induction False m m' rule: store_step.induct)
  case (st_change m w s q s' r)
  from \<open>wf_trans False s s'\<close> have "ws_StepResults s' = ws_StepResults s \<and> ws_CurrentStep s' = ws_CurrentStep s \<and>
      ws_Definition s' = ws_Definition s \<and> (ws_Status s \<noteq> StatusCompleted \<longrightarrow> ws_Status s' \<noteq> StatusCompleted)"
    by cases auto
  then show ?case using st_change by (auto simp: undecided_def)
qed simp

interpretation undecided_inv: step_invariant "store_step False" "undecided wid st" for wid st
  by unfold_locales (rule undecided_step)

interpretation bound_inv: step_invariant "\<lambda>m m'. \<exists>b. store_step b m m'" "revision_bound wid v q" for wid v q
  by unfold_locales (blast intro: revision_bound_step)

lemma revision_bound_snapshot: "revision_bound wid (Json st) q m \<Longrightarrow> snapshot_ok m wid st q"
  by (auto simp: revision_bound_def snapshot_ok_def)

end
