(* ===== verification/Coordinator.thy ===== *)
theory Coordinator
  imports Lifecycle
begin

text \<open>
  The decision coordinator (\<open>core/workflow/coordinator.go\<close>): requests for human approval, their
  conflicts, responses, timeouts and recovery after a restart. The state a node keeps in memory
  and the store it shares are one record, \<open>node\<close>, which the coordinator and the workflow engine
  update. A resume channel is a buffer of one \<open>DecisionResult\<close> with the identifiers of the
  goroutines waiting on it; Go maps are association lists whose order is the iteration order.
\<close>

section \<open>State\<close>

record DecisionResult =
  dx_Approved :: bool
  dx_Response :: "HumanDecisionResponsePayload option"

record ('s, 'b) node =
  nd_store :: 's
  nd_env :: "'b env"
  nd_timeouts :: StepTimeoutManager
  nd_pending :: "(string \<times> PendingDecision) list"
  nd_resumeCh :: "(string \<times> nat) list"
  nd_buffers :: "(nat \<times> DecisionResult option) list"
  nd_waiting :: "(nat \<times> string \<times> 32 word) list"
  nd_next :: nat

record ('s, 'b) DecisionCoordinator =
  dc_store :: "('s, 'b) wf_kv"
  dc_nodeID :: string

definition NewDecisionCoordinator :: "('s, 'b) wf_kv \<Rightarrow> string \<Rightarrow> ('s, 'b) DecisionCoordinator" where
  "NewDecisionCoordinator store nodeID = \<lparr>dc_store = store, dc_nodeID = nodeID\<rparr>"

definition DefaultDecisionTimeout :: int where
  "DefaultDecisionTimeout = 24 * 3600000000000"

section \<open>Effects on a node\<close>

definition uuid :: "'b services \<Rightarrow> ('s, 'b) node \<Rightarrow> string \<times> ('s, 'b) node" where
  "uuid sv n = (let (x, w) = new_uuid sv (en_world (nd_env n))
     in (x, n\<lparr>nd_env := (nd_env n)\<lparr>en_world := w\<rparr>\<rparr>))"

definition now :: "'b services \<Rightarrow> ('s, 'b) node \<Rightarrow> int \<times> ('s, 'b) node" where
  "now sv n = (let (x, w) = time_now sv (en_world (nd_env n))
     in (x, n\<lparr>nd_env := (nd_env n)\<lparr>en_world := w\<rparr>\<rparr>))"

definition node_emit :: "'b services \<Rightarrow> 'b message \<Rightarrow> ('b \<Rightarrow> 'b event) \<Rightarrow> ('s, 'b) node \<Rightarrow>
    publish_error option \<times> ('s, 'b) node" where
  "node_emit sv msg mk n = (let (res, w) = emit sv msg mk (en_world (nd_env n))
     in (res, n\<lparr>nd_env := (nd_env n)\<lparr>en_world := w\<rparr>\<rparr>))"

definition node_publish :: "'b services \<Rightarrow> 'b event \<Rightarrow> ('s, 'b) node \<Rightarrow> publish_error option \<times> ('s, 'b) node" where
  "node_publish sv e n = (let (res, w) = Publish sv e (en_world (nd_env n))
     in (res, n\<lparr>nd_env := (nd_env n)\<lparr>en_world := w\<rparr>\<rparr>))"

definition node_Update :: "('s, 'b) wf_kv \<Rightarrow> string \<Rightarrow> 'b WorkflowState \<Rightarrow> nat \<Rightarrow> ('s, 'b) node \<Rightarrow>
    wf_error option \<times> ('s, 'b) node" where
  "node_Update kv wid st revision n =
     (let (res, s) = store_Update kv wid st revision (nd_store n) in (res, n\<lparr>nd_store := s\<rparr>))"

section \<open>Conflicts\<close>

definition appendUnique :: "string list \<Rightarrow> string \<Rightarrow> string list" where
  "appendUnique xs value = (if value \<in> set xs then xs else xs @ [value])"

text \<open>Pending decisions other than the new one that name one of its resources.\<close>

definition conflicting :: "PendingDecision \<Rightarrow> (string \<times> PendingDecision) list \<Rightarrow> PendingDecision list" where
  "conflicting pd pending =
     (if pd_ResourceIDs pd = [] then []
      else filter (\<lambda>x. pd_DecisionID x \<noteq> pd_DecisionID pd \<and>
             list_ex (\<lambda>rid. rid \<in> set (pd_ResourceIDs pd)) (pd_ResourceIDs x)) (map snd pending))"

definition modify :: "string \<Rightarrow> (PendingDecision \<Rightarrow> PendingDecision) \<Rightarrow>
    (string \<times> PendingDecision) list \<Rightarrow> (string \<times> PendingDecision) list" where
  "modify k f = map (\<lambda>(k', pd). (k', if k' = k then f pd else pd))"

text \<open>Each of the two sides of every conflict records the other.\<close>

definition annotate :: "PendingDecision \<Rightarrow> PendingDecision list \<Rightarrow>
    (string \<times> PendingDecision) list \<Rightarrow> (string \<times> PendingDecision) list" where
  "annotate pd cds =
     fold (\<lambda>cd p. modify (pd_DecisionID pd) (\<lambda>x. x\<lparr>pd_ConflictIDs := appendUnique (pd_ConflictIDs x) (pd_DecisionID cd)\<rparr>)
        (modify (pd_DecisionID cd) (\<lambda>x. x\<lparr>pd_ConflictIDs := appendUnique (pd_ConflictIDs x) (pd_DecisionID pd)\<rparr>) p)) cds"

definition set_group :: "string \<Rightarrow> string list \<Rightarrow> (string \<times> PendingDecision) list \<Rightarrow> (string \<times> PendingDecision) list" where
  "set_group g ids = map (\<lambda>(k, pd). (k, if k \<in> set ids then pd\<lparr>pd_conflictGroupID := g\<rparr> else pd))"

definition updateConflictIDs :: "('s, 'b) wf_kv \<Rightarrow> string \<Rightarrow> string list \<Rightarrow> ('s, 'b) node \<Rightarrow> ('s, 'b) node" where
  "updateConflictIDs kv workflowID conflictIDs n =
     (case store_Get kv workflowID (nd_store n) of
        Inl _ \<Rightarrow> n
      | Inr (st, rv) \<Rightarrow>
          (case ws_PendingDecision st of
             None \<Rightarrow> n
           | Some pd \<Rightarrow> snd (node_Update kv workflowID
               (st\<lparr>ws_PendingDecision := Some (pd\<lparr>pd_ConflictIDs := conflictIDs\<rparr>)\<rparr>) rv n)))"

fun updateConflicts :: "('s, 'b) wf_kv \<Rightarrow> PendingDecision list \<Rightarrow> ('s, 'b) node \<Rightarrow> ('s, 'b) node" where
  "updateConflicts kv [] n = n"
| "updateConflicts kv (cd # cds) n =
     updateConflicts kv cds (updateConflictIDs kv (pd_WorkflowID cd) (pd_ConflictIDs cd) n)"

text \<open>
  The new conflicts go to the store: to the workflows of the other decisions first, then to the
  requesting one, read again for its latest revision.
\<close>

definition recordConflicts :: "('s, 'b) wf_kv \<Rightarrow> string \<Rightarrow> string \<Rightarrow> string list \<Rightarrow> ('s, 'b) node \<Rightarrow> ('s, 'b) node" where
  "recordConflicts kv workflowID decisionID ids n =
     (let pending = nd_pending n;
          n1 = updateConflicts kv (map (\<lambda>d. the (map_of pending d)) ids) n
      in case store_Get kv workflowID (nd_store n1) of
           Inl _ \<Rightarrow> n1
         | Inr (latest, rv) \<Rightarrow> snd (node_Update kv workflowID
             (latest\<lparr>ws_PendingDecision := Some (the (map_of pending decisionID))\<rparr>) rv n1))"

text \<open>
  Everything \<open>RequestDecision\<close> does about conflicts, from the scan to the group identifier. The
  resources of the event are those of all decisions involved.
\<close>

definition handleConflicts :: "'b services \<Rightarrow> ('s, 'b) DecisionCoordinator \<Rightarrow> string \<Rightarrow> PendingDecision \<Rightarrow>
    ('s, 'b) node \<Rightarrow> ('s, 'b) node" where
  "handleConflicts sv c workflowID pd n =
     (let cds = conflicting pd (nd_pending n) in
      if cds = [] then n
      else
        (let (groupID, n1) = uuid sv n;
             ids = map pd_DecisionID cds;
             n2 = n1\<lparr>nd_pending := annotate pd cds (nd_pending n1)\<rparr>;
             n4 = recordConflicts (dc_store c) workflowID (pd_DecisionID pd) ids n2;
             (detected, n5) = now sv n4;
             n6 = snd (node_emit sv (MDecisionConflict \<lparr>dcp_conflict_group_id = groupID,
                     dcp_decision_ids = pd_DecisionID pd # ids,
                     dcp_workflow_ids = workflowID # map pd_WorkflowID cds,
                     dcp_resource_ids = remdups (concat (map pd_ResourceIDs cds) @ pd_ResourceIDs pd),
                     dcp_detected_at = detected\<rparr>)
                   (\<lambda>data. (zero_event data)\<lparr>ev_Type := ''decision.conflict'', ev_SourceNode := dc_nodeID c\<rparr>) n5)
         in n6\<lparr>nd_pending := set_group groupID (pd_DecisionID pd # ids) (nd_pending n6)\<rparr>))"

section \<open>Conversions to protobuf\<close>

definition workflowErrorToProto :: "WorkflowError \<Rightarrow> pb_WorkflowError" where
  "workflowErrorToProto e = \<lparr>pwe_code = we_Code e, pwe_message = we_Message e,
     pwe_step_index = we_StepIndex e, pwe_agent_id = we_AgentID e\<rparr>"

definition stepResultsToProto :: "'b StepResult list \<Rightarrow> 'b pb_StepResult list" where
  "stepResultsToProto = map (\<lambda>r. \<lparr>psr_step_index = rs_StepIndex r, psr_agent_id = rs_AgentID r,
     psr_status = rs_Status r, psr_result = rs_Result r,
     psr_error = map_option workflowErrorToProto (rs_Error r), psr_completed_at = rs_CompletedAt r\<rparr>)"

section \<open>Requesting a decision\<close>

text \<open>The resume channel, the request to the operator and its timer; the result is the channel.\<close>

definition askOperator :: "'b services \<Rightarrow> ('s, 'b) DecisionCoordinator \<Rightarrow> string \<Rightarrow> 'b WorkflowState \<Rightarrow>
    'b StepDefinition \<Rightarrow> 32 word \<Rightarrow> string \<Rightarrow> int \<Rightarrow> ('s, 'b) node \<Rightarrow> (wf_error + nat) \<times> ('s, 'b) node" where
  "askOperator sv c workflowID state stepDef stepIndex decisionID ts n =
     (let ch = nd_next n;
          n1 = n\<lparr>nd_next := Suc ch, nd_buffers := (ch, None) # nd_buffers n,
                 nd_resumeCh := AList.update workflowID ch (nd_resumeCh n)\<rparr>;
          steps = wd_Steps (ws_Definition state)
      in if length steps \<le> unat stepIndex then (Inl WfIndexOutOfRange, n1)
         else case sv_marshal sv (MDecisionRequest \<lparr>hdq_decision_id = decisionID,
                hdq_workflow_id = workflowID, hdq_step_index = stepIndex, hdq_step_name = sd_Name stepDef,
                hdq_prompt = sd_Prompt stepDef, hdq_input = Some (sd_Input (steps ! unat stepIndex)),
                hdq_previous_results = stepResultsToProto (ws_StepResults state),
                hdq_resource_ids = sd_ResourceIDs stepDef,
                hdq_conflict_ids = pd_ConflictIDs (the (map_of (nd_pending n1) decisionID))\<rparr>) of
           None \<Rightarrow> (Inl WfMarshal, n1)
         | Some data \<Rightarrow>
             (let (uid, n2) = uuid sv n1 in
              case node_publish sv ((zero_event data)\<lparr>ev_ID := uid, ev_Type := ''human.decision.request'',
                     ev_SourceNode := dc_nodeID c, ev_WorkflowID := workflowID, ev_Timestamp := ts\<rparr>) n2 of
                (Some err, n3) \<Rightarrow> (Inl (WfPublish err), n3)
              | (None, n3) \<Rightarrow>
                  (let timeout = (if 0 < sd_TimeoutSeconds stepDef then seconds (sd_TimeoutSeconds stepDef)
                                  else DefaultDecisionTimeout)
                   in (Inr ch, n3\<lparr>nd_timeouts := Schedule workflowID timeout
                         (DecisionTimeout decisionID stepIndex) (nd_timeouts n3)\<rparr>))))"

definition new_decision :: "string \<Rightarrow> string \<Rightarrow> 'b StepDefinition \<Rightarrow> 32 word \<Rightarrow> int \<Rightarrow> PendingDecision" where
  "new_decision decisionID workflowID stepDef stepIndex ts = \<lparr>pd_DecisionID = decisionID,
     pd_WorkflowID = workflowID, pd_StepIndex = stepIndex, pd_StepName = sd_Name stepDef,
     pd_Prompt = sd_Prompt stepDef, pd_ResourceIDs = sd_ResourceIDs stepDef, pd_RequestedAt = ts,
     pd_ConflictIDs = [], pd_conflictGroupID = []\<rparr>"

definition RequestDecision :: "'b services \<Rightarrow> ('s, 'b) DecisionCoordinator \<Rightarrow> string \<Rightarrow> 'b WorkflowState \<Rightarrow>
    nat \<Rightarrow> 'b StepDefinition \<Rightarrow> 32 word \<Rightarrow> ('s, 'b) node \<Rightarrow> (wf_error + nat) \<times> ('s, 'b) node" where
  "RequestDecision sv c workflowID state revision stepDef stepIndex n =
     (let (decisionID, n1) = uuid sv n;
          (ts, n2) = now sv n1;
          pd = new_decision decisionID workflowID stepDef stepIndex ts;
          state' = state\<lparr>ws_Status := StatusWaitingHuman, ws_PendingDecision := Some pd, ws_UpdatedAt := ts\<rparr>
      in case node_Update (dc_store c) workflowID state' revision n2 of
           (Some err, n3) \<Rightarrow> (Inl err, n3)
         | (None, n3) \<Rightarrow>
             (let n4 = handleConflicts sv c workflowID pd
                    (n3\<lparr>nd_pending := AList.update decisionID pd (nd_pending n3)\<rparr>)
              in askOperator sv c workflowID state' stepDef stepIndex decisionID ts n4))"

section \<open>Responses and timeouts\<close>

text \<open>A send that does not block: a full buffer drops the result. Then the channel is forgotten.\<close>

definition notify :: "string \<Rightarrow> DecisionResult \<Rightarrow> ('s, 'b) node \<Rightarrow> ('s, 'b) node" where
  "notify workflowID result n =
     (case map_of (nd_resumeCh n) workflowID of
        None \<Rightarrow> n
      | Some ch \<Rightarrow>
          n\<lparr>nd_buffers := (if map_of (nd_buffers n) ch = Some None
                          then AList.update ch (Some result) (nd_buffers n) else nd_buffers n),
            nd_resumeCh := AList.delete workflowID (nd_resumeCh n)\<rparr>)"

text \<open>
  The two handlers read the state first and act on what they read; the part after the read is a
  definition of its own, so that other writers can be put between the two.
\<close>

definition decided :: "HumanDecisionResponsePayload \<Rightarrow> int \<Rightarrow> 'b WorkflowState \<Rightarrow> 'b WorkflowState" where
  "decided payload ts state =
     (if hdr_action payload = ActionApprove
      then state\<lparr>ws_Status := StatusRunning, ws_PendingDecision := None, ws_UpdatedAt := ts\<rparr>
      else state\<lparr>ws_Status := StatusFailed, ws_PendingDecision := None,
        ws_Error := Some (newWorkflowError ''DECISION_REJECTED''
          (''decision rejected by '' @ hdr_operator_id payload @ '': '' @ hdr_comment payload)
          (ws_CurrentStep state) []), ws_UpdatedAt := ts\<rparr>)"

definition publishResolved :: "'b services \<Rightarrow> ('s, 'b) DecisionCoordinator \<Rightarrow> HumanDecisionResponsePayload \<Rightarrow>
    PendingDecision option \<Rightarrow> ('s, 'b) node \<Rightarrow> ('s, 'b) node" where
  "publishResolved sv c payload known n =
     (let (resolved, n1) = now sv n
      in snd (node_emit sv (MDecisionResolved \<lparr>drp_decision_id = hdr_decision_id payload,
                drp_workflow_id = hdr_workflow_id payload, drp_action = hdr_action payload,
                drp_conflict_group_id = (case known of None \<Rightarrow> [] | Some pd \<Rightarrow> pd_conflictGroupID pd),
                drp_related_decision_ids = (case known of None \<Rightarrow> [] | Some pd \<Rightarrow> pd_ConflictIDs pd),
                drp_resolved_at = resolved\<rparr>)
              (\<lambda>data. (zero_event data)\<lparr>ev_Type := ''decision.resolved'',
                 ev_SourceNode := dc_nodeID c, ev_WorkflowID := hdr_workflow_id payload\<rparr>) n1))"

definition respond :: "'b services \<Rightarrow> ('s, 'b) DecisionCoordinator \<Rightarrow> HumanDecisionResponsePayload \<Rightarrow>
    'b WorkflowState \<Rightarrow> nat \<Rightarrow> ('s, 'b) node \<Rightarrow> ('s, 'b) node" where
  "respond sv c payload state revision n =
     (let workflowID = hdr_workflow_id payload; decisionID = hdr_decision_id payload in
      if ws_Status state \<noteq> StatusWaitingHuman then n
      else if map_option pd_DecisionID (ws_PendingDecision state) \<noteq> Some decisionID then n
      else
        (let n1 = n\<lparr>nd_timeouts := Cancel workflowID (nd_timeouts n)\<rparr>;
             known = map_of (nd_pending n1) decisionID;
             n2 = n1\<lparr>nd_pending := AList.delete decisionID (nd_pending n1)\<rparr>;
             (ts, n3) = now sv n2
         in case node_Update (dc_store c) workflowID (decided payload ts state) revision n3 of
              (Some _, n4) \<Rightarrow> n4
            | (None, n4) \<Rightarrow> notify workflowID
                \<lparr>dx_Approved = (hdr_action payload = ActionApprove), dx_Response = Some payload\<rparr>
                (publishResolved sv c payload known n4)))"

definition ProcessResponse :: "'b services \<Rightarrow> ('s, 'b) DecisionCoordinator \<Rightarrow> HumanDecisionResponsePayload \<Rightarrow>
    ('s, 'b) node \<Rightarrow> wf_error option \<times> ('s, 'b) node" where
  "ProcessResponse sv c payload n =
     (case store_Get (dc_store c) (hdr_workflow_id payload) (nd_store n) of
        Inl err \<Rightarrow> (Some err, n)
      | Inr (state, revision) \<Rightarrow> (None, respond sv c payload state revision n))"

definition timed_out :: "32 word \<Rightarrow> int \<Rightarrow> 'b WorkflowState \<Rightarrow> 'b WorkflowState" where
  "timed_out stepIndex ts state = state\<lparr>ws_Status := StatusFailed, ws_PendingDecision := None,
     ws_Error := Some (newWorkflowError ''DECISION_TIMEOUT''
       (''human decision timed out for step '' @ Itoa (unat stepIndex)) stepIndex []),
     ws_UpdatedAt := ts\<rparr>"

definition expire :: "'b services \<Rightarrow> ('s, 'b) DecisionCoordinator \<Rightarrow> string \<Rightarrow> string \<Rightarrow> 32 word \<Rightarrow>
    'b WorkflowState \<Rightarrow> nat \<Rightarrow> ('s, 'b) node \<Rightarrow> ('s, 'b) node" where
  "expire sv c workflowID decisionID stepIndex state revision n =
     (if ws_Status state \<noteq> StatusWaitingHuman then n
      else if map_option pd_DecisionID (ws_PendingDecision state) \<noteq> Some decisionID then n
      else
        (let n1 = n\<lparr>nd_pending := AList.delete decisionID (nd_pending n)\<rparr>;
             (ts, n2) = now sv n1;
             n3 = snd (node_Update (dc_store c) workflowID (timed_out stepIndex ts state) revision n2)
         in notify workflowID \<lparr>dx_Approved = False, dx_Response = None\<rparr> n3))"

definition handleTimeout :: "'b services \<Rightarrow> ('s, 'b) DecisionCoordinator \<Rightarrow> string \<Rightarrow> string \<Rightarrow> 32 word \<Rightarrow>
    ('s, 'b) node \<Rightarrow> ('s, 'b) node" where
  "handleTimeout sv c workflowID decisionID stepIndex n =
     (case store_Get (dc_store c) workflowID (nd_store n) of
        Inl _ \<Rightarrow> n
      | Inr (state, revision) \<Rightarrow> expire sv c workflowID decisionID stepIndex state revision n)"

definition ListPending :: "('s, 'b) node \<Rightarrow> PendingDecision list" where
  "ListPending n = map snd (nd_pending n)"

definition GetPending :: "string \<Rightarrow> ('s, 'b) node \<Rightarrow> PendingDecision option" where
  "GetPending decisionID n = map_of (nd_pending n) decisionID"

section \<open>Recovery\<close>

definition recoverOne :: "'b services \<Rightarrow> ('s, 'b) DecisionCoordinator \<Rightarrow> 'b WorkflowState \<Rightarrow> PendingDecision \<Rightarrow>
    ('s, 'b) node \<Rightarrow> ('s, 'b) node" where
  "recoverOne sv c state pd n =
     (let n1 = n\<lparr>nd_pending := AList.update (pd_DecisionID pd) pd (nd_pending n)\<rparr>;
          steps = wd_Steps (ws_Definition state);
          inside = unat (pd_StepIndex pd) < length steps
      in case sv_marshal sv (MDecisionRequest \<lparr>hdq_decision_id = pd_DecisionID pd,
                hdq_workflow_id = ws_WorkflowID state, hdq_step_index = pd_StepIndex pd,
                hdq_step_name = (if inside then sd_Name (steps ! unat (pd_StepIndex pd)) else []),
                hdq_prompt = pd_Prompt pd,
                hdq_input = (if inside then Some (sd_Input (steps ! unat (pd_StepIndex pd))) else None),
                hdq_previous_results = (if inside then stepResultsToProto (ws_StepResults state) else []),
                hdq_resource_ids = pd_ResourceIDs pd, hdq_conflict_ids = []\<rparr>) of
           None \<Rightarrow> n1
         | Some data \<Rightarrow>
             (let (ts, n2) = now sv n1
              in snd (node_publish sv ((zero_event data)\<lparr>ev_ID := pd_DecisionID pd,
                   ev_Type := ''human.decision.request'', ev_SourceNode := dc_nodeID c,
                   ev_WorkflowID := ws_WorkflowID state, ev_Timestamp := ts\<rparr>) n2)))"

fun recoverStates :: "'b services \<Rightarrow> ('s, 'b) DecisionCoordinator \<Rightarrow> 'b WorkflowState list \<Rightarrow> ('s, 'b) node \<Rightarrow> ('s, 'b) node" where
  "recoverStates sv c [] n = n"
| "recoverStates sv c (state # states) n =
     (case ws_PendingDecision state of
        Some pd \<Rightarrow> recoverStates sv c states
          (if ws_Status state = StatusWaitingHuman then recoverOne sv c state pd n else n)
      | None \<Rightarrow> recoverStates sv c states n)"

definition RecoverPending :: "'b services \<Rightarrow> ('s, 'b) DecisionCoordinator \<Rightarrow> ('s, 'b) node \<Rightarrow>
    wf_error option \<times> ('s, 'b) node" where
  "RecoverPending sv c n =
     (case ListAll (dc_store c) (nd_store n) of
        Inl err \<Rightarrow> (Some err, n)
      | Inr states \<Rightarrow> (None, recoverStates sv c states n))"

section \<open>What the effects leave alone\<close>

lemma node_frame [simp]:
  "nd_store (snd (uuid sv n)) = nd_store n" "nd_pending (snd (uuid sv n)) = nd_pending n"
  "nd_timeouts (snd (uuid sv n)) = nd_timeouts n" "nd_resumeCh (snd (uuid sv n)) = nd_resumeCh n"
  "nd_buffers (snd (uuid sv n)) = nd_buffers n" "nd_waiting (snd (uuid sv n)) = nd_waiting n"
  "nd_store (snd (now sv n)) = nd_store n" "nd_pending (snd (now sv n)) = nd_pending n"
  "nd_timeouts (snd (now sv n)) = nd_timeouts n" "nd_resumeCh (snd (now sv n)) = nd_resumeCh n"
  "nd_buffers (snd (now sv n)) = nd_buffers n" "nd_waiting (snd (now sv n)) = nd_waiting n"
  "nd_store (snd (node_emit sv msg mk n)) = nd_store n" "nd_pending (snd (node_emit sv msg mk n)) = nd_pending n"
  "nd_timeouts (snd (node_emit sv msg mk n)) = nd_timeouts n" "nd_resumeCh (snd (node_emit sv msg mk n)) = nd_resumeCh n"
  "nd_buffers (snd (node_emit sv msg mk n)) = nd_buffers n" "nd_waiting (snd (node_emit sv msg mk n)) = nd_waiting n"
  "nd_store (snd (node_publish sv e n)) = nd_store n" "nd_pending (snd (node_publish sv e n)) = nd_pending n"
  "nd_timeouts (snd (node_publish sv e n)) = nd_timeouts n" "nd_resumeCh (snd (node_publish sv e n)) = nd_resumeCh n"
  "nd_buffers (snd (node_publish sv e n)) = nd_buffers n" "nd_waiting (snd (node_publish sv e n)) = nd_waiting n"
  "nd_pending (snd (node_Update kv wid st q n)) = nd_pending n" "nd_timeouts (snd (node_Update kv wid st q n)) = nd_timeouts n"
  "nd_resumeCh (snd (node_Update kv wid st q n)) = nd_resumeCh n" "nd_buffers (snd (node_Update kv wid st q n)) = nd_buffers n"
  "nd_waiting (snd (node_Update kv wid st q n)) = nd_waiting n" "nd_env (snd (node_Update kv wid st q n)) = nd_env n"
  by (simp_all add: uuid_def now_def node_emit_def node_publish_def node_Update_def case_prod_unfold Let_def)

lemma node_now_quiet [simp]:
  "w_sent (en_world (nd_env (snd (now sv n)))) = w_sent (en_world (nd_env n))"
  "w_wire (en_world (nd_env (snd (now sv n)))) = w_wire (en_world (nd_env n))"
  "w_sent (en_world (nd_env (snd (uuid sv n)))) = w_sent (en_world (nd_env n))"
  "w_wire (en_world (nd_env (snd (uuid sv n)))) = w_wire (en_world (nd_env n))"
  "en_active (nd_env (snd (now sv n))) = en_active (nd_env n)"
  "en_streams (nd_env (snd (now sv n))) = en_streams (nd_env n)"
  by (simp_all add: now_def uuid_def case_prod_unfold Let_def)

lemma notify_frame [simp]:
  "nd_store (notify wid r n) = nd_store n" "nd_pending (notify wid r n) = nd_pending n"
  "nd_timeouts (notify wid r n) = nd_timeouts n" "nd_waiting (notify wid r n) = nd_waiting n"
  by (simp_all add: notify_def split: option.splits)

section \<open>Conflict bookkeeping\<close>

definition strip :: "PendingDecision \<Rightarrow> PendingDecision" where
  "strip pd = pd\<lparr>pd_ConflictIDs := [], pd_conflictGroupID := []\<rparr>"

lemma map_of_modify: "map_of (modify k f p) k' = (if k' = k then map_option f (map_of p k') else map_of p k')"
  by (induction p) (auto simp: modify_def)

lemma modify_strip:
  assumes "\<And>x. strip (f x) = strip x" and "\<And>x. pd_conflictGroupID (f x) = pd_conflictGroupID x"
  shows "map_option strip (map_of (modify k f p) k') = map_option strip (map_of p k')"
    and "map_option pd_conflictGroupID (map_of (modify k f p) k') = map_option pd_conflictGroupID (map_of p k')"
  using assms by (simp_all add: map_of_modify option.map_comp comp_def)

lemma annotate_strip:
  "map_option strip (map_of (annotate pd cds p) k) = map_option strip (map_of p k) \<and>
   map_option pd_conflictGroupID (map_of (annotate pd cds p) k) = map_option pd_conflictGroupID (map_of p k)"
proof (induction cds arbitrary: p)
  case (Cons cd cds)
  have "annotate pd (cd # cds) p = annotate pd cds
      (modify (pd_DecisionID pd) (\<lambda>x. x\<lparr>pd_ConflictIDs := appendUnique (pd_ConflictIDs x) (pd_DecisionID cd)\<rparr>)
        (modify (pd_DecisionID cd) (\<lambda>x. x\<lparr>pd_ConflictIDs := appendUnique (pd_ConflictIDs x) (pd_DecisionID pd)\<rparr>) p))"
    by (simp add: annotate_def)
  moreover have "strip (x\<lparr>pd_ConflictIDs := ids\<rparr>) = strip x" for x ids by (simp add: strip_def)
  ultimately show ?case using Cons by (simp add: modify_strip)
qed (simp add: annotate_def)

text \<open>The pending decision recorded for a workflow is the given one, up to the conflicts noted on it.\<close>

definition awaits :: "'b WorkflowState json kv_map \<Rightarrow> string \<Rightarrow> PendingDecision \<Rightarrow> bool" where
  "awaits m wid pd \<longleftrightarrow> (\<exists>st q x. m wid = Some (Json st, q) \<and> ws_PendingDecision st = Some x \<and> strip x = strip pd)"

lemma bucket_okD: "bucket_ok m \<Longrightarrow> m wid = Some (Json st, q) \<Longrightarrow> wf_ok wid st"
  unfolding bucket_ok_def by fastforce

lemma wf_ok_persisted: "wf_ok wid st \<Longrightarrow> persisted st = st"
  by (simp add: wf_ok_def)

context workflow_store
begin

lemma update_run:
  assumes "snapshot_ok (view (nd_store n)) wid st q" and "wf_trans b st (persisted st')"
  shows "(store_step b)\<^sup>*\<^sup>* (view (nd_store n)) (view (nd_store (snd (node_Update kv wid st' q n))))"
proof -
  obtain res s' where u: "store_Update kv wid st' q (nd_store n) = (res, s')" by fastforce
  from u have "(store_step b)\<^sup>*\<^sup>* (view (nd_store n)) (view s')"
  proof (cases rule: store_Update_cases)
    case (wrote v r)
    with assms show ?thesis
      by (metis snapshot_ok_def st_change r_into_rtranclp)
  qed simp
  with u show ?thesis by (simp add: node_Update_def)
qed

lemma updateConflictIDs_run:
  assumes "bucket_ok (view (nd_store n))"
  shows "side_run (view (nd_store n)) (view (nd_store (updateConflictIDs kv wid ids n)))"
proof (cases "store_Get kv wid (nd_store n)")
  case (Inr p)
  obtain st q where p: "p = (st, q)" by fastforce
  with Inr have g: "store_Get kv wid (nd_store n) = Inr (st, q)" by simp
  have "persisted st = st" using bucket_okD [OF assms, of wid st q] store_Get_Inr [OF g] wf_ok_persisted by blast
  then have "wf_trans False st (persisted (st\<lparr>ws_PendingDecision := Some (pd\<lparr>pd_ConflictIDs := ids\<rparr>)\<rparr>))"
    if "ws_PendingDecision st = Some pd" for pd
  proof -
    have "persisted (st\<lparr>ws_PendingDecision := Some (pd\<lparr>pd_ConflictIDs := ids\<rparr>)\<rparr>) =
        st\<lparr>ws_PendingDecision := Some (pd\<lparr>pd_ConflictIDs := ids\<rparr>)\<rparr>"
      using that \<open>persisted st = st\<close> by (simp add: persisted_id)
    then show ?thesis using tr_annotate [OF that] by simp
  qed
  then show ?thesis using g store_Get_snapshot [OF g] update_run
    by (auto simp: updateConflictIDs_def split: option.splits)
qed (simp add: updateConflictIDs_def)

lemma updateConflictIDs_awaits:
  assumes "awaits (view (nd_store n)) w pd"
  shows "awaits (view (nd_store (updateConflictIDs kv wid ids n))) w pd"
proof (cases "store_Get kv wid (nd_store n)")
  case (Inr p)
  obtain st q where p: "p = (st, q)" by fastforce
  with Inr have g: "store_Get kv wid (nd_store n) = Inr (st, q)" by simp
  show ?thesis
  proof (cases "ws_PendingDecision st")
    case (Some x)
    let ?st = "st\<lparr>ws_PendingDecision := Some (x\<lparr>pd_ConflictIDs := ids\<rparr>)\<rparr>"
    obtain res s' where u: "store_Update kv wid ?st q (nd_store n) = (res, s')" by fastforce
    from u have "awaits (view s') w pd"
    proof (cases rule: store_Update_cases)
      case (wrote v r)
      then show ?thesis using assms store_Get_Inr [OF g] Some by (auto simp: awaits_def strip_def)
    qed (use assms in simp)
    then show ?thesis using g Some u by (simp add: updateConflictIDs_def node_Update_def)
  qed (use g assms in \<open>simp add: updateConflictIDs_def\<close>)
qed (use assms in \<open>simp add: updateConflictIDs_def\<close>)

lemma updateConflicts_run:
  "bucket_ok (view (nd_store n)) \<Longrightarrow> awaits (view (nd_store n)) w pd \<Longrightarrow>
   side_run (view (nd_store n)) (view (nd_store (updateConflicts kv cds n))) \<and>
   awaits (view (nd_store (updateConflicts kv cds n))) w pd"
proof (induction cds arbitrary: n)
  case (Cons cd cds)
  let ?n = "updateConflictIDs kv (pd_WorkflowID cd) (pd_ConflictIDs cd) n"
  have r: "side_run (view (nd_store n)) (view (nd_store ?n))" using Cons.prems updateConflictIDs_run by blast
  then have "bucket_ok (view (nd_store ?n))" using Cons.prems ok_inv.run_keeps [OF side_run_store] by blast
  then show ?case using Cons.IH [of ?n] updateConflictIDs_awaits [OF Cons.prems(2)] r by auto
qed simp

end

lemma updateConflictIDs_frame [simp]:
  "nd_pending (updateConflictIDs kv wid ids n) = nd_pending n" "nd_timeouts (updateConflictIDs kv wid ids n) = nd_timeouts n"
  "nd_resumeCh (updateConflictIDs kv wid ids n) = nd_resumeCh n" "nd_env (updateConflictIDs kv wid ids n) = nd_env n"
  by (auto simp: updateConflictIDs_def split: sum.splits option.splits)

lemma updateConflicts_frame [simp]:
  "nd_pending (updateConflicts kv cds n) = nd_pending n" "nd_timeouts (updateConflicts kv cds n) = nd_timeouts n"
  "nd_resumeCh (updateConflicts kv cds n) = nd_resumeCh n" "nd_env (updateConflicts kv cds n) = nd_env n"
  by (induction cds arbitrary: n) simp_all


context workflow_store
begin

text \<open>The bookkeeping of conflicts only ever writes \<open>ConflictIDs\<close>.\<close>

lemma recordConflicts_run:
  assumes ok: "bucket_ok (view (nd_store n))" and aw: "awaits (view (nd_store n)) wid pd"
    and x: "map_of (nd_pending n) d = Some x" "strip x = strip pd" "pd_conflictGroupID x = []"
  shows "side_run (view (nd_store n)) (view (nd_store (recordConflicts kv wid d ids n)))"
proof -
  define n1 where "n1 = updateConflicts kv (map (\<lambda>d. the (map_of (nd_pending n) d)) ids) n"
  have r: "side_run (view (nd_store n)) (view (nd_store n1))" and aw1: "awaits (view (nd_store n1)) wid pd"
    using updateConflicts_run [OF ok aw] by (simp_all add: n1_def)
  have ok1: "bucket_ok (view (nd_store n1))" using ok_inv.run_keeps [OF side_run_store [OF r] ok] .
  show ?thesis
  proof (cases "store_Get kv wid (nd_store n1)")
    case (Inl e)
    then show ?thesis using r by (simp add: recordConflicts_def flip: n1_def)
  next
    case (Inr q)
    obtain st rv where q: "q = (st, rv)" by fastforce
    with Inr have g: "store_Get kv wid (nd_store n1) = Inr (st, rv)" by simp
    obtain y where y: "ws_PendingDecision st = Some y" "strip y = strip pd"
      using aw1 store_Get_Inr [OF g] by (auto simp: awaits_def)
    have ps: "persisted st = st" using bucket_okD [OF ok1, of wid st rv] store_Get_Inr [OF g] wf_ok_persisted by blast
    then have "pd_conflictGroupID y = []" using y by (simp add: persisted_id)
    then have "x = y\<lparr>pd_ConflictIDs := pd_ConflictIDs x\<rparr>" using x y
      by (cases x; cases y; cases pd) (simp add: strip_def)
    then have "wf_trans False st (st\<lparr>ws_PendingDecision := Some x\<rparr>)" using tr_annotate [OF y(1), of "pd_ConflictIDs x"] by simp
    moreover have "persisted (st\<lparr>ws_PendingDecision := Some x\<rparr>) = st\<lparr>ws_PendingDecision := Some x\<rparr>"
      using x(3) by (simp add: persisted_id)
    ultimately have "side_run (view (nd_store n1)) (view (nd_store (snd (node_Update kv wid (st\<lparr>ws_PendingDecision := Some x\<rparr>) rv n1))))"
      using update_run [OF store_Get_snapshot [OF g]] by simp
    with r g x(1) show ?thesis by (simp add: recordConflicts_def flip: n1_def)
  qed
qed

lemma handleConflicts_run:
  assumes "dc_store c = kv" and ok: "bucket_ok (view (nd_store n))"
    and aw: "awaits (view (nd_store n)) wid pd"
    and p: "map_of (nd_pending n) (pd_DecisionID pd) = Some pd" "pd_conflictGroupID pd = []"
  shows "side_run (view (nd_store n)) (view (nd_store (handleConflicts sv c wid pd n)))"
proof (cases "conflicting pd (nd_pending n) = []")
  case False
  let ?cds = "conflicting pd (nd_pending n)"
  let ?n2 = "(snd (uuid sv n))\<lparr>nd_pending := annotate pd ?cds (nd_pending n)\<rparr>"
  obtain x where "map_of (nd_pending ?n2) (pd_DecisionID pd) = Some x" "strip x = strip pd" "pd_conflictGroupID x = []"
    using annotate_strip [of pd ?cds "nd_pending n" "pd_DecisionID pd"] p by auto
  then have "side_run (view (nd_store ?n2)) (view (nd_store
      (recordConflicts kv wid (pd_DecisionID pd) (map pd_DecisionID ?cds) ?n2)))"
    using ok aw by (intro recordConflicts_run) auto
  then show ?thesis using False assms(1) by (simp add: handleConflicts_def case_prod_unfold Let_def)
qed (simp add: handleConflicts_def)

end

section \<open>The handlers implement the lifecycle\<close>

text \<open>A state read from the store at a revision, some time ago.\<close>

definition read_ok :: "'b WorkflowState json kv_map \<Rightarrow> string \<Rightarrow> 'b WorkflowState \<Rightarrow> nat \<Rightarrow> bool" where
  "read_ok m wid st q \<longleftrightarrow> snapshot_ok m wid st q \<and> wf_ok wid st"

lemma askOperator_frame [simp]:
  "nd_store (snd (askOperator sv c wid st sd i d ts n)) = nd_store n"
  "nd_pending (snd (askOperator sv c wid st sd i d ts n)) = nd_pending n"
  by (simp_all add: askOperator_def Let_def case_prod_unfold split: option.split)

lemma publishResolved_frame [simp]:
  "nd_store (publishResolved sv c p k n) = nd_store n" "nd_pending (publishResolved sv c p k n) = nd_pending n"
  "nd_timeouts (publishResolved sv c p k n) = nd_timeouts n" "nd_resumeCh (publishResolved sv c p k n) = nd_resumeCh n"
  "nd_buffers (publishResolved sv c p k n) = nd_buffers n" "nd_waiting (publishResolved sv c p k n) = nd_waiting n"
  by (simp_all add: publishResolved_def case_prod_unfold Let_def)

lemma decided_trans: "ws_Status st = StatusWaitingHuman \<Longrightarrow> wf_trans False st (persisted (decided p ts st))"
proof -
  assume w: "ws_Status st = StatusWaitingHuman"
  have "persisted (decided p ts st) = decided p ts st" by (simp add: persisted_id decided_def)
  moreover have "wf_trans False st (decided p ts st)"
    unfolding decided_def by (cases "hdr_action p = ActionApprove") (simp_all only: refl if_True if_False simp_thms tr_approve [OF w] tr_refuse [OF w])
  ultimately show ?thesis by simp
qed

lemma timed_out_trans: "ws_Status st = StatusWaitingHuman \<Longrightarrow> wf_trans False st (persisted (timed_out i ts st))"
proof -
  assume w: "ws_Status st = StatusWaitingHuman"
  have "persisted (timed_out i ts st) = timed_out i ts st" by (simp add: persisted_id timed_out_def)
  moreover have "wf_trans False st (timed_out i ts st)" unfolding timed_out_def by (rule tr_refuse [OF w])
  ultimately show ?thesis by simp
qed

context workflow_store
begin

lemma read_okI: "store_Get kv wid s = Inr (st, q) \<Longrightarrow> bucket_ok (view s) \<Longrightarrow> read_ok (view s) wid st q"
  using store_Get_snapshot store_Get_Inr bucket_okD by (fastforce simp: read_ok_def)

lemma node_Update_None:
  assumes "node_Update kv wid st q n = (None, n')"
  obtains v r where "view (nd_store n) wid = Some (v, q)"
    "view (nd_store n') = (view (nd_store n))(wid \<mapsto> (Json (persisted st), r))"
  using assms by (auto simp: node_Update_def split: prod.splits elim: store_Update_None)

lemma RequestDecision_run:
  assumes c: "dc_store c = kv" and ok: "bucket_ok (view (nd_store n))"
    and rd: "read_ok (view (nd_store n)) wid st q" and nt: "\<not> terminal st"
    and i: "unat (ws_CurrentStep st) < length (steps_of st)" "sd_HumanApproval (steps_of st ! unat (ws_CurrentStep st))"
  shows "side_run (view (nd_store n))
    (view (nd_store (snd (RequestDecision sv c wid st q sd (ws_CurrentStep st) n))))"
proof -
  obtain did n1 where u: "uuid sv n = (did, n1)" by fastforce
  obtain ts n2 where t: "now sv n1 = (ts, n2)" by fastforce
  have s2: "nd_store n2 = nd_store n" using u t node_frame(1) [of sv n] node_frame(7) [of sv n1] by simp
  define pd where "pd = new_decision did wid sd (ws_CurrentStep st) ts"
  let ?st = "st\<lparr>ws_Status := StatusWaitingHuman, ws_PendingDecision := Some pd, ws_UpdatedAt := ts\<rparr>"
  have p: "persisted ?st = ?st" by (simp add: persisted_id pd_def new_decision_def)
  have "wf_trans False st ?st" using nt i rd
    by (intro tr_wait) (auto simp: pd_def new_decision_def read_ok_def wf_ok_def)
  then have r: "side_run (view (nd_store n)) (view (nd_store (snd (node_Update kv wid ?st q n2))))"
    using update_run [of n2 wid st q False ?st] rd p by (simp add: s2 read_ok_def)
  obtain res n3 where n3: "node_Update kv wid ?st q n2 = (res, n3)" by fastforce
  show ?thesis
  proof (cases res)
    case (Some e)
    then show ?thesis using r n3 u t c by (simp add: RequestDecision_def pd_def)
  next
    case None
    let ?n = "n3\<lparr>nd_pending := AList.update did pd (nd_pending n3)\<rparr>"
    from None n3 have n3': "node_Update kv wid ?st q n2 = (None, n3)" by simp
    from this obtain rv where "view (nd_store n3) = (view (nd_store n))(wid \<mapsto> (Json ?st, rv))"
      by (rule node_Update_None) (simp add: s2 p)
    then have "awaits (view (nd_store ?n)) wid pd" by (auto simp: awaits_def)
    moreover have "bucket_ok (view (nd_store ?n))" using ok_inv.run_keeps [OF side_run_store [OF r] ok] n3 by simp
    ultimately have "side_run (view (nd_store ?n)) (view (nd_store (handleConflicts sv c wid pd ?n)))"
      by (intro handleConflicts_run) (simp_all add: c map_of_alist_update pd_def new_decision_def)
    then show ?thesis using r n3' u t c by (simp add: RequestDecision_def flip: pd_def)
  qed
qed

lemma respond_run:
  assumes c: "dc_store c = kv" and rd: "read_ok (view (nd_store n)) (hdr_workflow_id p) st q"
  shows "side_run (view (nd_store n)) (view (nd_store (respond sv c p st q n)))"
proof (cases "ws_Status st = StatusWaitingHuman \<and> map_option pd_DecisionID (ws_PendingDecision st) = Some (hdr_decision_id p)")
  case True
  let ?n = "n\<lparr>nd_timeouts := Cancel (hdr_workflow_id p) (nd_timeouts n),
      nd_pending := AList.delete (hdr_decision_id p) (nd_pending n)\<rparr>"
  obtain ts n3 where t: "now sv ?n = (ts, n3)" by fastforce
  have s3: "nd_store n3 = nd_store n" using t node_frame(7) [of sv ?n] by simp
  have "side_run (view (nd_store n)) (view (nd_store (snd (node_Update kv (hdr_workflow_id p) (decided p ts st) q n3))))"
    using update_run [of n3 "hdr_workflow_id p" st q] rd decided_trans [of st p] True by (simp add: s3 read_ok_def)
  then show ?thesis using True t c
    by (cases "node_Update kv (hdr_workflow_id p) (decided p ts st) q n3")
      (auto simp: respond_def Let_def split: option.split)
qed (auto simp: respond_def Let_def)

lemma expire_run:
  assumes c: "dc_store c = kv" and rd: "read_ok (view (nd_store n)) wid st q"
  shows "side_run (view (nd_store n)) (view (nd_store (expire sv c wid d i st q n)))"
proof (cases "ws_Status st = StatusWaitingHuman \<and> map_option pd_DecisionID (ws_PendingDecision st) = Some d")
  case True
  then show ?thesis
    using update_run [of "snd (now sv (n\<lparr>nd_pending := AList.delete d (nd_pending n)\<rparr>))" wid st q] rd c timed_out_trans [of st]
    by (simp add: expire_def read_ok_def Let_def case_prod_unfold)
qed (auto simp: expire_def)

end

end
