(* ===== verification/Engine.thy ===== *)
theory Engine
  imports Coordinator
begin

text \<open>
  The workflow engine (\<open>core/workflow/engine.go\<close>, \<open>handler.go\<close>): starting a workflow, dispatching
  its steps to agents or to a human, advancing on results, completing, failing, and the callbacks
  that resume or expire it. As in the coordinator, what a handler does after reading the state is
  a definition that takes the state and the revision read. An index outside the step list, where
  Go panics, is the error \<open>WfIndexOutOfRange\<close>.
\<close>

record ('s, 'b) WorkflowEngine =
  eg_store :: "('s, 'b) wf_kv"
  eg_router :: "'b DefaultRouter"
  eg_nodeID :: string
  eg_defaultTimeout :: int
  eg_errText :: "reg_error \<Rightarrow> string"

definition NewWorkflowEngine :: "('s, 'b) wf_kv \<Rightarrow> 'b DefaultRouter \<Rightarrow> string \<Rightarrow> int \<Rightarrow> (reg_error \<Rightarrow> string) \<Rightarrow>
    ('s, 'b) WorkflowEngine" where
  "NewWorkflowEngine store router nodeID defaultTimeout errText =
     \<lparr>eg_store = store, eg_router = router, eg_nodeID = nodeID,
      eg_defaultTimeout = (if defaultTimeout = 0 then DefaultStepTimeout else defaultTimeout),
      eg_errText = errText\<rparr>"

definition eg_coordinator :: "('s, 'b) WorkflowEngine \<Rightarrow> ('s, 'b) DecisionCoordinator" where
  "eg_coordinator e = NewDecisionCoordinator (eg_store e) (eg_nodeID e)"

section \<open>Effects\<close>

definition node_Route :: "'b services \<Rightarrow> ('s, 'b) WorkflowEngine \<Rightarrow> 'b event \<Rightarrow> ('s, 'b) node \<Rightarrow>
    wf_error option \<times> ('s, 'b) node" where
  "node_Route sv e event n = (let (res, en) = Route sv (eg_router e) event (nd_env n)
     in (map_option WfRoute res, n\<lparr>nd_env := en\<rparr>))"

definition node_subscribe :: "'b services \<Rightarrow> string \<Rightarrow> ('s, 'b) node \<Rightarrow> bool \<times> ('s, 'b) node" where
  "node_subscribe sv subject n =
     (let w = en_world (nd_env n) in
      (sv_subscribe sv (w_attempts w) subject,
       n\<lparr>nd_env := (nd_env n)\<lparr>en_world := w\<lparr>w_attempts := Suc (w_attempts w)\<rparr>\<rparr>\<rparr>))"

fun subscribeAll :: "'b services \<Rightarrow> string list \<Rightarrow> ('s, 'b) node \<Rightarrow> wf_error option \<times> ('s, 'b) node" where
  "subscribeAll sv [] n = (None, n)"
| "subscribeAll sv (subject # subjects) n =
     (case node_subscribe sv subject n of
        (False, n') \<Rightarrow> (Some WfSubscribe, n')
      | (True, n') \<Rightarrow> subscribeAll sv subjects n')"

definition Start :: "'b services \<Rightarrow> ('s, 'b) node \<Rightarrow> wf_error option \<times> ('s, 'b) node" where
  "Start sv n = subscribeAll sv [''workflow.start'', ''workflow.state.request'',
     ''human.decision.response'', ''agent.unregister''] n"

text \<open>An event of the engine about a workflow, with a fresh identifier.\<close>

definition engine_event :: "('s, 'b) WorkflowEngine \<Rightarrow> string \<Rightarrow> string \<Rightarrow> string \<Rightarrow> int \<Rightarrow> string \<Rightarrow> 'b \<Rightarrow> 'b event" where
  "engine_event e ty workflowID target ts uid data = (zero_event data)\<lparr>ev_ID := uid, ev_Type := ty,
     ev_SourceNode := eg_nodeID e, ev_SourceAgent := ''workflow-engine'', ev_TargetAgent := target,
     ev_WorkflowID := workflowID, ev_Timestamp := ts\<rparr>"

definition route_event :: "'b services \<Rightarrow> ('s, 'b) WorkflowEngine \<Rightarrow> string \<Rightarrow> string \<Rightarrow> string \<Rightarrow> int \<Rightarrow> 'b \<Rightarrow>
    ('s, 'b) node \<Rightarrow> wf_error option \<times> ('s, 'b) node" where
  "route_event sv e ty workflowID target ts data n =
     (let (uid, n1) = uuid sv n in node_Route sv e (engine_event e ty workflowID target ts uid data) n1)"

section \<open>Ending a workflow\<close>

definition announce_end :: "'b services \<Rightarrow> ('s, 'b) WorkflowEngine \<Rightarrow> string \<Rightarrow> string \<Rightarrow> int \<Rightarrow> 'b message \<Rightarrow>
    ('s, 'b) node \<Rightarrow> wf_error option \<times> ('s, 'b) node" where
  "announce_end sv e ty workflowID ts msg n =
     (case sv_marshal sv msg of
        None \<Rightarrow> (Some WfMarshal, n)
      | Some data \<Rightarrow>
          (case route_event sv e ty workflowID [] ts data n of
             (Some err, n') \<Rightarrow> (Some err, n')
           | (None, n') \<Rightarrow> (None, n'\<lparr>nd_env := Cleanup workflowID (nd_env n')\<rparr>)))"

definition completeWorkflow :: "'b services \<Rightarrow> ('s, 'b) WorkflowEngine \<Rightarrow> string \<Rightarrow> 'b WorkflowState \<Rightarrow> nat \<Rightarrow>
    ('s, 'b) node \<Rightarrow> wf_error option \<times> ('s, 'b) node" where
  "completeWorkflow sv e workflowID state revision n =
     (let (ts, n1) = now sv n;
          state' = state\<lparr>ws_Status := StatusCompleted, ws_UpdatedAt := ts\<rparr>
      in case node_Update (eg_store e) workflowID state' revision n1 of
           (Some _, n2) \<Rightarrow> (None, n2)
         | (None, n2) \<Rightarrow> announce_end sv e ''workflow.complete'' workflowID ts
             (MWorkflowComplete \<lparr>wcp_workflow_id = workflowID,
                wcp_results = stepResultsToProto (ws_StepResults state'),
                wcp_started_at = ws_CreatedAt state', wcp_completed_at = ts\<rparr>) n2)"

definition failWorkflowWithError :: "'b services \<Rightarrow> ('s, 'b) WorkflowEngine \<Rightarrow> string \<Rightarrow> 'b WorkflowState \<Rightarrow> nat \<Rightarrow>
    WorkflowError \<Rightarrow> ('s, 'b) node \<Rightarrow> wf_error option \<times> ('s, 'b) node" where
  "failWorkflowWithError sv e workflowID state revision werr n =
     (let n0 = n\<lparr>nd_timeouts := Cancel workflowID (nd_timeouts n)\<rparr>;
          (ts, n1) = now sv n0;
          state' = state\<lparr>ws_Status := StatusFailed, ws_Error := Some werr, ws_UpdatedAt := ts\<rparr>
      in case node_Update (eg_store e) workflowID state' revision n1 of
           (Some _, n2) \<Rightarrow> (None, n2)
         | (None, n2) \<Rightarrow> announce_end sv e ''workflow.failed'' workflowID ts
             (MWorkflowFailed \<lparr>wfp_workflow_id = workflowID, wfp_error = Some (workflowErrorToProto werr),
                wfp_failed_step = we_StepIndex werr, wfp_started_at = ws_CreatedAt state',
                wfp_failed_at = ts\<rparr>) n2)"

section \<open>Dispatching a step\<close>

definition dispatchHumanStep :: "'b services \<Rightarrow> ('s, 'b) WorkflowEngine \<Rightarrow> string \<Rightarrow> 'b WorkflowState \<Rightarrow> nat \<Rightarrow>
    'b StepDefinition \<Rightarrow> 32 word \<Rightarrow> ('s, 'b) node \<Rightarrow> wf_error option \<times> ('s, 'b) node" where
  "dispatchHumanStep sv e workflowID state revision step stepIndex n =
     (case RequestDecision sv (eg_coordinator e) workflowID state revision step stepIndex n of
        (Inl err, n') \<Rightarrow> (Some err, n')
      | (Inr ch, n') \<Rightarrow> (None, n'\<lparr>nd_waiting := (ch, workflowID, stepIndex) # nd_waiting n'\<rparr>))"

definition step_payload :: "string \<Rightarrow> 'b WorkflowState \<Rightarrow> 'b StepDefinition \<Rightarrow> 32 word \<Rightarrow> 'b WorkflowStepPayload" where
  "step_payload workflowID state step stepIndex = \<lparr>wsp_step_index = stepIndex,
     wsp_step = Some \<lparr>psd_name = sd_Name step, psd_capability = sd_Capability step,
       psd_timeout_seconds = sd_TimeoutSeconds step, psd_input = sd_Input step,
       psd_human_approval = sd_HumanApproval step, psd_prompt = sd_Prompt step,
       psd_resource_ids = sd_ResourceIDs step\<rparr>,
     wsp_workflow_id = workflowID, wsp_previous_results = stepResultsToProto (ws_StepResults state),
     wsp_input = sd_Input step\<rparr>"

text \<open>The lookup of an agent, the assignment, the two publications and the timer.\<close>

definition dispatchAgentStep :: "'b services \<Rightarrow> ('s, 'b) WorkflowEngine \<Rightarrow> string \<Rightarrow> 'b WorkflowState \<Rightarrow> nat \<Rightarrow>
    'b StepDefinition \<Rightarrow> 32 word \<Rightarrow> ('s, 'b) node \<Rightarrow> wf_error option \<times> ('s, 'b) node" where
  "dispatchAgentStep sv e workflowID state revision step stepIndex n =
     (case ri_find (dr_registry (eg_router e)) (sd_Capability step) [] of
        Inl err \<Rightarrow> failWorkflowWithError sv e workflowID state revision
          (newWorkflowError ''AGENT_UNAVAILABLE''
             (''capability lookup failed for '' @ sv_quote sv (sd_Capability step) @ '': '' @ eg_errText e err)
             stepIndex []) n
      | Inr [] \<Rightarrow> failWorkflowWithError sv e workflowID state revision
          (newWorkflowError ''AGENT_UNAVAILABLE''
             (''no active agent found for capability '' @ sv_quote sv (sd_Capability step)) stepIndex []) n
      | Inr (agent # _) \<Rightarrow>
          (let agentID = reg_AgentID agent;
               (ts, n1) = now sv n;
               state' = state\<lparr>ws_AssignedAgent := agentID, ws_UpdatedAt := ts\<rparr>
           in case node_Update (eg_store e) workflowID state' revision n1 of
                (Some _, n2) \<Rightarrow> (None, n2)
              | (None, n2) \<Rightarrow>
                  (case sv_marshal sv (MWorkflowStep (step_payload workflowID state' step stepIndex)) of
                     None \<Rightarrow> (Some WfMarshal, n2)
                   | Some data \<Rightarrow>
                       (let (sent, n3) = now sv n2 in
                        case route_event sv e ''workflow.step'' workflowID [] sent data n3 of
                          (Some err, n4) \<Rightarrow> (Some err, n4)
                        | (None, n4) \<Rightarrow>
                            (case route_event sv e ''workflow.step'' workflowID agentID sent data n4 of
                               (Some err, n5) \<Rightarrow> (Some err, n5)
                             | (None, n5) \<Rightarrow>
                                 (let timeout = (if 0 < sd_TimeoutSeconds step then seconds (sd_TimeoutSeconds step)
                                                 else eg_defaultTimeout e)
                                  in (None, n5\<lparr>nd_timeouts := Schedule workflowID timeout
                                        (StepTimeout stepIndex timeout agentID) (nd_timeouts n5)\<rparr>)))))))"

definition dispatch :: "'b services \<Rightarrow> ('s, 'b) WorkflowEngine \<Rightarrow> string \<Rightarrow> 32 word \<Rightarrow> 'b WorkflowState \<Rightarrow> nat \<Rightarrow>
    ('s, 'b) node \<Rightarrow> wf_error option \<times> ('s, 'b) node" where
  "dispatch sv e workflowID stepIndex state revision n =
     (let steps = wd_Steps (ws_Definition state) in
      if length steps \<le> unat stepIndex then (Some WfIndexOutOfRange, n)
      else
        (let step = steps ! unat stepIndex in
         if sd_HumanApproval step then dispatchHumanStep sv e workflowID state revision step stepIndex n
         else dispatchAgentStep sv e workflowID state revision step stepIndex n))"

definition dispatchStep :: "'b services \<Rightarrow> ('s, 'b) WorkflowEngine \<Rightarrow> string \<Rightarrow> 32 word \<Rightarrow> ('s, 'b) node \<Rightarrow>
    wf_error option \<times> ('s, 'b) node" where
  "dispatchStep sv e workflowID stepIndex n =
     (case store_Get (eg_store e) workflowID (nd_store n) of
        Inl err \<Rightarrow> (Some err, n)
      | Inr (state, revision) \<Rightarrow> dispatch sv e workflowID stepIndex state revision n)"

section \<open>Advancing\<close>

definition advanceWorkflow :: "'b services \<Rightarrow> ('s, 'b) WorkflowEngine \<Rightarrow> string \<Rightarrow> 'b WorkflowState \<Rightarrow> nat \<Rightarrow>
    'b StepResult \<Rightarrow> ('s, 'b) node \<Rightarrow> wf_error option \<times> ('s, 'b) node" where
  "advanceWorkflow sv e workflowID state revision result n =
     (let n0 = n\<lparr>nd_timeouts := Cancel workflowID (nd_timeouts n)\<rparr> in
      if rs_Status result = StepStatusFailure then
        failWorkflowWithError sv e workflowID state revision
          (case rs_Error result of
             Some werr \<Rightarrow> werr
           | None \<Rightarrow> newWorkflowError ''STEP_FAILED''
               (''step '' @ Itoa (unat (rs_StepIndex result)) @ '' reported failure'')
               (rs_StepIndex result) (rs_AgentID result)) n0
      else
        (let (ts, n1) = now sv n0;
             state' = state\<lparr>ws_StepResults := ws_StepResults state @ [result],
               ws_CurrentStep := ws_CurrentStep state + 1, ws_UpdatedAt := ts\<rparr>
         in if unat (ws_CurrentStep state') < length (wd_Steps (ws_Definition state'))
            then (case node_Update (eg_store e) workflowID state' revision n1 of
                    (Some _, n2) \<Rightarrow> (None, n2)
                  | (None, n2) \<Rightarrow> dispatchStep sv e workflowID (ws_CurrentStep state') n2)
            else completeWorkflow sv e workflowID state' revision n1))"

definition resume :: "'b services \<Rightarrow> ('s, 'b) WorkflowEngine \<Rightarrow> string \<Rightarrow> 32 word \<Rightarrow>
    HumanDecisionResponsePayload option \<Rightarrow> 'b WorkflowState \<Rightarrow> nat \<Rightarrow> ('s, 'b) node \<Rightarrow> ('s, 'b) node" where
  "resume sv e workflowID stepIndex response state revision n =
     (if ws_Status state \<noteq> StatusRunning then n
      else
        (let resultBytes = (case response of
               None \<Rightarrow> sv_nil sv
             | Some r \<Rightarrow> (case sv_marshal sv (MDecisionResponse r) of None \<Rightarrow> sv_nil sv | Some data \<Rightarrow> data));
             (ts, n1) = now sv n
         in snd (advanceWorkflow sv e workflowID state revision
              \<lparr>rs_StepIndex = stepIndex, rs_AgentID = ''human-operator'', rs_Status = StepStatusSuccess,
               rs_Result = resultBytes, rs_Error = None, rs_CompletedAt = ts\<rparr> n1)))"

definition resumeAfterApproval :: "'b services \<Rightarrow> ('s, 'b) WorkflowEngine \<Rightarrow> string \<Rightarrow> 32 word \<Rightarrow>
    HumanDecisionResponsePayload option \<Rightarrow> ('s, 'b) node \<Rightarrow> ('s, 'b) node" where
  "resumeAfterApproval sv e workflowID stepIndex response n =
     (case store_Get (eg_store e) workflowID (nd_store n) of
        Inl _ \<Rightarrow> n
      | Inr (state, revision) \<Rightarrow> resume sv e workflowID stepIndex response state revision n)"

text \<open>The goroutine of \<open>dispatchHumanStep\<close> once its channel holds a result.\<close>

definition wake :: "'b services \<Rightarrow> ('s, 'b) WorkflowEngine \<Rightarrow> nat \<times> string \<times> 32 word \<Rightarrow> ('s, 'b) node \<Rightarrow> ('s, 'b) node" where
  "wake sv e wt n =
     (case wt of (ch, workflowID, stepIndex) \<Rightarrow>
        (case map_of (nd_buffers n) ch of
           Some (Some result) \<Rightarrow>
             (let n1 = n\<lparr>nd_waiting := remove1 wt (nd_waiting n),
                         nd_buffers := AList.update ch None (nd_buffers n)\<rparr>
              in if dx_Approved result
                 then resumeAfterApproval sv e workflowID stepIndex (dx_Response result) n1 else n1)
         | _ \<Rightarrow> n))"

text \<open>The callback of a step timer, and the goroutine of a timer that has fired.\<close>

definition stepExpire :: "'b services \<Rightarrow> ('s, 'b) WorkflowEngine \<Rightarrow> string \<Rightarrow> 32 word \<Rightarrow> int \<Rightarrow> string \<Rightarrow>
    'b WorkflowState \<Rightarrow> nat \<Rightarrow> ('s, 'b) node \<Rightarrow> ('s, 'b) node" where
  "stepExpire sv e workflowID stepIndex timeout agentID state revision n =
     (if ws_Status state \<noteq> StatusRunning then n
      else snd (failWorkflowWithError sv e workflowID state revision
        (newWorkflowError ''STEP_TIMEOUT''
           (''step '' @ Itoa (unat stepIndex) @ '' timed out after '' @ sv_duration sv timeout) stepIndex agentID) n))"

definition run_timer :: "'b services \<Rightarrow> ('s, 'b) WorkflowEngine \<Rightarrow> timer \<Rightarrow> ('s, 'b) node \<Rightarrow> ('s, 'b) node" where
  "run_timer sv e t n =
     (let n1 = n\<lparr>nd_timeouts := enter_callback t (nd_timeouts n)\<rparr> in
      case tr_call t of
        StepTimeout stepIndex timeout agentID \<Rightarrow>
          (case store_Get (eg_store e) (tr_workflow t) (nd_store n1) of
             Inl _ \<Rightarrow> n1
           | Inr (state, revision) \<Rightarrow> stepExpire sv e (tr_workflow t) stepIndex timeout agentID state revision n1)
      | DecisionTimeout decisionID stepIndex \<Rightarrow>
          handleTimeout sv (eg_coordinator e) (tr_workflow t) decisionID stepIndex n1)"

section \<open>Starting\<close>

fun stepsFromProto :: "nat \<Rightarrow> 'b pb_StepDefinition list \<Rightarrow> string + 'b StepDefinition list" where
  "stepsFromProto i [] = Inr []"
| "stepsFromProto i (s # ss) =
     (if psd_capability s = [] \<and> \<not> psd_human_approval s
      then Inl (''invalid workflow definition: step '' @ Itoa i @ '' has empty capability'')
      else case stepsFromProto (Suc i) ss of
             Inl err \<Rightarrow> Inl err
           | Inr steps \<Rightarrow> Inr (\<lparr>sd_Name = psd_name s, sd_Capability = psd_capability s,
               sd_TimeoutSeconds = psd_timeout_seconds s, sd_Input = psd_input s,
               sd_HumanApproval = psd_human_approval s, sd_Prompt = psd_prompt s,
               sd_ResourceIDs = psd_resource_ids s\<rparr> # steps))"

definition workflowDefinitionFromProto :: "'b pb_WorkflowDefinition option \<Rightarrow> string + 'b WorkflowDefinition" where
  "workflowDefinitionFromProto pb =
     (case pb of
        None \<Rightarrow> Inl ''invalid workflow definition: definition is nil''
      | Some d \<Rightarrow>
          if pwd_steps d = [] then Inl ''invalid workflow definition: must have at least 1 step''
          else if 100 < length (pwd_steps d) then Inl ''invalid workflow definition: exceeds maximum of 100 steps''
          else case stepsFromProto 0 (pwd_steps d) of
                 Inl err \<Rightarrow> Inl err
               | Inr steps \<Rightarrow> Inr \<lparr>wd_Name = pwd_name d, wd_Steps = steps, wd_Initiator = pwd_initiator d\<rparr>)"

definition initial_state :: "string \<Rightarrow> 'b WorkflowDefinition \<Rightarrow> int \<Rightarrow> 'b WorkflowState" where
  "initial_state workflowID def ts = \<lparr>ws_WorkflowID = workflowID, ws_Status = StatusRunning,
     ws_Definition = def, ws_CurrentStep = 0, ws_StepResults = [], ws_AssignedAgent = [],
     ws_Error = None, ws_PendingDecision = None, ws_CreatedAt = ts, ws_UpdatedAt = ts\<rparr>"

definition startWorkflow :: "'b services \<Rightarrow> ('s, 'b) WorkflowEngine \<Rightarrow> 'b WorkflowDefinition \<Rightarrow> ('s, 'b) node \<Rightarrow>
    wf_error option \<times> ('s, 'b) node" where
  "startWorkflow sv e def n =
     (let (workflowID, n1) = uuid sv n; (ts, n2) = now sv n1 in
      case store_Create (eg_store e) workflowID (initial_state workflowID def ts) (nd_store n2) of
        (Some err, s) \<Rightarrow> (Some err, n2\<lparr>nd_store := s\<rparr>)
      | (None, s) \<Rightarrow>
          (case GetOrCreateStream sv workflowID (nd_env n2) of
             (None, en) \<Rightarrow> (Some WfEnsureStream, n2\<lparr>nd_store := s, nd_env := en\<rparr>)
           | (Some _, en) \<Rightarrow>
               (case node_subscribe sv (''workflow.'' @ workflowID @ ''.workflow.step.result'')
                       (n2\<lparr>nd_store := s, nd_env := en\<rparr>) of
                  (False, n3) \<Rightarrow> (Some WfSubscribe, n3)
                | (True, n3) \<Rightarrow> dispatchStep sv e workflowID 0 n3)))"

section \<open>Event handlers\<close>

definition engine_publishError :: "'b services \<Rightarrow> ('s, 'b) WorkflowEngine \<Rightarrow> 'b event \<Rightarrow> string \<Rightarrow> string \<Rightarrow>
    ('s, 'b) node \<Rightarrow> wf_error option \<times> ('s, 'b) node" where
  "engine_publishError sv e event code message n =
     (let (res, n') = node_emit sv (MAgentError \<lparr>aep_agent_id = [], aep_error_code = code, aep_message = message,
                aep_stack_trace = [], aep_workflow_id = ev_WorkflowID event\<rparr>)
            (\<lambda>data. (zero_event data)\<lparr>ev_Type := ''agent.error'', ev_SourceNode := eg_nodeID e,
                                     ev_SourceAgent := ''workflow-engine''\<rparr>) n
      in (map_option WfPublish res, n'))"

definition handleWorkflowStart :: "'b services \<Rightarrow> ('s, 'b) WorkflowEngine \<Rightarrow> 'b event \<Rightarrow> ('s, 'b) node \<Rightarrow>
    wf_error option \<times> ('s, 'b) node" where
  "handleWorkflowStart sv e event n =
     (case sv_dec_start sv (ev_Payload event) of
        None \<Rightarrow> (Some WfDecode, n)
      | Some pb \<Rightarrow>
          (case workflowDefinitionFromProto pb of
             Inl err \<Rightarrow> engine_publishError sv e event ''INVALID_DEFINITION'' err n
           | Inr def \<Rightarrow> startWorkflow sv e def n))"

definition result_of :: "'b event \<Rightarrow> 'b WorkflowStepResultPayload \<Rightarrow> int \<Rightarrow> 'b StepResult" where
  "result_of event payload ts = \<lparr>rs_StepIndex = wsr_step_index payload, rs_AgentID = ev_SourceAgent event,
     rs_Status = wsr_status payload, rs_Result = wsr_result payload,
     rs_Error = map_option (\<lambda>err. \<lparr>we_Code = pwe_code err, we_Message = pwe_message err,
        we_StepIndex = pwe_step_index err, we_AgentID = pwe_agent_id err\<rparr>) (wsr_error payload),
     rs_CompletedAt = ts\<rparr>"

definition acceptResult :: "'b services \<Rightarrow> ('s, 'b) WorkflowEngine \<Rightarrow> 'b event \<Rightarrow> 'b WorkflowStepResultPayload \<Rightarrow>
    'b WorkflowState \<Rightarrow> nat \<Rightarrow> ('s, 'b) node \<Rightarrow> wf_error option \<times> ('s, 'b) node" where
  "acceptResult sv e event payload state revision n =
     (if ws_Status state = StatusCompleted \<or> ws_Status state = StatusFailed then (None, n)
      else (let (ts, n1) = now sv n
            in advanceWorkflow sv e (ev_WorkflowID event) state revision (result_of event payload ts) n1))"

definition handleWorkflowStepResult :: "'b services \<Rightarrow> ('s, 'b) WorkflowEngine \<Rightarrow> 'b event \<Rightarrow> ('s, 'b) node \<Rightarrow>
    wf_error option \<times> ('s, 'b) node" where
  "handleWorkflowStepResult sv e event n =
     (if ev_WorkflowID event = [] then (Some WfMissingID, n)
      else case sv_dec_step_result sv (ev_Payload event) of
             None \<Rightarrow> (Some WfDecode, n)
           | Some payload \<Rightarrow>
               (case store_Get (eg_store e) (ev_WorkflowID event) (nd_store n) of
                  Inl err \<Rightarrow> (Some err, n)
                | Inr (state, revision) \<Rightarrow> acceptResult sv e event payload state revision n))"

definition workflowStateResponseFromState :: "'b WorkflowState \<Rightarrow> 'b WorkflowStateResponsePayload" where
  "workflowStateResponseFromState state = \<lparr>wst_workflow_id = ws_WorkflowID state,
     wst_status = status_int (ws_Status state),
     wst_definition = (if wd_Name (ws_Definition state) = [] then None
        else Some \<lparr>pwd_name = wd_Name (ws_Definition state),
          pwd_steps = map (\<lambda>s. \<lparr>psd_name = sd_Name s, psd_capability = sd_Capability s,
            psd_timeout_seconds = sd_TimeoutSeconds s, psd_input = sd_Input s,
            psd_human_approval = sd_HumanApproval s, psd_prompt = sd_Prompt s,
            psd_resource_ids = sd_ResourceIDs s\<rparr>) (wd_Steps (ws_Definition state)),
          pwd_initiator = wd_Initiator (ws_Definition state)\<rparr>),
     wst_current_step = ws_CurrentStep state, wst_step_results = stepResultsToProto (ws_StepResults state),
     wst_assigned_agent = ws_AssignedAgent state, wst_error = map_option workflowErrorToProto (ws_Error state),
     wst_created_at = ws_CreatedAt state, wst_updated_at = ws_UpdatedAt state\<rparr>"

definition handleWorkflowStateRequest :: "'b services \<Rightarrow> ('s, 'b) WorkflowEngine \<Rightarrow> 'b event \<Rightarrow> ('s, 'b) node \<Rightarrow>
    wf_error option \<times> ('s, 'b) node" where
  "handleWorkflowStateRequest sv e event n =
     (case sv_dec_state_request sv (ev_Payload event) of
        None \<Rightarrow> (Some WfDecode, n)
      | Some workflowID \<Rightarrow>
          (case store_Get (eg_store e) workflowID (nd_store n) of
             Inl err \<Rightarrow> if err = WfNotFound
               then engine_publishError sv e event ''WORKFLOW_NOT_FOUND''
                      (''workflow '' @ workflowID @ '' not found'') n
               else (Some err, n)
           | Inr (state, _) \<Rightarrow>
               (let (res, n') = node_emit sv (MWorkflowState (workflowStateResponseFromState state))
                      (\<lambda>data. (zero_event data)\<lparr>ev_Type := ''workflow.state.response'', ev_SourceNode := eg_nodeID e,
                         ev_SourceAgent := ''workflow-engine'', ev_CorrelationID := ev_CorrelationID event\<rparr>) n
                in (map_option WfPublish res, n'))))"

definition handleDecisionResponse :: "'b services \<Rightarrow> ('s, 'b) WorkflowEngine \<Rightarrow> 'b event \<Rightarrow> ('s, 'b) node \<Rightarrow>
    wf_error option \<times> ('s, 'b) node" where
  "handleDecisionResponse sv e event n =
     (case sv_dec_decision sv (ev_Payload event) of
        None \<Rightarrow> (Some WfDecode, n)
      | Some payload \<Rightarrow> ProcessResponse sv (eg_coordinator e) payload n)"

definition handleAgentUnregister :: "'b services \<Rightarrow> 'b event \<Rightarrow> ('s, 'b) node \<Rightarrow> wf_error option \<times> ('s, 'b) node" where
  "handleAgentUnregister sv event n = (None, n)"

section \<open>The engine implements the lifecycle\<close>

lemma node_Route_frame [simp]:
  "nd_store (snd (node_Route sv e ev n)) = nd_store n" "nd_timeouts (snd (node_Route sv e ev n)) = nd_timeouts n"
  "nd_pending (snd (node_Route sv e ev n)) = nd_pending n" "nd_waiting (snd (node_Route sv e ev n)) = nd_waiting n"
  by (simp_all add: node_Route_def case_prod_unfold Let_def)

lemma route_event_frame [simp]:
  "nd_store (snd (route_event sv e ty wid a ts d n)) = nd_store n"
  "nd_timeouts (snd (route_event sv e ty wid a ts d n)) = nd_timeouts n"
  "nd_pending (snd (route_event sv e ty wid a ts d n)) = nd_pending n"
  "nd_waiting (snd (route_event sv e ty wid a ts d n)) = nd_waiting n"
  by (simp_all add: route_event_def case_prod_unfold Let_def)

lemma node_subscribe_frame [simp]: "nd_store (snd (node_subscribe sv x n)) = nd_store n"
  by (simp add: node_subscribe_def Let_def)

lemma announce_end_frame [simp]:
  "nd_store (snd (announce_end sv e ty wid ts msg n)) = nd_store n"
  "nd_timeouts (snd (announce_end sv e ty wid ts msg n)) = nd_timeouts n"
  by (simp_all add: announce_end_def case_prod_unfold split: option.split)

lemma eg_coordinator_store [simp]: "dc_store (eg_coordinator e) = eg_store e"
  by (simp add: eg_coordinator_def NewDecisionCoordinator_def)

lemma persisted_keep:
  assumes "persisted st = st" and "ws_PendingDecision st' = ws_PendingDecision st"
  shows "persisted st' = st'"
  using assms by (simp add: persisted_id)

lemma read_ok_persisted: "read_ok m wid st q \<Longrightarrow> persisted st = st"
  unfolding read_ok_def by (blast intro: wf_ok_persisted)

context workflow_store
begin

lemma failWorkflow_run:
  assumes "eg_store e = kv" and "read_ok (view (nd_store n)) wid st q" and "\<not> terminal st"
  shows "side_run (view (nd_store n)) (view (nd_store (snd (failWorkflowWithError sv e wid st q err n))))"
proof -
  let ?n = "snd (now sv (n\<lparr>nd_timeouts := Cancel wid (nd_timeouts n)\<rparr>))"
  let ?st = "st\<lparr>ws_Status := StatusFailed, ws_Error := Some err,
      ws_UpdatedAt := fst (now sv (n\<lparr>nd_timeouts := Cancel wid (nd_timeouts n)\<rparr>))\<rparr>"
  have "persisted ?st = ?st" by (rule persisted_keep [OF read_ok_persisted [OF assms(2)]]) simp
  then have "wf_trans False st (persisted ?st)" using tr_fail [OF assms(3)] by metis
  then have "side_run (view (nd_store n)) (view (nd_store (snd (node_Update kv wid ?st q ?n))))"
    using update_run [of ?n wid st q False ?st] assms(2) by (simp add: read_ok_def)
  then show ?thesis using assms(1)
    by (auto simp: failWorkflowWithError_def Let_def case_prod_unfold split: option.split)
qed

lemma completeWorkflow_run:
  assumes "eg_store e = kv" and "snapshot_ok (view (nd_store n)) wid st0 q" and "persisted st = st"
    and "\<And>u. wf_trans True st0 (st\<lparr>ws_Status := StatusCompleted, ws_UpdatedAt := u\<rparr>)"
  shows "store_run (view (nd_store n)) (view (nd_store (snd (completeWorkflow sv e wid st q n))))"
proof -
  let ?st = "st\<lparr>ws_Status := StatusCompleted, ws_UpdatedAt := fst (now sv n)\<rparr>"
  have "persisted ?st = ?st" using assms(3) by (rule persisted_keep) simp
  then have "(store_step True)\<^sup>*\<^sup>* (view (nd_store n)) (view (nd_store (snd (node_Update kv wid ?st q (snd (now sv n))))))"
    using update_run [of "snd (now sv n)" wid st0 q True ?st] assms(2,4) by simp
  from labelled_run_store [OF this] show ?thesis using assms(1)
    by (auto simp: completeWorkflow_def Let_def case_prod_unfold split: option.split)
qed

lemma dispatchAgentStep_run:
  assumes e: "eg_store e = kv" and rd: "read_ok (view (nd_store n)) wid st q" and nt: "\<not> terminal st"
  shows "side_run (view (nd_store n)) (view (nd_store (snd (dispatchAgentStep sv e wid st q sd i n))))"
proof -
  have assign: "side_run (view (nd_store n)) (view (nd_store (snd (node_Update kv wid
      (st\<lparr>ws_AssignedAgent := a, ws_UpdatedAt := u\<rparr>) q (snd (now sv n))))))" for a u
  proof -
    let ?st = "st\<lparr>ws_AssignedAgent := a, ws_UpdatedAt := u\<rparr>"
    have "persisted ?st = ?st" by (rule persisted_keep [OF read_ok_persisted [OF rd]]) simp
    then show ?thesis using update_run [of "snd (now sv n)" wid st q False ?st] rd tr_assign [OF nt]
      by (simp add: read_ok_def)
  qed
  show ?thesis
  proof (cases "ri_find (dr_registry (eg_router e)) (sd_Capability sd) []")
    case (Inl err)
    then show ?thesis using failWorkflow_run [OF e rd nt] by (simp add: dispatchAgentStep_def)
  next
    case (Inr agents)
    show ?thesis
    proof (cases agents)
      case Nil
      then show ?thesis using Inr failWorkflow_run [OF e rd nt] by (simp add: dispatchAgentStep_def)
    next
      case (Cons a as)
      then show ?thesis using Inr e assign [of "fst (now sv n)" "reg_AgentID a"]
        by (auto simp: dispatchAgentStep_def Let_def case_prod_unfold split: option.split)
    qed
  qed
qed

lemma dispatch_run:
  assumes e: "eg_store e = kv" and ok: "bucket_ok (view (nd_store n))"
    and rd: "read_ok (view (nd_store n)) wid st q" and nt: "\<not> terminal st"
  shows "side_run (view (nd_store n)) (view (nd_store (snd (dispatch sv e wid (ws_CurrentStep st) st q n))))"
proof -
  have "side_run (view (nd_store n)) (view (nd_store (snd (dispatchHumanStep sv e wid st q sd (ws_CurrentStep st) n))))"
    if "sd_HumanApproval (steps_of st ! unat (ws_CurrentStep st))" "unat (ws_CurrentStep st) < length (steps_of st)" for sd
    using RequestDecision_run [of "eg_coordinator e" n wid st q sv sd] e ok rd nt that
    by (auto simp: dispatchHumanStep_def case_prod_unfold split: sum.split)
  then show ?thesis using dispatchAgentStep_run [OF e rd nt]
    by (auto simp: dispatch_def Let_def)
qed

text \<open>A dispatch that follows a write reads that write.\<close>

lemma dispatchStep_run:
  assumes e: "eg_store e = kv" and ok: "bucket_ok (view (nd_store n))"
    and v: "view (nd_store n) wid = Some (Json st, q)" "\<not> terminal st" "i = ws_CurrentStep st"
  shows "side_run (view (nd_store n)) (view (nd_store (snd (dispatchStep sv e wid i n))))"
proof (cases "store_Get kv wid (nd_store n)")
  case (Inr p)
  obtain st' q' where p: "p = (st', q')" by fastforce
  with Inr have g: "store_Get kv wid (nd_store n) = Inr (st', q')" by simp
  then have "st' = st" using store_Get_Inr [OF g] v(1) by simp
  then show ?thesis using g v(2,3) dispatch_run [OF e ok read_okI [OF g ok]] e by (simp add: dispatchStep_def)
qed (simp add: dispatchStep_def e)

lemma advanceWorkflow_run:
  assumes e: "eg_store e = kv" and ok: "bucket_ok (view (nd_store n))"
    and rd: "read_ok (view (nd_store n)) wid st q" and nt: "\<not> terminal st"
  shows "store_run (view (nd_store n)) (view (nd_store (snd (advanceWorkflow sv e wid st q r n))))"
proof -
  let ?n0 = "n\<lparr>nd_timeouts := Cancel wid (nd_timeouts n)\<rparr>"
  obtain ts n1 where t: "now sv ?n0 = (ts, n1)" by fastforce
  have s1: "nd_store n1 = nd_store n" using t node_frame(7) [of sv ?n0] by simp
  let ?st = "st\<lparr>ws_StepResults := ws_StepResults st @ [r], ws_CurrentStep := ws_CurrentStep st + 1, ws_UpdatedAt := ts\<rparr>"
  have p: "persisted ?st = ?st" by (rule persisted_keep [OF read_ok_persisted [OF rd]]) simp
  show ?thesis
  proof (cases "rs_Status r = StepStatusFailure")
    case True
    then show ?thesis using side_run_store [OF failWorkflow_run [OF e _ nt, of ?n0 wid q]] rd by (simp add: advanceWorkflow_def)
  next
    case nf: False
    show ?thesis
    proof (cases "unat (ws_CurrentStep st + 1) < length (steps_of st)")
      case True
      have w: "wf_trans True st ?st" using tr_advance [OF nt nf True] .
      have run: "store_run (view (nd_store n)) (view (nd_store (snd (node_Update kv wid ?st q n1))))"
        using labelled_run_store [OF update_run [of n1 wid st q True ?st]] rd w p by (simp add: s1 read_ok_def)
      obtain res n2 where u: "node_Update kv wid ?st q n1 = (res, n2)" by fastforce
      show ?thesis
      proof (cases res)
        case (Some x)
        then show ?thesis using run u t nf True e by (simp add: advanceWorkflow_def)
      next
        case None
        with u have "node_Update kv wid ?st q n1 = (None, n2)" by simp
        then obtain rv where "view (nd_store n2) wid = Some (Json ?st, rv)"
          by (rule node_Update_None) (simp add: p)
        moreover have "bucket_ok (view (nd_store n2))" using ok_inv.run_keeps [OF run ok] u by simp
        moreover have "\<not> terminal ?st" using nt by (simp add: terminal_def)
        ultimately have "store_run (view (nd_store n2)) (view (nd_store (snd (dispatchStep sv e wid (ws_CurrentStep ?st) n2))))"
          using side_run_store [OF dispatchStep_run [OF e]] by blast
        with run have "store_run (view (nd_store n)) (view (nd_store (snd (dispatchStep sv e wid (ws_CurrentStep st + 1) n2))))"
          by (simp add: u)
        then show ?thesis using None u t nf True e by (simp add: advanceWorkflow_def)
      qed
    next
      case False
      then have l: "length (steps_of st) \<le> unat (ws_CurrentStep st + 1)" by simp
      have "wf_trans True st (?st\<lparr>ws_Status := StatusCompleted, ws_UpdatedAt := u\<rparr>)" for u
        using tr_complete [OF nt nf l, of u] by simp
      from completeWorkflow_run [OF e _ p this, of n1] show ?thesis
        using nf False t rd by (simp add: advanceWorkflow_def s1 read_ok_def)
    qed
  qed
qed

end

end
