(* ===== verification/Health.thy ===== *)
theory Health
  imports Registry
begin

text \<open>
  The health monitor (\<open>core/health/monitor.go\<close>): rounds of pings that count missed heartbeats and
  remove dead agents, and the handler of pongs with its retries. The ticker that starts a round is
  the environment; a round and a pong are transitions of the monitor's state. The locale
  \<open>reliable_agents\<close> is the agent registry over a bucket that answers every request.
\<close>

section \<open>The monitor\<close>

record ('s, 'c) Monitor =
  hm_registry :: "('s, 'c) KVRegistry"
  hm_DeadThreshold :: int
  hm_nodeID :: string

record ('s, 'b) monitor_state =
  hs_store :: 's
  hs_sequence :: "64 word"
  hs_world :: "'b world"

definition ItoaInt :: "int \<Rightarrow> string" where
  "ItoaInt n = (if n < 0 then CHR ''-'' # Itoa (nat (- n)) else Itoa (nat n))"

text \<open>An encoding failure leaves the payload empty; the outcome of either call is ignored.\<close>

definition handleDeadAgent :: "'b services \<Rightarrow> ('s, 'c) Monitor \<Rightarrow> string \<Rightarrow> ('s, 'b) monitor_state \<Rightarrow> ('s, 'b) monitor_state" where
  "handleDeadAgent sv m agentID st =
     (let data = (case sv_marshal sv (MAgentError \<lparr>aep_agent_id = agentID, aep_error_code = ''AGENT_DEAD'',
            aep_message = ''agent '' @ agentID @ '' missed '' @ ItoaInt (hm_DeadThreshold m) @
              '' heartbeats and is declared dead'',
            aep_stack_trace = [], aep_workflow_id = []\<rparr>) of Some d \<Rightarrow> d | None \<Rightarrow> sv_nil sv);
          (uid, w1) = new_uuid sv (hs_world st);
          (ts, w2) = time_now sv w1;
          (_, w3) = bus_publish sv ((zero_event data)\<lparr>ev_ID := uid, ev_Type := ''agent.error'',
             ev_SourceNode := hm_nodeID m, ev_SourceAgent := ''runtime'', ev_Timestamp := ts\<rparr>) w2
      in st\<lparr>hs_world := w3, hs_store := snd (Deregister (hm_registry m) agentID (hs_store st))\<rparr>)"

definition pingAgent :: "'b services \<Rightarrow> ('s, 'c) Monitor \<Rightarrow> AgentRegistration \<Rightarrow> ('s, 'b) monitor_state \<Rightarrow> ('s, 'b) monitor_state" where
  "pingAgent sv m agent st =
     (if reg_Status agent \<noteq> StatusActive \<and> reg_Status agent \<noteq> StatusUnhealthy then st
      else
        (let seq = hs_sequence st + 1;
             st1 = st\<lparr>hs_sequence := seq\<rparr>
         in case emit sv (MHealthPing \<lparr>hpi_agent_id = reg_AgentID agent, hpi_sequence = sint seq\<rparr>)
                (\<lambda>data. (zero_event data)\<lparr>ev_Type := ''agent.health.ping'', ev_SourceNode := hm_nodeID m,
                   ev_SourceAgent := ''runtime'', ev_TargetAgent := reg_AgentID agent\<rparr>) (hs_world st1) of
              (Some MarshalFailed, w) \<Rightarrow> st1\<lparr>hs_world := w\<rparr>
            | (_, w) \<Rightarrow>
                (case IncrementMissedHeartbeats (hm_registry m) (reg_AgentID agent) (reg_Revision agent) (hs_store st1) of
                   (Inl _, s) \<Rightarrow> st1\<lparr>hs_world := w, hs_store := s\<rparr>
                 | (Inr (status, rv), s) \<Rightarrow>
                     if status = StatusDead then handleDeadAgent sv m (reg_AgentID agent) (st1\<lparr>hs_world := w, hs_store := s\<rparr>)
                     else st1\<lparr>hs_world := w, hs_store := s\<rparr>)))"

definition pingRound :: "'b services \<Rightarrow> ('s, 'c) Monitor \<Rightarrow> ('s, 'b) monitor_state \<Rightarrow> ('s, 'b) monitor_state" where
  "pingRound sv m st =
     (case List (hm_registry m) (hs_store st) of
        Inl _ \<Rightarrow> st
      | Inr agents \<Rightarrow> fold (pingAgent sv m) agents st)"

text \<open>
  A pong is recorded by a read and a compare-and-set, retried while attempts are left. What other
  goroutines do to the bucket between the two is the parameter \<open>interleave\<close>; it may differ between
  attempts. The first argument counts the attempts left.
\<close>

datatype pong_error = PongDecode | PongGet reg_error | PongRetries

definition maxRetries :: nat where "maxRetries = 5"

primrec recordPong :: "('s, 'c) KVRegistry \<Rightarrow> (nat \<Rightarrow> 's \<Rightarrow> 's) \<Rightarrow> string \<Rightarrow> (nat \<Rightarrow> int) \<Rightarrow> nat \<Rightarrow> 's \<Rightarrow> pong_error option \<times> 's" where
  "recordPong r interleave agentID clock 0 s = (Some PongRetries, s)"
| "recordPong r interleave agentID clock (Suc left) s =
     (case Get r agentID s of
        Inl err \<Rightarrow> (Some (PongGet err), s)
      | Inr (_, rv) \<Rightarrow>
          (case RecordHeartbeat r agentID rv (clock left) (interleave left s) of
             (Inr _, s') \<Rightarrow> (None, s')
           | (Inl _, s') \<Rightarrow> recordPong r interleave agentID clock left s'))"

definition handlePong :: "'b services \<Rightarrow> ('s, 'c) KVRegistry \<Rightarrow> (nat \<Rightarrow> 's \<Rightarrow> 's) \<Rightarrow> (nat \<Rightarrow> int) \<Rightarrow> 'b event \<Rightarrow> 's \<Rightarrow>
    pong_error option \<times> 's" where
  "handlePong sv r interleave clock evt s =
     (case sv_dec_pong sv (ev_Payload evt) of
        None \<Rightarrow> (Some PongDecode, s)
      | Some payload \<Rightarrow> recordPong r interleave (hpo_agent_id payload) clock maxRetries s)"

section \<open>A round over a reliable bucket\<close>

locale reliable_agents = reliable_kv "kr_kv r" view
  for r :: "('s, 'c) KVRegistry" and view :: "'s \<Rightarrow> AgentRegistration json kv_map"

sublocale reliable_agents \<subseteq> bucket: agent_bucket r view
  by unfold_locales

text \<open>Every entry is readable, and only the entry under \<open>k\<close> names agent \<open>k\<close>.\<close>

definition sole_agent :: "AgentRegistration json kv_map \<Rightarrow> string \<Rightarrow> bool" where
  "sole_agent m k \<longleftrightarrow> (\<forall>k' v q. m k' = Some (v, q) \<longrightarrow> (\<exists>reg. v = Json reg \<and> (reg_AgentID reg = k \<longleftrightarrow> k' = k)))"

lemma sole_agent_upd:
  "sole_agent m k \<Longrightarrow> m k' = Some (Json reg, q) \<Longrightarrow> reg_AgentID reg' = reg_AgentID reg \<Longrightarrow>
   sole_agent (m(k' \<mapsto> (Json reg', q'))) k"
  unfolding sole_agent_def by (auto split: if_splits)

lemma sole_agent_del: "sole_agent m k \<Longrightarrow> sole_agent (m(k' := None)) k"
  unfolding sole_agent_def by (auto split: if_splits)

context reliable_agents
begin

lemma Get_present: "view s k = Some (Json reg, q) \<Longrightarrow> Get r k s = Inr (reg\<lparr>reg_Revision := q\<rparr>, q)"
  by (simp add: Get_def get_present)

lemma Increment_present:
  assumes "view s k = Some (Json reg, q)"
  obtains rv s' where "IncrementMissedHeartbeats r k q s = (Inr (reg_Status (miss (kr_UnhealthyThreshold r) (kr_DeadThreshold r) (reg\<lparr>reg_Revision := q\<rparr>)), rv), s')"
    "view s' = (view s)(k \<mapsto> (Json (miss (kr_UnhealthyThreshold r) (kr_DeadThreshold r) (reg\<lparr>reg_Revision := q\<rparr>)), rv))"
proof -
  let ?reg = "miss (kr_UnhealthyThreshold r) (kr_DeadThreshold r) (reg\<lparr>reg_Revision := q\<rparr>)"
  obtain rv s' where u: "kv_update (kr_kv r) k (Json ?reg) q s = (Inr rv, s')" using update_match [OF assms] by blast
  show thesis
    by (rule that [of rv s']) (use u update_ok [OF u] Get_present [OF assms] in \<open>simp_all add: IncrementMissedHeartbeats_def writeBack_def Let_def\<close>)
qed

lemma getAll_filter:
  assumes "sole_agent (view s) k" and "distinct ks" and "set ks \<subseteq> dom (view s)"
  shows "\<exists>regs. getAll r ks s = Inr regs \<and> (\<forall>reg q. view s k = Some (Json reg, q) \<longrightarrow>
     filter (\<lambda>a. reg_AgentID a = k) regs = (if k \<in> set ks then [reg\<lparr>reg_Revision := q\<rparr>] else []))"
  using assms(2,3)
proof (induction ks)
  case (Cons k' ks)
  then obtain v q where v: "view s k' = Some (v, q)" by auto
  then obtain reg where reg: "v = Json reg" "reg_AgentID reg = k \<longleftrightarrow> k' = k" using assms(1) unfolding sole_agent_def by blast
  from Cons obtain regs where r: "getAll r ks s = Inr regs" "\<forall>reg q. view s k = Some (Json reg, q) \<longrightarrow>
     filter (\<lambda>a. reg_AgentID a = k) regs = (if k \<in> set ks then [reg\<lparr>reg_Revision := q\<rparr>] else [])" by auto
  then show ?case using Get_present v reg Cons.prems(1) by auto
qed simp

lemma List_sole:
  assumes "sole_agent (view s) k" and "view s k = Some (Json reg, q)"
  obtains agents where "List r s = Inr agents" "filter (\<lambda>a. reg_AgentID a = k) agents = [reg\<lparr>reg_Revision := q\<rparr>]"
proof -
  obtain ks where ks: "kv_keys (kr_kv r) s = Inr ks" "distinct ks" "set ks = dom (view s)"
    using keys_some [OF assms(2)] keys_ok by blast
  obtain regs where "getAll r ks s = Inr regs" "filter (\<lambda>a. reg_AgentID a = k) regs = (if k \<in> set ks then [reg\<lparr>reg_Revision := q\<rparr>] else [])"
    using getAll_filter [OF assms(1) ks(2)] ks(3) assms(2) by auto
  then show thesis using that ks assms(2) by (auto simp: List_def dom_def)
qed

end

text \<open>What pinging one agent does to the bucket, whatever the bus answers.\<close>

definition pinged :: "int \<Rightarrow> int \<Rightarrow> string \<Rightarrow> nat \<Rightarrow> AgentRegistration json kv_map \<Rightarrow> AgentRegistration json kv_map \<Rightarrow> bool" where
  "pinged u d k q m m' \<longleftrightarrow> (case m k of
     Some (Json reg, q') \<Rightarrow>
       if q' = q then
         (let reg' = miss u d (reg\<lparr>reg_Revision := q\<rparr>) in
          if reg_Status reg' = StatusDead then m' = m(k := None) else (\<exists>rv. m' = m(k \<mapsto> (Json reg', rv))))
       else m' = m
   | _ \<Rightarrow> m' = m)"

lemma pinged_cases:
  assumes "pinged u d k q m m'"
  obtains (same) "m' = m" | (gone) "m' = m(k := None)"
    | (missed) reg rv where "m k = Some (Json reg, q)" "m' = m(k \<mapsto> (Json (miss u d (reg\<lparr>reg_Revision := q\<rparr>)), rv))"
proof (cases "\<exists>reg. m k = Some (Json reg, q)")
  case True
  then obtain reg where "m k = Some (Json reg, q)" ..
  then show thesis using assms that by (auto simp: pinged_def Let_def split: if_splits)
next
  case False
  have "m' = m"
  proof (cases "m k")
    case (Some ent)
    then show ?thesis using assms False by (cases ent; cases "fst ent") (auto simp: pinged_def)
  qed (use assms in \<open>simp add: pinged_def\<close>)
  then show thesis by (rule that(1))
qed

lemma pinged_other: "pinged u d k' q m m' \<Longrightarrow> k' \<noteq> k \<Longrightarrow> m' k = m k"
  by (erule pinged_cases) auto

lemma pinged_sole: "pinged u d k' q m m' \<Longrightarrow> sole_agent m k \<Longrightarrow> sole_agent m' k"
  by (erule pinged_cases) (auto simp: sole_agent_del intro: sole_agent_upd)

definition pings_encode :: "'b services \<Rightarrow> bool" where
  "pings_encode sv \<longleftrightarrow> (\<forall>p. sv_marshal sv (MHealthPing p) \<noteq> None)"

lemma emit_encoded: "sv_marshal sv msg \<noteq> None \<Longrightarrow> fst (emit sv msg mk w) \<noteq> Some MarshalFailed"
  by (auto simp: emit_def Let_def case_prod_unfold split: if_splits)

context reliable_agents
begin

lemma Deregister_gone: "view (snd (Deregister r k s)) = (view s)(k := None)"
proof -
  obtain s' where p: "kv_purge (kr_kv r) k s = (None, s')" using purge_done by blast
  then show ?thesis using purge_ok [OF p] by (simp add: Deregister_def)
qed

lemma pingAgent_pinged:
  assumes "hm_registry m = r" and "pings_encode sv"
  shows "if reg_Status a = StatusActive \<or> reg_Status a = StatusUnhealthy
    then pinged (kr_UnhealthyThreshold r) (kr_DeadThreshold r) (reg_AgentID a) (reg_Revision a) (view (hs_store st)) (view (hs_store (pingAgent sv m a st)))
    else pingAgent sv m a st = st"
proof -
  let ?k = "reg_AgentID a" and ?q = "reg_Revision a" and ?s = "hs_store st"
  let ?e = "emit sv (MHealthPing \<lparr>hpi_agent_id = ?k, hpi_sequence = sint (hs_sequence st + 1)\<rparr>)
      (\<lambda>data. (zero_event data)\<lparr>ev_Type := ''agent.health.ping'', ev_SourceNode := hm_nodeID m,
         ev_SourceAgent := ''runtime'', ev_TargetAgent := ?k\<rparr>) (hs_world st)"
  obtain er w where e: "?e = (er, w)" "er \<noteq> Some MarshalFailed" using assms(2) emit_encoded unfolding pings_encode_def by (metis prod.collapse)
  obtain res s1 where i: "IncrementMissedHeartbeats r ?k ?q ?s = (res, s1)" by fastforce
  let ?st = "st\<lparr>hs_sequence := hs_sequence st + 1, hs_world := w, hs_store := s1\<rparr>"
  have run: "pingAgent sv m a st = (case res of Inl _ \<Rightarrow> ?st | Inr (status, rv) \<Rightarrow>
      if status = StatusDead then handleDeadAgent sv m ?k ?st else ?st)" if "reg_Status a = StatusActive \<or> reg_Status a = StatusUnhealthy"
    using that e i assms(1) by (auto simp: pingAgent_def Let_def split: option.splits publish_error.splits sum.splits)
  have dead: "view (hs_store (handleDeadAgent sv m ?k ?st)) = (view s1)(?k := None)"
    using Deregister_gone assms(1) by (simp add: handleDeadAgent_def Let_def case_prod_unfold)
  show ?thesis
  proof (cases "\<exists>reg. view ?s ?k = Some (Json reg, ?q)")
    case True
    then obtain reg where v: "view ?s ?k = Some (Json reg, ?q)" ..
    let ?reg = "miss (kr_UnhealthyThreshold r) (kr_DeadThreshold r) (reg\<lparr>reg_Revision := ?q\<rparr>)"
    obtain rv where "res = Inr (reg_Status ?reg, rv)" "view s1 = (view ?s)(?k \<mapsto> (Json ?reg, rv))"
      using Increment_present [OF v] i by (metis prod.inject)
    then show ?thesis using v run dead by (auto simp: pinged_def Let_def pingAgent_def)
  next
    case False
    have "view s1 = view ?s \<and> (\<exists>err. res = Inl err)"
    proof (cases "view ?s ?k = Some (Corrupt, ?q)")
      case True
      then show ?thesis using i get_present by (auto simp: IncrementMissedHeartbeats_def Get_def)
    next
      case no: False
      have "view ?s ?k \<noteq> Some (v, ?q)" for v using False no by (cases v) auto
      then show ?thesis using bucket.IncrementMissedHeartbeats_stale [OF i] by blast
    qed
    then show ?thesis using False run by (auto simp: pinged_def pingAgent_def split: option.split json.split)
  qed
qed

lemma pingAll_sole:
  assumes "hm_registry m = r" and "pings_encode sv" and "sole_agent (view (hs_store st)) k"
  shows "sole_agent (view (hs_store (fold (pingAgent sv m) as st))) k"
  using assms(3)
proof (induction as arbitrary: st)
  case (Cons a as)
  have "sole_agent (view (hs_store (pingAgent sv m a st))) k"
    using pingAgent_pinged [OF assms(1,2), of a st] Cons.prems pinged_sole by (metis (full_types))
  then show ?case using Cons.IH by simp
qed simp

lemma pingAll_other:
  assumes "hm_registry m = r" and "pings_encode sv" and "filter (\<lambda>a. reg_AgentID a = k) as = []"
  shows "view (hs_store (fold (pingAgent sv m) as st)) k = view (hs_store st) k"
  using assms(3)
proof (induction as arbitrary: st)
  case (Cons a as)
  then have "view (hs_store (pingAgent sv m a st)) k = view (hs_store st) k"
    using pingAgent_pinged [OF assms(1,2), of a st] pinged_other by (metis (mono_tags, lifting) filter_empty_conv list.set_intros(1))
  then show ?case using Cons by (auto split: if_splits)
qed simp

lemma pingAll_once:
  assumes "hm_registry m = r" and "pings_encode sv" and "filter (\<lambda>a. reg_AgentID a = k) as = [reg\<lparr>reg_Revision := q\<rparr>]"
    and "view (hs_store st) k = Some (Json reg, q)" and "reg_Status reg = StatusActive \<or> reg_Status reg = StatusUnhealthy"
  shows "let reg' = miss (kr_UnhealthyThreshold r) (kr_DeadThreshold r) (reg\<lparr>reg_Revision := q\<rparr>);
      v = view (hs_store (fold (pingAgent sv m) as st)) k
    in if reg_Status reg' = StatusDead then v = None else (\<exists>rv. v = Some (Json reg', rv))"
  using assms(3,4)
proof (induction as arbitrary: st)
  case (Cons a as)
  note p = pingAgent_pinged [OF assms(1,2), of a st]
  show ?case
  proof (cases "reg_AgentID a = k")
    case False
    then have "view (hs_store (pingAgent sv m a st)) k = view (hs_store st) k" using p pinged_other by (metis (full_types))
    then show ?thesis using Cons False by simp
  next
    case True
    then have a: "a = reg\<lparr>reg_Revision := q\<rparr>" and rest: "filter (\<lambda>a. reg_AgentID a = k) as = []" using Cons.prems(1) by auto
    have "pinged (kr_UnhealthyThreshold r) (kr_DeadThreshold r) k q (view (hs_store st)) (view (hs_store (pingAgent sv m a st)))"
      using p a assms(5) True by (auto split: if_splits)
    then show ?thesis using Cons.prems(2) pingAll_other [OF assms(1,2) rest] by (auto simp: pinged_def Let_def split: if_splits)
  qed
qed simp

lemma pingRound_once:
  assumes "hm_registry m = r" and "pings_encode sv" and "sole_agent (view (hs_store st)) k"
    and "view (hs_store st) k = Some (Json reg, q)" and "reg_Status reg = StatusActive \<or> reg_Status reg = StatusUnhealthy"
  shows "sole_agent (view (hs_store (pingRound sv m st))) k"
    and "let reg' = miss (kr_UnhealthyThreshold r) (kr_DeadThreshold r) (reg\<lparr>reg_Revision := q\<rparr>);
      v = view (hs_store (pingRound sv m st)) k
    in if reg_Status reg' = StatusDead then v = None else (\<exists>rv. v = Some (Json reg', rv))"
proof -
  obtain agents where l: "List r (hs_store st) = Inr agents" "filter (\<lambda>a. reg_AgentID a = k) agents = [reg\<lparr>reg_Revision := q\<rparr>]"
    using List_sole [OF assms(3,4)] .
  then have p: "pingRound sv m st = fold (pingAgent sv m) agents st" using assms(1) by (simp add: pingRound_def)
  show "sole_agent (view (hs_store (pingRound sv m st))) k" using p pingAll_sole [OF assms(1-3)] by simp
  show "let reg' = miss (kr_UnhealthyThreshold r) (kr_DeadThreshold r) (reg\<lparr>reg_Revision := q\<rparr>);
      v = view (hs_store (pingRound sv m st)) k
    in if reg_Status reg' = StatusDead then v = None else (\<exists>rv. v = Some (Json reg', rv))"
    using p pingAll_once [OF assms(1,2) l(2) assms(4,5)] by simp
qed

end

lemma miss_revision: "reg_Status (miss u d (reg\<lparr>reg_Revision := q\<rparr>)) = reg_Status (miss u d reg)"
  "reg_MissedHeartbeats (miss u d (reg\<lparr>reg_Revision := q\<rparr>)) = reg_MissedHeartbeats (miss u d reg)"
  by (simp_all add: miss_def Let_def)

section \<open>Properties\<close>

context reliable_agents
begin

lemma silent_rounds:
  assumes "hm_registry m = r" and "pings_encode sv" and "kr_UnhealthyThreshold r = int u" and "kr_DeadThreshold r = int d"
    and "0 < u" and "u < d" and "d < 2 ^ 31" and "sole_agent (view (hs_store st)) k" and "view (hs_store st) k = Some (Json reg, q)"
    and "reg_Status reg = StatusActive" and "reg_MissedHeartbeats reg = 0" and "n < d"
  shows "sole_agent (view (hs_store ((pingRound sv m ^^ n) st))) k \<and>
    (\<exists>reg' q'. view (hs_store ((pingRound sv m ^^ n) st)) k = Some (Json reg', q') \<and>
       reg_Status reg' = silent_status u d n \<and> reg_MissedHeartbeats reg' = int n)"
  using assms(12)
proof (induction n)
  case 0
  then show ?case using assms(5,8-11) by (simp add: silent_status_def)
next
  case (Suc n)
  let ?st = "(pingRound sv m ^^ n) st"
  from Suc obtain reg1 q1 where sole: "sole_agent (view (hs_store ?st)) k" and v: "view (hs_store ?st) k = Some (Json reg1, q1)"
    and s1: "reg_Status reg1 = silent_status u d n" "reg_MissedHeartbeats reg1 = int n" by auto
  have a: "reg_Status reg1 = StatusActive \<or> reg_Status reg1 = StatusUnhealthy"
    using s1(1) Suc.prems assms(6) by (auto simp: silent_status_def)
  let ?reg = "miss (int u) (int d) (reg1\<lparr>reg_Revision := q1\<rparr>)"
  have m: "reg_MissedHeartbeats ?reg = int (Suc n)" "reg_Status ?reg = silent_status u d (Suc n)"
    using miss_silent [of "reg1\<lparr>reg_Revision := q1\<rparr>" n u d] s1 assms(5-7) Suc.prems by auto
  have "reg_Status ?reg \<noteq> StatusDead" using m(2) Suc.prems by (simp add: silent_status_def)
  then show ?case using pingRound_once [OF assms(1,2) sole v a] m assms(3,4) by (auto simp: Let_def)
qed

lemma recordPong_quiet:
  assumes "\<forall>s. interleave i s = s" and "i < left"
    and "\<forall>j s. (\<exists>reg q. view s k = Some (Json reg, q)) \<longrightarrow> (\<exists>reg q. view (interleave j s) k = Some (Json reg, q))"
    and "view s k = Some (Json reg, q)" and "recordPong r interleave k clock left s = (res, s')"
  shows "res = None \<and> (\<exists>reg0 q0 q' t. view s' k = Some (Json (beat t (reg0\<lparr>reg_Revision := q0\<rparr>)), q'))"
  using assms(2,4,5)
proof (induction left arbitrary: s reg q)
  case (Suc left)
  let ?s = "interleave left s"
  have g: "Get r k s = Inr (reg\<lparr>reg_Revision := q\<rparr>, q)" by (rule Get_present [OF Suc.prems(2)])
  obtain res1 s1 where h: "RecordHeartbeat r k q (clock left) ?s = (res1, s1)" by fastforce
  obtain reg1 q1 where v1: "view ?s k = Some (Json reg1, q1)" using assms(3) Suc.prems(2) by blast
  note g1 = Get_present [OF v1]
  show ?case
  proof (cases "q1 = q")
    case True
    let ?b = "beat (clock left) (reg1\<lparr>reg_Revision := q\<rparr>)"
    obtain rv s2 where u: "kv_update (kr_kv r) k (Json ?b) q ?s = (Inr rv, s2)" using update_match v1 True by blast
    then have "res = None" "s' = s2" using g g1 h True Suc.prems(3) by (auto simp: RecordHeartbeat_def writeBack_def)
    then show ?thesis using update_ok [OF u] by auto
  next
    case False
    then have "view s1 = view ?s" "\<exists>e. res1 = Inl e" using bucket.RecordHeartbeat_stale [OF h] v1 by auto
    moreover from this have "i < left" using False assms(1) Suc.prems(1,2) v1 by (cases "i = left") auto
    ultimately show ?thesis using Suc.IH [of s1 reg1 q1] Suc.prems(3) g h v1 by auto
  qed
qed simp

end

interpretation mem_agents: reliable_agents "mem_registry u d cat" mem_view for u d cat
  by (simp add: reliable_agents_def mem_registry_def mem.reliable_kv_axioms)

text \<open>
  C13. A silent agent is declared dead on time: an active agent from which no pong arrives goes
  through the lifecycle one missed heartbeat per round, is UNHEALTHY from the first threshold on,
  and after exactly as many rounds as the second threshold says its entry is gone.
\<close>

theorem silent_agent_removed:
  assumes "reliable_agents r view" and "hm_registry m = r" and "pings_encode sv"
    and "kr_UnhealthyThreshold r = int u" and "kr_DeadThreshold r = int d" and "0 < u" and "u < d" and "d < 2 ^ 31"
    and "sole_agent (view (hs_store st)) k" and "view (hs_store st) k = Some (Json reg, q)"
    and "reg_Status reg = StatusActive" and "reg_MissedHeartbeats reg = 0"
  shows "(\<forall>n<d. \<exists>reg' q'. view (hs_store ((pingRound sv m ^^ n) st)) k = Some (Json reg', q') \<and>
      reg_Status reg' = (if n < u then StatusActive else StatusUnhealthy)) \<and>
    view (hs_store ((pingRound sv m ^^ d) st)) k = None"
proof -
  note rounds = reliable_agents.silent_rounds [OF assms]
  obtain n where n: "d = Suc n" using assms(7) by (cases d) auto
  let ?st = "(pingRound sv m ^^ n) st"
  obtain reg1 q1 where sole: "sole_agent (view (hs_store ?st)) k" and v: "view (hs_store ?st) k = Some (Json reg1, q1)"
    and s1: "reg_Status reg1 = silent_status u d n" "reg_MissedHeartbeats reg1 = int n" using rounds [of n] n by auto
  have a: "reg_Status reg1 = StatusActive \<or> reg_Status reg1 = StatusUnhealthy" using s1(1) n by (auto simp: silent_status_def)
  have "reg_Status (miss (int u) (int d) (reg1\<lparr>reg_Revision := q1\<rparr>)) = StatusDead"
    using miss_silent [of "reg1\<lparr>reg_Revision := q1\<rparr>" n u d] s1 assms(6-8) n by (auto simp: silent_status_def)
  then have "view (hs_store ((pingRound sv m ^^ d) st)) k = None"
    using reliable_agents.pingRound_once(2) [OF assms(1-3) sole v a] assms(4,5) n by (simp add: Let_def)
  moreover have "silent_status u d n = (if n < u then StatusActive else StatusUnhealthy)" if "n < d" for n
    using that assms(7) by (simp add: silent_status_def)
  ultimately show ?thesis using rounds by fastforce
qed

definition ex_monitor :: "(AgentRegistration json bucket, TaxonomyEntry json bucket) Monitor" where
  "ex_monitor = \<lparr>hm_registry = mem_registry 1 2 None, hm_DeadThreshold = 2, hm_nodeID = ''n''\<rparr>"

definition ex_monitored :: "(AgentRegistration json bucket, unit) monitor_state" where
  "ex_monitored = \<lparr>hs_store = \<lparr>bk_entries = [(''a'', Json ((ex_registration ''a'')\<lparr>reg_Status := StatusActive,
     reg_MissedHeartbeats := 0\<rparr>), 1)], bk_seq = 1\<rparr>, hs_sequence = 0, hs_world = empty_world\<rparr>"

theorem silent_agent_removed_witness:
  "mem_view (hs_store ((pingRound (null_services ()) ex_monitor ^^ 2) ex_monitored)) ''a'' = None"
proof -
  let ?reg = "(ex_registration ''a'')\<lparr>reg_Status := StatusActive, reg_MissedHeartbeats := 0\<rparr>"
  have m: "hm_registry ex_monitor = mem_registry (int 1) (int 2) None" by (simp add: ex_monitor_def)
  have e: "pings_encode (null_services ())" by (simp add: pings_encode_def null_services_def)
  have t: "kr_UnhealthyThreshold (mem_registry (int 1) (int 2) None) = int 1" "kr_DeadThreshold (mem_registry (int 1) (int 2) None) = int 2"
    by (simp_all add: mem_registry_def)
  have v: "mem_view (hs_store ex_monitored) ''a'' = Some (Json ?reg, 1)" by (simp add: mem_view_def ex_monitored_def)
  have so: "sole_agent (mem_view (hs_store ex_monitored)) ''a''"
    by (simp add: sole_agent_def mem_view_def ex_monitored_def ex_registration_def)
  have "reg_Status ?reg = StatusActive" "reg_MissedHeartbeats ?reg = 0" by simp_all
  from silent_agent_removed [OF mem_agents.reliable_agents_axioms m e t _ _ _ so v this] show ?thesis by simp
qed

text \<open>
  A pong is recorded although other goroutines write the same entry: if one of the five attempts
  is undisturbed and the agent stays registered, the handler succeeds, the counter of missed
  heartbeats is zero again and an UNHEALTHY agent is ACTIVE.
\<close>

lemma pong_recorded_despite_writers:
  assumes "reliable_agents r view" and "sv_dec_pong sv (ev_Payload evt) = Some p" and "i < 5" and "\<forall>s. interleave i s = s"
    and "\<forall>j s. (\<exists>reg q. view s (hpo_agent_id p) = Some (Json reg, q)) \<longrightarrow>
      (\<exists>reg q. view (interleave j s) (hpo_agent_id p) = Some (Json reg, q))"
    and "view s (hpo_agent_id p) = Some (Json reg, q)" and "handlePong sv r interleave clock evt s = (res, s')"
  shows "res = None \<and> (\<exists>reg' q'. view s' (hpo_agent_id p) = Some (Json reg', q') \<and>
    reg_MissedHeartbeats reg' = 0 \<and> reg_Status reg' \<noteq> StatusUnhealthy)"
proof -
  have "recordPong r interleave (hpo_agent_id p) clock maxRetries s = (res, s')" using assms(2,7) by (simp add: handlePong_def)
  from reliable_agents.recordPong_quiet [OF assms(1,4) _ assms(5,6) this] assms(3)
  obtain reg0 q0 q' t where "res = None" "view s' (hpo_agent_id p) = Some (Json (beat t (reg0\<lparr>reg_Revision := q0\<rparr>)), q')"
    by (auto simp: maxRetries_def)
  then show ?thesis by (auto simp: beat_def)
qed

definition ex_pong_services :: "unit services" where
  "ex_pong_services = (null_services ())\<lparr>sv_dec_pong := \<lambda>_. Some \<lparr>hpo_agent_id = ''a'', hpo_sequence = 1, hpo_status = 1\<rparr>\<rparr>"

definition ex_writer :: "nat \<Rightarrow> AgentRegistration json bucket \<Rightarrow> AgentRegistration json bucket" where
  "ex_writer j s = (if j = 3 then s else snd (kv_put mem_ops ''a'' (Json (ex_registration ''a'')) s))"

lemma pong_recorded_despite_writers_witness:
  "fst (handlePong ex_pong_services (mem_registry 3 6 None) ex_writer (\<lambda>_. 0) (zero_event ()) (hs_store ex_monitored)) = None"
proof -
  let ?s = "hs_store ex_monitored"
  have d: "sv_dec_pong ex_pong_services (ev_Payload (zero_event ())) = Some \<lparr>hpo_agent_id = ''a'', hpo_sequence = 1, hpo_status = 1\<rparr>"
    by (simp add: ex_pong_services_def)
  have i: "(3::nat) < 5" "\<forall>s. ex_writer 3 s = s" by (simp_all add: ex_writer_def)
  have p: "\<forall>j s. (\<exists>reg q. mem_view s (hpo_agent_id \<lparr>hpo_agent_id = ''a'', hpo_sequence = 1, hpo_status = 1\<rparr>) = Some (Json reg, q)) \<longrightarrow>
      (\<exists>reg q. mem_view (ex_writer j s) (hpo_agent_id \<lparr>hpo_agent_id = ''a'', hpo_sequence = 1, hpo_status = 1\<rparr>) = Some (Json reg, q))"
    by (auto simp: ex_writer_def mem_ops_def mem_write_def mem_view_def Let_def)
  have v: "mem_view ?s (hpo_agent_id \<lparr>hpo_agent_id = ''a'', hpo_sequence = 1, hpo_status = 1\<rparr>) = Some (Json ((ex_registration ''a'')\<lparr>reg_Status := StatusActive,
     reg_MissedHeartbeats := 0\<rparr>), 1)" by (simp add: mem_view_def ex_monitored_def)
  from pong_recorded_despite_writers [OF mem_agents.reliable_agents_axioms d i p v prod.collapse [symmetric]] show ?thesis by blast
qed

end
