(* ===== verification/Nodes.thy ===== *)
theory Nodes
  imports Health
begin

text \<open>
  Federated nodes (\<open>core/federation/node_registry.go\<close>, \<open>node_monitor.go\<close>, \<open>capability_sync.go\<close>): the
  registry of peers over its bucket, the synchronisation of capabilities into the agent registry,
  and the monitor that declares silent peers dead. Tickers and subscriptions are the environment;
  logging is not modelled. The locale \<open>federation_stores\<close> combines the two buckets a node keeps, each
  answering every request.
\<close>

section \<open>The node registry\<close>

datatype NodeLifecycleStatus = NodeStatusActive | NodeStatusUnhealthy | NodeStatusDead | NodeStatusUnknown int

fun node_status_String :: "NodeLifecycleStatus \<Rightarrow> string" where
  "node_status_String NodeStatusActive = ''ACTIVE''"
| "node_status_String NodeStatusUnhealthy = ''UNHEALTHY''"
| "node_status_String NodeStatusDead = ''DEAD''"
| "node_status_String (NodeStatusUnknown _) = ''UNKNOWN''"

record NodeInfo =
  ni_NodeID :: string
  ni_Address :: string
  ni_Status :: NodeLifecycleStatus
  ni_CapabilitiesCount :: int
  ni_LastSeen :: int
  ni_JoinedAt :: int
  ni_MissedHeartbeats :: int
  ni_Version :: string
  ni_Revision :: nat

datatype node_error = ErrNodeNotFound | ErrNodeCAS | ErrNodeValidation string | NodeStore kv_error | NodeUnmarshal

record 's KVNodeRegistry =
  kn_kv :: "('s, NodeInfo json) kv_ops"
  kn_UnhealthyThreshold :: int
  kn_DeadThreshold :: int

definition registeredInfo :: "NodeInfo \<Rightarrow> int \<Rightarrow> int \<Rightarrow> NodeInfo" where
  "registeredInfo info seen joined = info\<lparr>ni_Status := NodeStatusActive, ni_LastSeen := seen,
     ni_MissedHeartbeats := 0, ni_JoinedAt := (if ni_JoinedAt info = 0 then joined else ni_JoinedAt info)\<rparr>"

definition upsertNode :: "('s, NodeInfo json) kv_ops \<Rightarrow> NodeInfo \<Rightarrow> 's \<Rightarrow> (node_error + nat) \<times> 's" where
  "upsertNode kv info s =
     (case kv_create kv (ni_NodeID info) (Json info) s of
        (Inr rv, s1) \<Rightarrow> (Inr rv, s1)
      | (Inl _, s1) \<Rightarrow>
          (case kv_get kv (ni_NodeID info) s1 of
             Inl err \<Rightarrow> (Inl (NodeStore err), s1)
           | Inr (_, current) \<Rightarrow>
               (case kv_update kv (ni_NodeID info) (Json info) current s1 of
                  (Inl err, s2) \<Rightarrow> (Inl (NodeStore err), s2)
                | (Inr rv, s2) \<Rightarrow> (Inr rv, s2))))"

text \<open>The clock is read a second time only for a node without a join time.\<close>

definition NodeRegister :: "'b services \<Rightarrow> 's KVNodeRegistry \<Rightarrow> NodeInfo \<Rightarrow> 's \<Rightarrow> 'b world \<Rightarrow>
    (node_error + nat) \<times> 's \<times> 'b world" where
  "NodeRegister sv r info s w =
     (if ni_NodeID info = [] then (Inl (ErrNodeValidation ''node_id is required''), s, w)
      else if ni_Address info = [] then (Inl (ErrNodeValidation ''address is required''), s, w)
      else
        (let (seen, w1) = time_now sv w;
             (joined, w2) = (if ni_JoinedAt info = 0 then time_now sv w1 else (0, w1));
             (res, s') = upsertNode (kn_kv r) (registeredInfo info seen joined) s
         in (res, s', w2)))"

definition NodeDeregister :: "'s KVNodeRegistry \<Rightarrow> string \<Rightarrow> 's \<Rightarrow> node_error option \<times> 's" where
  "NodeDeregister r nodeID s =
     (case kv_purge (kn_kv r) nodeID s of
        (None, s') \<Rightarrow> (None, s')
      | (Some err, s') \<Rightarrow> (if err = ErrKeyNotFound then None else Some (NodeStore err), s'))"

definition NodeGet :: "'s KVNodeRegistry \<Rightarrow> string \<Rightarrow> 's \<Rightarrow> node_error + (NodeInfo \<times> nat)" where
  "NodeGet r nodeID s =
     (case kv_get (kn_kv r) nodeID s of
        Inl err \<Rightarrow> Inl (if err = ErrKeyNotFound then ErrNodeNotFound else NodeStore err)
      | Inr (Corrupt, _) \<Rightarrow> Inl NodeUnmarshal
      | Inr (Json info, rv) \<Rightarrow> Inr (info\<lparr>ni_Revision := rv\<rparr>, rv))"

fun getNodes :: "'s KVNodeRegistry \<Rightarrow> string list \<Rightarrow> 's \<Rightarrow> node_error + NodeInfo list" where
  "getNodes r [] s = Inr []"
| "getNodes r (k # ks) s =
     (case NodeGet r k s of
        Inl err \<Rightarrow> if err = ErrNodeNotFound then getNodes r ks s else Inl err
      | Inr (info, _) \<Rightarrow> (case getNodes r ks s of Inl err \<Rightarrow> Inl err | Inr infos \<Rightarrow> Inr (info # infos)))"

definition NodeList :: "'s KVNodeRegistry \<Rightarrow> 's \<Rightarrow> node_error + NodeInfo list" where
  "NodeList r s =
     (case kv_keys (kn_kv r) s of
        Inl err \<Rightarrow> if err = ErrNoKeysFound then Inr [] else Inl (NodeStore err)
      | Inr ks \<Rightarrow> getNodes r ks s)"

definition updateNode :: "'s KVNodeRegistry \<Rightarrow> string \<Rightarrow> NodeInfo \<Rightarrow> nat \<Rightarrow> 's \<Rightarrow> (node_error + nat) \<times> 's" where
  "updateNode r nodeID info revision s =
     (case kv_update (kn_kv r) nodeID (Json info) revision s of
        (Inl _, s') \<Rightarrow> (Inl ErrNodeCAS, s')
      | (Inr rv, s') \<Rightarrow> (Inr rv, s'))"

definition NodeUpdateStatus :: "'s KVNodeRegistry \<Rightarrow> string \<Rightarrow> NodeLifecycleStatus \<Rightarrow> nat \<Rightarrow> 's \<Rightarrow> (node_error + nat) \<times> 's" where
  "NodeUpdateStatus r nodeID status revision s =
     (case NodeGet r nodeID s of
        Inl err \<Rightarrow> (Inl err, s)
      | Inr (info, _) \<Rightarrow> updateNode r nodeID (info\<lparr>ni_Status := status\<rparr>) revision s)"

definition node_beat :: "int \<Rightarrow> NodeInfo \<Rightarrow> NodeInfo" where
  "node_beat now info = info\<lparr>ni_MissedHeartbeats := 0, ni_LastSeen := now,
     ni_Status := (if ni_Status info = NodeStatusUnhealthy then NodeStatusActive else ni_Status info)\<rparr>"

text \<open>Both ignore the revision they are given and use the one they have just read.\<close>

definition NodeRecordHeartbeat :: "'s KVNodeRegistry \<Rightarrow> string \<Rightarrow> nat \<Rightarrow> int \<Rightarrow> 's \<Rightarrow> (node_error + nat) \<times> 's" where
  "NodeRecordHeartbeat r nodeID revision now s =
     (case NodeGet r nodeID s of
        Inl err \<Rightarrow> (Inl err, s)
      | Inr (info, current) \<Rightarrow> updateNode r nodeID (node_beat now info) current s)"

definition node_miss :: "int \<Rightarrow> int \<Rightarrow> NodeInfo \<Rightarrow> NodeInfo" where
  "node_miss unhealthy dead info =
     (let n = wrap32 (ni_MissedHeartbeats info + 1) in
      info\<lparr>ni_MissedHeartbeats := n,
           ni_Status := (if dead \<le> n \<and> ni_Status info = NodeStatusUnhealthy then NodeStatusDead
                         else if unhealthy \<le> n \<and> ni_Status info = NodeStatusActive then NodeStatusUnhealthy
                         else ni_Status info)\<rparr>)"

definition NodeIncrementMissedHeartbeats :: "'s KVNodeRegistry \<Rightarrow> string \<Rightarrow> nat \<Rightarrow> 's \<Rightarrow>
    (node_error + (NodeLifecycleStatus \<times> nat)) \<times> 's" where
  "NodeIncrementMissedHeartbeats r nodeID revision s =
     (case NodeGet r nodeID s of
        Inl err \<Rightarrow> (Inl err, s)
      | Inr (info, current) \<Rightarrow>
          (let info' = node_miss (kn_UnhealthyThreshold r) (kn_DeadThreshold r) info in
           case updateNode r nodeID info' current s of
             (Inl err, s') \<Rightarrow> (Inl err, s')
           | (Inr rv, s') \<Rightarrow> (Inr (ni_Status info', rv), s')))"

section \<open>Capability synchronisation\<close>

text \<open>
  State of a federated node's gateway: the bucket of known nodes, the bucket of agents, the
  monitor's sequence number and the world. Subscriptions are started once and not part of it.
\<close>

record ('s, 'a, 'b) fed_state =
  fs_nodes :: 's
  fs_agents :: 'a
  fs_sequence :: "64 word"
  fs_world :: "'b world"

record ('s, 'a, 'c) fed_node =
  fn_nodeID :: string
  fn_nodes :: "'s KVNodeRegistry"
  fn_agents :: "('a, 'c) KVRegistry"
  fn_CleanupTTL :: int

definition PurgeNode :: "('s, 'a, 'c) fed_node \<Rightarrow> string \<Rightarrow> ('s, 'a, 'b) fed_state \<Rightarrow> ('s, 'a, 'b) fed_state" where
  "PurgeNode g nodeID st = st\<lparr>fs_agents := snd (DeregisterRemotesByNode (fn_agents g) nodeID (fs_agents st))\<rparr>"

definition fed_caps :: "pb_Capability list \<Rightarrow> pb_Capability list" where
  "fed_caps = map (\<lambda>c. \<lparr>pc_name = pc_name c, pc_version = pc_version c, pc_description = pc_description c,
     pc_parameters = pc_parameters c, pc_category = [], pc_action = [], pc_input_types = [], pc_output_types = []\<rparr>)"

definition send :: "'b services \<Rightarrow> string \<Rightarrow> 'b message \<Rightarrow> ('s, 'a, 'b) fed_state \<Rightarrow> ('s, 'a, 'b) fed_state" where
  "send sv subject msg st =
     (case sv_marshal sv msg of
        None \<Rightarrow> st
      | Some data \<Rightarrow> st\<lparr>fs_world := snd (wire_publish sv subject data (fs_world st))\<rparr>)"

definition handleLocalAnnounce :: "'b services \<Rightarrow> ('s, 'a, 'c) fed_node \<Rightarrow> 'b event \<Rightarrow> ('s, 'a, 'b) fed_state \<Rightarrow> ('s, 'a, 'b) fed_state" where
  "handleLocalAnnounce sv g evt st =
     (case sv_dec_announce sv (ev_Payload evt) of
        None \<Rightarrow> st
      | Some payload \<Rightarrow>
          if cap_ann_capabilities payload = [] then
            send sv ''federation.capability.remove'' (MFederationCapabilityRemove
              \<lparr>fcr_node_id = fn_nodeID g, fcr_agent_id = cap_ann_agent_id payload, fcr_reason = ''agent_unregistered''\<rparr>) st
          else
            (case Get (fn_agents g) (cap_ann_agent_id payload) (fs_agents st) of
               Inl _ \<Rightarrow> st
             | Inr (reg, _) \<Rightarrow>
                 if IsRemote reg then st
                 else send sv ''federation.capability.announce'' (MFederationCapability
                   \<lparr>fcp_node_id = fn_nodeID g, fcp_agent_id = cap_ann_agent_id payload,
                    fcp_agent_type = reg_AgentType reg, fcp_capabilities = fed_caps (cap_ann_capabilities payload)\<rparr>) st))"

definition remoteRegistration :: "FederationCapabilityPayload \<Rightarrow> AgentRegistration" where
  "remoteRegistration p = \<lparr>reg_AgentID = fcp_agent_id p, reg_AgentType = fcp_agent_type p, reg_Version = [],
     reg_Capabilities = map of_pb_cap (fcp_capabilities p), reg_Labels = Map.empty, reg_Status = StatusRegistering,
     reg_LastSeen = 0, reg_MissedHeartbeats = 0, reg_NodeID = fcp_node_id p, reg_Origin = ''remote'', reg_Revision = 0\<rparr>"

definition handleRemoteAnnounce :: "'b services \<Rightarrow> ('s, 'a, 'c) fed_node \<Rightarrow> 'b \<Rightarrow> ('s, 'a, 'b) fed_state \<Rightarrow> ('s, 'a, 'b) fed_state" where
  "handleRemoteAnnounce sv g data st =
     (case sv_dec_fed_capability sv data of
        None \<Rightarrow> st
      | Some p \<Rightarrow>
          if fcp_node_id p = fn_nodeID g then st
          else (let (now, w) = time_now sv (fs_world st)
                in st\<lparr>fs_world := w, fs_agents := snd (RegisterRemote (fn_agents g) (remoteRegistration p) now (fs_agents st))\<rparr>))"

definition handleRemoteRemove :: "'b services \<Rightarrow> ('s, 'a, 'c) fed_node \<Rightarrow> 'b \<Rightarrow> ('s, 'a, 'b) fed_state \<Rightarrow> ('s, 'a, 'b) fed_state" where
  "handleRemoteRemove sv g data st =
     (case sv_dec_fed_remove sv data of
        None \<Rightarrow> st
      | Some p \<Rightarrow>
          if fcr_node_id p = fn_nodeID g then st
          else st\<lparr>fs_agents := snd (Deregister (fn_agents g) (remoteKey (fcr_node_id p) (fcr_agent_id p)) (fs_agents st))\<rparr>)"

section \<open>The node monitor\<close>

text \<open>The gateway sets both callbacks of the monitor to \<open>PurgeNode\<close>.\<close>

definition pingNode :: "'b services \<Rightarrow> ('s, 'a, 'c) fed_node \<Rightarrow> 64 word \<Rightarrow> NodeInfo \<Rightarrow> ('s, 'a, 'b) fed_state \<Rightarrow> ('s, 'a, 'b) fed_state" where
  "pingNode sv g seq info st =
     (if ni_NodeID info = fn_nodeID g then st
      else if ni_Status info = NodeStatusDead then st
      else
        (case NodeIncrementMissedHeartbeats (fn_nodes g) (ni_NodeID info) (ni_Revision info) (fs_nodes st) of
           (Inl _, s) \<Rightarrow> st\<lparr>fs_nodes := s\<rparr>
         | (Inr (status, _), s) \<Rightarrow>
             (let st1 = st\<lparr>fs_nodes := s\<rparr>;
                  st2 = (if status = NodeStatusDead then PurgeNode g (ni_NodeID info) st1 else st1)
              in send sv ''federation.node.health.ping'' (MNodePing \<lparr>nhp_node_id = fn_nodeID g, nhp_sequence = sint seq\<rparr>) st2)))"

definition pingAll :: "'b services \<Rightarrow> ('s, 'a, 'c) fed_node \<Rightarrow> ('s, 'a, 'b) fed_state \<Rightarrow> ('s, 'a, 'b) fed_state" where
  "pingAll sv g st =
     (case NodeList (fn_nodes g) (fs_nodes st) of
        Inl _ \<Rightarrow> st
      | Inr infos \<Rightarrow>
          (let seq = fs_sequence st + 1
           in fold (pingNode sv g seq) infos (st\<lparr>fs_sequence := seq\<rparr>)))"

definition cleanupNode :: "('s, 'a, 'c) fed_node \<Rightarrow> int \<Rightarrow> NodeInfo \<Rightarrow> ('s, 'a, 'b) fed_state \<Rightarrow> ('s, 'a, 'b) fed_state" where
  "cleanupNode g cutoff info st =
     (if ni_NodeID info = fn_nodeID g \<or> ni_Status info \<noteq> NodeStatusDead \<or> cutoff < ni_LastSeen info then st
      else case NodeDeregister (fn_nodes g) (ni_NodeID info) (fs_nodes st) of
             (Some _, s) \<Rightarrow> st\<lparr>fs_nodes := s\<rparr>
           | (None, s) \<Rightarrow> PurgeNode g (ni_NodeID info) (st\<lparr>fs_nodes := s\<rparr>))"

definition cleanupDeadNodes :: "'b services \<Rightarrow> ('s, 'a, 'c) fed_node \<Rightarrow> ('s, 'a, 'b) fed_state \<Rightarrow> ('s, 'a, 'b) fed_state" where
  "cleanupDeadNodes sv g st =
     (case NodeList (fn_nodes g) (fs_nodes st) of
        Inl _ \<Rightarrow> st
      | Inr infos \<Rightarrow>
          (let (now, w) = time_now sv (fs_world st)
           in fold (cleanupNode g (now - fn_CleanupTTL g)) infos (st\<lparr>fs_world := w\<rparr>)))"

definition handleNodePong :: "'b services \<Rightarrow> ('s, 'a, 'c) fed_node \<Rightarrow> 'b \<Rightarrow> ('s, 'a, 'b) fed_state \<Rightarrow> ('s, 'a, 'b) fed_state" where
  "handleNodePong sv g data st =
     (case sv_dec_node_pong sv data of
        None \<Rightarrow> st
      | Some p \<Rightarrow>
          if nho_node_id p = fn_nodeID g then st
          else
            (case NodeGet (fn_nodes g) (nho_node_id p) (fs_nodes st) of
               Inl _ \<Rightarrow> st
             | Inr (_, rv) \<Rightarrow>
                 (let (now, w) = time_now sv (fs_world st)
                  in st\<lparr>fs_world := w,
                        fs_nodes := snd (NodeRecordHeartbeat (fn_nodes g) (nho_node_id p) rv now (fs_nodes st))\<rparr>)))"

definition handleNodePing :: "'b services \<Rightarrow> ('s, 'a, 'c) fed_node \<Rightarrow> 'b \<Rightarrow> ('s, 'a, 'b) fed_state \<Rightarrow> ('s, 'a, 'b) fed_state" where
  "handleNodePing sv g data st =
     (case sv_dec_node_ping sv data of
        None \<Rightarrow> st
      | Some p \<Rightarrow>
          if nhp_node_id p = fn_nodeID g then st
          else send sv ''federation.node.health.pong'' (MNodePong \<lparr>nho_node_id = fn_nodeID g, nho_sequence = nhp_sequence p,
            nho_status = 1, nho_agent_count = 0, nho_workflow_count = 0\<rparr>) st)"

section \<open>A round over reliable buckets\<close>

definition node_keyed :: "NodeInfo json kv_map \<Rightarrow> bool" where
  "node_keyed m \<longleftrightarrow> (\<forall>k v q. m k = Some (v, q) \<longrightarrow> (\<exists>info. v = Json info \<and> ni_NodeID info = k))"

definition listed :: "NodeInfo json kv_map \<Rightarrow> string \<Rightarrow> NodeInfo" where
  "listed m k = (case m k of Some (Json info, q) \<Rightarrow> info\<lparr>ni_Revision := q\<rparr>)"

lemma node_keyedE:
  assumes "node_keyed m" and "k \<in> dom m"
  obtains info q where "m k = Some (Json info, q)" "ni_NodeID info = k"
  using assms unfolding node_keyed_def by (metis domD surj_pair)

lemma node_miss_id [simp]: "ni_NodeID (node_miss u d info) = ni_NodeID info"
  by (simp add: node_miss_def Let_def)

lemma node_beat_id [simp]: "ni_NodeID (node_beat now info) = ni_NodeID info"
  by (simp add: node_beat_def)

lemma node_keyed_upd: "node_keyed m \<Longrightarrow> ni_NodeID info = k \<Longrightarrow> node_keyed (m(k \<mapsto> (Json info, q)))"
  by (auto simp: node_keyed_def)

lemma node_keyed_del: "node_keyed m \<Longrightarrow> node_keyed (m(k := None))"
  by (auto simp: node_keyed_def)

locale reliable_nodes = reliable_kv "kn_kv r" view
  for r :: "'s KVNodeRegistry" and view :: "'s \<Rightarrow> NodeInfo json kv_map"
begin

lemma NodeGet_present: "view s k = Some (Json info, q) \<Longrightarrow> NodeGet r k s = Inr (info\<lparr>ni_Revision := q\<rparr>, q)"
  by (simp add: NodeGet_def get_present)

lemma updateNode_present:
  assumes "view s k = Some (v, q)"
  obtains rv s' where "updateNode r k info q s = (Inr rv, s')" "view s' = (view s)(k \<mapsto> (Json info, rv))"
  using update_match [OF assms, of "Json info"] update_ok by (fastforce simp: updateNode_def)

lemma getNodes_keyed:
  assumes "node_keyed (view s)" and "set ks \<subseteq> dom (view s)"
  shows "getNodes r ks s = Inr (map (listed (view s)) ks)"
  using assms(2)
proof (induction ks)
  case (Cons k ks)
  then have "k \<in> dom (view s)" by simp
  from node_keyedE [OF assms(1) this] obtain info q where "view s k = Some (Json info, q)" by blast
  then show ?case using Cons NodeGet_present by (simp add: listed_def)
qed simp

lemma NodeList_keyed:
  assumes "node_keyed (view s)"
  obtains ks where "NodeList r s = Inr (map (listed (view s)) ks)" "distinct ks" "set ks = dom (view s)"
proof (cases "view s = Map.empty")
  case True
  then show thesis using that [of "[]"] keys_empty by (simp add: NodeList_def)
next
  case False
  then obtain ks where ks: "kv_keys (kn_kv r) s = Inr ks" "distinct ks" "set ks = dom (view s)" using keys_answered [of s] by blast
  then show thesis using that [of ks] getNodes_keyed [OF assms, of ks] by (simp add: NodeList_def)
qed

end

context reliable_agents
begin

lemma purgeKeys_reliable: "fst (purgeKeys r prefix ks s) = None"
proof (induction ks arbitrary: s)
  case (Cons k ks)
  obtain s' where "kv_purge (kr_kv r) k s = (None, s')" using purge_done by blast
  then show ?case using Cons by simp
qed simp

lemma DeregisterRemotes_reliable:
  "view (snd (DeregisterRemotesByNode r nodeID s)) = (\<lambda>k. if HasPrefix k (''remote.'' @ nodeID @ ''.'') then None else view s k)"
proof -
  have "fst (DeregisterRemotesByNode r nodeID s) = None"
    using keys_answered [of s] purgeKeys_reliable by (auto simp: DeregisterRemotesByNode_def)
  then show ?thesis
    by (cases "DeregisterRemotesByNode r nodeID s") (simp add: bucket.DeregisterRemotesByNode_None)
qed

end

definition purged :: "string \<Rightarrow> AgentRegistration json kv_map \<Rightarrow> AgentRegistration json kv_map" where
  "purged k m = (\<lambda>k'. if HasPrefix k' (''remote.'' @ k @ ''.'') then None else m k')"

lemma purged_None: "m k' = None \<Longrightarrow> purged k m k' = None" "HasPrefix k' (''remote.'' @ k @ ''.'') \<Longrightarrow> purged k m k' = None"
  by (simp_all add: purged_def)

locale federation_stores = nodes: reliable_nodes "fn_nodes g" nview + agents: reliable_agents "fn_agents g" aview
  for g :: "('s, 'a, 'c) fed_node" and nview :: "'s \<Rightarrow> NodeInfo json kv_map" and aview :: "'a \<Rightarrow> AgentRegistration json kv_map"
begin

abbreviation missed :: "NodeInfo \<Rightarrow> NodeInfo" where
  "missed \<equiv> node_miss (kn_UnhealthyThreshold (fn_nodes g)) (kn_DeadThreshold (fn_nodes g))"

lemma send_frame [simp]: "fs_nodes (send sv t msg st) = fs_nodes st" "fs_agents (send sv t msg st) = fs_agents st"
  by (simp_all add: send_def split: option.split)

lemma PurgeNode_effect:
  "fs_nodes (PurgeNode g k st) = fs_nodes st"
  "aview (fs_agents (PurgeNode g k st)) = purged k (aview (fs_agents st))"
  using agents.DeregisterRemotes_reliable by (simp_all add: PurgeNode_def purged_def)

lemma pingNode_effect:
  assumes "nview (fs_nodes st) k = Some (Json info, q)" and "ni_NodeID info = k" and "k \<noteq> fn_nodeID g"
    and "ni_Status info \<noteq> NodeStatusDead"
  obtains rv where "nview (fs_nodes (pingNode sv g seq (info\<lparr>ni_Revision := q\<rparr>) st)) =
      (nview (fs_nodes st))(k \<mapsto> (Json (missed (info\<lparr>ni_Revision := q\<rparr>)), rv))"
    "aview (fs_agents (pingNode sv g seq (info\<lparr>ni_Revision := q\<rparr>) st)) =
      (if ni_Status (missed (info\<lparr>ni_Revision := q\<rparr>)) = NodeStatusDead then purged k (aview (fs_agents st)) else aview (fs_agents st))"
proof -
  let ?i = "missed (info\<lparr>ni_Revision := q\<rparr>)"
  obtain rv s' where u: "updateNode (fn_nodes g) k ?i q (fs_nodes st) = (Inr rv, s')"
    and v: "nview s' = (nview (fs_nodes st))(k \<mapsto> (Json ?i, rv))" using nodes.updateNode_present [OF assms(1)] by blast
  have "NodeIncrementMissedHeartbeats (fn_nodes g) k q (fs_nodes st) = (Inr (ni_Status ?i, rv), s')"
    using nodes.NodeGet_present [OF assms(1)] u by (simp add: NodeIncrementMissedHeartbeats_def Let_def)
  then have run: "pingNode sv g seq (info\<lparr>ni_Revision := q\<rparr>) st = send sv ''federation.node.health.ping''
      (MNodePing \<lparr>nhp_node_id = fn_nodeID g, nhp_sequence = sint seq\<rparr>)
      (if ni_Status ?i = NodeStatusDead then PurgeNode g k (st\<lparr>fs_nodes := s'\<rparr>) else st\<lparr>fs_nodes := s'\<rparr>)"
    using assms(2-4) by (simp add: pingNode_def Let_def)
  show thesis
    by (rule that [of rv], cases "ni_Status ?i = NodeStatusDead") (simp_all add: run v PurgeNode_effect)
qed

lemma pingNode_skip: "ni_NodeID info = fn_nodeID g \<or> ni_Status info = NodeStatusDead \<Longrightarrow> pingNode sv g seq info st = st"
  by (auto simp: pingNode_def)

definition gone_remotes :: "string \<Rightarrow> 'a \<Rightarrow> bool" where
  "gone_remotes k a \<longleftrightarrow> (\<forall>k'. HasPrefix k' (''remote.'' @ k @ ''.'') \<longrightarrow> aview a k' = None)"

lemma fold_pingNode:
  assumes "distinct ks" and "\<forall>k\<in>set ks. nview (fs_nodes st) k = m k" and "node_keyed m" and "set ks \<subseteq> dom m"
    and "node_keyed (nview (fs_nodes st))"
  shows "node_keyed (nview (fs_nodes (fold (pingNode sv g seq) (map (listed m) ks) st))) \<and>
    (\<forall>k. k \<notin> set ks \<longrightarrow> nview (fs_nodes (fold (pingNode sv g seq) (map (listed m) ks) st)) k = nview (fs_nodes st) k) \<and>
    (\<forall>k'. aview (fs_agents st) k' = None \<longrightarrow> aview (fs_agents (fold (pingNode sv g seq) (map (listed m) ks) st)) k' = None) \<and>
    (\<forall>k\<in>set ks. k \<noteq> fn_nodeID g \<longrightarrow> ni_Status (listed m k) \<noteq> NodeStatusDead \<longrightarrow>
      (\<exists>rv. nview (fs_nodes (fold (pingNode sv g seq) (map (listed m) ks) st)) k = Some (Json (missed (listed m k)), rv)) \<and>
      (ni_Status (missed (listed m k)) = NodeStatusDead \<longrightarrow>
        gone_remotes k (fs_agents (fold (pingNode sv g seq) (map (listed m) ks) st))))"
  using assms(1,2,4,5)
proof (induction ks arbitrary: st)
  case (Cons k ks)
  obtain info q where mk: "m k = Some (Json info, q)" "ni_NodeID info = k" using node_keyedE [OF assms(3), of k] Cons.prems(3) by auto
  have l: "listed m k = info\<lparr>ni_Revision := q\<rparr>" using mk by (simp add: listed_def)
  let ?st = "pingNode sv g seq (listed m k) st"
  have st: "nview (fs_nodes st) k = Some (Json info, q)" using Cons.prems(2) mk by simp
    consider (skip) "ni_NodeID info = fn_nodeID g \<or> ni_Status info = NodeStatusDead" | (ping) "k \<noteq> fn_nodeID g" "ni_Status info \<noteq> NodeStatusDead"
      using mk(2) by blast
    then have all: "node_keyed (nview (fs_nodes ?st)) \<and> (\<forall>k'. k' \<noteq> k \<longrightarrow> nview (fs_nodes ?st) k' = nview (fs_nodes st) k') \<and>
      (\<forall>k'. aview (fs_agents st) k' = None \<longrightarrow> aview (fs_agents ?st) k' = None) \<and>
      (k \<noteq> fn_nodeID g \<longrightarrow> ni_Status (listed m k) \<noteq> NodeStatusDead \<longrightarrow>
      (\<exists>rv. nview (fs_nodes ?st) k = Some (Json (missed (listed m k)), rv)) \<and>
      (ni_Status (missed (listed m k)) = NodeStatusDead \<longrightarrow> gone_remotes k (fs_agents ?st)))"
    proof cases
      case skip
      then show ?thesis using l mk(2) Cons.prems(4) by (auto simp: pingNode_skip)
    next
      case ping
      from pingNode_effect [OF st mk(2) ping, of sv seq] obtain rv where
        "nview (fs_nodes ?st) = (nview (fs_nodes st))(k \<mapsto> (Json (missed (listed m k)), rv))"
        "aview (fs_agents ?st) = (if ni_Status (missed (listed m k)) = NodeStatusDead then purged k (aview (fs_agents st)) else aview (fs_agents st))"
        using l by auto
      then show ?thesis using Cons.prems(4) l mk(2) by (simp add: node_keyed_upd gone_remotes_def purged_None)
    qed
  note eff = all [THEN conjunct1] all [THEN conjunct2, THEN conjunct1] all [THEN conjunct2, THEN conjunct2, THEN conjunct1]
    all [THEN conjunct2, THEN conjunct2, THEN conjunct2]
  have "k \<notin> set ks" "\<forall>k'\<in>set ks. nview (fs_nodes ?st) k' = m k'" using Cons.prems(1,2) eff(2) by auto
  note IH = Cons.IH [of ?st, OF _ this(2) _ eff(1)]
  let ?f = "fold (pingNode sv g seq) (map (listed m) ks) ?st"
  from IH Cons.prems(1,3) have f: "node_keyed (nview (fs_nodes ?f))" "\<And>k'. k' \<notin> set ks \<Longrightarrow> nview (fs_nodes ?f) k' = nview (fs_nodes ?st) k'"
    "\<And>k'. aview (fs_agents ?st) k' = None \<Longrightarrow> aview (fs_agents ?f) k' = None"
    "\<And>k. k\<in>set ks \<Longrightarrow> k \<noteq> fn_nodeID g \<Longrightarrow> ni_Status (listed m k) \<noteq> NodeStatusDead \<Longrightarrow>
      (\<exists>rv. nview (fs_nodes ?f) k = Some (Json (missed (listed m k)), rv)) \<and>
      (ni_Status (missed (listed m k)) = NodeStatusDead \<longrightarrow> gone_remotes k (fs_agents ?f))" by simp_all
  have g: "gone_remotes k (fs_agents ?st) \<Longrightarrow> gone_remotes k (fs_agents ?f)" using f(3) by (simp add: gone_remotes_def)
  have run: "fold (pingNode sv g seq) (map (listed m) (k # ks)) st = ?f" by simp
  show ?case unfolding run
  proof (intro conjI allI ballI impI)
    show "nview (fs_nodes ?f) k' = nview (fs_nodes st) k'" if "k' \<notin> set (k # ks)" for k' using that f(2) eff(2) by simp
    show "aview (fs_agents ?f) k' = None" if "aview (fs_agents st) k' = None" for k' using that f(3) eff(3) by blast
    fix k' assume k': "k' \<in> set (k # ks)" "k' \<noteq> fn_nodeID g" "ni_Status (listed m k') \<noteq> NodeStatusDead"
    show "\<exists>rv. nview (fs_nodes ?f) k' = Some (Json (missed (listed m k')), rv)"
      using k' f(2,4) eff(4) \<open>k \<notin> set ks\<close> by (cases "k' = k") auto
    show "gone_remotes k' (fs_agents ?f)" if "ni_Status (missed (listed m k')) = NodeStatusDead"
      using k' that f(4) [of k'] eff(4) g by (cases "k' = k") auto
  qed (rule f(1))
qed simp

end

section \<open>Properties of the monitor\<close>

definition silent_node :: "nat \<Rightarrow> nat \<Rightarrow> nat \<Rightarrow> NodeLifecycleStatus" where
  "silent_node unhealthy dead n =
     (if n < unhealthy then NodeStatusActive else if n < dead then NodeStatusUnhealthy else NodeStatusDead)"

lemma node_miss_silent:
  assumes "ni_MissedHeartbeats info = int n" and "ni_Status info = silent_node u d n"
    and "0 < u" and "u < d" and "n < d" and "d < 2 ^ 31"
  shows "ni_MissedHeartbeats (node_miss (int u) (int d) info) = int (Suc n)"
    and "ni_Status (node_miss (int u) (int d) info) = silent_node u d (Suc n)"
proof -
  have "wrap32 (int n + 1) = int (Suc n)" using assms(5,6) by (subst wrap32_id) auto
  then show "ni_MissedHeartbeats (node_miss (int u) (int d) info) = int (Suc n)"
    and "ni_Status (node_miss (int u) (int d) info) = silent_node u d (Suc n)"
    using assms(1-5) by (auto simp: node_miss_def Let_def silent_node_def split: if_splits)
qed

context federation_stores
begin

lemma pingAll_effect:
  assumes "node_keyed (nview (fs_nodes st))" and "nview (fs_nodes st) k = Some (Json info, q)" and "k \<noteq> fn_nodeID g"
    and "ni_Status info \<noteq> NodeStatusDead"
  shows "node_keyed (nview (fs_nodes (pingAll sv g st))) \<and>
    (\<exists>rv. nview (fs_nodes (pingAll sv g st)) k = Some (Json (missed (info\<lparr>ni_Revision := q\<rparr>)), rv)) \<and>
    (ni_Status (missed (info\<lparr>ni_Revision := q\<rparr>)) = NodeStatusDead \<longrightarrow> gone_remotes k (fs_agents (pingAll sv g st)))"
proof -
  let ?m = "nview (fs_nodes st)" and ?st = "st\<lparr>fs_sequence := fs_sequence st + 1\<rparr>"
  obtain ks where ks: "NodeList (fn_nodes g) (fs_nodes st) = Inr (map (listed ?m) ks)" "distinct ks" "set ks = dom ?m"
    using nodes.NodeList_keyed [OF assms(1)] .
  have run: "pingAll sv g st = fold (pingNode sv g (fs_sequence st + 1)) (map (listed ?m) ks) ?st"
    using ks(1) by (simp add: pingAll_def Let_def)
  have l: "listed ?m k = info\<lparr>ni_Revision := q\<rparr>" using assms(2) by (simp add: listed_def)
  have "k \<in> set ks" using ks(3) assms(2) by blast
  moreover have "set ks \<subseteq> dom ?m" using ks(3) by simp
  ultimately show ?thesis
    using fold_pingNode [OF ks(2) _ assms(1), of ?st sv "fs_sequence st + 1"] l assms(1,3,4) run
    by (auto dest!: bspec [of _ _ k])
qed

lemma cleanupNode_keeps:
  assumes "ni_NodeID info = k \<longrightarrow> cutoff < ni_LastSeen info"
  shows "nview (fs_nodes (cleanupNode g cutoff info st)) k = nview (fs_nodes st) k"
proof -
  have "nview (snd (NodeDeregister (fn_nodes g) k' s)) k = nview s k" if "k' \<noteq> k" for k' s
  proof -
    obtain res s' where p: "kv_purge (kn_kv (fn_nodes g)) k' s = (res, s')" by fastforce
    then have "nview s' k = nview s k" using nodes.purge_cases [OF p] that by auto
    then show ?thesis using p by (simp add: NodeDeregister_def split: option.split)
  qed
  then show ?thesis using assms by (auto simp: cleanupNode_def PurgeNode_def split: prod.split option.split) (metis snd_conv)+
qed

lemma fold_cleanup_keeps:
  "\<forall>info\<in>set infos. ni_NodeID info = k \<longrightarrow> cutoff < ni_LastSeen info \<Longrightarrow>
   nview (fs_nodes (fold (cleanupNode g cutoff) infos st)) k = nview (fs_nodes st) k"
  by (induction infos arbitrary: st) (simp_all add: cleanupNode_keeps)

lemma handleNodePong_effect:
  assumes "nview (fs_nodes st) k = Some (Json info, q)" and "k \<noteq> fn_nodeID g"
    and "sv_dec_node_pong sv data = Some p" and "nho_node_id p = k"
  obtains rv where "nview (fs_nodes (handleNodePong sv g data st)) = (nview (fs_nodes st))(k \<mapsto>
      (Json (node_beat (fst (time_now sv (fs_world st))) (info\<lparr>ni_Revision := q\<rparr>)), rv))"
    "fs_world (handleNodePong sv g data st) = snd (time_now sv (fs_world st))"
proof -
  let ?i = "node_beat (fst (time_now sv (fs_world st))) (info\<lparr>ni_Revision := q\<rparr>)"
  obtain rv s' where "updateNode (fn_nodes g) k ?i q (fs_nodes st) = (Inr rv, s')" "nview s' = (nview (fs_nodes st))(k \<mapsto> (Json ?i, rv))"
    using nodes.updateNode_present [OF assms(1)] by blast
  then show thesis using that [of rv] assms nodes.NodeGet_present [OF assms(1)]
    by (simp add: handleNodePong_def NodeRecordHeartbeat_def Let_def case_prod_unfold)
qed

lemma silent_node_rounds:
  assumes "kn_UnhealthyThreshold (fn_nodes g) = int u" and "kn_DeadThreshold (fn_nodes g) = int d"
    and "0 < u" and "u < d" and "d < 2 ^ 31" and "node_keyed (nview (fs_nodes st))" and "nview (fs_nodes st) k = Some (Json info, q)"
    and "k \<noteq> fn_nodeID g" and "ni_Status info = NodeStatusActive" and "ni_MissedHeartbeats info = 0" and "n \<le> d"
  shows "node_keyed (nview (fs_nodes ((pingAll sv g ^^ n) st))) \<and>
    (\<exists>info' q'. nview (fs_nodes ((pingAll sv g ^^ n) st)) k = Some (Json info', q') \<and>
       ni_Status info' = silent_node u d n \<and> ni_MissedHeartbeats info' = int n) \<and>
    (n = d \<longrightarrow> gone_remotes k (fs_agents ((pingAll sv g ^^ n) st)))"
  using assms(11)
proof (induction n)
  case 0
  then show ?case using assms(3,4,6,7,9,10) by (simp add: silent_node_def)
next
  case (Suc n)
  let ?st = "(pingAll sv g ^^ n) st"
  from Suc obtain i1 q1 where k1: "node_keyed (nview (fs_nodes ?st))" and v: "nview (fs_nodes ?st) k = Some (Json i1, q1)"
    and s1: "ni_Status i1 = silent_node u d n" "ni_MissedHeartbeats i1 = int n" by auto
  have a: "ni_Status i1 \<noteq> NodeStatusDead" using s1(1) Suc.prems assms(4) by (auto simp: silent_node_def)
  have m: "ni_MissedHeartbeats (missed (i1\<lparr>ni_Revision := q1\<rparr>)) = int (Suc n)"
    "ni_Status (missed (i1\<lparr>ni_Revision := q1\<rparr>)) = silent_node u d (Suc n)"
    using node_miss_silent [of "i1\<lparr>ni_Revision := q1\<rparr>" n u d] s1 assms(1-5) Suc.prems by auto
  show ?case using pingAll_effect [OF k1 v assms(8) a, of sv] m assms(4) by (auto simp: silent_node_def)
qed

end

definition mem_node :: "string \<Rightarrow> int \<Rightarrow> int \<Rightarrow> int \<Rightarrow>
    (NodeInfo json bucket, AgentRegistration json bucket, TaxonomyEntry json bucket) fed_node" where
  "mem_node nodeID u d ttl = \<lparr>fn_nodeID = nodeID, fn_nodes = \<lparr>kn_kv = mem_ops, kn_UnhealthyThreshold = u, kn_DeadThreshold = d\<rparr>,
     fn_agents = mem_registry 3 6 None, fn_CleanupTTL = ttl\<rparr>"

interpretation mem_nodes: reliable_nodes "\<lparr>kn_kv = mem_ops, kn_UnhealthyThreshold = u, kn_DeadThreshold = d\<rparr>" mem_view for u d
  by (simp add: reliable_nodes_def mem.reliable_kv_axioms)

interpretation mem_fed: federation_stores "mem_node nodeID u d ttl" mem_view mem_view for nodeID u d ttl
  by (simp add: federation_stores_def reliable_nodes_def mem_node_def mem.reliable_kv_axioms mem_agents.reliable_agents_axioms)

text \<open>
  C14. A silent peer is declared dead and its agents disappear: a peer from which no pong arrives is
  ACTIVE, then UNHEALTHY, and after exactly as many rounds as the dead threshold says it is DEAD and
  the registry of this node holds no remote agent of it any more, so no event is routed to it.
\<close>

theorem silent_node_purged:
  assumes "federation_stores g nview aview"
    and "kn_UnhealthyThreshold (fn_nodes g) = int u" and "kn_DeadThreshold (fn_nodes g) = int d" and "0 < u" and "u < d" and "d < 2 ^ 31"
    and "node_keyed (nview (fs_nodes st))" and "nview (fs_nodes st) k = Some (Json info, q)" and "k \<noteq> fn_nodeID g"
    and "ni_Status info = NodeStatusActive" and "ni_MissedHeartbeats info = 0"
  shows "(\<forall>n\<le>d. \<exists>info' q'. nview (fs_nodes ((pingAll sv g ^^ n) st)) k = Some (Json info', q') \<and>
      ni_Status info' = (if n < u then NodeStatusActive else if n < d then NodeStatusUnhealthy else NodeStatusDead)) \<and>
    (\<forall>agent. aview (fs_agents ((pingAll sv g ^^ d) st)) (remoteKey k agent) = None)"
proof (intro conjI allI impI)
  fix n assume "n \<le> d"
  from federation_stores.silent_node_rounds [OF assms this, of sv]
  show "\<exists>info' q'. nview (fs_nodes ((pingAll sv g ^^ n) st)) k = Some (Json info', q') \<and>
      ni_Status info' = (if n < u then NodeStatusActive else if n < d then NodeStatusUnhealthy else NodeStatusDead)"
    by (auto simp: silent_node_def)
next
  fix agent
  from federation_stores.silent_node_rounds [OF assms order_refl, of sv]
  have "federation_stores.gone_remotes aview k (fs_agents ((pingAll sv g ^^ d) st))" by simp
  moreover have "HasPrefix (remoteKey k agent) (''remote.'' @ k @ ''.'')"
    using HasPrefix_refl [of "''remote.'' @ k @ ''.''" agent] by (simp add: remoteKey_def)
  ultimately show "aview (fs_agents ((pingAll sv g ^^ d) st)) (remoteKey k agent) = None"
    by (simp add: federation_stores.gone_remotes_def [OF assms(1)])
qed

definition ex_peer :: NodeInfo where
  "ex_peer = \<lparr>ni_NodeID = ''p'', ni_Address = ''x'', ni_Status = NodeStatusActive, ni_CapabilitiesCount = 0,
     ni_LastSeen = 0, ni_JoinedAt = 1, ni_MissedHeartbeats = 0, ni_Version = [], ni_Revision = 0\<rparr>"

definition ex_fed :: "NodeLifecycleStatus \<Rightarrow> (NodeInfo json bucket, AgentRegistration json bucket, unit) fed_state" where
  "ex_fed status = \<lparr>fs_nodes = \<lparr>bk_entries = [(''p'', Json (ex_peer\<lparr>ni_Status := status\<rparr>), 1)], bk_seq = 1\<rparr>,
     fs_agents = \<lparr>bk_entries = [(remoteKey ''p'' ''a'', Json (ex_registration ''a''), 1)], bk_seq = 1\<rparr>,
     fs_sequence = 0, fs_world = empty_world\<rparr>"

lemma ex_fed_view:
  "mem_view (fs_nodes (ex_fed status)) ''p'' = Some (Json (ex_peer\<lparr>ni_Status := status\<rparr>), 1)"
  "node_keyed (mem_view (fs_nodes (ex_fed status)))"
  by (simp_all add: mem_view_def ex_fed_def node_keyed_def ex_peer_def)

theorem silent_node_purged_witness:
  "mem_view (fs_agents ((pingAll (null_services ()) (mem_node ''n'' 1 2 9) ^^ 2) (ex_fed NodeStatusActive))) (remoteKey ''p'' ''a'') = None"
proof -
  have t: "kn_UnhealthyThreshold (fn_nodes (mem_node ''n'' 1 2 9)) = int 1" "kn_DeadThreshold (fn_nodes (mem_node ''n'' 1 2 9)) = int 2"
    "''p'' \<noteq> fn_nodeID (mem_node ''n'' 1 2 9)" by (simp_all add: mem_node_def)
  have i: "ni_Status (ex_peer\<lparr>ni_Status := NodeStatusActive\<rparr>) = NodeStatusActive" "ni_MissedHeartbeats (ex_peer\<lparr>ni_Status := NodeStatusActive\<rparr>) = 0"
    by (simp_all add: ex_peer_def)
  from silent_node_purged [OF mem_fed.federation_stores_axioms t(1,2) _ _ _ ex_fed_view(2,1) t(3) i, of "null_services ()"]
  show ?thesis by simp
qed

text \<open>
  A peer once declared dead never comes back by itself and is not cleaned up either while it
  answers: a pong resets its counter and its time of last contact but leaves it DEAD, and the
  clean-up spares it because of that time. Its agents stay unknown until the peer registers anew.
\<close>

lemma answering_dead_node_kept:
  assumes "federation_stores g nview aview" and "node_keyed (nview (fs_nodes st))"
    and "nview (fs_nodes st) k = Some (Json info, q)" and "ni_Status info = NodeStatusDead" and "k \<noteq> fn_nodeID g"
    and "sv_dec_node_pong sv data = Some p" and "nho_node_id p = k"
    and "fst (time_now sv (snd (time_now sv (fs_world st)))) - fn_CleanupTTL g < fst (time_now sv (fs_world st))"
  shows "\<exists>info' q'. nview (fs_nodes (cleanupDeadNodes sv g (handleNodePong sv g data st))) k = Some (Json info', q') \<and>
    ni_Status info' = NodeStatusDead \<and> ni_MissedHeartbeats info' = 0 \<and> ni_LastSeen info' = fst (time_now sv (fs_world st))"
proof -
  let ?t = "fst (time_now sv (fs_world st))" and ?st = "handleNodePong sv g data st"
  obtain rv where v: "nview (fs_nodes ?st) = (nview (fs_nodes st))(k \<mapsto> (Json (node_beat ?t (info\<lparr>ni_Revision := q\<rparr>)), rv))"
    and w: "fs_world ?st = snd (time_now sv (fs_world st))"
    using federation_stores.handleNodePong_effect [OF assms(1,3,5,6,7)] .
  have "\<exists>i. Json info = Json i \<and> ni_NodeID i = k" using assms(2,3) unfolding node_keyed_def by blast
  then have id: "ni_NodeID info = k" by simp
  have keyed: "node_keyed (nview (fs_nodes ?st))" using v node_keyed_upd [OF assms(2)] id by simp
  obtain ks where ks: "NodeList (fn_nodes g) (fs_nodes ?st) = Inr (map (listed (nview (fs_nodes ?st))) ks)"
    "distinct ks" "set ks = dom (nview (fs_nodes ?st))"
    using reliable_nodes.NodeList_keyed [OF federation_stores.axioms(1) [OF assms(1)] keyed] .
  have "ni_LastSeen (listed (nview (fs_nodes ?st)) k) = ?t" using v by (simp add: listed_def node_beat_def)
  moreover have "ni_NodeID (listed (nview (fs_nodes ?st)) k') = k'" if "k' \<in> set ks" for k'
    by (rule node_keyedE [OF keyed, of k']) (use that ks(3) in \<open>auto simp: listed_def\<close>)
  ultimately have "\<forall>i\<in>set (map (listed (nview (fs_nodes ?st))) ks). ni_NodeID i = k \<longrightarrow>
      fst (time_now sv (fs_world ?st)) - fn_CleanupTTL g < ni_LastSeen i" using assms(8) w by auto
  from federation_stores.fold_cleanup_keeps [OF assms(1) this, of "?st\<lparr>fs_world := snd (time_now sv (fs_world ?st))\<rparr>"] ks(1)
  have "nview (fs_nodes (cleanupDeadNodes sv g ?st)) k = nview (fs_nodes ?st) k"
    by (simp add: cleanupDeadNodes_def case_prod_unfold Let_def)
  then show ?thesis using v assms(4) by (simp add: node_beat_def)
qed

definition ex_pong_node :: "unit services" where
  "ex_pong_node = (null_services ())\<lparr>sv_dec_node_pong := \<lambda>_. Some \<lparr>nho_node_id = ''p'', nho_sequence = 1, nho_status = 1,
     nho_agent_count = 0, nho_workflow_count = 0\<rparr>\<rparr>"

lemma answering_dead_node_kept_witness:
  "\<exists>info' q'. mem_view (fs_nodes (cleanupDeadNodes ex_pong_node (mem_node ''n'' 1 2 9)
     (handleNodePong ex_pong_node (mem_node ''n'' 1 2 9) () (ex_fed NodeStatusDead)))) ''p'' = Some (Json info', q') \<and>
   ni_Status info' = NodeStatusDead"
proof -
  let ?g = "mem_node ''n'' 1 2 9" and ?p = "\<lparr>nho_node_id = ''p'', nho_sequence = 1, nho_status = 1, nho_agent_count = 0, nho_workflow_count = 0\<rparr>"
  have n: "''p'' \<noteq> fn_nodeID ?g" by (simp add: mem_node_def)
  have d: "sv_dec_node_pong ex_pong_node () = Some ?p" "nho_node_id ?p = ''p''" by (simp_all add: ex_pong_node_def)
  have i: "ni_Status (ex_peer\<lparr>ni_Status := NodeStatusDead\<rparr>) = NodeStatusDead" by simp
  have t: "fst (time_now ex_pong_node (snd (time_now ex_pong_node (fs_world (ex_fed NodeStatusDead))))) - fn_CleanupTTL ?g
      < fst (time_now ex_pong_node (fs_world (ex_fed NodeStatusDead)))"
    by (simp add: time_now_def ex_pong_node_def null_services_def ex_fed_def mem_node_def empty_world_def)
  from answering_dead_node_kept [OF mem_fed.federation_stores_axioms ex_fed_view(2,1) i n d t] show ?thesis by blast
qed

section \<open>Properties of capability synchronisation\<close>

context reliable_agents
begin

lemma upsert_reliable:
  obtains rv s' where "upsert (kr_kv r) k reg s = (Inr rv, s')" "view s' = (view s)(k \<mapsto> (Json reg, rv))"
proof (cases "view s k")
  case None
  then obtain rv s' where c: "kv_create (kr_kv r) k (Json reg) s = (Inr rv, s')" using create_absent by blast
  then show thesis using that [of rv s'] create_ok [OF c] by (simp add: upsert_def)
next
  case (Some ent)
  obtain u q where e: "ent = (u, q)" by fastforce
  obtain rv s' where c: "kv_update (kr_kv r) k (Json reg) q s = (Inr rv, s')" using update_match Some e by blast
  then show thesis using that [of rv s'] update_ok [OF c] create_exists [OF Some] get_present [OF Some] e by (simp add: upsert_def)
qed

end

text \<open>
  C15. Announced agents become known to the peers and withdrawn ones unknown: when the message of a
  local announcement is handed to another node, that node stores exactly one entry, an ACTIVE remote
  agent of the announcing node under the announced capability names; when the message of a
  withdrawal is handed to it, exactly that entry is gone.
\<close>

theorem announcement_reaches_peer:
  assumes "reliable_agents (fn_agents b) bview" and "fn_nodeID a \<noteq> fn_nodeID b" and "fn_nodeID a \<noteq> []" and "cap_ann_agent_id p \<noteq> []"
    and "\<forall>p data. sv_marshal sv (MFederationCapability p) = Some data \<longrightarrow> sv_dec_fed_capability sv data = Some p"
    and "\<forall>p data. sv_marshal sv (MFederationCapabilityRemove p) = Some data \<longrightarrow> sv_dec_fed_remove sv data = Some p"
    and "sv_dec_announce sv (ev_Payload evt) = Some p"
    and "w_wire (fs_world (handleLocalAnnounce sv a evt st)) = w_wire (fs_world st) @ [(t, data)]"
  shows "if cap_ann_capabilities p = []
    then t = ''federation.capability.remove'' \<and> bview (fs_agents (handleRemoteRemove sv b data stb)) =
      (bview (fs_agents stb))(remoteKey (fn_nodeID a) (cap_ann_agent_id p) := None)
    else t = ''federation.capability.announce'' \<and> (\<exists>reg rv. bview (fs_agents (handleRemoteAnnounce sv b data stb)) =
      (bview (fs_agents stb))(remoteKey (fn_nodeID a) (cap_ann_agent_id p) \<mapsto> (Json reg, rv)) \<and>
      reg_AgentID reg = cap_ann_agent_id p \<and> reg_NodeID reg = fn_nodeID a \<and> IsRemote reg \<and> reg_Status reg = StatusActive \<and>
      map cap_Name (reg_Capabilities reg) = map pc_name (cap_ann_capabilities p))"
proof -
  have sent: "t = t0 \<and> sv_marshal sv msg = Some data"
    if "w_wire (fs_world (send sv t0 msg st)) = w_wire (fs_world st) @ [(t, data)]" for t0 msg
    using that by (auto simp: send_def wire_publish_def Let_def split: option.splits if_splits)
  show ?thesis
  proof (cases "cap_ann_capabilities p = []")
    case True
    let ?m = "\<lparr>fcr_node_id = fn_nodeID a, fcr_agent_id = cap_ann_agent_id p, fcr_reason = ''agent_unregistered''\<rparr>"
    have "t = ''federation.capability.remove''" "sv_marshal sv (MFederationCapabilityRemove ?m) = Some data"
      using assms(7,8) True sent by (auto simp: handleLocalAnnounce_def)
    then show ?thesis using True assms(2,6) reliable_agents.Deregister_gone [OF assms(1)]
      by (simp add: handleRemoteRemove_def)
  next
    case False
    obtain reg0 q where "Get (fn_agents a) (cap_ann_agent_id p) (fs_agents st) = Inr (reg0, q)" "\<not> IsRemote reg0"
      using assms(7,8) False by (auto simp: handleLocalAnnounce_def split: sum.splits prod.splits if_splits)
    define m where "m = \<lparr>fcp_node_id = fn_nodeID a, fcp_agent_id = cap_ann_agent_id p,
        fcp_agent_type = reg_AgentType reg0, fcp_capabilities = fed_caps (cap_ann_capabilities p)\<rparr>"
    have t: "t = ''federation.capability.announce''" "sv_marshal sv (MFederationCapability m) = Some data"
      using assms(7,8) False sent \<open>Get _ _ _ = _\<close> \<open>\<not> IsRemote reg0\<close> by (auto simp: handleLocalAnnounce_def m_def)
    let ?now = "fst (time_now sv (fs_world stb))"
    let ?reg = "(remoteRegistration m)\<lparr>reg_Origin := ''remote'', reg_Status := StatusActive, reg_LastSeen := ?now, reg_MissedHeartbeats := 0\<rparr>"
    obtain rv s' where "upsert (kr_kv (fn_agents b)) (remoteKey (fn_nodeID a) (cap_ann_agent_id p)) ?reg (fs_agents stb) = (Inr rv, s')"
      "bview s' = (bview (fs_agents stb))(remoteKey (fn_nodeID a) (cap_ann_agent_id p) \<mapsto> (Json ?reg, rv))"
      using reliable_agents.upsert_reliable [OF assms(1)] .
    then have "bview (fs_agents (handleRemoteAnnounce sv b data stb)) =
      (bview (fs_agents stb))(remoteKey (fn_nodeID a) (cap_ann_agent_id p) \<mapsto> (Json ?reg, rv))"
      using assms(2-5) t(2) by (simp add: handleRemoteAnnounce_def RegisterRemote_def remoteRegistration_def m_def case_prod_unfold Let_def)
    then show ?thesis using False t(1)
      by (auto simp: IsRemote_def remoteRegistration_def m_def fed_caps_def of_pb_cap_def intro!: exI [of _ ?reg])
  qed
qed

definition ex_announce :: "FederationCapabilityPayload services" where
  "ex_announce = (null_services \<lparr>fcp_node_id = [], fcp_agent_id = [], fcp_agent_type = [], fcp_capabilities = []\<rparr>)
     \<lparr>sv_marshal := \<lambda>m. (case m of MFederationCapability p \<Rightarrow> Some p | _ \<Rightarrow> None), sv_dec_fed_capability := Some,
      sv_dec_announce := \<lambda>_. Some \<lparr>cap_ann_agent_id = ''a'', cap_ann_capabilities = [\<lparr>pc_name = ''c'', pc_version = [],
        pc_description = [], pc_parameters = Map.empty, pc_category = [], pc_action = [], pc_input_types = [], pc_output_types = []\<rparr>]\<rparr>\<rparr>"

definition ex_announcing :: "(NodeInfo json bucket, AgentRegistration json bucket, FederationCapabilityPayload) fed_state" where
  "ex_announcing = \<lparr>fs_nodes = empty_bucket, fs_agents = \<lparr>bk_entries = [(''a'', Json (ex_registration ''a''), 1)], bk_seq = 1\<rparr>,
     fs_sequence = 0, fs_world = empty_world\<rparr>"

theorem announcement_reaches_peer_witness:
  "\<exists>data reg rv. w_wire (fs_world (handleLocalAnnounce ex_announce (mem_node ''m'' 1 2 9) (zero_event (sv_nil ex_announce)) ex_announcing)) =
      [(''federation.capability.announce'', data)] \<and>
    mem_view (fs_agents (handleRemoteAnnounce ex_announce (mem_node ''n'' 1 2 9) data ex_announcing)) (remoteKey ''m'' ''a'') = Some (Json reg, rv) \<and>
    reg_Status reg = StatusActive"
proof -
  let ?p = "\<lparr>cap_ann_agent_id = ''a'', cap_ann_capabilities = [\<lparr>pc_name = ''c'', pc_version = [], pc_description = [],
      pc_parameters = Map.empty, pc_category = [], pc_action = [], pc_input_types = [], pc_output_types = []\<rparr>]\<rparr>"
  let ?a = "mem_node ''m'' 1 2 9" and ?b = "mem_node ''n'' 1 2 9" and ?e = "zero_event (sv_nil ex_announce)"
  have b: "reliable_agents (fn_agents ?b) mem_view" using mem_agents.reliable_agents_axioms by (simp add: mem_node_def)
  have n: "fn_nodeID ?a \<noteq> fn_nodeID ?b" "fn_nodeID ?a \<noteq> []" "cap_ann_agent_id ?p \<noteq> []" by (simp_all add: mem_node_def)
  have c: "\<forall>p data. sv_marshal ex_announce (MFederationCapability p) = Some data \<longrightarrow> sv_dec_fed_capability ex_announce data = Some p"
    "\<forall>p data. sv_marshal ex_announce (MFederationCapabilityRemove p) = Some data \<longrightarrow> sv_dec_fed_remove ex_announce data = Some p"
    "sv_dec_announce ex_announce (ev_Payload ?e) = Some ?p"
    by (simp_all add: ex_announce_def)
  obtain data where w: "w_wire (fs_world (handleLocalAnnounce ex_announce ?a ?e ex_announcing)) = w_wire (fs_world ex_announcing) @ [(''federation.capability.announce'', data)]"
    by (simp add: handleLocalAnnounce_def ex_announce_def ex_announcing_def mem_node_def Get_def mem_registry_def mem_ops_def
        mem_get_def mem_view_def IsRemote_def ex_registration_def send_def wire_publish_def null_services_def empty_world_def Let_def)
  from announcement_reaches_peer [OF b n c w, of ex_announcing] w show ?thesis
    by (auto simp: mem_node_def ex_announcing_def empty_world_def)
qed

end
