(* ===== verification/Watchers.thy ===== *)
theory Watchers
  imports Prelude "HOL-Library.AList" "HOL-Library.Sublist"
begin

text \<open>
  The sets of subscribers to a session's notifications (\<open>core/simulation/replay.go\<close>; the scenario
  engine has a copy of the type). A subscriber reads a buffered channel. Channels are shared
  between the set and the reader, so they live in a store and are named by their address; a send on
  a closed channel and the closing of a closed channel panic, which is the result \<open>None\<close>. Shown: no
  sequence of operations panics, a subscriber that keeps up reads every notification in order and
  the terminal one last, and one that does not keep up may miss the terminal one.
\<close>

section \<open>Channels\<close>

record 'n chan =
  ch_buf :: "'n list"
  ch_closed :: bool

definition chan_capacity :: nat where
  "chan_capacity = 64"

text \<open>A send in a \<open>select\<close> with a \<open>default\<close> branch: a full channel is skipped.\<close>

definition trySend :: "nat \<Rightarrow> 'n \<Rightarrow> 'n chan list \<Rightarrow> 'n chan list option" where
  "trySend a v chans =
     (let ch = chans ! a in
      if ch_closed ch then None
      else if length (ch_buf ch) < chan_capacity then Some (chans[a := ch\<lparr>ch_buf := ch_buf ch @ [v]\<rparr>])
      else Some chans)"

definition closeChan :: "nat \<Rightarrow> 'n chan list \<Rightarrow> 'n chan list option" where
  "closeChan a chans = (if ch_closed (chans ! a) then None else Some (chans[a := (chans ! a)\<lparr>ch_closed := True\<rparr>]))"

section \<open>The set of subscribers\<close>

record 'n watcherSet =
  ws_clients :: "(string \<times> nat) list"
  ws_terminal :: "'n option"
  ws_chans :: "'n chan list"

definition new_watcherSet :: "'n watcherSet" where
  "new_watcherSet = \<lparr>ws_clients = [], ws_terminal = None, ws_chans = []\<rparr>"

definition subscribe :: "string \<Rightarrow> 'n watcherSet \<Rightarrow> (nat \<times> 'n watcherSet) option" where
  "subscribe clientID s =
     (let a = length (ws_chans s); chans = ws_chans s @ [\<lparr>ch_buf = [], ch_closed = False\<rparr>] in
      case ws_terminal s of
        Some evt \<Rightarrow> map_option (\<lambda>chans'. (a, s\<lparr>ws_chans := chans'\<rparr>)) (Option.bind (trySend a evt chans) (closeChan a))
      | None \<Rightarrow> Some (a, s\<lparr>ws_chans := chans, ws_clients := AList.update clientID a (ws_clients s)\<rparr>))"

definition unsubscribe :: "string \<Rightarrow> 'n watcherSet \<Rightarrow> 'n watcherSet" where
  "unsubscribe clientID s = s\<lparr>ws_clients := AList.delete clientID (ws_clients s)\<rparr>"

fun sendAll :: "'n \<Rightarrow> (string \<times> nat) list \<Rightarrow> 'n chan list \<Rightarrow> 'n chan list option" where
  "sendAll evt [] chans = Some chans"
| "sendAll evt ((clientID, ch) # clients) chans = Option.bind (trySend ch evt chans) (sendAll evt clients)"

definition broadcast :: "'n \<Rightarrow> 'n watcherSet \<Rightarrow> 'n watcherSet option" where
  "broadcast evt s = map_option (\<lambda>chans. s\<lparr>ws_chans := chans\<rparr>) (sendAll evt (ws_clients s) (ws_chans s))"

fun closeAll :: "'n \<Rightarrow> (string \<times> nat) list \<Rightarrow> 'n chan list \<Rightarrow> 'n chan list option" where
  "closeAll evt [] chans = Some chans"
| "closeAll evt ((clientID, ch) # clients) chans =
     Option.bind (Option.bind (trySend ch evt chans) (closeChan ch)) (closeAll evt clients)"

definition terminate :: "'n \<Rightarrow> 'n watcherSet \<Rightarrow> 'n watcherSet option" where
  "terminate evt s =
     map_option (\<lambda>chans. s\<lparr>ws_terminal := Some evt, ws_chans := chans, ws_clients := []\<rparr>) (closeAll evt (ws_clients s) (ws_chans s))"

text \<open>The reader's side: the next value of a channel, where one is waiting.\<close>

definition receive :: "nat \<Rightarrow> 'n watcherSet \<Rightarrow> 'n option \<times> 'n watcherSet" where
  "receive a s =
     (if a < length (ws_chans s) \<and> ch_buf (ws_chans s ! a) \<noteq> []
      then (Some (hd (ch_buf (ws_chans s ! a))), s\<lparr>ws_chans := (ws_chans s)[a := (ws_chans s ! a)\<lparr>ch_buf := tl (ch_buf (ws_chans s ! a))\<rparr>]\<rparr>)
      else (None, s))"

section \<open>Sending to every subscriber\<close>

text \<open>The channels after a notification has been offered to the channels in \<open>as\<close>.\<close>

definition offer :: "'n \<Rightarrow> 'n chan \<Rightarrow> 'n chan" where
  "offer v ch = (if length (ch_buf ch) < chan_capacity then ch\<lparr>ch_buf := ch_buf ch @ [v]\<rparr> else ch)"

definition open_chans :: "(string \<times> nat) list \<Rightarrow> 'n chan list \<Rightarrow> bool" where
  "open_chans clients chans \<longleftrightarrow> distinct (map snd clients) \<and> (\<forall>a\<in>set (map snd clients). a < length chans \<and> \<not> ch_closed (chans ! a))"

lemma trySend_open: "\<not> ch_closed (chans ! a) \<Longrightarrow> trySend a v chans = Some (chans[a := offer v (chans ! a)])"
  by (simp add: trySend_def offer_def Let_def list_update_same_conv)

lemma closed_offer [simp]: "ch_closed (offer v ch) = ch_closed ch"
  by (simp add: offer_def)

lemma sendAll_open:
  assumes "open_chans clients chans"
  shows "\<exists>chans'. sendAll v clients chans = Some chans' \<and> length chans' = length chans \<and>
    (\<forall>a. chans' ! a = (if a \<in> snd ` set clients then offer v (chans ! a) else chans ! a))"
  using assms
proof (induction clients arbitrary: chans)
  case (Cons c clients)
  obtain cid a where c: "c = (cid, a)" by (cases c)
  let ?chans = "chans[a := offer v (chans ! a)]"
  have a: "a < length chans" "\<not> ch_closed (chans ! a)" "a \<notin> snd ` set clients" using Cons.prems c by (auto simp: open_chans_def)
  have "open_chans clients ?chans" using Cons.prems c by (auto simp: open_chans_def nth_list_update)
  from Cons.IH [OF this] show ?case using a c by (auto simp: trySend_open nth_list_update)
qed simp

lemma closeAll_open:
  assumes "open_chans clients chans"
  shows "\<exists>chans'. closeAll v clients chans = Some chans' \<and> length chans' = length chans \<and>
    (\<forall>a. chans' ! a = (if a \<in> snd ` set clients then (offer v (chans ! a))\<lparr>ch_closed := True\<rparr> else chans ! a))"
  using assms
proof (induction clients arbitrary: chans)
  case (Cons c clients)
  obtain cid a where c: "c = (cid, a)" by (cases c)
  let ?chans = "chans[a := (offer v (chans ! a))\<lparr>ch_closed := True\<rparr>]"
  have a: "a < length chans" "\<not> ch_closed (chans ! a)" "a \<notin> snd ` set clients" using Cons.prems c by (auto simp: open_chans_def)
  have "open_chans clients ?chans" using Cons.prems c by (auto simp: open_chans_def nth_list_update)
  from Cons.IH [OF this] show ?case using a c by (auto simp: trySend_open closeChan_def nth_list_update)
qed simp

section \<open>The invariant\<close>

text \<open>Every subscriber has an open channel of its own, and there is none once the session has ended.\<close>

definition watchers_ok :: "'n watcherSet \<Rightarrow> bool" where
  "watchers_ok s \<longleftrightarrow> distinct (map fst (ws_clients s)) \<and> open_chans (ws_clients s) (ws_chans s) \<and>
     (ws_terminal s \<noteq> None \<longrightarrow> ws_clients s = []) \<and> (\<forall>ch\<in>set (ws_chans s). length (ch_buf ch) \<le> chan_capacity)"

datatype 'n watch_op = Subscribe string | Unsubscribe string | Broadcast 'n | Terminate 'n | Receive nat

fun watch_exec :: "'n watch_op \<Rightarrow> 'n watcherSet \<Rightarrow> ('n watcherSet \<times> (nat \<times> 'n) list) option" where
  "watch_exec (Subscribe c) s = map_option (\<lambda>(_, s'). (s', [])) (subscribe c s)"
| "watch_exec (Unsubscribe c) s = Some (unsubscribe c s, [])"
| "watch_exec (Broadcast v) s = map_option (\<lambda>s'. (s', [])) (broadcast v s)"
| "watch_exec (Terminate v) s = map_option (\<lambda>s'. (s', [])) (terminate v s)"
| "watch_exec (Receive a) s = (case receive a s of (None, s') \<Rightarrow> Some (s', []) | (Some v, s') \<Rightarrow> Some (s', [(a, v)]))"

fun watch_run :: "'n watch_op list \<Rightarrow> 'n watcherSet \<Rightarrow> ('n watcherSet \<times> (nat \<times> 'n) list) option" where
  "watch_run [] s = Some (s, [])"
| "watch_run (x # ops) s = Option.bind (watch_exec x s) (\<lambda>(s1, out1). map_option (\<lambda>(s2, out2). (s2, out1 @ out2)) (watch_run ops s1))"

lemma offer_bound: "length (ch_buf ch) \<le> chan_capacity \<Longrightarrow> length (ch_buf (offer v ch)) \<le> chan_capacity"
  by (simp add: offer_def)

lemma set_chans: "(\<forall>ch\<in>set chans. P ch) \<longleftrightarrow> (\<forall>a<length chans. P (chans ! a))"
  by (auto simp: all_set_conv_all_nth)

lemma new_watcherSet_ok: "watchers_ok new_watcherSet"
  by (simp add: watchers_ok_def new_watcherSet_def open_chans_def)

lemma broadcast_ok:
  assumes "watchers_ok s"
  shows "\<exists>s'. broadcast v s = Some s' \<and> watchers_ok s' \<and> ws_clients s' = ws_clients s \<and> ws_terminal s' = ws_terminal s \<and>
    length (ws_chans s') = length (ws_chans s) \<and>
    (\<forall>a. ws_chans s' ! a = (if a \<in> snd ` set (ws_clients s) then offer v (ws_chans s ! a) else ws_chans s ! a))"
proof -
  have o1: "open_chans (ws_clients s) (ws_chans s)" using assms by (simp add: watchers_ok_def)
  from sendAll_open [OF this, of v] obtain chans where c: "sendAll v (ws_clients s) (ws_chans s) = Some chans" "length chans = length (ws_chans s)"
    "\<forall>a. chans ! a = (if a \<in> snd ` set (ws_clients s) then offer v (ws_chans s ! a) else ws_chans s ! a)" by auto
  then show ?thesis using assms by (auto simp: broadcast_def watchers_ok_def open_chans_def set_chans offer_bound)
qed

lemma terminate_ok:
  assumes "watchers_ok s"
  shows "\<exists>s'. terminate v s = Some s' \<and> watchers_ok s' \<and> ws_clients s' = [] \<and> ws_terminal s' = Some v \<and>
    length (ws_chans s') = length (ws_chans s) \<and>
    (\<forall>a. ws_chans s' ! a = (if a \<in> snd ` set (ws_clients s) then (offer v (ws_chans s ! a))\<lparr>ch_closed := True\<rparr> else ws_chans s ! a))"
proof -
  have o1: "open_chans (ws_clients s) (ws_chans s)" using assms by (simp add: watchers_ok_def)
  from closeAll_open [OF this, of v] obtain chans where c: "closeAll v (ws_clients s) (ws_chans s) = Some chans" "length chans = length (ws_chans s)"
    "\<forall>a. chans ! a = (if a \<in> snd ` set (ws_clients s) then (offer v (ws_chans s ! a))\<lparr>ch_closed := True\<rparr> else ws_chans s ! a)" by auto
  then show ?thesis using assms by (auto simp: terminate_def watchers_ok_def open_chans_def set_chans offer_bound)
qed

lemma update_clients:
  assumes "distinct (map fst cs)" and "distinct (map snd cs)" and "\<forall>x\<in>set (map snd cs). x < (a::nat)"
  shows "distinct (map snd (AList.update c a cs)) \<and> set (AList.update c a cs) = {(c, a)} \<union> {p \<in> set cs. fst p \<noteq> c}"
  using assms
proof (induction cs)
  case (Cons p cs)
  then have "\<forall>x\<in>set cs. snd x < a" "snd p < a" by auto
  then have "a \<notin> snd ` set cs \<and> snd p \<noteq> a" by force
  then show ?case using Cons by (cases p) (auto simp: image_iff)
qed simp

lemma subscribe_ok:
  assumes "watchers_ok s"
  shows "\<exists>s'. subscribe c s = Some (length (ws_chans s), s') \<and> watchers_ok s' \<and> ws_terminal s' = ws_terminal s \<and>
    ws_chans s' = ws_chans s @ [case ws_terminal s of None \<Rightarrow> \<lparr>ch_buf = [], ch_closed = False\<rparr> | Some v \<Rightarrow> \<lparr>ch_buf = [v], ch_closed = True\<rparr>] \<and>
    ws_clients s' = (case ws_terminal s of None \<Rightarrow> AList.update c (length (ws_chans s)) (ws_clients s) | Some v \<Rightarrow> ws_clients s)"
proof (cases "ws_terminal s")
  case None
  let ?cs = "ws_clients s" and ?a = "length (ws_chans s)"
  have "distinct (map fst ?cs)" "distinct (map snd ?cs)" "\<forall>x\<in>set (map snd ?cs). x < ?a" using assms by (auto simp: watchers_ok_def open_chans_def)
  note u = update_clients [OF this, of c]
  have "open_chans (AList.update c ?a ?cs) (ws_chans s @ [\<lparr>ch_buf = [], ch_closed = False\<rparr>])"
    using u assms by (auto simp: open_chans_def watchers_ok_def nth_append)
  then show ?thesis using None assms by (auto simp: subscribe_def watchers_ok_def distinct_update Let_def)
next
  case (Some v)
  then have "ws_clients s = []" using assms by (auto simp: watchers_ok_def)
  then show ?thesis using Some assms
    by (auto simp: subscribe_def trySend_def closeChan_def Let_def watchers_ok_def open_chans_def chan_capacity_def)
qed

lemma unsubscribe_ok: "watchers_ok s \<Longrightarrow> watchers_ok (unsubscribe c s)"
proof -
  have "distinct (map f cs) \<Longrightarrow> distinct (map f (AList.delete c cs))" for cs :: "(string \<times> nat) list" and f :: "string \<times> nat \<Rightarrow> 'x"
    by (simp add: AList.delete_eq distinct_map_filter)
  then show "watchers_ok s \<Longrightarrow> watchers_ok (unsubscribe c s)"
    by (auto simp: watchers_ok_def unsubscribe_def open_chans_def AList.delete_eq distinct_map_filter)
qed

lemma receive_ok:
  assumes "watchers_ok s"
  shows "watchers_ok (snd (receive a s)) \<and> ws_clients (snd (receive a s)) = ws_clients s \<and> length (ws_chans (snd (receive a s))) = length (ws_chans s) \<and>
    (\<forall>b. ch_closed (ws_chans (snd (receive a s)) ! b) = ch_closed (ws_chans s ! b))"
  using assms by (auto simp: receive_def watchers_ok_def open_chans_def nth_list_update set_chans)

lemma watch_exec_ok: "watchers_ok s \<Longrightarrow> \<exists>s' out. watch_exec x s = Some (s', out) \<and> watchers_ok s'"
proof (cases x)
  case (Receive a)
  moreover assume "watchers_ok s"
  ultimately show ?thesis using receive_ok [of s a] by (auto split: prod.split option.split)
qed (use subscribe_ok unsubscribe_ok broadcast_ok terminate_ok in \<open>fastforce+\<close>)

lemma watch_run_ok: "watchers_ok s \<Longrightarrow> \<exists>s' out. watch_run ops s = Some (s', out) \<and> watchers_ok s'"
proof (induction ops arbitrary: s)
  case (Cons x ops)
  obtain s1 out1 where "watch_exec x s = Some (s1, out1)" "watchers_ok s1" using watch_exec_ok [OF Cons.prems] by blast
  with Cons.IH [of s1] show ?case by auto
qed simp

section \<open>What a subscriber reads\<close>

definition reads :: "nat \<Rightarrow> (nat \<times> 'n) list \<Rightarrow> 'n list" where
  "reads a out = map snd (filter (\<lambda>p. fst p = a) out)"

fun posts :: "'n watch_op list \<Rightarrow> 'n list" where
  "posts [] = []"
| "posts (Broadcast v # ops) = v # posts ops"
| "posts (Terminate v # ops) = [v]"
| "posts (_ # ops) = posts ops"

text \<open>The reader of channel \<open>a\<close> keeps up when the channel has room for every notification until the session ends.\<close>

fun keeps_up :: "nat \<Rightarrow> 'n watch_op list \<Rightarrow> 'n watcherSet \<Rightarrow> bool" where
  "keeps_up a [] s = True"
| "keeps_up a (Terminate v # ops) s = (length (ch_buf (ws_chans s ! a)) < chan_capacity)"
| "keeps_up a (Broadcast v # ops) s = (length (ch_buf (ws_chans s ! a)) < chan_capacity \<and>
     (case broadcast v s of Some s1 \<Rightarrow> keeps_up a ops s1 | None \<Rightarrow> False))"
| "keeps_up a (x # ops) s = (case watch_exec x s of Some (s1, _) \<Rightarrow> keeps_up a ops s1 | None \<Rightarrow> False)"

lemma reads_simps [simp]: "reads a [] = []" "reads a (out1 @ out2) = reads a out1 @ reads a out2"
  "reads a [(b, v)] = (if b = a then [v] else [])"
  by (simp_all add: reads_def)

text \<open>A channel that is no longer in the set changes only by being read.\<close>

lemma detached_exec:
  assumes "watchers_ok s" and "a < length (ws_chans s)" and "a \<notin> snd ` set (ws_clients s)" and "watch_exec x s = Some (s', out)"
  shows "a < length (ws_chans s') \<and> a \<notin> snd ` set (ws_clients s') \<and> ch_closed (ws_chans s' ! a) = ch_closed (ws_chans s ! a) \<and>
    reads a out @ ch_buf (ws_chans s' ! a) = ch_buf (ws_chans s ! a)"
proof (cases x)
  case (Subscribe c)
  have cs: "distinct (map fst (ws_clients s))" "distinct (map snd (ws_clients s))" "\<forall>x\<in>set (map snd (ws_clients s)). x < length (ws_chans s)"
    using assms(1) by (auto simp: watchers_ok_def open_chans_def)
  show ?thesis using Subscribe subscribe_ok [OF assms(1), of c] update_clients [OF cs, of c] assms(2-4)
    by (cases "ws_terminal s") (auto simp: nth_append)
next
  case (Unsubscribe c)
  then show ?thesis using assms by (auto simp: unsubscribe_def AList.delete_eq)
next
  case (Broadcast v)
  then show ?thesis using broadcast_ok [OF assms(1), of v] assms(2-4) by auto
next
  case (Terminate v)
  then show ?thesis using terminate_ok [OF assms(1), of v] assms(2-4) by auto
next
  case (Receive b)
  then show ?thesis using assms(2-4) by (auto simp: receive_def nth_list_update split: if_splits)
qed

lemma detached_run:
  assumes "watchers_ok s" and "a < length (ws_chans s)" and "a \<notin> snd ` set (ws_clients s)" and "watch_run ops s = Some (s', out)"
  shows "ch_closed (ws_chans s' ! a) = ch_closed (ws_chans s ! a) \<and> reads a out @ ch_buf (ws_chans s' ! a) = ch_buf (ws_chans s ! a)"
  using assms
proof (induction ops arbitrary: s out)
  case (Cons x ops)
  obtain s1 out1 where e: "watch_exec x s = Some (s1, out1)" "watchers_ok s1" using watch_exec_ok [OF Cons.prems(1)] by blast
  obtain out2 where r: "watch_run ops s1 = Some (s', out2)" "out = out1 @ out2" using Cons.prems(4) e(1) by auto
  show ?case using detached_exec [OF Cons.prems(1-3) e(1)] Cons.IH [OF e(2) _ _ r(1)] r(2) by auto
qed simp

text \<open>A subscriber's channel until the session ends.\<close>

lemma attached_exec:
  assumes "watchers_ok s" and "(c, a) \<in> set (ws_clients s)" and "x \<noteq> Subscribe c" and "x \<noteq> Unsubscribe c" and "\<forall>v. x \<noteq> Terminate v"
    and "watch_exec x s = Some (s', out)"
  shows "(c, a) \<in> set (ws_clients s') \<and> reads a out @ ch_buf (ws_chans s' ! a) =
    (case x of Broadcast v \<Rightarrow> ch_buf (offer v (ws_chans s ! a)) | _ \<Rightarrow> ch_buf (ws_chans s ! a))"
proof -
  have cs: "distinct (map fst (ws_clients s))" "distinct (map snd (ws_clients s))" "\<forall>x\<in>set (map snd (ws_clients s)). x < length (ws_chans s)"
    using assms(1) by (auto simp: watchers_ok_def open_chans_def)
  then have a: "a < length (ws_chans s)" using assms(2) by auto
  show ?thesis
  proof (cases x)
    case (Subscribe d)
    then show ?thesis using subscribe_ok [OF assms(1), of d] update_clients [OF cs, of d] assms(2-6) a
      by (cases "ws_terminal s") (auto simp: nth_append)
  next
    case (Unsubscribe d)
    then show ?thesis using assms by (auto simp: unsubscribe_def AList.delete_eq)
  next
    case (Broadcast v)
    then show ?thesis using broadcast_ok [OF assms(1), of v] assms(2,6) by (auto simp: image_iff)
  next
    case (Receive b)
    then show ?thesis using assms(2,6) a by (auto simp: receive_def nth_list_update split: if_splits)
  qed (use assms(5) in auto)
qed

lemma attached_run:
  assumes "watchers_ok s" and "(c, a) \<in> set (ws_clients s)" and "Subscribe c \<notin> set ops" and "Unsubscribe c \<notin> set ops"
    and "watch_run ops s = Some (s', out)"
  shows "subseq (reads a out @ ch_buf (ws_chans s' ! a)) (ch_buf (ws_chans s ! a) @ posts ops) \<and>
    (keeps_up a ops s \<longrightarrow> reads a out @ ch_buf (ws_chans s' ! a) = ch_buf (ws_chans s ! a) @ posts ops) \<and>
    ((\<exists>v. Terminate v \<in> set ops) \<longrightarrow> ch_closed (ws_chans s' ! a))"
  using assms
proof (induction ops arbitrary: s out)
  case (Cons x ops)
  obtain s1 out1 where e: "watch_exec x s = Some (s1, out1)" "watchers_ok s1" using watch_exec_ok [OF Cons.prems(1)] by blast
  obtain out2 where r: "watch_run ops s1 = Some (s', out2)" "out = out1 @ out2" using Cons.prems(5) e(1) by auto
  show ?case
  proof (cases "\<exists>v. x = Terminate v")
    case True
    then obtain v where v: "x = Terminate v" ..
    have l: "a < length (ws_chans s)" using Cons.prems(1,2) by (auto simp: watchers_ok_def open_chans_def)
    have t: "ws_clients s1 = []" "a < length (ws_chans s1)" "ws_chans s1 ! a = (offer v (ws_chans s ! a))\<lparr>ch_closed := True\<rparr>" "out1 = []"
      using terminate_ok [OF Cons.prems(1), of v] e(1) v Cons.prems(2) l by (auto simp: image_iff)
    have "reads a out2 @ ch_buf (ws_chans s' ! a) = ch_buf (offer v (ws_chans s ! a))" "ch_closed (ws_chans s' ! a)"
      using detached_run [OF e(2) t(2) _ r(1)] t by auto
    then show ?thesis using v r(2) t(4) by (auto simp: offer_def)
  next
    case False
    have x: "(c, a) \<in> set (ws_clients s1)" "reads a out1 @ ch_buf (ws_chans s1 ! a) =
        (case x of Broadcast v \<Rightarrow> ch_buf (offer v (ws_chans s ! a)) | _ \<Rightarrow> ch_buf (ws_chans s ! a))"
      using attached_exec [OF Cons.prems(1,2) _ _ _ e(1)] Cons.prems(3,4) False by auto
    have ih: "subseq (reads a out2 @ ch_buf (ws_chans s' ! a)) (ch_buf (ws_chans s1 ! a) @ posts ops)"
      "keeps_up a ops s1 \<Longrightarrow> reads a out2 @ ch_buf (ws_chans s' ! a) = ch_buf (ws_chans s1 ! a) @ posts ops"
      "\<exists>v. Terminate v \<in> set ops \<Longrightarrow> ch_closed (ws_chans s' ! a)"
      using Cons.IH [OF e(2) x(1) _ _ r(1)] Cons.prems(3,4) by auto
    have "subseq (reads a out @ ch_buf (ws_chans s' ! a)) ((reads a out1 @ ch_buf (ws_chans s1 ! a)) @ posts ops)"
      using ih(1) r(2) by (simp add: list_emb_append_mono)
    moreover have "subseq ((reads a out1 @ ch_buf (ws_chans s1 ! a)) @ posts ops) (ch_buf (ws_chans s ! a) @ posts (x # ops))"
      unfolding x(2) using False by (cases x) (auto simp: offer_def intro!: list_emb_append_mono)
    moreover have "keeps_up a (x # ops) s \<Longrightarrow> keeps_up a ops s1 \<and> (reads a out1 @ ch_buf (ws_chans s1 ! a)) @ posts ops = ch_buf (ws_chans s ! a) @ posts (x # ops)"
      unfolding x(2) using False e(1) by (cases x) (auto simp: offer_def split: option.splits)
    moreover from calculation(1,2) have "subseq (reads a out @ ch_buf (ws_chans s' ! a)) (ch_buf (ws_chans s ! a) @ posts (x # ops))"
      by (rule subseq_order.order_trans)
    moreover have "(\<exists>v. Terminate v \<in> set (x # ops)) \<longrightarrow> ch_closed (ws_chans s' ! a)" using ih(3) False by auto
    ultimately show ?thesis using ih(2) r(2) by simp
  qed
qed simp

text \<open>
  No sequence of subscriptions, cancellations, broadcasts, terminations and reads, in whatever
  order they interleave, sends on a closed channel or closes one twice, and every subscriber of the
  resulting set has an open channel of its own, with at most 64 waiting notifications, and the set
  is empty once the session has ended.
\<close>

theorem watchers_never_panic:
  "\<exists>s out. watch_run ops new_watcherSet = Some (s, out) \<and> distinct (map fst (ws_clients s)) \<and> distinct (map snd (ws_clients s)) \<and>
    list_all (\<lambda>(c, a). a < length (ws_chans s) \<and> \<not> ch_closed (ws_chans s ! a) \<and> length (ch_buf (ws_chans s ! a)) \<le> chan_capacity) (ws_clients s) \<and>
    (ws_terminal s = None \<or> ws_clients s = [])"
proof -
  obtain s out where "watch_run ops (new_watcherSet :: 'a watcherSet) = Some (s, out)" "watchers_ok s" using watch_run_ok [OF new_watcherSet_ok, of ops] by blast
  then show ?thesis by (auto simp: watchers_ok_def open_chans_def list_all_iff)
qed

text \<open>
  A subscriber that keeps up misses nothing: what it has read and what waits in its channel are
  exactly the notifications since it subscribed, in order, the terminal one last and nothing after
  it, whatever other subscribers do meanwhile; once the session has ended its channel is closed. A
  subscriber that does not keep up still reads a subsequence of them.
\<close>

theorem watcher_reads_everything:
  assumes "watch_run before new_watcherSet = Some (s0, out0)" and "ws_terminal s0 = None" and "subscribe c s0 = Some (a, s)"
    and "Subscribe c \<notin> set ops" and "Unsubscribe c \<notin> set ops" and "watch_run ops s = Some (s', out)"
  shows "subseq (reads a out @ ch_buf (ws_chans s' ! a)) (posts ops) \<and>
    (keeps_up a ops s \<longrightarrow> reads a out @ ch_buf (ws_chans s' ! a) = posts ops) \<and>
    ((\<exists>v. Terminate v \<in> set ops) \<longrightarrow> ch_closed (ws_chans s' ! a))"
proof -
  have "watchers_ok s0" using watch_run_ok [OF new_watcherSet_ok, of before] assms(1) by auto
  from subscribe_ok [OF this, of c] assms(2,3)
  have s: "watchers_ok s" "a = length (ws_chans s0)" "ws_chans s = ws_chans s0 @ [\<lparr>ch_buf = [], ch_closed = False\<rparr>]"
    "ws_clients s = AList.update c a (ws_clients s0)" by auto
  have "map_of (ws_clients s) c = Some a" using s(4) by (simp add: update_conv)
  then have "(c, a) \<in> set (ws_clients s)" by (rule map_of_SomeD)
  from attached_run [OF s(1) this assms(4-6)] show ?thesis using s(2,3) by simp
qed

theorem watcher_reads_everything_witness:
  "subseq (reads 1 [(1, 3), (1, 4)] @ []) (posts [Broadcast (3::nat), Receive 1, Subscribe ''b'', Terminate 4, Broadcast 5, Receive 1])"
proof -
  let ?ops = "[Broadcast (3::nat), Receive 1, Subscribe ''b'', Terminate 4, Broadcast 5, Receive 1]"
  have "\<exists>s' out. watch_run [Subscribe ''x'', Broadcast 1] (new_watcherSet :: nat watcherSet) = Some (s', out) \<and> ws_terminal s' = None \<and>
      (\<exists>s. subscribe ''a'' s' = Some (1, s) \<and> (\<exists>s''. watch_run ?ops s = Some (s'', [(1, 3), (1, 4)]) \<and> ch_buf (ws_chans s'' ! 1) = []))"
    by (simp add: new_watcherSet_def subscribe_def broadcast_def terminate_def receive_def trySend_def closeChan_def chan_capacity_def)
  then obtain s' out s s'' where r: "watch_run [Subscribe ''x'', Broadcast 1] (new_watcherSet :: nat watcherSet) = Some (s', out)" "ws_terminal s' = None"
    "subscribe ''a'' s' = Some (1, s)" "watch_run ?ops s = Some (s'', [(1, 3), (1, 4)])" "ch_buf (ws_chans s'' ! 1) = []" by blast
  from watcher_reads_everything [OF r(1,2,3) _ _ r(4)] r(5) show ?thesis by simp
qed

text \<open>
  A subscriber whose channel is full when the session ends is not told how it ended: its channel
  is closed without the terminal notification, although a subscriber that comes later reads it.
\<close>

lemma full_watcher_misses_end:
  assumes "watch_run before new_watcherSet = Some (s, out)" and "(c, a) \<in> set (ws_clients s)"
    and "length (ch_buf (ws_chans s ! a)) = chan_capacity"
  shows "\<exists>s'. terminate v s = Some s' \<and> ws_chans s' ! a = \<lparr>ch_buf = ch_buf (ws_chans s ! a), ch_closed = True\<rparr> \<and>
    (\<exists>b s''. subscribe d s' = Some (b, s'') \<and> ws_chans s'' ! b = \<lparr>ch_buf = [v], ch_closed = True\<rparr>)"
proof -
  have ok: "watchers_ok s" using watch_run_ok [OF new_watcherSet_ok, of before] assms(1) by auto
  have a: "a \<in> snd ` set (ws_clients s)" using assms(2) by force
  with terminate_ok [OF ok, of v] obtain s' where t: "terminate v s = Some s'" "watchers_ok s'" "ws_terminal s' = Some v"
    "ws_chans s' ! a = (offer v (ws_chans s ! a))\<lparr>ch_closed := True\<rparr>" by metis
  from subscribe_ok [OF t(2), of d] t(3) have "\<exists>b s''. subscribe d s' = Some (b, s'') \<and> ws_chans s'' ! b = \<lparr>ch_buf = [v], ch_closed = True\<rparr>" by auto
  with t(1,4) assms(3) show ?thesis by (auto simp: offer_def)
qed

lemma full_run:
  "n \<le> 64 \<Longrightarrow> watch_run (Subscribe ''a'' # replicate n (Broadcast x)) new_watcherSet =
     Some (\<lparr>ws_clients = [(''a'', 0)], ws_terminal = None, ws_chans = [\<lparr>ch_buf = replicate n x, ch_closed = False\<rparr>]\<rparr>, [])"
proof -
  have "k + n \<le> 64 \<Longrightarrow> watch_run (replicate n (Broadcast x)) \<lparr>ws_clients = [(''a'', 0)], ws_terminal = None, ws_chans = [\<lparr>ch_buf = replicate k x, ch_closed = False\<rparr>]\<rparr> =
     Some (\<lparr>ws_clients = [(''a'', 0)], ws_terminal = None, ws_chans = [\<lparr>ch_buf = replicate (k + n) x, ch_closed = False\<rparr>]\<rparr>, [])" for k
  proof (induction n arbitrary: k)
    case (Suc n)
    then show ?case using Suc.IH [of "Suc k"] by (simp add: broadcast_def trySend_def chan_capacity_def replicate_append_same)
  qed simp
  from this [of 0] show "n \<le> 64 \<Longrightarrow> ?thesis" by (simp add: subscribe_def new_watcherSet_def Let_def)
qed

lemma full_watcher_misses_end_witness:
  "\<exists>s s'. watch_run (Subscribe ''a'' # replicate 64 (Broadcast 1)) new_watcherSet = Some (s, []) \<and> terminate (2::nat) s = Some s' \<and> 2 \<notin> set (ch_buf (ws_chans s' ! 0))"
proof -
  let ?s = "\<lparr>ws_clients = [(''a'', 0)], ws_terminal = None, ws_chans = [\<lparr>ch_buf = replicate 64 (1::nat), ch_closed = False\<rparr>]\<rparr>"
  have r: "watch_run (Subscribe ''a'' # replicate 64 (Broadcast 1)) new_watcherSet = Some (?s, [])" by (rule full_run) simp
  have "\<exists>s'. terminate (2::nat) ?s = Some s' \<and> ws_chans s' ! 0 = \<lparr>ch_buf = ch_buf (ws_chans ?s ! 0), ch_closed = True\<rparr> \<and>
    (\<exists>b s''. subscribe ''d'' s' = Some (b, s'') \<and> ws_chans s'' ! b = \<lparr>ch_buf = [2], ch_closed = True\<rparr>)"
    by (rule full_watcher_misses_end [OF r, of "''a''"]) (simp_all add: chan_capacity_def)
  then show ?thesis using r by auto
qed

end
