(* ===== verification/Operator.thy ===== *)
theory Operator
  imports Engine Nodes Watchers
begin

text \<open>
  The HTTP interface of the runtime for operators (\<open>core/runtime\<close>): the feed of all events with its
  recovery buffer, the read-only views of agents, workflows, capabilities and nodes, the decision
  API, the health report, and the registration of the routes. A request is its method, path and
  query; an answer is an error with its status, or the value that is printed as JSON. The text of a
  time is a parameter. Letters are folded on ASCII only.
\<close>

section \<open>Strings of requests\<close>

definition lower_char :: "char \<Rightarrow> char" where
  "lower_char c = (if 65 \<le> (of_char c :: nat) \<and> (of_char c :: nat) \<le> 90 then char_of (of_char c + 32 :: nat) else c)"

definition ToLower :: "string \<Rightarrow> string" where
  "ToLower s = map lower_char s"

definition EqualFold :: "string \<Rightarrow> string \<Rightarrow> bool" where
  "EqualFold s t \<longleftrightarrow> ToLower s = ToLower t"

fun Contains :: "string \<Rightarrow> string \<Rightarrow> bool" where
  "Contains [] sub \<longleftrightarrow> sub = []"
| "Contains (c # s) sub \<longleftrightarrow> HasPrefix (c # s) sub \<or> Contains s sub"

definition TrimPrefix :: "string \<Rightarrow> string \<Rightarrow> string" where
  "TrimPrefix s p = (if HasPrefix s p then drop (length p) s else s)"

fun digits :: "string \<Rightarrow> nat \<Rightarrow> nat option" where
  "digits [] acc = Some acc"
| "digits (c # s) acc = (let d = (of_char c :: nat) in if 48 \<le> d \<and> d \<le> 57 then digits s (10 * acc + (d - 48)) else None)"

text \<open>\<open>strconv.Atoi\<close>: an optional sign, at least one digit, and a value that fits an \<open>int\<close>.\<close>

definition Atoi :: "string \<Rightarrow> int option" where
  "Atoi s =
     (let ds = (if s \<noteq> [] \<and> hd s \<in> {CHR ''-'', CHR ''+''} then tl s else s) in
      if ds = [] then None
      else case digits ds 0 of
        None \<Rightarrow> None
      | Some v \<Rightarrow> (let i = (if hd s = CHR ''-'' then - int v else int v) in if - (2 ^ 63) \<le> i \<and> i < 2 ^ 63 then Some i else None))"

record api_request =
  rq_Method :: string
  rq_Path :: string
  rq_query :: "string \<Rightarrow> string"

type_synonym 'a http_reply = "(nat \<times> string) + 'a"

section \<open>The feed of events\<close>

definition operatorRingSize :: nat where "operatorRingSize = 1000"
definition operatorSSEBufSize :: nat where "operatorSSEBufSize = 128"
definition operatorThroughputWindow :: int where "operatorThroughputWindow = 60 * 1000000000"

definition operatorStaticStreams :: "string list" where
  "operatorStaticStreams = [''AGENTS'', ''HEALTH'', ''DIRECT'', ''DISCOVERY'', ''HUMAN'', ''COORDINATION'', ''FEDERATION'', ''SIMULATION'']"

record operatorEventJSON =
  oe_ID :: string
  oe_Type :: string
  oe_SourceAgent :: string
  oe_SourceNode :: string
  oe_TargetAgent :: string
  oe_WorkflowID :: string
  oe_CorrelationID :: string
  oe_Timestamp :: int
  oe_Metadata :: labels
  oe_IsSimulated :: bool
  oe_Stream :: string
  oe_Sequence :: nat

definition zeroOperatorEvent :: operatorEventJSON where
  "zeroOperatorEvent = \<lparr>oe_ID = [], oe_Type = [], oe_SourceAgent = [], oe_SourceNode = [], oe_TargetAgent = [], oe_WorkflowID = [], oe_CorrelationID = [],
     oe_Timestamp = 0, oe_Metadata = Map.empty, oe_IsSimulated = False, oe_Stream = [], oe_Sequence = 0\<rparr>"

text \<open>The mutable part of the handler. The channels of the clients are never closed, so a channel is its buffer.\<close>

record OperatorHandler =
  oh_sseClients :: "(string \<times> operatorEventJSON list) list"
  oh_ring :: "operatorEventJSON list"
  oh_ringIdx :: nat
  oh_ringLen :: nat
  oh_eventNanos :: "int list"

definition NewOperatorHandler :: OperatorHandler where
  "NewOperatorHandler = \<lparr>oh_sseClients = [], oh_ring = replicate operatorRingSize zeroOperatorEvent, oh_ringIdx = 0, oh_ringLen = 0, oh_eventNanos = []\<rparr>"

text \<open>A message is the event it decodes to, if any, and the sequence number of its metadata, if any.\<close>

definition operator_decodeMessage :: "'b services \<Rightarrow> 'b \<Rightarrow> string \<Rightarrow> nat option \<Rightarrow> operatorEventJSON option" where
  "operator_decodeMessage sv data streamName meta =
     (case sv_dec_agent_event sv data of
        None \<Rightarrow> None
      | Some e \<Rightarrow> Some \<lparr>oe_ID = ev_ID e, oe_Type = ev_Type e, oe_SourceAgent = ev_SourceAgent e, oe_SourceNode = ev_SourceNode e,
          oe_TargetAgent = ev_TargetAgent e, oe_WorkflowID = ev_WorkflowID e, oe_CorrelationID = ev_CorrelationID e, oe_Timestamp = ev_Timestamp e,
          oe_Metadata = ev_Metadata e, oe_IsSimulated = (streamName = ''SIMULATION'' \<or> ev_Metadata e ''simulation'' \<noteq> None),
          oe_Stream = streamName, oe_Sequence = (case meta of None \<Rightarrow> 0 | Some seq \<Rightarrow> seq)\<rparr>)"

definition appendRing :: "operatorEventJSON \<Rightarrow> OperatorHandler \<Rightarrow> OperatorHandler" where
  "appendRing evt h = h\<lparr>oh_ring := (oh_ring h)[oh_ringIdx h := evt], oh_ringIdx := (oh_ringIdx h + 1) mod operatorRingSize,
     oh_ringLen := (if oh_ringLen h < operatorRingSize then oh_ringLen h + 1 else oh_ringLen h)\<rparr>"

text \<open>The clock is read twice; the second reading gives the cutoff.\<close>

definition trackThroughput :: "int \<Rightarrow> int \<Rightarrow> OperatorHandler \<Rightarrow> OperatorHandler" where
  "trackThroughput t1 t2 h = h\<lparr>oh_eventNanos := dropWhile (\<lambda>t. t < t2 - operatorThroughputWindow) (oh_eventNanos h @ [t1])\<rparr>"

text \<open>The number of events that \<open>throughputPerSec\<close> divides by the 60 seconds of the window.\<close>

definition throughputCount :: "int \<Rightarrow> OperatorHandler \<Rightarrow> nat" where
  "throughputCount t h = length (filter (\<lambda>x. t - operatorThroughputWindow \<le> x) (oh_eventNanos h))"

definition broadcastToSSE :: "operatorEventJSON \<Rightarrow> OperatorHandler \<Rightarrow> OperatorHandler" where
  "broadcastToSSE evt h = h\<lparr>oh_sseClients := map (\<lambda>(c, buf). (c, if length buf < operatorSSEBufSize then buf @ [evt] else buf)) (oh_sseClients h)\<rparr>"

definition consumeEvent :: "operatorEventJSON \<times> int \<times> int \<Rightarrow> OperatorHandler \<Rightarrow> OperatorHandler" where
  "consumeEvent = (\<lambda>(evt, t1, t2) h. broadcastToSSE evt (trackThroughput t1 t2 (appendRing evt h)))"

text \<open>What the consumer of a stream does with a message.\<close>

definition consumeMessage :: "'b services \<Rightarrow> string \<Rightarrow> 'b \<Rightarrow> nat option \<Rightarrow> int \<Rightarrow> int \<Rightarrow> OperatorHandler \<Rightarrow> OperatorHandler" where
  "consumeMessage sv streamName data meta t1 t2 h =
     (case operator_decodeMessage sv data streamName meta of None \<Rightarrow> h | Some evt \<Rightarrow> consumeEvent (evt, t1, t2) h)"

text \<open>The walk of \<open>findInRing\<close> from the oldest entry, over the indexes \<open>i\<close>.\<close>

fun walkRing :: "operatorEventJSON list \<Rightarrow> nat \<Rightarrow> string \<Rightarrow> nat list \<Rightarrow> bool \<times> operatorEventJSON list \<Rightarrow> bool \<times> operatorEventJSON list" where
  "walkRing ring start lastID [] acc = acc"
| "walkRing ring start lastID (i # idxs) (found, result) =
     (let evt = ring ! ((start + i) mod operatorRingSize)
      in walkRing ring start lastID idxs (found \<or> oe_ID evt = lastID, if found then result @ [evt] else result))"

definition findInRing :: "string \<Rightarrow> OperatorHandler \<Rightarrow> operatorEventJSON list \<times> bool" where
  "findInRing lastID h =
     (if oh_ringLen h = 0 then ([], True)
      else
        (let start = (if oh_ringLen h = operatorRingSize then oh_ringIdx h else 0);
             (found, result) = walkRing (oh_ring h) start lastID [0..<oh_ringLen h] (False, [])
         in if \<not> found then ([], False) else (result, True)))"

record event_filter =
  ef_type :: string
  ef_agent :: string
  ef_workflow :: string

definition eventMatchesFilter :: "event_filter \<Rightarrow> operatorEventJSON \<Rightarrow> bool" where
  "eventMatchesFilter f evt \<longleftrightarrow>
     (ef_type f = [] \<or> HasPrefix (oe_Type evt) (TrimSuffix (TrimSuffix (ef_type f) ''.*'') ''.'')) \<and>
     (ef_agent f = [] \<or> oe_SourceAgent evt = ef_agent f \<or> oe_TargetAgent evt = ef_agent f) \<and>
     (ef_workflow f = [] \<or> oe_WorkflowID evt = ef_workflow f)"

datatype feed_frame = FeedEvent operatorEventJSON | FeedGap nat string | FeedKeepalive

text \<open>
  The handler of a stream in its parts: the events it recovers for a client that reconnects, the
  registration of the client, the turns of its loop by what is ready, and its end.
\<close>

definition recoverEvents :: "string \<Rightarrow> event_filter \<Rightarrow> OperatorHandler \<Rightarrow> feed_frame list" where
  "recoverEvents lastID f h =
     (if lastID = [] then []
      else case findInRing lastID h of
        (missed, True) \<Rightarrow> map FeedEvent (filter (eventMatchesFilter f) missed)
      | (_, False) \<Rightarrow> [FeedGap operatorRingSize ''client behind''])"

definition registerClient :: "string \<Rightarrow> OperatorHandler \<Rightarrow> OperatorHandler" where
  "registerClient clientID h = h\<lparr>oh_sseClients := AList.update clientID [] (oh_sseClients h)\<rparr>"

definition unregisterClient :: "string \<Rightarrow> OperatorHandler \<Rightarrow> OperatorHandler" where
  "unregisterClient clientID h = h\<lparr>oh_sseClients := AList.delete clientID (oh_sseClients h)\<rparr>"

datatype feed_wake = FeedTick | FeedReady

definition feedTurn :: "string \<Rightarrow> event_filter \<Rightarrow> feed_wake \<Rightarrow> feed_frame list \<times> OperatorHandler \<Rightarrow> feed_frame list \<times> OperatorHandler" where
  "feedTurn clientID f wk = (\<lambda>(out, h).
     case wk of
       FeedTick \<Rightarrow> (out @ [FeedKeepalive], h)
     | FeedReady \<Rightarrow>
         (case map_of (oh_sseClients h) clientID of
            Some (evt # buf) \<Rightarrow> (if eventMatchesFilter f evt then out @ [FeedEvent evt] else out, h\<lparr>oh_sseClients := AList.update clientID buf (oh_sseClients h)\<rparr>)
          | _ \<Rightarrow> (out, h)))"

text \<open>The checks of the handler before its stream starts.\<close>

definition handleEventStream :: "api_request \<Rightarrow> bool \<Rightarrow> event_filter http_reply" where
  "handleEventStream r flusher =
     (if rq_Method r \<noteq> ''GET'' then Inl (405, ''method not allowed'')
      else if \<not> flusher then Inl (500, ''streaming not supported'')
      else Inr \<lparr>ef_type = rq_query r ''type'', ef_agent = rq_query r ''agent'', ef_workflow = rq_query r ''workflow_id''\<rparr>)"

section \<open>Agents\<close>

record capabilityJSON =
  cj_Name :: string
  cj_Version :: string
  cj_Description :: string
  cj_Category :: string
  cj_Parameters :: labels

record agentJSON =
  aj_ID :: string
  aj_Name :: string
  aj_Type :: string
  aj_Version :: string
  aj_Status :: string
  aj_Origin :: string
  aj_Capabilities :: "capabilityJSON list"
  aj_Labels :: labels
  aj_LastHeartbeat :: string
  aj_NodeID :: string

fun agentStatusString :: "AgentLifecycleStatus \<Rightarrow> string" where
  "agentStatusString StatusActive = ''active''"
| "agentStatusString StatusUnhealthy = ''unhealthy''"
| "agentStatusString StatusDead = ''dead''"
| "agentStatusString StatusUnregistered = ''unregistered''"
| "agentStatusString _ = ''unknown''"

text \<open>The zero time is 0.\<close>

definition registrationToJSON :: "(int \<Rightarrow> string) \<Rightarrow> AgentRegistration \<Rightarrow> agentJSON" where
  "registrationToJSON fmt reg =
     \<lparr>aj_ID = reg_AgentID reg, aj_Name = reg_AgentType reg, aj_Type = reg_AgentType reg, aj_Version = reg_Version reg,
      aj_Status = agentStatusString (reg_Status reg), aj_Origin = (if reg_Origin reg = ''a2a'' then ''a2a'' else ''native''),
      aj_Capabilities = map (\<lambda>c. \<lparr>cj_Name = cap_Name c, cj_Version = cap_Version c, cj_Description = cap_Description c,
        cj_Category = cap_Category c, cj_Parameters = cap_Parameters c\<rparr>) (reg_Capabilities reg),
      aj_Labels = reg_Labels reg, aj_LastHeartbeat = (if reg_LastSeen reg \<noteq> 0 then fmt (reg_LastSeen reg) else []), aj_NodeID = reg_NodeID reg\<rparr>"

definition agentMatches :: "api_request \<Rightarrow> AgentRegistration \<Rightarrow> bool" where
  "agentMatches r reg =
     (let statusFilter = ToLower (rq_query r ''status''); capFilter = rq_query r ''capability''; typeFilter = rq_query r ''type''; nameFilter = ToLower (rq_query r ''q'')
      in (statusFilter = [] \<or> agentStatusString (reg_Status reg) = statusFilter) \<and> (typeFilter = [] \<or> EqualFold (reg_AgentType reg) typeFilter) \<and>
         (nameFilter = [] \<or> Contains (ToLower (reg_AgentType reg)) nameFilter) \<and> (capFilter = [] \<or> list_ex (\<lambda>c. cap_Name c = capFilter) (reg_Capabilities reg)))"

definition handleAgents :: "(int \<Rightarrow> string) \<Rightarrow> registry_if \<Rightarrow> api_request \<Rightarrow> (agentJSON list \<times> nat) http_reply" where
  "handleAgents fmt reg r =
     (if rq_Method r \<noteq> ''GET'' then Inl (405, ''method not allowed'')
      else case ri_list reg of
        Inl _ \<Rightarrow> Inl (500, ''failed to list agents'')
      | Inr all \<Rightarrow> (let filtered = map (registrationToJSON fmt) (filter (agentMatches r) all) in Inr (filtered, length filtered)))"

definition handleAgentRoutes :: "(int \<Rightarrow> string) \<Rightarrow> registry_if \<Rightarrow> api_request \<Rightarrow> agentJSON http_reply" where
  "handleAgentRoutes fmt reg r =
     (let agentID = TrimPrefix (rq_Path r) ''/api/agents/'' in
      if agentID = [] \<or> CHR ''/'' \<in> set agentID then Inl (400, ''invalid agent id'')
      else if rq_Method r \<noteq> ''GET'' then Inl (405, ''method not allowed'')
      else case ri_get reg agentID of
        Inl _ \<Rightarrow> Inl (404, ''agent not found'')
      | Inr (a, _) \<Rightarrow> Inr (registrationToJSON fmt a))"

section \<open>Workflows\<close>

record wfStepJSON =
  wj_Index :: nat
  wj_Name :: string
  wj_Capability :: string
  wj_AssignedAgent :: string
  wj_Status :: string
  wj_CompletedAt :: string

record workflowJSON =
  wv_ID :: string
  wv_Name :: string
  wv_Status :: string
  wv_CurrentStep :: int
  wv_TotalSteps :: nat
  wv_Initiator :: string
  wv_CreatedAt :: string
  wv_UpdatedAt :: string
  wv_Error :: "string option"
  wv_Steps :: "wfStepJSON list"

fun workflowStatusString :: "WorkflowStatus \<Rightarrow> string" where
  "workflowStatusString StatusCreated = ''created''"
| "workflowStatusString StatusRunning = ''running''"
| "workflowStatusString StatusCompleted = ''completed''"
| "workflowStatusString StatusFailed = ''failed''"
| "workflowStatusString StatusWaitingHuman = ''waiting_human''"
| "workflowStatusString StatusUnspecified = ''unknown''"

text \<open>A step with the first result of its index, if there is one.\<close>

definition stepToJSON :: "(int \<Rightarrow> string) \<Rightarrow> 'b WorkflowState \<Rightarrow> nat \<Rightarrow> 'b StepDefinition \<Rightarrow> wfStepJSON" where
  "stepToJSON fmt state i def =
     (let step = \<lparr>wj_Index = i, wj_Name = sd_Name def, wj_Capability = sd_Capability def, wj_AssignedAgent = [], wj_Status = ''pending'', wj_CompletedAt = []\<rparr>;
          step1 = (case List.find (\<lambda>res. unat (rs_StepIndex res) = i) (ws_StepResults state) of
             None \<Rightarrow> step
           | Some res \<Rightarrow> step\<lparr>wj_Status := (if rs_Status res = StepStatusSuccess then ''completed'' else if rs_Status res = StepStatusFailure then ''failed'' else ''pending''),
               wj_CompletedAt := (if 0 < rs_CompletedAt res then fmt (rs_CompletedAt res) else []), wj_AssignedAgent := rs_AgentID res\<rparr>)
      in if unat (ws_CurrentStep state) = i \<and> (ws_Status state = StatusRunning \<or> ws_Status state = StatusWaitingHuman) \<and> wj_Status step1 = ''pending''
         then step1\<lparr>wj_Status := ''running''\<rparr> else step1)"

definition stateToJSON :: "(int \<Rightarrow> string) \<Rightarrow> 'b WorkflowState \<Rightarrow> bool \<Rightarrow> workflowJSON" where
  "stateToJSON fmt state includeSteps =
     \<lparr>wv_ID = ws_WorkflowID state, wv_Name = wd_Name (ws_Definition state), wv_Status = workflowStatusString (ws_Status state),
      wv_CurrentStep = uint (ws_CurrentStep state), wv_TotalSteps = length (wd_Steps (ws_Definition state)), wv_Initiator = wd_Initiator (ws_Definition state),
      wv_CreatedAt = fmt (ws_CreatedAt state), wv_UpdatedAt = fmt (ws_UpdatedAt state), wv_Error = map_option we_Message (ws_Error state),
      wv_Steps = (if includeSteps then map (\<lambda>(i, def). stepToJSON fmt state i def) (List.enumerate 0 (wd_Steps (ws_Definition state))) else [])\<rparr>"

definition parseLimit :: "string \<Rightarrow> int" where
  "parseLimit s = (case Atoi s of Some v \<Rightarrow> if 0 < v \<and> v \<le> 1000 then v else 100 | None \<Rightarrow> 100)"

definition parseOffset :: "string \<Rightarrow> int" where
  "parseOffset s = (case Atoi s of Some v \<Rightarrow> if 0 \<le> v then v else 0 | None \<Rightarrow> 0)"

record workflow_page =
  wp_workflows :: "workflowJSON list"
  wp_total :: int
  wp_limit :: int
  wp_offset :: int

definition handleWorkflows :: "(int \<Rightarrow> string) \<Rightarrow> (wf_error + 'b WorkflowState list) \<Rightarrow> api_request \<Rightarrow> workflow_page http_reply" where
  "handleWorkflows fmt wfs r =
     (if rq_Method r \<noteq> ''GET'' then Inl (405, ''method not allowed'')
      else case wfs of
        Inl _ \<Rightarrow> Inl (500, ''failed to list workflows'')
      | Inr states \<Rightarrow>
          (let limit = parseLimit (rq_query r ''limit'');
               filtered = filter (\<lambda>wf. rq_query r ''status'' = [] \<or> wv_Status wf = rq_query r ''status'') (map (\<lambda>st. stateToJSON fmt st False) states);
               total = int (length filtered);
               offset = (if total < parseOffset (rq_query r ''offset'') then total else parseOffset (rq_query r ''offset''));
               till = (if total < offset + limit then total else offset + limit)
           in Inr \<lparr>wp_workflows = take (nat (till - offset)) (drop (nat offset) filtered), wp_total = total, wp_limit = limit, wp_offset = offset\<rparr>))"

definition handleWorkflowRoutes :: "(int \<Rightarrow> string) \<Rightarrow> (wf_error + 'b WorkflowState list) \<Rightarrow> api_request \<Rightarrow> workflowJSON http_reply" where
  "handleWorkflowRoutes fmt wfs r =
     (let wid = TrimPrefix (rq_Path r) ''/api/workflows/'' in
      if wid = [] \<or> CHR ''/'' \<in> set wid then Inl (400, ''invalid workflow id'')
      else if rq_Method r \<noteq> ''GET'' then Inl (405, ''method not allowed'')
      else case wfs of
        Inl _ \<Rightarrow> Inl (500, ''failed to list workflows'')
      | Inr states \<Rightarrow> (case List.find (\<lambda>st. ws_WorkflowID st = wid) states of
           None \<Rightarrow> Inl (404, ''workflow not found'') | Some st \<Rightarrow> Inr (stateToJSON fmt st True)))"

section \<open>Capabilities, statistics and nodes\<close>

record capCatalogJSON =
  cc_Name :: string
  cc_Category :: string
  cc_Description :: string
  cc_AgentCount :: nat

definition handleCapabilities :: "standardCatalog \<Rightarrow> registry_if \<Rightarrow> api_request \<Rightarrow> (capCatalogJSON list \<times> nat) http_reply" where
  "handleCapabilities cat reg r =
     (if rq_Method r \<noteq> ''GET'' then Inl (405, ''method not allowed'')
      else
        (let entries = Query cat ''*.*'';
             offered = (case ri_list reg of Inr agents \<Rightarrow> concat (map (\<lambda>a. map cap_Name (reg_Capabilities a)) agents) | Inl _ \<Rightarrow> []);
             caps = map (\<lambda>e. \<lparr>cc_Name = te_Name e, cc_Category = te_Category e, cc_Description = te_Description e, cc_AgentCount = count_list offered (te_Name e)\<rparr>) entries
         in Inr (caps, length caps)))"

record statsJSON =
  st_TotalAgents :: nat
  st_HealthyCount :: nat
  st_DegradedCount :: nat
  st_OfflineCount :: nat
  st_UnknownCount :: nat
  st_EventThroughput :: nat
  st_ActiveWorkflows :: nat
  st_PendingDecisions :: nat
  st_FederationNodes :: nat

definition countStatus :: "(AgentLifecycleStatus \<Rightarrow> bool) \<Rightarrow> AgentRegistration list \<Rightarrow> nat" where
  "countStatus P agents = length (filter (\<lambda>a. P (reg_Status a)) agents)"

text \<open>
  The nodes are absent when there is no gateway or it is not enabled. The throughput is the number of
  events in the window.
\<close>

definition handleStats :: "registry_if \<Rightarrow> (wf_error + 'b WorkflowState list) \<Rightarrow> ('s, 'b) node \<Rightarrow> (node_error + NodeInfo list) option \<Rightarrow> int \<Rightarrow> OperatorHandler \<Rightarrow>
    api_request \<Rightarrow> statsJSON http_reply" where
  "handleStats reg wfs n nodes t h r =
     (if rq_Method r \<noteq> ''GET'' then Inl (405, ''method not allowed'')
      else
        (let agents = (case ri_list reg of Inr agents \<Rightarrow> agents | Inl _ \<Rightarrow> []);
             states = (case wfs of Inr states \<Rightarrow> states | Inl _ \<Rightarrow> [])
         in Inr \<lparr>st_TotalAgents = length agents, st_HealthyCount = countStatus (\<lambda>s. s = StatusActive) agents,
              st_DegradedCount = countStatus (\<lambda>s. s = StatusUnhealthy) agents, st_OfflineCount = countStatus (\<lambda>s. s = StatusDead \<or> s = StatusUnregistered) agents,
              st_UnknownCount = countStatus (\<lambda>s. s \<notin> {StatusActive, StatusUnhealthy, StatusDead, StatusUnregistered}) agents, st_EventThroughput = throughputCount t h,
              st_ActiveWorkflows = length (filter (\<lambda>s. ws_Status s = StatusRunning \<or> ws_Status s = StatusWaitingHuman) states),
              st_PendingDecisions = length (ListPending n),
              st_FederationNodes = (case nodes of Some (Inr ns) \<Rightarrow> length ns | _ \<Rightarrow> 0)\<rparr>))"

record federationNodeJSON =
  fn_ID :: string
  fn_Address :: string
  fn_Status :: string
  fn_CapabilitiesCount :: int
  fn_Version :: string
  fn_JoinedAt :: int
  fn_LastSeen :: int
  fn_MissedHeartbeats :: int

definition handleFederationNodes :: "(node_error + NodeInfo list) option \<Rightarrow> api_request \<Rightarrow> federationNodeJSON list http_reply" where
  "handleFederationNodes nodes r =
     (if rq_Method r \<noteq> ''GET'' then Inl (405, ''method not allowed'')
      else Inr (case nodes of
        Some (Inr ns) \<Rightarrow> map (\<lambda>n. \<lparr>fn_ID = ni_NodeID n, fn_Address = ni_Address n, fn_Status = ToLower (node_status_String (ni_Status n)),
          fn_CapabilitiesCount = ni_CapabilitiesCount n, fn_Version = ni_Version n, fn_JoinedAt = ni_JoinedAt n, fn_LastSeen = ni_LastSeen n,
          fn_MissedHeartbeats = ni_MissedHeartbeats n\<rparr>) ns
      | _ \<Rightarrow> []))"

record nodeJSON =
  nj_NodeID :: string
  nj_Address :: string
  nj_Status :: string
  nj_CapabilitiesCount :: int
  nj_LastSeen :: string
  nj_JoinedAt :: string
  nj_MissedHeartbeats :: int
  nj_Version :: string

definition nodeToJSON :: "(int \<Rightarrow> string) \<Rightarrow> NodeInfo \<Rightarrow> nodeJSON" where
  "nodeToJSON fmt n = \<lparr>nj_NodeID = ni_NodeID n, nj_Address = ni_Address n, nj_Status = node_status_String (ni_Status n), nj_CapabilitiesCount = ni_CapabilitiesCount n,
     nj_LastSeen = (if 0 < ni_LastSeen n then fmt (ni_LastSeen n) else []), nj_JoinedAt = (if 0 < ni_JoinedAt n then fmt (ni_JoinedAt n) else []),
     nj_MissedHeartbeats = ni_MissedHeartbeats n, nj_Version = ni_Version n\<rparr>"

definition handleNodes :: "(int \<Rightarrow> string) \<Rightarrow> (node_error + NodeInfo list) option \<Rightarrow> api_request \<Rightarrow> nodeJSON list http_reply" where
  "handleNodes fmt nodes r =
     (if rq_Method r \<noteq> ''GET'' then Inl (405, ''method not allowed'')
      else Inr (case nodes of Some (Inr ns) \<Rightarrow> map (nodeToJSON fmt) ns | _ \<Rightarrow> []))"

section \<open>Health of the runtime\<close>

record FederationHealth =
  fh_Enabled :: bool
  fh_NodeCount :: nat
  fh_HealthyNodes :: nat

record HealthResponse =
  hr_Status :: string
  hr_NodeID :: string
  hr_Subsystems :: "(string \<times> string) list"
  hr_Federation :: "FederationHealth option"

text \<open>The gateway, if there is one, is enabled when it has a list of nodes. The answer comes with its status.\<close>

definition healthHandler :: "string \<Rightarrow> bool \<Rightarrow> (string \<times> string) list \<Rightarrow> (node_error + NodeInfo list) option option \<Rightarrow> nat \<times> HealthResponse" where
  "healthHandler nodeID started subsystems gateway =
     (let status = (if \<not> started then ''starting'' else if list_ex (\<lambda>(_, v). v \<noteq> ''up'') subsystems then ''degraded'' else ''healthy'');
          fed = map_option (\<lambda>nodes. case nodes of
              Some (Inr ns) \<Rightarrow> \<lparr>fh_Enabled = True, fh_NodeCount = length ns, fh_HealthyNodes = length (filter (\<lambda>n. node_status_String (ni_Status n) = ''active'') ns)\<rparr>
            | Some (Inl _) \<Rightarrow> \<lparr>fh_Enabled = True, fh_NodeCount = 0, fh_HealthyNodes = 0\<rparr>
            | None \<Rightarrow> \<lparr>fh_Enabled = False, fh_NodeCount = 0, fh_HealthyNodes = 0\<rparr>) gateway
      in (if status \<noteq> ''healthy'' then 503 else 200, \<lparr>hr_Status = status, hr_NodeID = nodeID, hr_Subsystems = subsystems, hr_Federation = fed\<rparr>))"

section \<open>Decisions\<close>

record decisionJSON =
  dj_DecisionID :: string
  dj_WorkflowID :: string
  dj_StepIndex :: "32 word"
  dj_StepName :: string
  dj_Prompt :: string
  dj_ResourceIDs :: "string list"
  dj_RequestedAt :: string
  dj_ConflictIDs :: "string list"

definition pendingToJSON :: "(int \<Rightarrow> string) \<Rightarrow> PendingDecision \<Rightarrow> decisionJSON" where
  "pendingToJSON fmt pd = \<lparr>dj_DecisionID = pd_DecisionID pd, dj_WorkflowID = pd_WorkflowID pd, dj_StepIndex = pd_StepIndex pd, dj_StepName = pd_StepName pd,
     dj_Prompt = pd_Prompt pd, dj_ResourceIDs = pd_ResourceIDs pd, dj_RequestedAt = fmt (pd_RequestedAt pd), dj_ConflictIDs = pd_ConflictIDs pd\<rparr>"

definition handleDecisions :: "(int \<Rightarrow> string) \<Rightarrow> api_request \<Rightarrow> ('s, 'b) node \<Rightarrow> decisionJSON list http_reply" where
  "handleDecisions fmt r n = (if rq_Method r \<noteq> ''GET'' then Inl (405, ''method not allowed'') else Inr (map (pendingToJSON fmt) (ListPending n)))"

definition handleGetDecision :: "(int \<Rightarrow> string) \<Rightarrow> api_request \<Rightarrow> string \<Rightarrow> ('s, 'b) node \<Rightarrow> decisionJSON http_reply" where
  "handleGetDecision fmt r decisionID n =
     (if rq_Method r \<noteq> ''GET'' then Inl (405, ''method not allowed'')
      else case GetPending decisionID n of None \<Rightarrow> Inl (404, ''decision not found'') | Some pd \<Rightarrow> Inr (pendingToJSON fmt pd))"

record respondRequest =
  rp_Action :: string
  rp_OperatorID :: string
  rp_Comment :: string

definition quoted :: "string \<Rightarrow> string" where
  "quoted s = [CHR 0x27] @ s @ [CHR 0x27]"

definition actionOf :: "string \<Rightarrow> DecisionAction option" where
  "actionOf s = (if ToLower s = ''approve'' then Some ActionApprove else if ToLower s = ''reject'' then Some ActionReject else None)"

text \<open>The answer of an accepted response is the decision and the action as given. A body that is not valid JSON is \<open>None\<close>.\<close>

definition handleRespond :: "'b services \<Rightarrow> string \<Rightarrow> api_request \<Rightarrow> respondRequest option \<Rightarrow> string \<Rightarrow> ('s, 'b) node \<Rightarrow> (string \<times> string) http_reply \<times> ('s, 'b) node" where
  "handleRespond sv nodeID r body decisionID n =
     (if rq_Method r \<noteq> ''POST'' then (Inl (405, ''method not allowed''), n)
      else case body of
        None \<Rightarrow> (Inl (400, ''invalid request body''), n)
      | Some req \<Rightarrow>
          (case actionOf (rp_Action req) of
             None \<Rightarrow> (Inl (400, ''invalid action: must be '' @ quoted ''approve'' @ '' or '' @ quoted ''reject''), n)
           | Some action \<Rightarrow>
               if rp_OperatorID req = [] then (Inl (400, ''operator_id is required''), n)
               else (case GetPending decisionID n of
                  None \<Rightarrow> (Inl (409, ''decision already resolved''), n)
                | Some pd \<Rightarrow>
                    (let (ts, n1) = now sv n;
                         payload = \<lparr>hdr_decision_id = decisionID, hdr_workflow_id = pd_WorkflowID pd, hdr_action = action, hdr_operator_id = rp_OperatorID req,
                           hdr_comment = rp_Comment req, hdr_responded_at = ts\<rparr>
                     in case node_emit sv (MDecisionResponse payload) (\<lambda>data. (zero_event data)\<lparr>ev_Type := ''human.decision.response'', ev_SourceNode := nodeID,
                            ev_WorkflowID := pd_WorkflowID pd\<rparr>) n1 of
                          (Some MarshalFailed, n2) \<Rightarrow> (Inl (500, ''failed to marshal response''), n2)
                        | (Some PublishFailed, n2) \<Rightarrow> (Inl (500, ''failed to publish response''), n2)
                        | (None, n2) \<Rightarrow> (Inr (decisionID, rp_Action req), n2)))))"

datatype decision_route = GetDecisionRoute string | RespondRoute string

definition handleDecisionRoutes :: "api_request \<Rightarrow> decision_route http_reply" where
  "handleDecisionRoutes r =
     (let path = TrimPrefix (rq_Path r) ''/api/decisions/'' in
      if path = [] then Inl (400, ''invalid decision id'')
      else if HasSuffix path ''/respond'' then Inr (RespondRoute (TrimSuffix path ''/respond''))
      else if CHR ''/'' \<in> set path then Inl (404, ''not found'')
      else Inr (GetDecisionRoute path))"

text \<open>The messages of the decision stream; a client's channel holds 32 of them and is never closed.\<close>

datatype ui_data =
    DecisionNew string string "32 word" string string "string list" "string list" string
  | DecisionConflictData string "string list" "string list"
  | DecisionResolvedData string string "string list"

type_synonym ui_clients = "(string \<times> (string \<times> ui_data) list) list"

definition broadcastSSE :: "string \<Rightarrow> ui_data \<Rightarrow> ui_clients \<Rightarrow> ui_clients" where
  "broadcastSSE name d clients = map (\<lambda>(c, buf). (c, if length buf < 32 then buf @ [(name, d)] else buf)) clients"

definition handleSSEDecisionRequest :: "(int \<Rightarrow> string) \<Rightarrow> ('b \<Rightarrow> 'b HumanDecisionRequestPayload option) \<Rightarrow> 'b event \<Rightarrow> ui_clients \<Rightarrow> ui_clients" where
  "handleSSEDecisionRequest fmt dec event clients =
     (case dec (ev_Payload event) of
        None \<Rightarrow> clients
      | Some p \<Rightarrow> broadcastSSE ''decision.new'' (DecisionNew (hdq_decision_id p) (hdq_workflow_id p) (hdq_step_index p) (hdq_step_name p) (hdq_prompt p)
          (hdq_resource_ids p) (hdq_conflict_ids p) (fmt (ev_Timestamp event))) clients)"

definition handleSSEConflict :: "('b \<Rightarrow> DecisionConflictPayload option) \<Rightarrow> 'b event \<Rightarrow> ui_clients \<Rightarrow> ui_clients" where
  "handleSSEConflict dec event clients =
     (case dec (ev_Payload event) of
        None \<Rightarrow> clients
      | Some p \<Rightarrow> broadcastSSE ''decision.conflict'' (DecisionConflictData (dcp_conflict_group_id p) (dcp_decision_ids p) (dcp_resource_ids p)) clients)"

definition handleSSEResolved :: "('b \<Rightarrow> DecisionResolvedPayload option) \<Rightarrow> 'b event \<Rightarrow> ui_clients \<Rightarrow> ui_clients" where
  "handleSSEResolved dec event clients =
     (case dec (ev_Payload event) of
        None \<Rightarrow> clients
      | Some p \<Rightarrow> broadcastSSE ''decision.resolved'' (DecisionResolvedData (drp_decision_id p) (if drp_action p = ActionReject then ''reject'' else ''approve'')
          (drp_related_decision_ids p)) clients)"

section \<open>Routes\<close>

text \<open>
  A route is registered once: \<open>http.ServeMux\<close> panics on a second registration of a pattern, which is
  \<open>None\<close>. No pattern here has a method or a wildcard, so that only equal ones conflict.
\<close>

definition HandleFunc :: "string \<Rightarrow> string list \<Rightarrow> string list option" where
  "HandleFunc pat mux = (if pat \<in> set mux then None else Some (mux @ [pat]))"

fun RegisterRoutes :: "string list \<Rightarrow> string list \<Rightarrow> string list option" where
  "RegisterRoutes [] mux = Some mux"
| "RegisterRoutes (pat # pats) mux = Option.bind (HandleFunc pat mux) (RegisterRoutes pats)"

definition uiRoutes :: "string list" where
  "uiRoutes = [''/api/decisions/stream'', ''/api/decisions'', ''/api/decisions/'', ''/ui/'']"

definition federationRoutes :: "string list" where
  "federationRoutes = [''/api/federation/nodes'']"

definition replayRoutes :: "string list" where
  "replayRoutes = [''/api/events'', ''/api/events/workflows/'', ''/api/replay/sessions'', ''/api/replay/sessions/'']"

definition scenarioRoutes :: "string list" where
  "scenarioRoutes = [''/api/simulation/inject'', ''/api/simulation/scenarios'', ''/api/simulation/scenarios/'', ''/api/simulation/sessions'', ''/api/simulation/sessions/'']"

definition operatorRoutes :: "string list" where
  "operatorRoutes = [''/api/agents'', ''/api/agents/'', ''/api/workflows'', ''/api/workflows/'', ''/api/capabilities'', ''/api/stats'', ''/api/events/stream'', ''/api/federation/nodes'']"

text \<open>The registrations of \<open>startHealthHTTP\<close> and \<open>startSubsystems\<close> in their order.\<close>

definition runtimeRoutes :: "string list option" where
  "runtimeRoutes = Option.bind (HandleFunc ''/healthz'' []) (\<lambda>m. Option.bind (RegisterRoutes uiRoutes m) (\<lambda>m. Option.bind (RegisterRoutes federationRoutes m)
     (\<lambda>m. Option.bind (RegisterRoutes replayRoutes m) (\<lambda>m. Option.bind (RegisterRoutes scenarioRoutes m) (RegisterRoutes operatorRoutes)))))"

end
