(* ===== verification/EventStore.thy ===== *)
theory EventStore
  imports Streams "HOL-Library.Multiset"
begin

text \<open>
  The event store (\<open>core/simulation/store.go\<close>): reading the history of JetStream streams, for a
  query by time, type, workflow and source, or for one workflow's stream. Shown: over streams in
  time order the pages of a query are the parts of one sorted list that holds exactly the matching
  events; a workflow's stream is read whole; and a timestamp from the future cuts a query short.
\<close>

section \<open>Reading a stream\<close>

record EventQuery =
  eq_StartTime :: int
  eq_EndTime :: "int option"
  eq_EventTypes :: "string list"
  eq_WorkflowID :: string
  eq_SourceAgent :: string
  eq_Limit :: int
  eq_Offset :: int

record 'b StoredEvent =
  so_Event :: "'b event"
  so_Stream :: string
  so_Sequence :: nat

text \<open>
  What the JetStream client answers: a stream or its consumer may be missing, and a consumer delivers
  its messages, each with its stream sequence, in batches, of which any may fail, before or after
  delivering some of its messages; \<open>closed\<close> marks the error of a closed iterator. After the last
  batch a fetch delivers nothing.
\<close>

datatype stream_error = StreamNotFound | StreamError | SliceOutOfRange

datatype 'b fetch = FetchFailed bool | Fetched "('b \<times> nat) list" "bool option"

record 'b jetstream =
  js_stream :: "string \<Rightarrow> stream_error option"
  js_from :: "string \<Rightarrow> int \<Rightarrow> stream_error + 'b fetch list"
  js_all :: "string \<Rightarrow> stream_error + 'b fetch list"

definition decodeMessage :: "'b services \<Rightarrow> string \<Rightarrow> 'b \<times> nat \<Rightarrow> 'b StoredEvent option" where
  "decodeMessage sv streamName msg =
     map_option (\<lambda>event. \<lparr>so_Event = event, so_Stream = streamName, so_Sequence = snd msg\<rparr>) (sv_dec_agent_event sv (fst msg))"

text \<open>The loop over one batch; the flag tells that an event beyond the end was met.\<close>

fun readBatch :: "'b services \<Rightarrow> string \<Rightarrow> int option \<Rightarrow> ('b \<times> nat) list \<Rightarrow> 'b StoredEvent list \<times> bool" where
  "readBatch sv streamName endNano [] = ([], False)"
| "readBatch sv streamName endNano (msg # msgs) =
     (case decodeMessage sv streamName msg of
        None \<Rightarrow> readBatch sv streamName endNano msgs
      | Some stored \<Rightarrow>
          if (case endNano of None \<Rightarrow> False | Some t \<Rightarrow> t < ev_Timestamp (so_Event stored)) then ([], True)
          else (let (rest, over) = readBatch sv streamName endNano msgs in (stored # rest, over)))"

fun fetchUntil :: "'b services \<Rightarrow> string \<Rightarrow> int \<Rightarrow> 'b fetch list \<Rightarrow> 'b StoredEvent list" where
  "fetchUntil sv streamName endNano [] = []"
| "fetchUntil sv streamName endNano (FetchFailed closed # batches) = []"
| "fetchUntil sv streamName endNano (Fetched msgs err # batches) =
     (let (result, over) = readBatch sv streamName (Some endNano) msgs in
      if over then result
      else if err = Some False then result
      else if msgs = [] then result
      else result @ fetchUntil sv streamName endNano batches)"

fun fetchAll :: "'b services \<Rightarrow> string \<Rightarrow> 'b fetch list \<Rightarrow> 'b StoredEvent list" where
  "fetchAll sv streamName [] = []"
| "fetchAll sv streamName (FetchFailed closed # batches) = []"
| "fetchAll sv streamName (Fetched msgs err # batches) =
     (let (result, _) = readBatch sv streamName None msgs in
      if err = Some False then result
      else if msgs = [] then result
      else result @ fetchAll sv streamName batches)"

definition readFromStream :: "'b services \<Rightarrow> 'b jetstream \<Rightarrow> string \<Rightarrow> int \<Rightarrow> int \<Rightarrow> stream_error + 'b StoredEvent list" where
  "readFromStream sv js streamName start endTime =
     (case js_stream js streamName of
        Some err \<Rightarrow> Inl err
      | None \<Rightarrow> (case js_from js streamName start of Inl err \<Rightarrow> Inl err | Inr batches \<Rightarrow> Inr (fetchUntil sv streamName endTime batches)))"

definition GetWorkflowEvents :: "'b services \<Rightarrow> 'b jetstream \<Rightarrow> string \<Rightarrow> stream_error + 'b StoredEvent list" where
  "GetWorkflowEvents sv js workflowID =
     (case js_stream js (''WF-'' @ workflowID) of
        Some err \<Rightarrow> if err = StreamNotFound then Inr [] else Inl err
      | None \<Rightarrow> (case js_all js (''WF-'' @ workflowID) of
          Inl err \<Rightarrow> Inl err
        | Inr batches \<Rightarrow> Inr (fetchAll sv (''WF-'' @ workflowID) batches)))"

section \<open>Queries\<close>

fun streamsFor :: "StreamRegistry \<Rightarrow> string list \<Rightarrow> string list \<Rightarrow> string list" where
  "streamsFor r seen [] = []"
| "streamsFor r seen (et # ets) =
     (case StreamForEventType et r of
        Some name \<Rightarrow> if name \<in> set seen then streamsFor r seen ets else name # streamsFor r (name # seen) ets
      | None \<Rightarrow> streamsFor r seen ets)"

definition resolveStreams :: "StreamRegistry \<Rightarrow> EventQuery \<Rightarrow> string list" where
  "resolveStreams r q =
     (if eq_WorkflowID q \<noteq> [] \<and> eq_EventTypes q = [] then [''WF-'' @ eq_WorkflowID q]
      else if eq_EventTypes q \<noteq> [] then
        (let streams = streamsFor r [] (eq_EventTypes q); wfStream = ''WF-'' @ eq_WorkflowID q
         in if eq_WorkflowID q \<noteq> [] \<and> wfStream \<notin> set streams then streams @ [wfStream] else streams)
      else map st_Name (sr_streams r))"

definition wanted :: "EventQuery \<Rightarrow> 'b event \<Rightarrow> bool" where
  "wanted q e \<longleftrightarrow> (eq_EventTypes q \<noteq> [] \<longrightarrow> ev_Type e \<in> set (eq_EventTypes q)) \<and>
     (eq_WorkflowID q \<noteq> [] \<longrightarrow> ev_WorkflowID e = eq_WorkflowID q) \<and>
     (eq_SourceAgent q \<noteq> [] \<longrightarrow> ev_SourceAgent e = eq_SourceAgent q)"

definition filterEvents :: "EventQuery \<Rightarrow> 'b StoredEvent list \<Rightarrow> 'b StoredEvent list" where
  "filterEvents q events =
     (if eq_EventTypes q = [] \<and> eq_WorkflowID q = [] \<and> eq_SourceAgent q = [] then events
      else filter (\<lambda>e. wanted q (so_Event e)) events)"

fun readStreams :: "'b services \<Rightarrow> 'b jetstream \<Rightarrow> int \<Rightarrow> int \<Rightarrow> string list \<Rightarrow> stream_error + 'b StoredEvent list" where
  "readStreams sv js start endTime [] = Inr []"
| "readStreams sv js start endTime (name # names) =
     (case readFromStream sv js name start endTime of
        Inl err \<Rightarrow> if err = StreamNotFound then readStreams sv js start endTime names else Inl err
      | Inr events \<Rightarrow>
          (case readStreams sv js start endTime names of Inl err \<Rightarrow> Inl err | Inr rest \<Rightarrow> Inr (events @ rest)))"

text \<open>
  The order \<open>sort.Slice\<close> gives to events with the same timestamp is not specified, so the sorting
  function is a parameter; \<open>sorts\<close> is what its documentation promises. The end of the query has
  been set to the current time where it was left open. A negative offset, where Go panics, is the
  error \<open>SliceOutOfRange\<close>.
\<close>

definition sorts :: "('b StoredEvent list \<Rightarrow> 'b StoredEvent list) \<Rightarrow> bool" where
  "sorts srt \<longleftrightarrow> (\<forall>xs. mset (srt xs) = mset xs \<and> sorted (map (\<lambda>s. ev_Timestamp (so_Event s)) (srt xs)))"

definition page :: "int \<Rightarrow> int \<Rightarrow> 'a list \<Rightarrow> 'a list" where
  "page offset limit xs = (if int (length xs) \<le> offset then []
     else (let rest = drop (nat offset) xs in if limit < int (length rest) then take (nat limit) rest else rest))"

definition store_Query :: "'b services \<Rightarrow> 'b jetstream \<Rightarrow> ('b StoredEvent list \<Rightarrow> 'b StoredEvent list) \<Rightarrow> StreamRegistry \<Rightarrow>
    EventQuery \<Rightarrow> int \<Rightarrow> stream_error + 'b StoredEvent list" where
  "store_Query sv js srt r q now =
     (let endTime = (case eq_EndTime q of None \<Rightarrow> now | Some t \<Rightarrow> t);
          limit = (if eq_Limit q \<le> 0 then 1000 else eq_Limit q);
          streams = resolveStreams r q
      in if streams = [] then Inr []
         else case readStreams sv js (eq_StartTime q) endTime streams of
                Inl err \<Rightarrow> Inl err
              | Inr all \<Rightarrow> if eq_Offset q < 0 then Inl SliceOutOfRange
                  else Inr (page (eq_Offset q) limit (srt (filterEvents q all))))"

section \<open>What a query finds\<close>

lemma filterEvents_wanted: "filterEvents q xs = filter (\<lambda>e. wanted q (so_Event e)) xs"
  by (simp add: filterEvents_def wanted_def)

lemma paging_only:
  "resolveStreams r (q\<lparr>eq_Offset := x, eq_Limit := y\<rparr>) = resolveStreams r q"
  "filterEvents (q\<lparr>eq_Offset := x, eq_Limit := y\<rparr>) xs = filterEvents q xs"
  by (simp_all add: resolveStreams_def filterEvents_def wanted_def)

lemma page_set: "0 \<le> offset \<Longrightarrow> page offset limit xs = take (nat limit) (drop (nat offset) xs)" if "0 < limit"
  using that by (auto simp: page_def Let_def)

lemma page_append:
  assumes "0 \<le> o1" and "0 < a" and "0 < b"
  shows "page o1 a xs @ page (o1 + a) b xs = page o1 (a + b) xs"
proof -
  have "nat (o1 + a) = nat o1 + nat a" "nat (a + b) = nat a + nat b" using assms by auto
  then show ?thesis using assms by (simp add: page_set take_add drop_drop add.commute)
qed

text \<open>The events of a stream, as far as they can be decoded.\<close>

definition delivered :: "'b services \<Rightarrow> string \<Rightarrow> 'b fetch list \<Rightarrow> 'b StoredEvent list" where
  "delivered sv name batches = List.map_filter (decodeMessage sv name) (concat (map (\<lambda>f. case f of Fetched msgs _ \<Rightarrow> msgs | _ \<Rightarrow> []) batches))"

definition clean :: "'b fetch list \<Rightarrow> bool" where
  "clean batches \<longleftrightarrow> (\<forall>f\<in>set batches. \<exists>msgs. f = Fetched msgs None \<and> msgs \<noteq> [])"

definition in_time_order :: "'b StoredEvent list \<Rightarrow> bool" where
  "in_time_order xs \<longleftrightarrow> sorted (map (\<lambda>s. ev_Timestamp (so_Event s)) xs)"

lemma readBatch_prefix:
  "readBatch sv name (Some t) msgs =
     (let xs = List.map_filter (decodeMessage sv name) msgs in
      (takeWhile (\<lambda>s. ev_Timestamp (so_Event s) \<le> t) xs, \<exists>s\<in>set xs. t < ev_Timestamp (so_Event s)))"
  by (induction msgs) (auto simp: List.map_filter_simps Let_def split: option.split)

lemma sorted_takeWhile_filter: "sorted (map f xs) \<Longrightarrow> takeWhile (\<lambda>x. f x \<le> t) xs = filter (\<lambda>x. f x \<le> t) xs"
  for f :: "'a \<Rightarrow> int"
proof (induction xs)
  case (Cons x xs)
  then have "\<not> f x \<le> t \<Longrightarrow> filter (\<lambda>x. f x \<le> t) xs = []" by (fastforce simp: filter_empty_conv)
  then show ?case using Cons by auto
qed simp

lemma delivered_Cons: "delivered sv name (Fetched msgs err # batches) = List.map_filter (decodeMessage sv name) msgs @ delivered sv name batches"
  by (simp add: delivered_def map_filter_def)

lemma fetchUntil_clean:
  assumes "clean batches"
  shows "fetchUntil sv name t batches = takeWhile (\<lambda>s. ev_Timestamp (so_Event s) \<le> t) (delivered sv name batches)"
  using assms
proof (induction batches)
  case Nil
  then show ?case by (simp add: delivered_def)
next
  case (Cons f batches)
  then obtain msgs where f: "f = Fetched msgs None" "msgs \<noteq> []" by (auto simp: clean_def)
  let ?xs = "List.map_filter (decodeMessage sv name) msgs"
  have ih: "fetchUntil sv name t batches = takeWhile (\<lambda>s. ev_Timestamp (so_Event s) \<le> t) (delivered sv name batches)"
    using Cons by (simp add: clean_def)
  show ?case
  proof (cases "\<exists>s\<in>set ?xs. t < ev_Timestamp (so_Event s)")
    case True
    then have "takeWhile (\<lambda>s. ev_Timestamp (so_Event s) \<le> t) (?xs @ ys) = takeWhile (\<lambda>s. ev_Timestamp (so_Event s) \<le> t) ?xs" for ys
      by (metis linorder_not_less takeWhile_append1)
    then show ?thesis using True f by (simp add: readBatch_prefix delivered_Cons Let_def)
  next
    case False
    then have "\<forall>s\<in>set ?xs. ev_Timestamp (so_Event s) \<le> t" by auto
    moreover from this have "takeWhile (\<lambda>s. ev_Timestamp (so_Event s) \<le> t) ?xs = ?xs" by (simp add: takeWhile_eq_all_conv)
    moreover have "takeWhile (\<lambda>s. ev_Timestamp (so_Event s) \<le> t) (?xs @ ys) = ?xs @ takeWhile (\<lambda>s. ev_Timestamp (so_Event s) \<le> t) ys" for ys
      by (rule takeWhile_append2) (use False in auto)
    ultimately show ?thesis using False f ih by (simp add: readBatch_prefix delivered_Cons Let_def)
  qed
qed

lemma fetchUntil_ordered:
  assumes "clean batches" and "in_time_order (delivered sv name batches)"
  shows "fetchUntil sv name t batches = filter (\<lambda>s. ev_Timestamp (so_Event s) \<le> t) (delivered sv name batches)"
  using assms by (simp add: fetchUntil_clean sorted_takeWhile_filter in_time_order_def)

text \<open>A workflow's whole stream is read, whatever its timestamps.\<close>

lemma readBatch_all: "fst (readBatch sv name None msgs) = List.map_filter (decodeMessage sv name) msgs"
  by (induction msgs) (auto simp: List.map_filter_simps split: option.split prod.split)

lemma fetchAll_clean: "clean batches \<Longrightarrow> fetchAll sv name batches = delivered sv name batches"
proof (induction batches)
  case (Cons f batches)
  then obtain msgs where "f = Fetched msgs None" "msgs \<noteq> []" by (auto simp: clean_def)
  moreover have "fetchAll sv name batches = delivered sv name batches" using Cons by (simp add: clean_def)
  ultimately show ?case using readBatch_all [of sv name msgs] by (auto simp: delivered_Cons split: prod.split)
qed (simp add: delivered_def)

lemma readStreams_exact:
  assumes "\<forall>name\<in>set names. \<exists>batches. js_stream js name = None \<and> js_from js name start = Inr batches \<and> clean batches \<and> in_time_order (delivered sv name batches)"
  shows "readStreams sv js start t names = Inr (concat (map (\<lambda>name. filter (\<lambda>s. ev_Timestamp (so_Event s) \<le> t)
      (case js_from js name start of Inr batches \<Rightarrow> delivered sv name batches)) names))"
  using assms
proof (induction names)
  case (Cons name names)
  then obtain batches where b: "js_stream js name = None" "js_from js name start = Inr batches" "clean batches"
    "in_time_order (delivered sv name batches)" by auto
  then show ?case using Cons fetchUntil_ordered [OF b(3,4), of t] by (simp add: readFromStream_def)
qed simp

text \<open>
  C16. A query finds exactly the events asked for, page by page: over streams that deliver their
  events in time order and without failure, the pages of a query are consecutive parts of one list,
  ordered by time, that holds every decodable event of the streams the query resolves to which
  matches its filters and is not younger than its end, as often as it is stored.
\<close>

theorem query_pages_exact:
  assumes "sorts srt" and "resolveStreams r q \<noteq> []" and "0 \<le> o1" and "0 < a" and "0 < b"
    and "\<forall>name\<in>set (resolveStreams r q). \<exists>batches. js_stream js name = None \<and>
      js_from js name (eq_StartTime q) = Inr batches \<and> clean batches \<and>
      in_time_order (delivered sv name batches)"
  shows "\<exists>all. sorted (map (\<lambda>s. ev_Timestamp (so_Event s)) all) \<and>
    mset all = mset (filter (\<lambda>s. wanted q (so_Event s) \<and> ev_Timestamp (so_Event s) \<le> (case eq_EndTime q of None \<Rightarrow> now | Some t \<Rightarrow> t))
      (concat (map (\<lambda>name. case js_from js name (eq_StartTime q) of Inr batches \<Rightarrow> delivered sv name batches) (resolveStreams r q)))) \<and>
    store_Query sv js srt r (q\<lparr>eq_Offset := o1, eq_Limit := a\<rparr>) now = Inr (take (nat a) (drop (nat o1) all)) \<and>
    (case (store_Query sv js srt r (q\<lparr>eq_Offset := o1, eq_Limit := a\<rparr>) now, store_Query sv js srt r (q\<lparr>eq_Offset := o1 + a, eq_Limit := b\<rparr>) now) of
       (Inr p1, Inr p2) \<Rightarrow> store_Query sv js srt r (q\<lparr>eq_Offset := o1, eq_Limit := a + b\<rparr>) now = Inr (p1 @ p2) | _ \<Rightarrow> False)"
proof -
  let ?t = "case eq_EndTime q of None \<Rightarrow> now | Some t \<Rightarrow> t"
  let ?read = "concat (map (\<lambda>name. filter (\<lambda>s. ev_Timestamp (so_Event s) \<le> ?t)
      (case js_from js name (eq_StartTime q) of Inr batches \<Rightarrow> delivered sv name batches)) (resolveStreams r q))"
  let ?all = "srt (filterEvents q ?read)"
  have run: "store_Query sv js srt r (q\<lparr>eq_Offset := x, eq_Limit := y\<rparr>) now = Inr (page x y ?all)" if "0 \<le> x" "0 < y" for x y
    using that assms(2) readStreams_exact [OF assms(6), of ?t] by (simp add: store_Query_def paging_only)
  have "mset ?all = mset (filterEvents q ?read)" "sorted (map (\<lambda>s. ev_Timestamp (so_Event s)) ?all)" using assms(1) by (simp_all add: sorts_def)
  moreover have "filterEvents q ?read = filter (\<lambda>s. wanted q (so_Event s) \<and> ev_Timestamp (so_Event s) \<le> ?t)
      (concat (map (\<lambda>name. case js_from js name (eq_StartTime q) of Inr batches \<Rightarrow> delivered sv name batches) (resolveStreams r q)))"
    by (simp add: filterEvents_wanted filter_concat comp_def conj_commute)
  ultimately show ?thesis using run [of o1 a] run [of "o1 + a" b] run [of o1 "a + b"] assms(3-5) page_append [OF assms(3-5), of ?all]
    by (intro exI [of _ ?all]) (simp add: page_set)
qed

text \<open>
  A clock that runs ahead hides history: a stream is read only up to the first event whose timestamp
  lies beyond the end of the query, so what was stored after such an event is not found even when
  its own timestamp is within the query.
\<close>

lemma skewed_event_hides_rest:
  assumes "js_from js name start = Inr batches" and "clean batches" and "delivered sv name batches = early @ skewed # rest"
    and "js_stream js name = None" and "t < ev_Timestamp (so_Event skewed)" and "e \<in> set rest" and "e \<notin> set early"
  shows "\<exists>found. readFromStream sv js name start t = Inr found \<and> e \<notin> set found"
proof -
  have "fetchUntil sv name t batches = takeWhile (\<lambda>s. ev_Timestamp (so_Event s) \<le> t) early"
    using fetchUntil_clean [OF assms(2)] assms(3,5) by (simp add: takeWhile_tail)
  then show ?thesis using assms(1,4,7) by (auto simp: readFromStream_def dest: set_takeWhileD)
qed

text \<open>A stream of three events, of which the second has a timestamp from the future.\<close>

definition ex_stored :: "int \<Rightarrow> int event" where
  "ex_stored t = (zero_event t)\<lparr>ev_Type := ''agent.error'', ev_Timestamp := t\<rparr>"

definition ex_codec :: "int services" where
  "ex_codec = (null_services 0)\<lparr>sv_dec_agent_event := \<lambda>d. Some (ex_stored d)\<rparr>"

definition ex_js :: "int list \<Rightarrow> int jetstream" where
  "ex_js ts = \<lparr>js_stream = \<lambda>_. None, js_from = \<lambda>_ _. Inr [Fetched (map (\<lambda>t. (t, 0)) ts) None], js_all = \<lambda>_. Inl StreamNotFound\<rparr>"

definition ex_query :: EventQuery where
  "ex_query = \<lparr>eq_StartTime = 0, eq_EndTime = Some 5, eq_EventTypes = [''agent.error''], eq_WorkflowID = [], eq_SourceAgent = [], eq_Limit = 0, eq_Offset = 0\<rparr>"

lemma ex_delivered: "delivered ex_codec name [Fetched (map (\<lambda>t. (t, 0)) ts) None] = map (\<lambda>t. \<lparr>so_Event = ex_stored t, so_Stream = name, so_Sequence = 0\<rparr>) ts"
  by (induction ts) (simp_all add: delivered_def map_filter_def decodeMessage_def ex_codec_def)

lemma ex_clean: "ts \<noteq> [] \<Longrightarrow> clean [Fetched (map (\<lambda>t. (t, 0)) ts) None]"
  by (simp add: clean_def)

lemma skewed_event_hides_rest_witness:
  "\<exists>found. readFromStream ex_codec (ex_js [1, 9, 2]) ''AGENTS'' 0 5 = Inr found \<and> \<lparr>so_Event = ex_stored 2, so_Stream = ''AGENTS'', so_Sequence = 0\<rparr> \<notin> set found"
proof -
  let ?s = "\<lambda>t. \<lparr>so_Event = ex_stored t, so_Stream = ''AGENTS'', so_Sequence = 0\<rparr>"
  have d: "delivered ex_codec ''AGENTS'' [Fetched (map (\<lambda>t. (t, 0)) [1, 9, 2]) None] = [?s 1] @ ?s 9 # [?s 2]"
    unfolding ex_delivered by simp
  show ?thesis
    by (rule skewed_event_hides_rest [OF _ _ d]) (simp_all add: ex_js_def ex_stored_def zero_event_def clean_def)
qed

lemma insort_sorts: "sorts (sort_key (\<lambda>s. ev_Timestamp (so_Event s)))"
  by (simp add: sorts_def)

theorem query_pages_exact_witness:
  "store_Query ex_codec (ex_js [1, 2, 9]) (sort_key (\<lambda>s. ev_Timestamp (so_Event s))) DefaultStreamRegistry (ex_query\<lparr>eq_Offset := 0, eq_Limit := 1 + 1\<rparr>) 0 =
     Inr [\<lparr>so_Event = ex_stored 1, so_Stream = ''AGENTS'', so_Sequence = 0\<rparr>, \<lparr>so_Event = ex_stored 2, so_Stream = ''AGENTS'', so_Sequence = 0\<rparr>]"
proof -
  let ?srt = "sort_key (\<lambda>s :: int StoredEvent. ev_Timestamp (so_Event s))"
  have r: "resolveStreams DefaultStreamRegistry ex_query = [''AGENTS'']" by code_simp
  have o1: "in_time_order (delivered ex_codec ''AGENTS'' [Fetched (map (\<lambda>t. (t, 0)) [1, 2, 9]) None])"
    unfolding ex_delivered by (simp add: in_time_order_def ex_stored_def)
  have s: "\<forall>name\<in>set (resolveStreams DefaultStreamRegistry ex_query). \<exists>batches. js_stream (ex_js [1, 2, 9]) name = None \<and> js_from (ex_js [1, 2, 9]) name (eq_StartTime ex_query) = Inr batches \<and>
      clean batches \<and> in_time_order (delivered ex_codec name batches)"
    using o1 ex_clean [of "[1, 2, 9]"] by (simp add: r ex_js_def)
  let ?s = "\<lambda>t. \<lparr>so_Event = ex_stored t, so_Stream = ''AGENTS'', so_Sequence = 0\<rparr>"
  have read: "readStreams ex_codec (ex_js [1, 2, 9]) 0 5 [''AGENTS''] = Inr [?s 1, ?s 2]"
    by (simp add: readFromStream_def ex_js_def ex_codec_def decodeMessage_def ex_stored_def zero_event_def)
  have q: "resolveStreams DefaultStreamRegistry (ex_query\<lparr>eq_Offset := x, eq_Limit := y\<rparr>) = [''AGENTS'']" for x y
    using r by (simp add: paging_only)
  have f: "filterEvents (ex_query\<lparr>eq_Offset := x, eq_Limit := y\<rparr>) [?s 1, ?s 2] = [?s 1, ?s 2]" for x y
    unfolding paging_only by (simp add: filterEvents_def wanted_def ex_query_def ex_stored_def zero_event_def)
  have e: "eq_StartTime ex_query = 0" "eq_EndTime ex_query = Some 5" "\<And>t. ev_Timestamp (ex_stored t) = t"
    by (simp_all add: ex_query_def ex_stored_def)
  have p: "store_Query ex_codec (ex_js [1, 2, 9]) ?srt DefaultStreamRegistry (ex_query\<lparr>eq_Offset := x, eq_Limit := 1\<rparr>) 0 =
      Inr (page x 1 [?s 1, ?s 2])" if "0 \<le> x" for x
    using read q [of 1 x] f [of 1 x] that by (simp add: store_Query_def e Let_def)
  have "resolveStreams DefaultStreamRegistry ex_query \<noteq> []" "(0::int) \<le> 0" "(0::int) < 1" by (simp_all add: r)
  from query_pages_exact [OF insort_sorts this(1,2,3,3) s, of 0] p [of 0] p [of 1] show ?thesis by (auto simp: page_def)
qed

end
