(* ===== verification/Simulation.thy ===== *)
theory Simulation
  imports EventStore Watchers Complex_Main
begin

text \<open>
  The injector of synthetic events (\<open>core/simulation/inject.go\<close>) and what the simulation engines
  share: their environment, the coordination messages, and the messages JetStream has accepted.
  Shown: a synthetic event keeps what the request gave, carries the marks of a synthetic event
  whatever its metadata said, and goes to the \<open>SIMULATION\<close> stream only.
\<close>

section \<open>Environment\<close>

text \<open>
  The coordination messages of the simulation engines. A speed is a finite \<open>float64\<close>, hence a
  rational number.
\<close>

datatype sim_message =
    SimulationReplayStart string string rat "32 word"
  | SimulationReplayStop string string "32 word"
  | SimulationReplayComplete string "32 word" int
  | SimulationStart string string "32 word"
  | SimulationInjectEvent string "32 word" string
  | SimulationStop string string "32 word" int string

text \<open>
  The environment of the engines: the services of the runtime, the reading side of JetStream, what
  \<open>PublishMsg\<close> answers (an error, or the stream and sequence), the encoding of coordination
  messages, the text of an encoding error, and what the platform makes of a \<open>float64\<close> that does not
  fit an \<open>int64\<close>, which Go leaves to the implementation.
\<close>

record 'b sim_env =
  sm_services :: "'b services"
  sm_js :: "'b jetstream"
  sm_nodeID :: string
  sm_publish :: "nat \<Rightarrow> string \<Rightarrow> string \<Rightarrow> 'b \<Rightarrow> string + string \<times> nat"
  sm_marshal :: "sim_message \<Rightarrow> 'b option"
  sm_encerr :: string
  sm_overflow :: int

text \<open>A message JetStream has accepted: its subject, its \<open>Nats-Msg-Id\<close> and its data.\<close>

type_synonym 'b js_msg = "string \<times> string \<times> 'b"

record 'b sim =
  si_world :: "'b world"
  si_published :: "'b js_msg list"

definition PublishMsg :: "'b sim_env \<Rightarrow> string \<Rightarrow> string \<Rightarrow> 'b \<Rightarrow> 'b sim \<Rightarrow> (string + string \<times> nat) \<times> 'b sim" where
  "PublishMsg env subject msgID data m =
     (let w = si_world m; m1 = m\<lparr>si_world := w\<lparr>w_attempts := Suc (w_attempts w)\<rparr>\<rparr> in
      case sm_publish env (w_attempts w) subject msgID data of
        Inl err \<Rightarrow> (Inl err, m1)
      | Inr ack \<Rightarrow> (Inr ack, m1\<lparr>si_published := si_published m @ [(subject, msgID, data)]\<rparr>))"

definition sim_uuid :: "'b sim_env \<Rightarrow> 'b sim \<Rightarrow> string \<times> 'b sim" where
  "sim_uuid env m = (let (uid, w) = new_uuid (sm_services env) (si_world m) in (uid, m\<lparr>si_world := w\<rparr>))"

definition sim_now :: "'b sim_env \<Rightarrow> 'b sim \<Rightarrow> int \<times> 'b sim" where
  "sim_now env m = (let (t, w) = time_now (sm_services env) (si_world m) in (t, m\<lparr>si_world := w\<rparr>))"

text \<open>
  The coordination event of an engine: the payload is encoded first, and the event is published on
  the bus. The engines ignore the error.
\<close>

definition coordinate :: "'b sim_env \<Rightarrow> string \<Rightarrow> string \<Rightarrow> string \<Rightarrow> sim_message \<Rightarrow> 'b sim \<Rightarrow> bool \<times> 'b sim" where
  "coordinate env eventType workflowID sessionID payload m =
     (case sm_marshal env payload of
        None \<Rightarrow> (False, m)
      | Some data \<Rightarrow>
          (let (uid, m1) = sim_uuid env m; (ts, m2) = sim_now env m1;
               (ok, w) = bus_publish (sm_services env) ((zero_event data)\<lparr>ev_ID := uid, ev_Type := eventType, ev_SourceNode := sm_nodeID env,
                 ev_WorkflowID := workflowID, ev_Timestamp := ts, ev_Metadata := [''simulation.session_id'' \<mapsto> sessionID]\<rparr>) (si_world m2)
           in (ok, m2\<lparr>si_world := w\<rparr>)))"

text \<open>The \<open>%d\<close> verb on a signed number.\<close>

definition fmt_d :: "int \<Rightarrow> string" where
  "fmt_d n = (if n < 0 then ''-'' @ Itoa (nat (- n)) else Itoa (nat n))"

section \<open>Injection\<close>

definition syntheticSubject :: string where
  "syntheticSubject = ''simulation.synthetic.event''"

record 'b InjectRequest =
  ir_EventType :: string
  ir_SourceAgent :: string
  ir_TargetAgent :: string
  ir_WorkflowID :: string
  ir_CorrelationID :: string
  ir_PayloadJSON :: 'b
  ir_Metadata :: labels

record InjectResult =
  in_EventID :: string
  in_Stream :: string
  in_Sequence :: nat

definition synthetic_meta :: "labels \<Rightarrow> string \<Rightarrow> string \<Rightarrow> labels" where
  "synthetic_meta md sessionID scenarioName =
     (let m1 = md(''simulation.synthetic'' \<mapsto> ''true'');
          m2 = (if sessionID \<noteq> [] then m1(''simulation.session_id'' \<mapsto> sessionID) else m1)
      in if scenarioName \<noteq> [] then m2(''simulation.scenario_name'' \<mapsto> scenarioName) else m2)"

definition synthetic_event :: "'b sim_env \<Rightarrow> 'b InjectRequest \<Rightarrow> string \<Rightarrow> string \<Rightarrow> string \<Rightarrow> int \<Rightarrow> 'b event" where
  "synthetic_event env req sessionID scenarioName eventID ts =
     \<lparr>ev_ID = eventID, ev_Type = ir_EventType req, ev_SourceNode = sm_nodeID env, ev_SourceAgent = ir_SourceAgent req,
      ev_TargetAgent = ir_TargetAgent req, ev_WorkflowID = ir_WorkflowID req, ev_CorrelationID = ir_CorrelationID req,
      ev_Timestamp = ts, ev_Metadata = synthetic_meta (ir_Metadata req) sessionID scenarioName, ev_Payload = ir_PayloadJSON req\<rparr>"

definition Inject :: "'b sim_env \<Rightarrow> 'b InjectRequest \<Rightarrow> string \<Rightarrow> string \<Rightarrow> 'b sim \<Rightarrow> (string + InjectResult) \<times> 'b sim" where
  "Inject env req sessionID scenarioName m =
     (if ir_EventType req = [] then (Inl ''event_type is required'', m)
      else
        (let (eventID, m1) = sim_uuid env m; (ts, m2) = sim_now env m1 in
         case sv_marshal (sm_services env) (MAgentEvent (synthetic_event env req sessionID scenarioName eventID ts)) of
           None \<Rightarrow> (Inl (''marshal synthetic event: '' @ sm_encerr env), m2)
         | Some data \<Rightarrow>
             (case PublishMsg env syntheticSubject eventID data m2 of
                (Inl err, m3) \<Rightarrow> (Inl (''publish synthetic event: '' @ err), m3)
              | (Inr (stream, sequence), m3) \<Rightarrow> (Inr \<lparr>in_EventID = eventID, in_Stream = stream, in_Sequence = sequence\<rparr>, m3))))"

definition PublishCoordination :: "'b sim_env \<Rightarrow> string \<Rightarrow> string \<Rightarrow> sim_message \<Rightarrow> 'b sim \<Rightarrow> bool \<times> 'b sim" where
  "PublishCoordination env eventType sessionID payload m = coordinate env eventType [] sessionID payload m"

section \<open>What the environment leaves of the state\<close>

lemma sim_uuid_sim [simp]: "si_published (snd (sim_uuid env m)) = si_published m"
  "fst (sim_uuid env m) = sv_uuid (sm_services env) (w_uuids (si_world m))"
  "w_uuids (si_world (snd (sim_uuid env m))) = Suc (w_uuids (si_world m))"
  by (simp_all add: sim_uuid_def new_uuid_def)

lemma sim_now_sim [simp]: "si_published (snd (sim_now env m)) = si_published m"
  "w_uuids (si_world (snd (sim_now env m))) = w_uuids (si_world m)"
  by (simp_all add: sim_now_def time_now_def)

lemma coordinate_sim: "coordinate env t wid sid p m = (ok, m') \<Longrightarrow> si_published m' = si_published m \<and> w_uuids (si_world m) \<le> w_uuids (si_world m')"
  by (auto simp: coordinate_def sim_uuid_def new_uuid_def sim_now_def time_now_def bus_publish_def Let_def split: option.splits prod.splits if_splits)

lemma PublishMsg_sim:
  assumes "PublishMsg env subject mid data m = (res, m')"
  shows "w_uuids (si_world m') = w_uuids (si_world m) \<and> si_published m' = si_published m @ (case res of Inl _ \<Rightarrow> [] | Inr _ \<Rightarrow> [(subject, mid, data)])"
  using assms by (auto simp: PublishMsg_def Let_def split: sum.splits)

text \<open>The codec reads back what it has written.\<close>

definition codec_ok :: "'b sim_env \<Rightarrow> bool" where
  "codec_ok env \<longleftrightarrow> (\<forall>e data. sv_marshal (sm_services env) (MAgentEvent e) = Some data \<longrightarrow> sv_dec_agent_event (sm_services env) data = Some e)"

text \<open>An accepted injection publishes one message, from which the synthetic event is decoded.\<close>

lemma Inject_sim:
  assumes "Inject env req sid name m = (res, m')"
  shows "w_uuids (si_world m) \<le> w_uuids (si_world m') \<and>
    (case res of Inl err \<Rightarrow> si_published m' = si_published m
     | Inr r \<Rightarrow> ir_EventType req \<noteq> [] \<and> (\<exists>data ts. sv_marshal (sm_services env) (MAgentEvent (synthetic_event env req sid name (in_EventID r) ts)) = Some data \<and>
         si_published m' = si_published m @ [(syntheticSubject, in_EventID r, data)]))"
  using assms
  by (auto simp: Inject_def sim_uuid_def new_uuid_def sim_now_def time_now_def Let_def split: if_splits option.splits prod.splits sum.splits dest!: PublishMsg_sim)

lemma simulation_subjects:
  "StreamForEventType syntheticSubject DefaultStreamRegistry = Some ''SIMULATION''"
  by code_simp

text \<open>
  An accepted injection adds exactly one message, on a subject of the \<open>SIMULATION\<close> stream and
  under its event ID; decoded, it is an event of this node with the type, agents, workflow,
  correlation and payload of the request, marked as synthetic and with the session and scenario it
  was injected for even when the request's own metadata claims otherwise.
\<close>

theorem injected_event_marked:
  assumes "codec_ok env" and "Inject env req sessionID scenarioName m = (Inr r, m')"
  shows "\<exists>data e. si_published m' = si_published m @ [(syntheticSubject, in_EventID r, data)] \<and>
    StreamForEventType syntheticSubject DefaultStreamRegistry = Some ''SIMULATION'' \<and>
    sv_dec_agent_event (sm_services env) data = Some e \<and> ev_ID e = in_EventID r \<and> ev_SourceNode e = sm_nodeID env \<and>
    ev_Type e = ir_EventType req \<and> ev_Type e \<noteq> [] \<and> ev_SourceAgent e = ir_SourceAgent req \<and> ev_TargetAgent e = ir_TargetAgent req \<and>
    ev_WorkflowID e = ir_WorkflowID req \<and> ev_CorrelationID e = ir_CorrelationID req \<and> ev_Payload e = ir_PayloadJSON req \<and>
    ev_Metadata e ''simulation.synthetic'' = Some ''true'' \<and>
    ev_Metadata e ''simulation.session_id'' = (if sessionID = [] then ir_Metadata req ''simulation.session_id'' else Some sessionID) \<and>
    ev_Metadata e ''simulation.scenario_name'' = (if scenarioName = [] then ir_Metadata req ''simulation.scenario_name'' else Some scenarioName) \<and>
    ev_Metadata e |` (- {''simulation.synthetic'', ''simulation.session_id'', ''simulation.scenario_name''}) =
      ir_Metadata req |` (- {''simulation.synthetic'', ''simulation.session_id'', ''simulation.scenario_name''})"
proof -
  from Inject_sim [OF assms(2)] obtain data ts where d: "ir_EventType req \<noteq> []"
    "sv_marshal (sm_services env) (MAgentEvent (synthetic_event env req sessionID scenarioName (in_EventID r) ts)) = Some data"
    "si_published m' = si_published m @ [(syntheticSubject, in_EventID r, data)]" by auto
  let ?e = "synthetic_event env req sessionID scenarioName (in_EventID r) ts"
  have "sv_dec_agent_event (sm_services env) data = Some ?e" using assms(1) d(2) by (simp add: codec_ok_def)
  moreover have "ev_Metadata ?e |` (- {''simulation.synthetic'', ''simulation.session_id'', ''simulation.scenario_name''}) =
      ir_Metadata req |` (- {''simulation.synthetic'', ''simulation.session_id'', ''simulation.scenario_name''})"
    by (auto simp: synthetic_event_def synthetic_meta_def Let_def restrict_map_def)
  ultimately show ?thesis using d(1,3) simulation_subjects
    by (intro exI [of _ data] exI [of _ ?e]) (simp add: synthetic_event_def synthetic_meta_def Let_def)
qed

section \<open>An environment\<close>

text \<open>A codec that works, and a JetStream that accepts everything and holds one event of workflow \<open>w\<close>.\<close>

datatype blob = Raw nat | Enc string string string string string string string int labels blob

fun enc_message :: "blob message \<Rightarrow> blob option" where
  "enc_message (MAgentEvent e) = Some (Enc (ev_ID e) (ev_Type e) (ev_SourceNode e) (ev_SourceAgent e) (ev_TargetAgent e) (ev_WorkflowID e)
     (ev_CorrelationID e) (ev_Timestamp e) (ev_Metadata e) (ev_Payload e))"
| "enc_message _ = Some (Raw 0)"

fun dec_event :: "blob \<Rightarrow> blob event option" where
  "dec_event (Enc i t n sa ta wid c ts md p) = Some \<lparr>ev_ID = i, ev_Type = t, ev_SourceNode = n, ev_SourceAgent = sa, ev_TargetAgent = ta,
     ev_WorkflowID = wid, ev_CorrelationID = c, ev_Timestamp = ts, ev_Metadata = md, ev_Payload = p\<rparr>"
| "dec_event (Raw _) = None"

definition ex_event :: blob where
  "ex_event = Enc ''e'' ''agent.error'' ''n'' ''a'' [] ''w'' [] 7 Map.empty (Raw 1)"

definition ex_sim :: "blob sim_env" where
  "ex_sim = \<lparr>sm_services = (null_services (Raw 0))\<lparr>sv_marshal := enc_message, sv_dec_agent_event := dec_event\<rparr>,
     sm_js = \<lparr>js_stream = \<lambda>_. None, js_from = \<lambda>_ _. Inr [], js_all = \<lambda>_. Inr [Fetched [(ex_event, 1)] None]\<rparr>,
     sm_nodeID = ''node'', sm_publish = \<lambda>n _ _ _. Inr (''SIMULATION'', n), sm_marshal = \<lambda>_. Some (Raw 0), sm_encerr = [], sm_overflow = - (2 ^ 63)\<rparr>"

lemma ex_sim_codec: "codec_ok ex_sim"
  by (auto simp: codec_ok_def ex_sim_def)

lemma ex_sim_uuid: "inj (sv_uuid (sm_services ex_sim))"
  by (rule injI) (auto simp: ex_sim_def null_services_def dest: arg_cong [where f = length])

theorem injected_event_marked_witness:
  "\<exists>m'. Inject ex_sim \<lparr>ir_EventType = ''t'', ir_SourceAgent = [], ir_TargetAgent = [], ir_WorkflowID = [], ir_CorrelationID = [], ir_PayloadJSON = Raw 3,
      ir_Metadata = [''simulation.synthetic'' \<mapsto> ''false'']\<rparr> ''s'' [] \<lparr>si_world = empty_world, si_published = []\<rparr> =
      (Inr \<lparr>in_EventID = ''u'', in_Stream = ''SIMULATION'', in_Sequence = 0\<rparr>, m') \<and>
    (\<exists>data e. si_published m' = [(syntheticSubject, ''u'', data)] \<and> sv_dec_agent_event (sm_services ex_sim) data = Some e \<and>
      ev_Metadata e ''simulation.synthetic'' = Some ''true'')"
proof -
  let ?req = "\<lparr>ir_EventType = ''t'', ir_SourceAgent = [], ir_TargetAgent = [], ir_WorkflowID = [], ir_CorrelationID = [], ir_PayloadJSON = Raw 3,
      ir_Metadata = [''simulation.synthetic'' \<mapsto> ''false'']\<rparr>"
  let ?m = "\<lparr>si_world = empty_world, si_published = []\<rparr> :: blob sim"
  have r: "fst (Inject ex_sim ?req ''s'' [] ?m) = Inr \<lparr>in_EventID = ''u'', in_Stream = ''SIMULATION'', in_Sequence = 0\<rparr>"
    by (simp add: Inject_def sim_uuid_def sim_now_def new_uuid_def time_now_def PublishMsg_def ex_sim_def null_services_def empty_world_def Let_def)
  then obtain m' where i: "Inject ex_sim ?req ''s'' [] ?m = (Inr \<lparr>in_EventID = ''u'', in_Stream = ''SIMULATION'', in_Sequence = 0\<rparr>, m')"
    by (metis prod.collapse)
  from injected_event_marked [OF ex_sim_codec i] i show ?thesis by auto
qed

end
