(* ===== verification/Replay.thy ===== *)
theory Replay
  imports Simulation
begin

text \<open>
  The replay engine (\<open>core/simulation/replay.go\<close>). A session is a goroutine that runs beside the
  calls of the operator: \<open>runSession\<close> is cut into the steps between which others may act, and
  the position a goroutine has reached is its \<open>ru_pc\<close>. The engine is driven by a sequence of
  actions in any order: calls of its operations, steps of sessions, cancellations of the context a
  session was created under, and the reads of subscribers. A panic is the result \<open>None\<close>.
\<close>

section \<open>Sessions\<close>

datatype SessionState = SessionStatePending | SessionStateRunning | SessionStateCompleted | SessionStateStopped | SessionStateError

fun SessionState_string :: "SessionState \<Rightarrow> string" where
  "SessionState_string SessionStatePending = ''pending''"
| "SessionState_string SessionStateRunning = ''running''"
| "SessionState_string SessionStateCompleted = ''completed''"
| "SessionState_string SessionStateStopped = ''stopped''"
| "SessionState_string SessionStateError = ''error''"

definition replaySubject :: string where
  "replaySubject = ''simulation.replay.event''"

text \<open>The JSON document of a notification, before it is printed.\<close>

record replayed_view =
  rv_id :: string
  rv_type :: string
  rv_source_node :: string
  rv_source_agent :: string
  rv_target_agent :: string
  rv_workflow_id :: string
  rv_correlation_id :: string
  rv_metadata :: labels

datatype replay_data =
    ReplayEventData replayed_view nat nat nat
  | ReplayTotalData string nat
  | ReplayErrorData string string

record ReplayEventNotification =
  rn_Name :: string
  rn_Data :: replay_data

record ReplaySession =
  rs_ID :: string
  rs_WorkflowID :: string
  rs_State :: SessionState
  rs_Speed :: rat
  rs_TotalEvents :: nat
  rs_ReplayedEvents :: nat
  rs_ErrorMessage :: string
  rs_CreatedAt :: int
  rs_StartedAt :: "int option"
  rs_CompletedAt :: "int option"

text \<open>
  The goroutine of a session: the events, the loop variables, whether its context is done, and
  where it stands. In \<open>RWait\<close> a timer of the given duration runs.
\<close>

datatype replay_pc = RStart | RHead | RWait int | RPublish | RNotify ReplayEventNotification | RFinish string sim_message ReplayEventNotification | RDone

record 'b run =
  ru_events :: "'b StoredEvent list"
  ru_i :: nat
  ru_prev :: int
  ru_replayed :: nat
  ru_startedAt :: int
  ru_cancelled :: bool
  ru_pc :: replay_pc

record 'b replayEngine =
  re_sim :: "'b sim"
  re_sessions :: "(string \<times> ReplaySession) list"
  re_runs :: "string \<rightharpoonup> 'b run"
  re_watchers :: "string \<rightharpoonup> ReplayEventNotification watcherSet"

definition new_ReplayEngine :: "'b world \<Rightarrow> 'b replayEngine" where
  "new_ReplayEngine w = \<lparr>re_sim = \<lparr>si_world = w, si_published = []\<rparr>, re_sessions = [], re_runs = Map.empty, re_watchers = Map.empty\<rparr>"

definition re_session :: "string \<Rightarrow> 'b replayEngine \<Rightarrow> ReplaySession option" where
  "re_session sid e = map_of (re_sessions e) sid"

definition put_session :: "string \<Rightarrow> ReplaySession \<Rightarrow> 'b replayEngine \<Rightarrow> 'b replayEngine" where
  "put_session sid s e = e\<lparr>re_sessions := AList.update sid s (re_sessions e)\<rparr>"

definition put_run :: "string \<Rightarrow> 'b run \<Rightarrow> 'b replayEngine \<Rightarrow> 'b replayEngine" where
  "put_run sid r e = e\<lparr>re_runs := (re_runs e)(sid \<mapsto> r)\<rparr>"

section \<open>Watchers\<close>

definition watcherSet_of :: "string \<Rightarrow> 'b replayEngine \<Rightarrow> ReplayEventNotification watcherSet" where
  "watcherSet_of sid e = (case re_watchers e sid of Some ws \<Rightarrow> ws | None \<Rightarrow> new_watcherSet)"

definition put_watchers :: "string \<Rightarrow> 'b replayEngine \<Rightarrow> ReplayEventNotification watcherSet \<Rightarrow> 'b replayEngine" where
  "put_watchers sid e ws = e\<lparr>re_watchers := (re_watchers e)(sid \<mapsto> ws)\<rparr>"

datatype replay_error = LoadFailed stream_error | NoEvents string | SessionNotFound string | SessionNotRunning SessionState

definition WatchSession :: "'b sim_env \<Rightarrow> string \<Rightarrow> 'b replayEngine \<Rightarrow> ((replay_error + string \<times> nat) \<times> 'b replayEngine) option" where
  "WatchSession env sessionID e =
     (if re_session sessionID e = None then Some (Inl (SessionNotFound sessionID), e)
      else
        (let (clientID, m) = sim_uuid env (re_sim e); e1 = e\<lparr>re_sim := m\<rparr> in
         map_option (\<lambda>(ch, ws). (Inr (clientID, ch), put_watchers sessionID e1 ws)) (subscribe clientID (watcherSet_of sessionID e1))))"

definition replay_meta :: "string \<Rightarrow> 'b event \<Rightarrow> labels" where
  "replay_meta sid e = (ev_Metadata e)(''simulation.replay'' \<mapsto> ''true'', ''simulation.session_id'' \<mapsto> sid,
     ''simulation.original_timestamp'' \<mapsto> fmt_d (ev_Timestamp e), ''simulation.original_id'' \<mapsto> ev_ID e)"

definition broadcastReplayEvent :: "'b sim_env \<Rightarrow> ReplaySession \<Rightarrow> 'b StoredEvent \<Rightarrow> string \<Rightarrow> nat \<Rightarrow> nat \<Rightarrow> ReplayEventNotification" where
  "broadcastReplayEvent env session se newID sequence position =
     (let e = so_Event se in
      \<lparr>rn_Name = ''replay.event'',
       rn_Data = ReplayEventData \<lparr>rv_id = newID, rv_type = ev_Type e, rv_source_node = sm_nodeID env, rv_source_agent = ev_SourceAgent e,
         rv_target_agent = ev_TargetAgent e, rv_workflow_id = ev_WorkflowID e, rv_correlation_id = ev_CorrelationID e,
         rv_metadata = replay_meta (rs_ID session) e\<rparr> sequence position (rs_TotalEvents session)\<rparr>)"

definition broadcastStopped :: "string \<Rightarrow> nat \<Rightarrow> ReplayEventNotification" where
  "broadcastStopped sessionID replayed = \<lparr>rn_Name = ''replay.stopped'', rn_Data = ReplayTotalData sessionID replayed\<rparr>"

definition broadcastError :: "string \<Rightarrow> string \<Rightarrow> ReplayEventNotification" where
  "broadcastError sessionID errMsg = \<lparr>rn_Name = ''replay.error'', rn_Data = ReplayErrorData sessionID errMsg\<rparr>"

definition broadcastComplete :: "string \<Rightarrow> nat \<Rightarrow> ReplayEventNotification" where
  "broadcastComplete sessionID totalReplayed = \<lparr>rn_Name = ''replay.complete'', rn_Data = ReplayTotalData sessionID totalReplayed\<rparr>"

section \<open>Creating and stopping sessions\<close>

definition CreateSession :: "'b sim_env \<Rightarrow> string \<Rightarrow> rat \<Rightarrow> 'b replayEngine \<Rightarrow> (replay_error + string) \<times> 'b replayEngine" where
  "CreateSession env workflowID speed e =
     (case GetWorkflowEvents (sm_services env) (sm_js env) workflowID of
        Inl err \<Rightarrow> (Inl (LoadFailed err), e)
      | Inr events \<Rightarrow>
          if events = [] then (Inl (NoEvents workflowID), e)
          else
            (let (sid, m1) = sim_uuid env (re_sim e); (created, m2) = sim_now env m1; (started, m3) = sim_now env m2;
                 session = \<lparr>rs_ID = sid, rs_WorkflowID = workflowID, rs_State = SessionStateRunning, rs_Speed = speed,
                   rs_TotalEvents = length events, rs_ReplayedEvents = 0, rs_ErrorMessage = [], rs_CreatedAt = created,
                   rs_StartedAt = Some started, rs_CompletedAt = None\<rparr>;
                 run = \<lparr>ru_events = events, ru_i = 0, ru_prev = 0, ru_replayed = 0, ru_startedAt = 0, ru_cancelled = False, ru_pc = RStart\<rparr>
             in (Inr sid, put_run sid run (put_session sid session (e\<lparr>re_sim := m3\<rparr>)))))"

text \<open>The cancellation of a session's context, by its own \<open>cancel\<close> or by the context it was derived from.\<close>

definition cancel_run :: "string \<Rightarrow> 'b replayEngine \<Rightarrow> 'b replayEngine" where
  "cancel_run sid e = e\<lparr>re_runs := (re_runs e)(sid := map_option (\<lambda>r. r\<lparr>ru_cancelled := True\<rparr>) (re_runs e sid))\<rparr>"

definition StopSession :: "string \<Rightarrow> 'b replayEngine \<Rightarrow> replay_error option \<times> 'b replayEngine" where
  "StopSession sessionID e =
     (case re_session sessionID e of
        None \<Rightarrow> (Some (SessionNotFound sessionID), e)
      | Some s \<Rightarrow> if rs_State s \<noteq> SessionStateRunning then (Some (SessionNotRunning (rs_State s)), e)
                  else (None, cancel_run sessionID e))"

definition GetSession :: "string \<Rightarrow> 'b replayEngine \<Rightarrow> ReplaySession option" where
  "GetSession sid e = re_session sid e"

definition ListSessions :: "string \<Rightarrow> 'b replayEngine \<Rightarrow> ReplaySession list" where
  "ListSessions stateFilter e = filter (\<lambda>s. stateFilter = [] \<or> SessionState_string (rs_State s) = stateFilter) (map snd (re_sessions e))"

section \<open>The session goroutine\<close>

definition replayed_event :: "'b sim_env \<Rightarrow> string \<Rightarrow> 'b StoredEvent \<Rightarrow> string \<Rightarrow> int \<Rightarrow> 'b event" where
  "replayed_event env sid se newID ts =
     (let e = so_Event se in
      \<lparr>ev_ID = newID, ev_Type = ev_Type e, ev_SourceNode = sm_nodeID env, ev_SourceAgent = ev_SourceAgent e, ev_TargetAgent = ev_TargetAgent e,
       ev_WorkflowID = ev_WorkflowID e, ev_CorrelationID = ev_CorrelationID e, ev_Timestamp = ts, ev_Metadata = replay_meta sid e, ev_Payload = ev_Payload e\<rparr>)"

definition publishReplayedEvent :: "'b sim_env \<Rightarrow> ReplaySession \<Rightarrow> 'b StoredEvent \<Rightarrow> 'b sim \<Rightarrow> (string + nat \<times> string) \<times> 'b sim" where
  "publishReplayedEvent env session se m =
     (let (newID, m1) = sim_uuid env m; (ts, m2) = sim_now env m1 in
      case sv_marshal (sm_services env) (MAgentEvent (replayed_event env (rs_ID session) se newID ts)) of
        None \<Rightarrow> (Inl (''marshal replayed event: '' @ sm_encerr env), m2)
      | Some data \<Rightarrow>
          (case PublishMsg env replaySubject newID data m2 of
             (Inl err, m3) \<Rightarrow> (Inl err, m3)
           | (Inr (_, sequence), m3) \<Rightarrow> (Inr (sequence, newID), m3)))"

definition publishCoordination :: "'b sim_env \<Rightarrow> string \<Rightarrow> ReplaySession \<Rightarrow> sim_message \<Rightarrow> 'b sim \<Rightarrow> bool \<times> 'b sim" where
  "publishCoordination env eventType session payload m = coordinate env eventType (rs_WorkflowID session) (rs_ID session) payload m"

text \<open>\<open>time.Duration(float64(gap) / speed)\<close>, capped at 30 s.\<close>

definition replayDelay :: "'b sim_env \<Rightarrow> int \<Rightarrow> rat \<Rightarrow> int" where
  "replayDelay env gap speed =
     (let q = of_int gap / speed; delay = (if q < 2 ^ 63 then \<lfloor>q\<rfloor> else sm_overflow env)
      in if 30 * 10 ^ 9 < delay then 30 * 10 ^ 9 else delay)"

text \<open>The end of a session: its record is closed here, the messages follow in the next step.\<close>

definition stop_session :: "'b sim_env \<Rightarrow> string \<Rightarrow> ReplaySession \<Rightarrow> 'b run \<Rightarrow> 'b replayEngine \<Rightarrow> 'b replayEngine" where
  "stop_session env sid s r e =
     (let (now, m) = sim_now env (re_sim e) in
      put_run sid (r\<lparr>ru_pc := RFinish ''simulation.replay.stop'' (SimulationReplayStop sid ''operator_request'' (of_nat (ru_replayed r)))
          (broadcastStopped sid (ru_replayed r))\<rparr>)
        (put_session sid (s\<lparr>rs_State := SessionStateStopped, rs_CompletedAt := Some now, rs_ReplayedEvents := ru_replayed r\<rparr>) (e\<lparr>re_sim := m\<rparr>)))"

definition fail_session :: "'b sim_env \<Rightarrow> string \<Rightarrow> string \<Rightarrow> ReplaySession \<Rightarrow> 'b run \<Rightarrow> 'b replayEngine \<Rightarrow> 'b replayEngine" where
  "fail_session env err sid s r e =
     (let (now, m) = sim_now env (re_sim e) in
      put_run sid (r\<lparr>ru_pc := RFinish ''simulation.replay.stop'' (SimulationReplayStop sid ''error'' (of_nat (ru_replayed r)))
          (broadcastError sid err)\<rparr>)
        (put_session sid (s\<lparr>rs_State := SessionStateError, rs_ErrorMessage := err, rs_CompletedAt := Some now, rs_ReplayedEvents := ru_replayed r\<rparr>)
          (e\<lparr>re_sim := m\<rparr>)))"

definition complete_session :: "'b sim_env \<Rightarrow> string \<Rightarrow> ReplaySession \<Rightarrow> 'b run \<Rightarrow> 'b replayEngine \<Rightarrow> 'b replayEngine" where
  "complete_session env sid s r e =
     (let (now, m1) = sim_now env (re_sim e); (ended, m2) = sim_now env m1 in
      put_run sid (r\<lparr>ru_pc := RFinish ''simulation.replay.complete''
          (SimulationReplayComplete sid (of_nat (ru_replayed r)) ((ended - ru_startedAt r) div 1000000))
          (broadcastComplete sid (ru_replayed r))\<rparr>)
        (put_session sid (s\<lparr>rs_State := SessionStateCompleted, rs_CompletedAt := Some now, rs_ReplayedEvents := ru_replayed r\<rparr>) (e\<lparr>re_sim := m2\<rparr>)))"

definition publish_next :: "'b sim_env \<Rightarrow> string \<Rightarrow> ReplaySession \<Rightarrow> 'b run \<Rightarrow> 'b replayEngine \<Rightarrow> 'b replayEngine" where
  "publish_next env sid s r e =
     (let se = ru_events r ! ru_i r; r1 = r\<lparr>ru_prev := ev_Timestamp (so_Event se)\<rparr> in
      case publishReplayedEvent env s se (re_sim e) of
        (Inl err, m) \<Rightarrow> fail_session env err sid s r1 (e\<lparr>re_sim := m\<rparr>)
      | (Inr (sequence, newID), m) \<Rightarrow>
          (let replayed = Suc (ru_replayed r) in
           put_run sid (r1\<lparr>ru_replayed := replayed, ru_pc := RNotify (broadcastReplayEvent env s se newID sequence replayed)\<rparr>)
             (put_session sid (s\<lparr>rs_ReplayedEvents := replayed\<rparr>) (e\<lparr>re_sim := m\<rparr>))))"

text \<open>
  One step of a session. The flag tells that its timer has fired; a timer that fires together with
  the cancellation may win.
\<close>

definition runSession :: "'b sim_env \<Rightarrow> string \<Rightarrow> bool \<Rightarrow> 'b replayEngine \<Rightarrow> 'b replayEngine option" where
  "runSession env sid fired e =
     (case (re_session sid e, re_runs e sid) of
        (Some s, Some r) \<Rightarrow>
          (case ru_pc r of
             RStart \<Rightarrow>
               (let (startedAt, m1) = sim_now env (re_sim e);
                    (_, m2) = publishCoordination env ''simulation.replay.start'' s
                      (SimulationReplayStart sid (rs_WorkflowID s) (rs_Speed s) (of_nat (rs_TotalEvents s))) m1
                in Some (put_run sid (r\<lparr>ru_startedAt := startedAt, ru_pc := RHead\<rparr>) (e\<lparr>re_sim := m2\<rparr>)))
           | RHead \<Rightarrow>
               if length (ru_events r) \<le> ru_i r then Some (complete_session env sid s r e)
               else if ru_cancelled r then Some (stop_session env sid s r e)
               else (let gap = ev_Timestamp (so_Event (ru_events r ! ru_i r)) - ru_prev r in
                     if 0 < ru_i r \<and> 0 < rs_Speed s \<and> 0 < ru_prev r \<and> 0 < gap
                     then Some (put_run sid (r\<lparr>ru_pc := RWait (replayDelay env gap (rs_Speed s))\<rparr>) e)
                     else Some (put_run sid (r\<lparr>ru_pc := RPublish\<rparr>) e))
           | RWait delay \<Rightarrow>
               if fired then Some (put_run sid (r\<lparr>ru_pc := RPublish\<rparr>) e)
               else if ru_cancelled r then Some (stop_session env sid s r e) else Some e
           | RPublish \<Rightarrow> Some (publish_next env sid s r e)
           | RNotify n \<Rightarrow>
               map_option (\<lambda>ws. put_watchers sid (put_run sid (r\<lparr>ru_i := Suc (ru_i r), ru_pc := RHead\<rparr>) e) ws) (broadcast n (watcherSet_of sid e))
           | RFinish eventType payload n \<Rightarrow>
               (let (_, m) = publishCoordination env eventType s payload (re_sim e) in
                map_option (\<lambda>ws. put_watchers sid (put_run sid (r\<lparr>ru_pc := RDone\<rparr>) (e\<lparr>re_sim := m\<rparr>)) ws) (terminate n (watcherSet_of sid e)))
           | RDone \<Rightarrow> Some e)
      | _ \<Rightarrow> Some e)"

section \<open>Interleavings\<close>

datatype replay_act =
    ACreate string rat
  | AStop string
  | AContextDone string
  | AStep string bool
  | AWatch string
  | AUnwatch string string
  | ARead string nat

fun replay_exec :: "'b sim_env \<Rightarrow> replay_act \<Rightarrow> 'b replayEngine \<Rightarrow> 'b replayEngine option" where
  "replay_exec env (ACreate workflowID speed) e = Some (snd (CreateSession env workflowID speed e))"
| "replay_exec env (AStop sid) e = Some (snd (StopSession sid e))"
| "replay_exec env (AContextDone sid) e = Some (cancel_run sid e)"
| "replay_exec env (AStep sid fired) e = runSession env sid fired e"
| "replay_exec env (AWatch sid) e = map_option snd (WatchSession env sid e)"
| "replay_exec env (AUnwatch sid c) e = Some (put_watchers sid e (unsubscribe c (watcherSet_of sid e)))"
| "replay_exec env (ARead sid a) e = Some (put_watchers sid e (snd (receive a (watcherSet_of sid e))))"

fun replay_run :: "'b sim_env \<Rightarrow> replay_act list \<Rightarrow> 'b replayEngine \<Rightarrow> 'b replayEngine option" where
  "replay_run env [] e = Some e"
| "replay_run env (a # acts) e = Option.bind (replay_exec env a e) (replay_run env acts)"

end
