(* ===== verification/ReplayProps.thy ===== *)
theory ReplayProps
  imports Replay
begin

text \<open>
  What the replay engine guarantees in every interleaving. The invariant \<open>engine_ok\<close> ties each
  session's record to its goroutine and to the messages JetStream has accepted; a session is then
  followed through actions that concern others. Shown: replay is exact, every session ends, one that
  is left alone completes, and one whose context ends with the request replays nothing.
\<close>

section \<open>The invariant of the engine\<close>

definition is_replay :: "'b sim_env \<Rightarrow> string \<Rightarrow> 'b event \<Rightarrow> 'b StoredEvent \<Rightarrow> bool" where
  "is_replay env sid e se \<longleftrightarrow> e = replayed_event env sid se (ev_ID e) (ev_Timestamp e)"

text \<open>The events a session has replayed, as they are decoded from the messages JetStream has accepted.\<close>

definition replay_of_msg :: "'b sim_env \<Rightarrow> string \<Rightarrow> 'b js_msg \<Rightarrow> 'b event option" where
  "replay_of_msg env sid msg =
     (case sv_dec_agent_event (sm_services env) (snd (snd msg)) of
        Some e \<Rightarrow> if fst msg = replaySubject \<and> ev_ID e = fst (snd msg) \<and> ev_Metadata e ''simulation.session_id'' = Some sid then Some e else None
      | None \<Rightarrow> None)"

definition replays_of :: "'b sim_env \<Rightarrow> string \<Rightarrow> 'b js_msg list \<Rightarrow> 'b event list" where
  "replays_of env sid msgs = List.map_filter (replay_of_msg env sid) msgs"

fun pc_ok :: "ReplaySession \<Rightarrow> 'b run \<Rightarrow> replay_pc \<Rightarrow> bool" where
  "pc_ok s r RStart \<longleftrightarrow> rs_State s = SessionStateRunning \<and> ru_i r = ru_replayed r"
| "pc_ok s r RHead \<longleftrightarrow> rs_State s = SessionStateRunning \<and> ru_i r = ru_replayed r"
| "pc_ok s r (RWait d) \<longleftrightarrow> rs_State s = SessionStateRunning \<and> ru_i r = ru_replayed r \<and> ru_i r < length (ru_events r)"
| "pc_ok s r RPublish \<longleftrightarrow> rs_State s = SessionStateRunning \<and> ru_i r = ru_replayed r \<and> ru_i r < length (ru_events r)"
| "pc_ok s r (RNotify n) \<longleftrightarrow> rs_State s = SessionStateRunning \<and> Suc (ru_i r) = ru_replayed r"
| "pc_ok s r _ \<longleftrightarrow> rs_State s \<in> {SessionStateCompleted, SessionStateStopped, SessionStateError} \<and>
     (rs_State s = SessionStateCompleted \<longrightarrow> ru_replayed r = length (ru_events r))"

definition session_ok :: "'b sim_env \<Rightarrow> string \<Rightarrow> ReplaySession \<Rightarrow> 'b run \<Rightarrow> 'b js_msg list \<Rightarrow> bool" where
  "session_ok env sid s r msgs \<longleftrightarrow> rs_ID s = sid \<and> GetWorkflowEvents (sm_services env) (sm_js env) (rs_WorkflowID s) = Inr (ru_events r) \<and>
     rs_TotalEvents s = length (ru_events r) \<and> rs_ReplayedEvents s = ru_replayed r \<and> ru_replayed r \<le> length (ru_events r) \<and> pc_ok s r (ru_pc r) \<and>
     list_all2 (is_replay env sid) (replays_of env sid msgs) (take (ru_replayed r) (ru_events r))"

definition slot_ok :: "'b sim_env \<Rightarrow> string \<Rightarrow> ReplaySession option \<Rightarrow> 'b run option \<Rightarrow> 'b sim \<Rightarrow> bool" where
  "slot_ok env sid so ro m \<longleftrightarrow>
     (case (so, ro) of
        (None, None) \<Rightarrow> replays_of env sid (si_published m) = []
      | (Some s, Some r) \<Rightarrow> session_ok env sid s r (si_published m) \<and> sid \<in> sv_uuid (sm_services env) ` {..<w_uuids (si_world m)}
      | _ \<Rightarrow> False)"

definition engine_ok :: "'b sim_env \<Rightarrow> 'b replayEngine \<Rightarrow> bool" where
  "engine_ok env e \<longleftrightarrow> (\<forall>sid. slot_ok env sid (re_session sid e) (re_runs e sid) (re_sim e)) \<and>
     (\<forall>sid ws. re_watchers e sid = Some ws \<longrightarrow> watchers_ok ws) \<and>
     list_all (\<lambda>msg. fst msg = replaySubject) (si_published (re_sim e))"

lemma engine_parts [simp]:
  "re_session sid' (put_session sid s e) = (if sid' = sid then Some s else re_session sid' e)"
  "re_session sid' (put_run sid r e) = re_session sid' e" "re_session sid' (put_watchers sid e ws) = re_session sid' e"
  "re_session sid' (e\<lparr>re_sim := m\<rparr>) = re_session sid' e" "re_session sid' (cancel_run sid e) = re_session sid' e"
  "re_runs (put_run sid r e) = (re_runs e)(sid \<mapsto> r)" "re_runs (put_session sid s e) = re_runs e" "re_runs (put_watchers sid e ws) = re_runs e"
  "re_runs (cancel_run sid e) = (re_runs e)(sid := map_option (\<lambda>r. r\<lparr>ru_cancelled := True\<rparr>) (re_runs e sid))"
  "re_sim (put_run sid r e) = re_sim e" "re_sim (put_session sid s e) = re_sim e" "re_sim (put_watchers sid e ws) = re_sim e"
  "re_sim (cancel_run sid e) = re_sim e"
  "re_watchers (put_run sid r e) = re_watchers e" "re_watchers (put_session sid s e) = re_watchers e" "re_watchers (cancel_run sid e) = re_watchers e"
  "re_watchers (put_watchers sid e ws) = (re_watchers e)(sid \<mapsto> ws)"
  by (simp_all add: re_session_def put_session_def put_run_def put_watchers_def cancel_run_def update_conv)

lemma engine_ok_session:
  assumes "engine_ok env e" and "re_session sid e = Some s" and "re_runs e sid = Some r"
  shows "session_ok env sid s r (si_published (re_sim e))" "sid \<in> sv_uuid (sm_services env) ` {..<w_uuids (si_world (re_sim e))}"
proof -
  have "slot_ok env sid (re_session sid e) (re_runs e sid) (re_sim e)" using assms(1) by (simp add: engine_ok_def)
  with assms(2,3) show "session_ok env sid s r (si_published (re_sim e))" "sid \<in> sv_uuid (sm_services env) ` {..<w_uuids (si_world (re_sim e))}"
    by (simp_all add: slot_ok_def)
qed

text \<open>What the slot of another session needs when the published messages grow.\<close>

lemma slot_ok_mono:
  assumes "slot_ok env sid so ro m" and "w_uuids (si_world m) \<le> w_uuids (si_world m')"
    and "replays_of env sid (si_published m') = replays_of env sid (si_published m)"
  shows "slot_ok env sid so ro m'"
  using assms by (fastforce simp: slot_ok_def session_ok_def split: option.splits)

lemma engine_ok_update:
  assumes "engine_ok env e" and "sid \<in> sv_uuid (sm_services env) ` {..<w_uuids (si_world m)}"
    and "w_uuids (si_world (re_sim e)) \<le> w_uuids (si_world m)" and "session_ok env sid s r (si_published m)"
    and "\<And>sid'. sid' \<noteq> sid \<Longrightarrow> replays_of env sid' (si_published m) = replays_of env sid' (si_published (re_sim e))"
    and "list_all (\<lambda>msg. fst msg = replaySubject) (si_published m)"
  shows "engine_ok env (put_run sid r (put_session sid s (e\<lparr>re_sim := m\<rparr>)))"
  unfolding engine_ok_def
proof (intro conjI allI)
  fix sid'
  let ?e = "put_run sid r (put_session sid s (e\<lparr>re_sim := m\<rparr>))"
  show "slot_ok env sid' (re_session sid' ?e) (re_runs ?e sid') (re_sim ?e)"
  proof (cases "sid' = sid")
    case True
    then show ?thesis using assms(2,4) by (simp add: slot_ok_def)
  next
    case False
    have "slot_ok env sid' (re_session sid' e) (re_runs e sid') (re_sim e)" using assms(1) by (simp add: engine_ok_def)
    from slot_ok_mono [OF this assms(3) assms(5) [OF False]] show ?thesis using False by simp
  qed
qed (use assms(1,6) in \<open>auto simp: engine_ok_def\<close>)

lemma engine_ok_watchers: "engine_ok env e \<Longrightarrow> watchers_ok ws \<Longrightarrow> engine_ok env (put_watchers sid e ws)"
  by (auto simp: engine_ok_def)

lemma watcherSet_of_ok: "engine_ok env e \<Longrightarrow> watchers_ok (watcherSet_of sid e)"
  by (auto simp: engine_ok_def watcherSet_of_def new_watcherSet_ok split: option.split)

lemma put_session_same: "re_session sid e = Some s \<Longrightarrow> put_session sid s e = e"
  by (simp add: re_session_def put_session_def update_triv)

lemma replays_of_append [simp]: "replays_of env sid (xs @ ys) = replays_of env sid xs @ replays_of env sid ys" "replays_of env sid [] = []"
  by (simp_all add: replays_of_def map_filter_def)

text \<open>Steps of a session that publish nothing.\<close>

lemma engine_ok_quiet:
  assumes "engine_ok env e" and "re_session sid e = Some s0" and "re_runs e sid = Some r0"
    and "si_published m = si_published (re_sim e)" and "w_uuids (si_world (re_sim e)) \<le> w_uuids (si_world m)"
    and "rs_ID s = rs_ID s0" and "rs_WorkflowID s = rs_WorkflowID s0" and "rs_TotalEvents s = rs_TotalEvents s0" and "rs_ReplayedEvents s = ru_replayed r"
    and "ru_events r = ru_events r0" and "ru_replayed r = ru_replayed r0" and "pc_ok s r (ru_pc r)"
  shows "engine_ok env (put_run sid r (put_session sid s (e\<lparr>re_sim := m\<rparr>)))"
proof (rule engine_ok_update [OF assms(1)])
  have old: "session_ok env sid s0 r0 (si_published (re_sim e))" "sid \<in> sv_uuid (sm_services env) ` {..<w_uuids (si_world (re_sim e))}"
    by (rule engine_ok_session [OF assms(1-3)])+
  show "session_ok env sid s r (si_published m)" using old(1) assms(4-12) by (simp add: session_ok_def)
  show "sid \<in> sv_uuid (sm_services env) ` {..<w_uuids (si_world m)}" using old(2) assms(5) by force
  show "list_all (\<lambda>msg. fst msg = replaySubject) (si_published m)" using assms(1,4) by (simp add: engine_ok_def)
qed (use assms(4,5) in simp_all)

lemma publishReplayedEvent_sim:
  assumes "publishReplayedEvent env s se m = (res, m')"
  shows "w_uuids (si_world m) \<le> w_uuids (si_world m') \<and>
    (case res of Inl _ \<Rightarrow> si_published m' = si_published m
     | Inr (sequence, newID) \<Rightarrow> \<exists>data ts. sv_marshal (sm_services env) (MAgentEvent (replayed_event env (rs_ID s) se newID ts)) = Some data \<and>
         si_published m' = si_published m @ [(replaySubject, newID, data)])"
  using assms
  by (auto simp: publishReplayedEvent_def sim_uuid_def new_uuid_def sim_now_def time_now_def Let_def split: option.splits prod.splits sum.splits dest!: PublishMsg_sim)

lemma replay_of_msg_published:
  assumes "codec_ok env" and "sv_marshal (sm_services env) (MAgentEvent (replayed_event env sid se newID ts)) = Some data"
  shows "replays_of env sid' [(replaySubject, newID, data)] = (if sid' = sid then [replayed_event env sid se newID ts] else [])"
proof -
  have "sv_dec_agent_event (sm_services env) data = Some (replayed_event env sid se newID ts)" using assms by (simp add: codec_ok_def)
  then show ?thesis by (auto simp: replays_of_def replay_of_msg_def map_filter_def replayed_event_def replay_meta_def Let_def)
qed

lemma sim_now_cases:
  obtains t m where "sim_now env m0 = (t, m)" and "si_published m = si_published m0" and "w_uuids (si_world m) = w_uuids (si_world m0)"
  using sim_now_sim [of env m0] by (metis prod.collapse)

lemma stop_session_ok:
  assumes "engine_ok env e" and "re_session sid e = Some s" and "re_runs e sid = Some r"
  shows "engine_ok env (stop_session env sid s r e)"
proof -
  obtain t m where m: "sim_now env (re_sim e) = (t, m)" "si_published m = si_published (re_sim e)" "w_uuids (si_world m) = w_uuids (si_world (re_sim e))"
    by (rule sim_now_cases)
  show ?thesis unfolding stop_session_def by (simp add: m(1), rule engine_ok_quiet [OF assms m(2)]) (simp_all add: m(3))
qed

lemma complete_session_ok:
  assumes "engine_ok env e" and "re_session sid e = Some s" and "re_runs e sid = Some r" and "length (ru_events r) \<le> ru_replayed r"
  shows "engine_ok env (complete_session env sid s r e)"
proof -
  obtain t1 m1 where m1: "sim_now env (re_sim e) = (t1, m1)" "si_published m1 = si_published (re_sim e)" "w_uuids (si_world m1) = w_uuids (si_world (re_sim e))"
    by (rule sim_now_cases)
  obtain t2 m2 where m2: "sim_now env m1 = (t2, m2)" "si_published m2 = si_published m1" "w_uuids (si_world m2) = w_uuids (si_world m1)"
    by (rule sim_now_cases)
  have "ru_replayed r = length (ru_events r)" using engine_ok_session(1) [OF assms(1-3)] assms(4) by (simp add: session_ok_def)
  moreover have "si_published m2 = si_published (re_sim e)" using m1 m2 by simp
  ultimately show ?thesis unfolding complete_session_def
    by (simp add: m1(1) m2(1), intro engine_ok_quiet [OF assms(1-3)]) (simp_all add: m1(3) m2(3))
qed

lemma publish_next_ok:
  assumes "codec_ok env" and "engine_ok env e" and "re_session sid e = Some s" and "re_runs e sid = Some r" and "ru_pc r = RPublish"
  shows "engine_ok env (publish_next env sid s r e)"
proof -
  let ?se = "ru_events r ! ru_i r"
  have old: "session_ok env sid s r (si_published (re_sim e))" "sid \<in> sv_uuid (sm_services env) ` {..<w_uuids (si_world (re_sim e))}"
    by (rule engine_ok_session [OF assms(2-4)])+
  have i: "rs_State s = SessionStateRunning" "ru_i r = ru_replayed r" "ru_replayed r < length (ru_events r)" "rs_ID s = sid"
    using old(1) assms(5) by (simp_all add: session_ok_def)
  obtain res m where p: "publishReplayedEvent env s ?se (re_sim e) = (res, m)" by fastforce
  note ps = publishReplayedEvent_sim [OF p]
  show ?thesis
  proof (cases res)
    case (Inl err)
    obtain t m1 where m1: "sim_now env m = (t, m1)" "si_published m1 = si_published m" "w_uuids (si_world m1) = w_uuids (si_world m)"
      by (rule sim_now_cases)
    have "si_published m1 = si_published (re_sim e)" using ps Inl m1(2) by simp
    then show ?thesis unfolding publish_next_def fail_session_def using ps Inl
      by (simp add: p m1(1) Let_def, intro engine_ok_quiet [OF assms(2-4)]) (simp_all add: m1(3))
  next
    case (Inr x)
    obtain sq newID where x: "x = (sq, newID)" by fastforce
    obtain data ts where d: "sv_marshal (sm_services env) (MAgentEvent (replayed_event env sid ?se newID ts)) = Some data"
      "si_published m = si_published (re_sim e) @ [(replaySubject, newID, data)]" using ps Inr x i(4) by auto
    note one = replay_of_msg_published [OF assms(1) d(1)]
    have "is_replay env sid (replayed_event env sid ?se newID ts) ?se" by (simp add: is_replay_def replayed_event_def Let_def)
    then have "list_all2 (is_replay env sid) (replays_of env sid (si_published m)) (take (Suc (ru_replayed r)) (ru_events r))"
      using old(1) i d(2) one by (simp add: session_ok_def take_Suc_conv_app_nth list_all2_appendI)
    note replays = this
    let ?r = "r\<lparr>ru_prev := ev_Timestamp (so_Event ?se), ru_replayed := Suc (ru_replayed r),
      ru_pc := RNotify (broadcastReplayEvent env s ?se newID sq (Suc (ru_replayed r)))\<rparr>"
    have "publish_next env sid s r e = put_run sid ?r (put_session sid (s\<lparr>rs_ReplayedEvents := Suc (ru_replayed r)\<rparr>) (e\<lparr>re_sim := m\<rparr>))"
      by (simp add: publish_next_def p Inr x Let_def)
    moreover have "engine_ok env (put_run sid ?r (put_session sid (s\<lparr>rs_ReplayedEvents := Suc (ru_replayed r)\<rparr>) (e\<lparr>re_sim := m\<rparr>)))"
    proof (rule engine_ok_update [OF assms(2)])
      show "session_ok env sid (s\<lparr>rs_ReplayedEvents := Suc (ru_replayed r)\<rparr>) ?r (si_published m)"
        using replays old(1) i by (simp add: session_ok_def)
      show "sid \<in> sv_uuid (sm_services env) ` {..<w_uuids (si_world m)}" using old(2) ps by force
      show "list_all (\<lambda>msg. fst msg = replaySubject) (si_published m)" using assms(2) d(2) by (simp add: engine_ok_def)
    qed (use ps d(2) one in auto)
    ultimately show ?thesis by simp
  qed
qed

lemma runSession_ok:
  assumes "codec_ok env" and "engine_ok env e"
  shows "\<exists>e'. runSession env sid fired e = Some e' \<and> engine_ok env e'"
proof (cases "re_session sid e = None \<or> re_runs e sid = None")
  case True
  then show ?thesis using assms(2) by (auto simp: runSession_def split: option.split)
next
  case False
  then obtain s r where sr: "re_session sid e = Some s" "re_runs e sid = Some r" by auto
  note old = engine_ok_session(1) [OF assms(2) sr]
  note quiet = engine_ok_quiet [OF assms(2) sr]
  have goto: "engine_ok env (put_run sid r' (e\<lparr>re_sim := m\<rparr>))" if "si_published m = si_published (re_sim e)"
    "w_uuids (si_world (re_sim e)) \<le> w_uuids (si_world m)" "ru_events r' = ru_events r" "ru_replayed r' = ru_replayed r" "pc_ok s r' (ru_pc r')" for r' m
    using quiet [of m s r'] that old sr(1) put_session_same [of sid "e\<lparr>re_sim := m\<rparr>" s] by (simp add: session_ok_def)
  have move: "engine_ok env (put_run sid r' e)" if "ru_events r' = ru_events r" "ru_replayed r' = ru_replayed r" "pc_ok s r' (ru_pc r')" for r'
    using goto [of "re_sim e" r'] that by simp
  show ?thesis
  proof (cases "ru_pc r")
    case RStart
    obtain t m1 where m1: "sim_now env (re_sim e) = (t, m1)" "si_published m1 = si_published (re_sim e)" "w_uuids (si_world m1) = w_uuids (si_world (re_sim e))"
      by (rule sim_now_cases)
    obtain ok m2 where m2: "publishCoordination env ''simulation.replay.start'' s
        (SimulationReplayStart sid (rs_WorkflowID s) (rs_Speed s) (of_nat (length (ru_events r)))) m1 = (ok, m2)" by fastforce
    show ?thesis using RStart sr m1 old goto [of m2 "r\<lparr>ru_startedAt := t, ru_pc := RHead\<rparr>"] coordinate_sim [OF m2 [unfolded publishCoordination_def]]
      by (simp add: runSession_def m2 session_ok_def)
  next
    case RHead
    then show ?thesis using sr old stop_session_ok [OF assms(2) sr] complete_session_ok [OF assms(2) sr]
        move [of "r\<lparr>ru_pc := RPublish\<rparr>"] move [of "r\<lparr>ru_pc := RWait d\<rparr>" for d] by (simp add: runSession_def session_ok_def Let_def)
  next
    case (RWait d)
    then show ?thesis using sr old stop_session_ok [OF assms(2) sr] move [of "r\<lparr>ru_pc := RPublish\<rparr>"] assms(2) by (simp add: runSession_def session_ok_def)
  next
    case RPublish
    then show ?thesis using sr publish_next_ok [OF assms sr] by (simp add: runSession_def)
  next
    case (RNotify n)
    obtain ws where ws: "broadcast n (watcherSet_of sid e) = Some ws" "watchers_ok ws" using broadcast_ok [OF watcherSet_of_ok [OF assms(2), of sid]] by blast
    then show ?thesis using RNotify sr old move [of "r\<lparr>ru_i := Suc (ru_i r), ru_pc := RHead\<rparr>"] engine_ok_watchers [OF _ ws(2)]
      by (simp add: runSession_def session_ok_def)
  next
    case (RFinish t p n)
    obtain ws where ws: "terminate n (watcherSet_of sid e) = Some ws" "watchers_ok ws" using terminate_ok [OF watcherSet_of_ok [OF assms(2), of sid]] by blast
    obtain ok m2 where m2: "publishCoordination env t s p (re_sim e) = (ok, m2)" by fastforce
    show ?thesis using RFinish sr old goto [of m2 "r\<lparr>ru_pc := RDone\<rparr>"] coordinate_sim [OF m2 [unfolded publishCoordination_def]] engine_ok_watchers [OF _ ws(2)]
      by (simp add: runSession_def m2 session_ok_def ws(1))
  next
    case RDone
    then show ?thesis using sr assms(2) by (simp add: runSession_def)
  qed
qed

lemma cancel_run_ok: "engine_ok env e \<Longrightarrow> engine_ok env (cancel_run sid e)"
proof -
  have "pc_ok s (r\<lparr>ru_cancelled := True\<rparr>) c = pc_ok s r c" for s c and r :: "'a run" by (cases c) auto
  then have "slot_ok env sid so (map_option (\<lambda>r. r\<lparr>ru_cancelled := True\<rparr>) ro) m = slot_ok env sid so ro m" for so and ro :: "'a run option" and m
    by (cases so; cases ro) (simp_all add: slot_ok_def session_ok_def)
  then show "engine_ok env e \<Longrightarrow> engine_ok env (cancel_run sid e)" by (auto simp: engine_ok_def)
qed

lemma CreateSession_ok:
  assumes "inj (sv_uuid (sm_services env))" and "engine_ok env e" and "CreateSession env workflowID speed e = (res, e')"
  shows "engine_ok env e' \<and> (\<forall>sid. res = Inr sid \<longrightarrow> re_session sid e = None)"
proof (cases "\<exists>events. GetWorkflowEvents (sm_services env) (sm_js env) workflowID = Inr events \<and> events \<noteq> []")
  case True
  then obtain events where ev: "GetWorkflowEvents (sm_services env) (sm_js env) workflowID = Inr events" "events \<noteq> []" by auto
  let ?sid = "sv_uuid (sm_services env) (w_uuids (si_world (re_sim e)))"
  obtain m1 where m1: "sim_uuid env (re_sim e) = (?sid, m1)" "si_published m1 = si_published (re_sim e)"
    "w_uuids (si_world m1) = Suc (w_uuids (si_world (re_sim e)))" using sim_uuid_sim [of env "re_sim e"] by (metis prod.collapse)
  obtain t2 m2 where m2: "sim_now env m1 = (t2, m2)" "si_published m2 = si_published m1" "w_uuids (si_world m2) = w_uuids (si_world m1)" by (rule sim_now_cases)
  obtain t3 m3 where m3: "sim_now env m2 = (t3, m3)" "si_published m3 = si_published m2" "w_uuids (si_world m3) = w_uuids (si_world m2)" by (rule sim_now_cases)
  have "?sid \<notin> sv_uuid (sm_services env) ` {..<w_uuids (si_world (re_sim e))}" using assms(1) by (auto dest: injD)
  moreover have "slot_ok env ?sid (re_session ?sid e) (re_runs e ?sid) (re_sim e)" using assms(2) by (simp add: engine_ok_def)
  ultimately have new: "re_session ?sid e = None" "replays_of env ?sid (si_published (re_sim e)) = []" by (auto simp: slot_ok_def split: option.splits)
  let ?s = "\<lparr>rs_ID = ?sid, rs_WorkflowID = workflowID, rs_State = SessionStateRunning, rs_Speed = speed, rs_TotalEvents = length events,
    rs_ReplayedEvents = 0, rs_ErrorMessage = [], rs_CreatedAt = t2, rs_StartedAt = Some t3, rs_CompletedAt = None\<rparr>"
  let ?r = "\<lparr>ru_events = events, ru_i = 0, ru_prev = 0, ru_replayed = 0, ru_startedAt = 0, ru_cancelled = False, ru_pc = RStart\<rparr>"
  have "engine_ok env (put_run ?sid ?r (put_session ?sid ?s (e\<lparr>re_sim := m3\<rparr>)))"
  proof (rule engine_ok_update [OF assms(2)])
    show "session_ok env ?sid ?s ?r (si_published m3)" using ev(1) new(2) m1(2) m2(2) m3(2) by (simp add: session_ok_def)
    show "list_all (\<lambda>msg. fst msg = replaySubject) (si_published m3)" using assms(2) m1(2) m2(2) m3(2) by (simp add: engine_ok_def)
  qed (use m1 m2 m3 in auto)
  moreover have "(res, e') = (Inr ?sid, put_run ?sid ?r (put_session ?sid ?s (e\<lparr>re_sim := m3\<rparr>)))"
    using assms(3) ev by (simp add: CreateSession_def m1(1) m2(1) m3(1))
  ultimately show ?thesis using new(1) by simp
next
  case False
  then show ?thesis using assms(2,3) by (auto simp: CreateSession_def split: sum.splits if_splits)
qed

lemma engine_ok_uuid:
  assumes "engine_ok env e" shows "engine_ok env (e\<lparr>re_sim := snd (sim_uuid env (re_sim e))\<rparr>)"
proof -
  have "slot_ok env sid (re_session sid e) (re_runs e sid) (re_sim e)" for sid using assms by (simp add: engine_ok_def)
  then have "slot_ok env sid (re_session sid e) (re_runs e sid) (snd (sim_uuid env (re_sim e)))" for sid by (rule slot_ok_mono) simp_all
  then show ?thesis using assms by (simp add: engine_ok_def)
qed

lemma WatchSession_ok:
  assumes "engine_ok env e"
  shows "\<exists>res e'. WatchSession env sid e = Some (res, e') \<and> engine_ok env e'"
proof -
  obtain c m where m: "sim_uuid env (re_sim e) = (c, m)" by fastforce
  let ?e = "e\<lparr>re_sim := m\<rparr>"
  have ok: "engine_ok env ?e" using engine_ok_uuid [OF assms] m by simp
  obtain a ws where "subscribe c (watcherSet_of sid ?e) = Some (a, ws)" "watchers_ok ws" using subscribe_ok [OF watcherSet_of_ok [OF ok, of sid]] by blast
  then show ?thesis using assms engine_ok_watchers [OF ok] by (simp add: WatchSession_def m)
qed

lemma replay_exec_ok:
  assumes "codec_ok env" and "inj (sv_uuid (sm_services env))" and "engine_ok env e"
  shows "\<exists>e'. replay_exec env a e = Some e' \<and> engine_ok env e'"
proof (cases a)
  case (ACreate wid speed)
  then show ?thesis using CreateSession_ok [OF assms(2,3), of wid speed] by (cases "CreateSession env wid speed e") auto
next
  case (AStop sid)
  then show ?thesis using assms(3) cancel_run_ok [of env e sid] by (auto simp: StopSession_def split: option.split)
next
  case (AStep sid fired)
  then show ?thesis using runSession_ok [OF assms(1,3), of sid fired] by simp
next
  case (AWatch sid)
  then show ?thesis using WatchSession_ok [OF assms(3), of sid] by auto
next
  case (AUnwatch sid c)
  then show ?thesis using engine_ok_watchers [OF assms(3) unsubscribe_ok [OF watcherSet_of_ok [OF assms(3)]]] by simp
next
  case (ARead sid c)
  then show ?thesis using engine_ok_watchers [OF assms(3)] receive_ok [OF watcherSet_of_ok [OF assms(3)]] by simp
qed (use assms(3) cancel_run_ok in simp)

lemma replay_run_ok:
  assumes "codec_ok env" and "inj (sv_uuid (sm_services env))" and "engine_ok env e"
  shows "\<exists>e'. replay_run env acts e = Some e' \<and> engine_ok env e'"
  using assms(3)
proof (induction acts arbitrary: e)
  case (Cons a acts)
  then show ?case using replay_exec_ok [OF assms(1,2) Cons.prems, of a] by auto
qed simp

lemma new_ReplayEngine_ok: "engine_ok env (new_ReplayEngine w)"
  by (simp add: engine_ok_def slot_ok_def new_ReplayEngine_def re_session_def)

section \<open>Following one session\<close>

lemma exec_elsewhere:
  assumes "codec_ok env" and "inj (sv_uuid (sm_services env))" and "engine_ok env e" and "re_session sid e = Some s" and "replay_exec env a e = Some e'"
    and "a \<noteq> AStop sid" and "a \<noteq> AContextDone sid" and "\<forall>fired. a \<noteq> AStep sid fired"
  shows "re_session sid e' = re_session sid e \<and> re_runs e' sid = re_runs e sid"
proof (cases a)
  case (ACreate wid speed)
  obtain res where c: "CreateSession env wid speed e = (res, e')" using assms(5) ACreate by (cases "CreateSession env wid speed e") simp
  then have "res \<noteq> Inr sid" using CreateSession_ok [OF assms(2,3) c] assms(4) by auto
  then show ?thesis using c by (auto simp: CreateSession_def split: sum.splits if_splits prod.splits)
next
  case (AStep sid' fired)
  then have ne: "sid' \<noteq> sid" using assms(8) by auto
  show ?thesis using assms(5) AStep ne
    by (auto simp: runSession_def publish_next_def fail_session_def stop_session_def complete_session_def Let_def
        split: option.splits replay_pc.splits if_splits prod.splits sum.splits)
qed (use assms(5-7) in \<open>auto simp: StopSession_def WatchSession_def Let_def split: option.splits if_splits prod.splits\<close>)

lemma exec_cancel:
  assumes "a = AStop sid \<or> a = AContextDone sid" and "replay_exec env a e = Some e'" and "re_runs e sid = Some r"
  shows "re_session sid e' = re_session sid e \<and> re_runs e' sid \<in> {Some r, Some (r\<lparr>ru_cancelled := True\<rparr>)}"
  using assms by (auto simp: StopSession_def split: option.splits if_splits)

lemma session_exists:
  assumes "engine_ok env e" and "re_session sid e = Some s"
  obtains r where "re_runs e sid = Some r" and "session_ok env sid s r (si_published (re_sim e))"
proof -
  have "slot_ok env sid (re_session sid e) (re_runs e sid) (re_sim e)" using assms(1) by (simp add: engine_ok_def)
  then show thesis using that assms(2) by (auto simp: slot_ok_def split: option.splits)
qed

lemma reachable_ok:
  assumes "codec_ok env" and "inj (sv_uuid (sm_services env))" and "replay_run env acts (new_ReplayEngine w) = Some e"
  shows "engine_ok env e"
  using replay_run_ok [OF assms(1,2) new_ReplayEngine_ok, of acts w] assms(3) by auto

text \<open>
  C6. Replay is exact, in every interleaving of sessions, operators and subscribers: nothing panics,
  and for every session the events decoded from what it has published are, in order, the replays of
  the first events of its workflow's stream, as many as its progress counter says: each with the
  original type, agents, workflow, correlation and payload, under an identifier and time of its own,
  with the original ones and the session in its metadata. A session that is completed has replayed
  all of them, and nothing is ever published outside the simulation subject.
\<close>

theorem replay_exact:
  assumes "codec_ok env" and "inj (sv_uuid (sm_services env))"
  shows "\<exists>e. replay_run env acts (new_ReplayEngine w) = Some e \<and>
    list_all (\<lambda>msg. fst msg = replaySubject) (si_published (re_sim e)) \<and>
    (\<forall>sid s. re_session sid e = Some s \<longrightarrow> (\<exists>events. GetWorkflowEvents (sm_services env) (sm_js env) (rs_WorkflowID s) = Inr events \<and>
       rs_TotalEvents s = length events \<and> rs_ReplayedEvents s \<le> length events \<and>
       list_all2 (\<lambda>ev se. ev = replayed_event env sid se (ev_ID ev) (ev_Timestamp ev))
         (replays_of env sid (si_published (re_sim e))) (take (rs_ReplayedEvents s) events) \<and>
       (rs_State s = SessionStateCompleted \<longrightarrow> rs_ReplayedEvents s = length events)))"
proof -
  obtain e where e: "replay_run env acts (new_ReplayEngine w) = Some e" "engine_ok env e" using replay_run_ok [OF assms new_ReplayEngine_ok] by blast
  have "\<exists>events. GetWorkflowEvents (sm_services env) (sm_js env) (rs_WorkflowID s) = Inr events \<and>
       rs_TotalEvents s = length events \<and> rs_ReplayedEvents s \<le> length events \<and>
       list_all2 (\<lambda>ev se. ev = replayed_event env sid se (ev_ID ev) (ev_Timestamp ev))
         (replays_of env sid (si_published (re_sim e))) (take (rs_ReplayedEvents s) events) \<and>
       (rs_State s = SessionStateCompleted \<longrightarrow> rs_ReplayedEvents s = length events)" if "re_session sid e = Some s" for sid s
  proof -
    obtain r where r: "re_runs e sid = Some r" "session_ok env sid s r (si_published (re_sim e))" using session_exists [OF e(2) \<open>re_session sid e = Some s\<close>] .
    then have "rs_State s = SessionStateCompleted \<longrightarrow> ru_replayed r = length (ru_events r)" by (cases "ru_pc r") (auto simp: session_ok_def)
    then show ?thesis using r(2) unfolding session_ok_def is_replay_def [abs_def] by auto
  qed
  then show ?thesis using e by (auto simp: engine_ok_def)
qed

section \<open>Sessions end\<close>

text \<open>A bound on the steps a session has left; in a wait, the step in which its timer fires.\<close>

fun steps_left :: "'b run \<Rightarrow> replay_pc \<Rightarrow> nat" where
  "steps_left r RStart = 4 * (length (ru_events r) - ru_i r) + 3"
| "steps_left r RHead = 4 * (length (ru_events r) - ru_i r) + 2"
| "steps_left r (RWait d) = 4 * (length (ru_events r) - ru_i r) + 1"
| "steps_left r RPublish = 4 * (length (ru_events r) - ru_i r)"
| "steps_left r (RNotify n) = 4 * (length (ru_events r) - ru_i r) - 1"
| "steps_left r (RFinish t p n) = 1"
| "steps_left r RDone = 0"

lemma steps_left_cancel [simp]: "steps_left (r\<lparr>ru_cancelled := b\<rparr>) c = steps_left r c"
  by (cases c) simp_all

lemmas session_steps = runSession_def publish_next_def fail_session_def stop_session_def complete_session_def

lemma runSession_slot:
  assumes "re_session sid e = Some s" and "re_runs e sid = Some r" and "runSession env sid fired e = Some e'"
  shows "\<exists>s' r'. re_session sid e' = Some s' \<and> re_runs e' sid = Some r' \<and> rs_TotalEvents s' = rs_TotalEvents s \<and> rs_Speed s' = rs_Speed s \<and>
    ru_events r' = ru_events r \<and> ru_cancelled r' = ru_cancelled r"
  using assms by (cases "ru_pc r") (auto simp: session_steps Let_def split: if_splits prod.splits sum.splits)

lemma runSession_left:
  assumes "engine_ok env e" and "re_session sid e = Some s" and "re_runs e sid = Some r" and "runSession env sid fired e = Some e'"
    and "re_session sid e' = Some s'" and "re_runs e' sid = Some r'"
  shows "steps_left r' (ru_pc r') \<le> (if fired then steps_left r (ru_pc r) - 1 else steps_left r (ru_pc r))"
proof -
  have "pc_ok s r (ru_pc r)" "rs_ReplayedEvents s = ru_replayed r" "ru_replayed r \<le> length (ru_events r)"
    using engine_ok_session(1) [OF assms(1-3)] by (simp_all add: session_ok_def)
  then show ?thesis using assms(2-6)
    by (cases "ru_pc r") (auto simp: session_steps Let_def split: if_splits prod.splits sum.splits)
qed

text \<open>
  A property of a session that its own steps keep, and its cancellation where it happens, holds
  along every interleaving, and a bound on its steps counts them down.
\<close>

lemma track_session:
  assumes "codec_ok env" and "inj (sv_uuid (sm_services env))"
    and step: "\<And>e s r fired e' s' r'. engine_ok env e \<Longrightarrow> re_session sid e = Some s \<Longrightarrow> re_runs e sid = Some r \<Longrightarrow> P s r \<Longrightarrow>
      runSession env sid fired e = Some e' \<Longrightarrow> re_session sid e' = Some s' \<Longrightarrow> re_runs e' sid = Some r' \<Longrightarrow>
      P s' r' \<and> f r' \<le> (if fired then f r - 1 else f r)"
    and cancel: "\<And>s r. AStop sid \<in> set acts \<or> AContextDone sid \<in> set acts \<Longrightarrow> P s r \<Longrightarrow> P s (r\<lparr>ru_cancelled := True\<rparr>)"
    and rank: "\<And>r. f (r\<lparr>ru_cancelled := True\<rparr>) = (f r :: nat)"
    and "engine_ok env e" and "re_session sid e = Some s" and "re_runs e sid = Some r" and "P s r" and "replay_run env acts e = Some e'"
  shows "\<exists>s' r'. engine_ok env e' \<and> re_session sid e' = Some s' \<and> re_runs e' sid = Some r' \<and> P s' r' \<and> f r' \<le> f r - count_list acts (AStep sid True)"
  using assms(4,6-)
proof (induction acts arbitrary: e s r)
  case (Cons a acts)
  obtain e1 where e1: "replay_exec env a e = Some e1" "engine_ok env e1" using replay_exec_ok [OF assms(1,2) Cons.prems(2), of a] by blast
  have run: "replay_run env acts e1 = Some e'" using Cons.prems(6) e1(1) by simp
  have "\<exists>s1 r1. re_session sid e1 = Some s1 \<and> re_runs e1 sid = Some r1 \<and> P s1 r1 \<and> f r1 \<le> f r - (if a = AStep sid True then 1 else 0)"
  proof (cases "\<exists>fired. a = AStep sid fired")
    case True
    then obtain fired where a: "a = AStep sid fired" ..
    then have st: "runSession env sid fired e = Some e1" using e1(1) by simp
    obtain s1 r1 where "re_session sid e1 = Some s1" "re_runs e1 sid = Some r1" using runSession_slot [OF Cons.prems(3,4) st] by blast
    with step [OF Cons.prems(2-5) st this] a show ?thesis by (cases fired) auto
  next
    case False
    show ?thesis
    proof (cases "a = AStop sid \<or> a = AContextDone sid")
      case True
      have "P s (r\<lparr>ru_cancelled := True\<rparr>)" by (rule Cons.prems(1)) (use True Cons.prems(5) in auto)
      then show ?thesis using exec_cancel [OF True e1(1) Cons.prems(4)] Cons.prems(3,5) True rank [of r] by auto
    next
      case other: False
      then show ?thesis using exec_elsewhere [OF assms(1,2) Cons.prems(2,3) e1(1)] False Cons.prems(3-5) by auto
    qed
  qed
  then obtain s1 r1 where s1: "re_session sid e1 = Some s1" "re_runs e1 sid = Some r1" "P s1 r1"
    "f r1 \<le> f r - (if a = AStep sid True then 1 else 0)" by blast
  from Cons.IH [OF _ e1(2) s1(1-3) run] Cons.prems(1) s1(4) show ?case by (fastforce split: if_splits)
qed auto

lemma steps_left_0: "session_ok env sid s r msgs \<Longrightarrow> steps_left r (ru_pc r) = 0 \<Longrightarrow> ru_pc r = RDone"
  by (cases "ru_pc r") (auto simp: session_ok_def)

lemma steps_left_bound: "steps_left r c \<le> 4 * length (ru_events r) + 3"
  by (cases c) auto

text \<open>
  C17. Every replay session ends: once it has made four steps for each event and three more, whatever
  JetStream and the bus answered and whatever happened in between, the session is completed, stopped
  or failed.
\<close>

theorem replay_terminates:
  assumes "codec_ok env" and "inj (sv_uuid (sm_services env))" and "replay_run env before (new_ReplayEngine w) = Some e"
    and "re_session sid e = Some s" and "replay_run env acts e = Some e'" and "4 * rs_TotalEvents s + 3 \<le> count_list acts (AStep sid True)"
  shows "\<exists>s'. re_session sid e' = Some s' \<and> rs_State s' \<in> {SessionStateCompleted, SessionStateStopped, SessionStateError}"
proof -
  have ok: "engine_ok env e" by (rule reachable_ok [OF assms(1-3)])
  obtain r where r: "re_runs e sid = Some r" "session_ok env sid s r (si_published (re_sim e))" using session_exists [OF ok assms(4)] .
  have "\<exists>s' r'. engine_ok env e' \<and> re_session sid e' = Some s' \<and> re_runs e' sid = Some r' \<and> True \<and>
      steps_left r' (ru_pc r') \<le> steps_left r (ru_pc r) - count_list acts (AStep sid True)"
    by (rule track_session [OF assms(1,2) _ _ _ ok assms(4) r(1) _ assms(5)]) (simp_all add: runSession_left)
  then obtain s' r' where s': "engine_ok env e'" "re_session sid e' = Some s'" "re_runs e' sid = Some r'"
    "steps_left r' (ru_pc r') \<le> steps_left r (ru_pc r) - count_list acts (AStep sid True)" by blast
  have so: "session_ok env sid s' r' (si_published (re_sim e'))" by (rule engine_ok_session [OF s'(1-3)])
  have "steps_left r' (ru_pc r') = 0" using s'(4) assms(6) steps_left_bound [of r "ru_pc r"] r(2) by (simp add: session_ok_def)
  then have "ru_pc r' = RDone" by (rule steps_left_0 [OF so])
  then show ?thesis using s'(2) so by (auto simp: session_ok_def)
qed

text \<open>A session that nothing cancels, while every publication is accepted, does not fail.\<close>

lemma live_step:
  assumes "\<And>e. sv_marshal (sm_services env) (MAgentEvent e) \<noteq> None" and "\<And>n subj mid data. \<exists>ack. sm_publish env n subj mid data = Inr ack"
    and "re_session sid e = Some s" and "re_runs e sid = Some r" and "\<not> ru_cancelled r" and "rs_State s \<notin> {SessionStateStopped, SessionStateError}"
    and "runSession env sid fired e = Some e'" and "re_session sid e' = Some s'" and "re_runs e' sid = Some r'"
  shows "\<not> ru_cancelled r' \<and> rs_State s' \<notin> {SessionStateStopped, SessionStateError}"
proof -
  have "\<exists>x m'. publishReplayedEvent env s se m = (Inr x, m')" for se m
  proof -
    obtain uid m1 where m1: "sim_uuid env m = (uid, m1)" by fastforce
    obtain ts m2 where m2: "sim_now env m1 = (ts, m2)" by fastforce
    obtain data where d: "sv_marshal (sm_services env) (MAgentEvent (replayed_event env (rs_ID s) se uid ts)) = Some data" using assms(1) by blast
    obtain ack where "sm_publish env (w_attempts (si_world m2)) replaySubject uid data = Inr ack" using assms(2) by blast
    then show ?thesis by (cases ack) (simp add: publishReplayedEvent_def m1 m2 d PublishMsg_def Let_def)
  qed
  then obtain x m' where "publishReplayedEvent env s (ru_events r ! ru_i r) (re_sim e) = (Inr x, m')" by blast
  then show ?thesis using assms(3-9)
    by (cases "ru_pc r") (auto simp: session_steps Let_def split: if_splits prod.splits)
qed

text \<open>
  C8. A replay that is left alone completes: when every event can be encoded and JetStream accepts
  every message, a session that is neither stopped nor loses its context has, after four steps for
  each event and three more, replayed every event of its workflow and is completed.
\<close>

theorem replay_completes:
  assumes "codec_ok env" and "inj (sv_uuid (sm_services env))" and "replay_run env before (new_ReplayEngine w) = Some e0"
    and "CreateSession env workflowID speed e0 = (Inr sid, e)" and "replay_run env acts e = Some e'"
    and "AStop sid \<notin> set acts" and "AContextDone sid \<notin> set acts"
    and "\<And>ev. sv_marshal (sm_services env) (MAgentEvent ev) \<noteq> None" and "\<And>n subj mid data. \<exists>ack. sm_publish env n subj mid data = Inr ack"
    and "GetWorkflowEvents (sm_services env) (sm_js env) workflowID = Inr events" and "4 * length events + 3 \<le> count_list acts (AStep sid True)"
  shows "\<exists>s'. re_session sid e' = Some s' \<and> rs_State s' = SessionStateCompleted \<and> rs_ReplayedEvents s' = length events \<and>
    list_all2 (\<lambda>ev se. ev = replayed_event env sid se (ev_ID ev) (ev_Timestamp ev)) (replays_of env sid (si_published (re_sim e'))) events"
proof -
  have ok: "engine_ok env e" using CreateSession_ok [OF assms(2) reachable_ok [OF assms(1-3)] assms(4)] by simp
  obtain s r where s: "re_session sid e = Some s" "re_runs e sid = Some r" "rs_WorkflowID s = workflowID" "\<not> ru_cancelled r" "rs_State s = SessionStateRunning"
    using assms(4) by (auto simp: CreateSession_def split: sum.splits if_splits prod.splits)
  have so: "session_ok env sid s r (si_published (re_sim e))" by (rule engine_ok_session [OF ok s(1,2)])
  have r: "ru_events r = events" using so s(3) assms(10) by (simp add: session_ok_def)
  let ?P = "\<lambda>s r. \<not> ru_cancelled r \<and> rs_State s \<notin> {SessionStateStopped, SessionStateError} \<and> ru_events r = events"
  have "\<exists>s' r'. engine_ok env e' \<and> re_session sid e' = Some s' \<and> re_runs e' sid = Some r' \<and> ?P s' r' \<and>
      steps_left r' (ru_pc r') \<le> steps_left r (ru_pc r) - count_list acts (AStep sid True)"
  proof (rule track_session [OF assms(1,2) _ _ _ ok s(1,2) _ assms(5)])
    fix e s r fired e' s' r'
    assume st: "engine_ok env e" "re_session sid e = Some s" "re_runs e sid = Some r" "?P s r" "runSession env sid fired e = Some e'"
      "re_session sid e' = Some s'" "re_runs e' sid = Some r'"
    have "ru_events r' = ru_events r" using runSession_slot [OF st(2,3,5)] st(7) by auto
    then show "?P s' r' \<and> steps_left r' (ru_pc r') \<le> (if fired then steps_left r (ru_pc r) - 1 else steps_left r (ru_pc r))"
      using live_step [OF assms(8,9) st(2,3) _ _ st(5-7)] runSession_left [OF st(1-3,5-7)] st(4) by simp
  qed (use s r assms(6,7) in auto)
  then obtain s' r' where s': "engine_ok env e'" "re_session sid e' = Some s'" "re_runs e' sid = Some r'" "?P s' r'"
    "steps_left r' (ru_pc r') \<le> steps_left r (ru_pc r) - count_list acts (AStep sid True)" by blast
  have so': "session_ok env sid s' r' (si_published (re_sim e'))" by (rule engine_ok_session [OF s'(1-3)])
  have "steps_left r' (ru_pc r') = 0" using s'(5) assms(11) steps_left_bound [of r "ru_pc r"] r by simp
  then have "ru_pc r' = RDone" by (rule steps_left_0 [OF so'])
  then have "rs_State s' = SessionStateCompleted" "ru_replayed r' = length events" using s'(4) so' by (auto simp: session_ok_def)
  then show ?thesis using s'(2,4) so' unfolding session_ok_def is_replay_def [abs_def] by auto
qed

text \<open>
  A replay whose context ends with the call that created it replays nothing: if the context is
  done before the session has looked at its first event, no event is ever published for it, and
  after three steps it is stopped with a count of zero.
\<close>

theorem replay_lost_with_request:
  assumes "codec_ok env" and "inj (sv_uuid (sm_services env))" and "replay_run env before (new_ReplayEngine w) = Some e0"
    and "CreateSession env workflowID speed e0 = (Inr sid, e)" and "replay_run env (AContextDone sid # acts) e = Some e'"
  shows "\<exists>s'. re_session sid e' = Some s' \<and> rs_ReplayedEvents s' = 0 \<and> replays_of env sid (si_published (re_sim e')) = [] \<and>
    rs_State s' \<in> {SessionStateRunning, SessionStateStopped} \<and> (3 \<le> count_list acts (AStep sid True) \<longrightarrow> rs_State s' = SessionStateStopped)"
proof -
  have ok0: "engine_ok env e" using CreateSession_ok [OF assms(2) reachable_ok [OF assms(1-3)] assms(4)] by simp
  obtain s r where s0: "re_session sid e = Some s" "re_runs e sid = Some r" "rs_State s = SessionStateRunning" "ru_pc r = RStart" "ru_i r = 0"
    "ru_events r \<noteq> []" "ru_replayed r = 0"
    using assms(4) by (auto simp: CreateSession_def split: sum.splits if_splits prod.splits)
  let ?e = "cancel_run sid e" and ?r = "r\<lparr>ru_cancelled := True\<rparr>"
  have ok: "engine_ok env ?e" by (rule cancel_run_ok [OF ok0])
  have s: "re_session sid ?e = Some s" "re_runs ?e sid = Some ?r" using s0 by simp_all
  have run: "replay_run env acts ?e = Some e'" using assms(5) by simp
  let ?P = "\<lambda>s r. ru_cancelled r \<and> ru_i r = 0 \<and> ru_replayed r = 0 \<and> ru_events r \<noteq> [] \<and> rs_State s \<in> {SessionStateRunning, SessionStateStopped} \<and>
    (case ru_pc r of RWait d \<Rightarrow> False | RPublish \<Rightarrow> False | RNotify n \<Rightarrow> False | _ \<Rightarrow> True)"
  let ?f = "\<lambda>r. case ru_pc r of RStart \<Rightarrow> 3 | RHead \<Rightarrow> 2 | RFinish t p n \<Rightarrow> 1 | _ \<Rightarrow> (0::nat)"
  have "\<exists>s' r'. engine_ok env e' \<and> re_session sid e' = Some s' \<and> re_runs e' sid = Some r' \<and> ?P s' r' \<and> ?f r' \<le> ?f ?r - count_list acts (AStep sid True)"
  proof (rule track_session [OF assms(1,2) _ _ _ ok s _ run])
    fix e s r fired e' s' r'
    assume "re_session sid e = Some s" "re_runs e sid = Some r" "?P s r" "runSession env sid fired e = Some e'"
      "re_session sid e' = Some s'" "re_runs e' sid = Some r'"
    then show "?P s' r' \<and> ?f r' \<le> (if fired then ?f r - 1 else ?f r)"
      by (cases "ru_pc r") (auto simp: session_steps Let_def split: if_splits prod.splits)
  qed (use s0 in auto)
  then obtain s' r' where s': "engine_ok env e'" "re_session sid e' = Some s'" "re_runs e' sid = Some r'" "?P s' r'"
    "?f r' \<le> 3 - count_list acts (AStep sid True)" using s0(4) by auto
  have so': "session_ok env sid s' r' (si_published (re_sim e'))" by (rule engine_ok_session [OF s'(1-3)])
  then have "replays_of env sid (si_published (re_sim e')) = []" "rs_ReplayedEvents s' = 0" using s'(4) by (simp_all add: session_ok_def)
  moreover have "rs_State s' = SessionStateStopped" if "3 \<le> count_list acts (AStep sid True)"
    using that s'(4,5) so' by (cases "ru_pc r'") (auto simp: session_ok_def)
  ultimately show ?thesis using s'(2,4) by auto
qed

section \<open>A session on the example environment\<close>

lemma ex_events:
  "GetWorkflowEvents (sm_services ex_sim) (sm_js ex_sim) ''w'' = Inr [\<lparr>so_Event = the (dec_event ex_event), so_Stream = ''WF-w'', so_Sequence = 1\<rparr>]"
  by (simp add: GetWorkflowEvents_def ex_sim_def ex_event_def decodeMessage_def)

lemma ex_create: "\<exists>e. CreateSession ex_sim ''w'' 1 (new_ReplayEngine empty_world) = (Inr ''u'', e) \<and> (\<exists>s. re_session ''u'' e = Some s \<and> rs_TotalEvents s = 1)"
proof -
  obtain m where "sim_uuid ex_sim (re_sim (new_ReplayEngine empty_world)) = (''u'', m)"
    by (simp add: sim_uuid_def new_uuid_def ex_sim_def null_services_def new_ReplayEngine_def empty_world_def)
  then show ?thesis by (auto simp: CreateSession_def ex_events split: prod.split)
qed

theorem replay_exact_witness:
  "\<exists>e. replay_run ex_sim [ACreate ''w'' 1, AStep ''u'' True, AWatch ''u'', AStep ''u'' True] (new_ReplayEngine empty_world) = Some e \<and>
    list_all (\<lambda>msg. fst msg = replaySubject) (si_published (re_sim e))"
  using replay_exact [OF ex_sim_codec ex_sim_uuid, of "[ACreate ''w'' 1, AStep ''u'' True, AWatch ''u'', AStep ''u'' True]" empty_world] by blast

theorem replay_terminates_witness:
  "\<exists>e e' s'. replay_run ex_sim [ACreate ''w'' 1] (new_ReplayEngine empty_world) = Some e \<and>
    replay_run ex_sim (AStop ''u'' # replicate 7 (AStep ''u'' True)) e = Some e' \<and> re_session ''u'' e' = Some s' \<and>
    rs_State s' \<in> {SessionStateCompleted, SessionStateStopped, SessionStateError}"
proof -
  obtain e s where e: "CreateSession ex_sim ''w'' 1 (new_ReplayEngine empty_world) = (Inr ''u'', e)" "re_session ''u'' e = Some s" "rs_TotalEvents s = 1"
    using ex_create by blast
  have r: "replay_run ex_sim [ACreate ''w'' 1] (new_ReplayEngine empty_world) = Some e" using e(1) by simp
  obtain e' where e': "replay_run ex_sim (AStop ''u'' # replicate 7 (AStep ''u'' True)) e = Some e'"
    using replay_run_ok [OF ex_sim_codec ex_sim_uuid reachable_ok [OF ex_sim_codec ex_sim_uuid r]] by blast
  have "4 * rs_TotalEvents s + 3 \<le> count_list (AStop ''u'' # replicate 7 (AStep ''u'' True)) (AStep ''u'' True)" using e(3) by (simp add: numeral_eq_Suc)
  from replay_terminates [OF ex_sim_codec ex_sim_uuid r e(2) e' this] show ?thesis using r e' by blast
qed

theorem replay_completes_witness:
  "\<exists>e e' s'. CreateSession ex_sim ''w'' 1 (new_ReplayEngine empty_world) = (Inr ''u'', e) \<and>
    replay_run ex_sim (AWatch ''u'' # replicate 7 (AStep ''u'' True)) e = Some e' \<and> re_session ''u'' e' = Some s' \<and>
    rs_State s' = SessionStateCompleted \<and> rs_ReplayedEvents s' = 1"
proof -
  let ?acts = "AWatch ''u'' # replicate 7 (AStep ''u'' True)"
  obtain e where e: "CreateSession ex_sim ''w'' 1 (new_ReplayEngine empty_world) = (Inr ''u'', e)" using ex_create by blast
  have r: "replay_run ex_sim [] (new_ReplayEngine empty_world) = Some (new_ReplayEngine empty_world)" by simp
  have "engine_ok ex_sim e" using CreateSession_ok [OF ex_sim_uuid new_ReplayEngine_ok e] by simp
  then obtain e' where e': "replay_run ex_sim ?acts e = Some e'" using replay_run_ok [OF ex_sim_codec ex_sim_uuid] by blast
  have "\<exists>s'. re_session ''u'' e' = Some s' \<and> rs_State s' = SessionStateCompleted \<and>
    rs_ReplayedEvents s' = length [\<lparr>so_Event = the (dec_event ex_event), so_Stream = ''WF-w'', so_Sequence = 1\<rparr>] \<and>
    list_all2 (\<lambda>ev se. ev = replayed_event ex_sim ''u'' se (ev_ID ev) (ev_Timestamp ev)) (replays_of ex_sim ''u'' (si_published (re_sim e')))
      [\<lparr>so_Event = the (dec_event ex_event), so_Stream = ''WF-w'', so_Sequence = 1\<rparr>]"
    by (rule replay_completes [OF ex_sim_codec ex_sim_uuid r e e' _ _ _ _ ex_events]) (simp_all add: numeral_eq_Suc ex_sim_def)
  then show ?thesis using e e' by auto
qed

theorem replay_lost_with_request_witness:
  "\<exists>e e' s'. CreateSession ex_sim ''w'' 1 (new_ReplayEngine empty_world) = (Inr ''u'', e) \<and>
    replay_run ex_sim (AContextDone ''u'' # replicate 3 (AStep ''u'' True)) e = Some e' \<and> re_session ''u'' e' = Some s' \<and>
    rs_State s' = SessionStateStopped \<and> rs_ReplayedEvents s' = 0"
proof -
  obtain e where e: "CreateSession ex_sim ''w'' 1 (new_ReplayEngine empty_world) = (Inr ''u'', e)" using ex_create by blast
  have r: "replay_run ex_sim [] (new_ReplayEngine empty_world) = Some (new_ReplayEngine empty_world)" by simp
  have "engine_ok ex_sim e" using CreateSession_ok [OF ex_sim_uuid new_ReplayEngine_ok e] by simp
  then obtain e' where e': "replay_run ex_sim (AContextDone ''u'' # replicate 3 (AStep ''u'' True)) e = Some e'"
    using replay_run_ok [OF ex_sim_codec ex_sim_uuid] by blast
  have "3 \<le> count_list (replicate 3 (AStep ''u'' True)) (AStep ''u'' True)" by (simp add: numeral_eq_Suc)
  with replay_lost_with_request [OF ex_sim_codec ex_sim_uuid r e e'] show ?thesis using e e' by auto
qed

text \<open>
  The wait between two events is at most 30 s and not negative where the quotient fits an \<open>int64\<close>;
  a speed so small that it does not fit leaves the wait to the platform, and a negative one is no
  wait at all.
\<close>

lemma replayDelay_bounds:
  assumes "0 < gap" and "0 < speed" and "of_int gap / speed < 2 ^ 63"
  shows "0 \<le> replayDelay env gap speed \<and> replayDelay env gap speed \<le> 30 * 10 ^ 9"
  using assms by (simp add: replayDelay_def Let_def)

lemma replayDelay_overflow:
  assumes "2 ^ 63 \<le> of_int gap / speed" and "sm_overflow env \<le> 0"
  shows "replayDelay env gap speed \<le> 0"
  using assms by (simp add: replayDelay_def Let_def)

end
