(* ===== verification/Scenario.thy ===== *)
theory Scenario
  imports Simulation
begin

text \<open>
  The scenario engine (\<open>core/simulation/scenario.go\<close>): the registry of scenario definitions and the
  sessions that run them. As in the replay engine a session's goroutine runs beside the calls of
  the operator, so \<open>executeScenario\<close> is one step of it, on the session, its goroutine, the
  environment and the session's subscribers; a session and its goroutine share a slot. A panic is
  the result \<open>None\<close>.
\<close>

section \<open>Definitions\<close>

datatype ScenarioSessionState = ScenarioStateRegistered | ScenarioStateRunning | ScenarioStateCompleted | ScenarioStateStopped | ScenarioStateFailed

fun ScenarioState_string :: "ScenarioSessionState \<Rightarrow> string" where
  "ScenarioState_string ScenarioStateRegistered = ''registered''"
| "ScenarioState_string ScenarioStateRunning = ''running''"
| "ScenarioState_string ScenarioStateCompleted = ''completed''"
| "ScenarioState_string ScenarioStateStopped = ''stopped''"
| "ScenarioState_string ScenarioStateFailed = ''failed''"

record StepCondition =
  co_ExpectEventType :: string
  co_TimeoutMs :: int

record 'b ScenarioStep =
  sp_EventType :: string
  sp_DelayMs :: int
  sp_SourceAgent :: string
  sp_TargetAgent :: string
  sp_WorkflowID :: string
  sp_CorrelationID :: string
  sp_PayloadJSON :: 'b
  sp_Metadata :: labels
  sp_Condition :: "StepCondition option"

record 'b ScenarioDefinition =
  sd_ID :: string
  sd_Name :: string
  sd_Description :: string
  sd_Steps :: "'b ScenarioStep list"
  sd_CreatedAt :: int

datatype scenario_error =
    NameRequired
  | StepsEmpty
  | EventTypeRequired nat
  | NegativeDelay nat
  | ExpectEventTypeRequired nat
  | TimeoutNotPositive nat
  | DuplicateName string
  | ScenarioNotFound string
  | ScenarioSessionNotFound string
  | ScenarioNotRunning ScenarioSessionState

fun validateSteps :: "nat \<Rightarrow> 'b ScenarioStep list \<Rightarrow> scenario_error option" where
  "validateSteps i [] = None"
| "validateSteps i (stp # steps) =
     (if sp_EventType stp = [] then Some (EventTypeRequired i)
      else if sp_DelayMs stp < 0 then Some (NegativeDelay i)
      else (case sp_Condition stp of
          None \<Rightarrow> validateSteps (Suc i) steps
        | Some c \<Rightarrow> if co_ExpectEventType c = [] then Some (ExpectEventTypeRequired i)
            else if co_TimeoutMs c \<le> 0 then Some (TimeoutNotPositive i)
            else validateSteps (Suc i) steps))"

definition scenario_Validate :: "'b ScenarioDefinition \<Rightarrow> scenario_error option" where
  "scenario_Validate sd =
     (if sd_Name sd = [] then Some NameRequired else if sd_Steps sd = [] then Some StepsEmpty else validateSteps 0 (sd_Steps sd))"

section \<open>Sessions\<close>

record ScenarioSession =
  ss_ID :: string
  ss_ScenarioID :: string
  ss_ScenarioName :: string
  ss_State :: ScenarioSessionState
  ss_CurrentStep :: nat
  ss_TotalSteps :: nat
  ss_InjectedEvents :: nat
  ss_ErrorMessage :: string
  ss_CreatedAt :: int
  ss_StartedAt :: "int option"
  ss_CompletedAt :: "int option"
  ss_DurationMs :: int

text \<open>The JSON documents of the notifications, before they are printed.\<close>

datatype scenario_data =
    ScenarioEventData string string nat nat nat int
  | ScenarioEndData string string nat int string

record ScenarioEventNotification =
  cn_Name :: string
  cn_Data :: scenario_data

datatype scenario_pc = SStart | SHead | SDelay | SInject | SReport InjectResult nat | SCond StepCondition | SFinish sim_message ScenarioEventNotification | SDone

record 'b execution =
  xe_def :: "'b ScenarioDefinition"
  xe_i :: nat
  xe_startedAt :: int
  xe_cancelled :: bool
  xe_pc :: scenario_pc

text \<open>
  What a step may learn from its environment: whether its timer has fired, and, for a step that
  waits for a condition, why its consumer could not be created or what \<open>Next\<close> answered, each with
  the state of the wait's deadline. After the answers listed, \<open>Next\<close> fails.
\<close>

datatype 'b next_answer = NextFailed bool | NextMsg 'b bool

record 'b step_env =
  sn_fired :: bool
  sn_createErr :: "string option"
  sn_next :: "'b next_answer list"

definition condition_error :: "StepCondition \<Rightarrow> bool \<Rightarrow> string" where
  "condition_error c cancelled =
     (if cancelled then ''cancelled while waiting for '' @ co_ExpectEventType c
      else ''expected '' @ co_ExpectEventType c @ '' within '' @ fmt_d (co_TimeoutMs c) @ ''ms'')"

fun awaitEvent :: "'b sim_env \<Rightarrow> StepCondition \<Rightarrow> bool \<Rightarrow> 'b next_answer list \<Rightarrow> string option" where
  "awaitEvent env c cancelled [] = Some (condition_error c False)"
| "awaitEvent env c cancelled (NextFailed expired # answers) = Some (condition_error c (expired \<and> cancelled))"
| "awaitEvent env c cancelled (NextMsg data expired # answers) =
     (case sv_dec_agent_event (sm_services env) data of
        None \<Rightarrow> awaitEvent env c cancelled answers
      | Some evt \<Rightarrow> if ev_Type evt = co_ExpectEventType c then None
          else if expired then Some (condition_error c cancelled)
          else awaitEvent env c cancelled answers)"

definition waitForCondition :: "'b sim_env \<Rightarrow> StepCondition \<Rightarrow> bool \<Rightarrow> 'b step_env \<Rightarrow> string option" where
  "waitForCondition env c cancelled sn =
     (case sn_createErr sn of
        Some err \<Rightarrow> Some (''create condition consumer: '' @ err)
      | None \<Rightarrow> awaitEvent env c cancelled (sn_next sn))"

fun sseEventName :: "ScenarioSessionState \<Rightarrow> string" where
  "sseEventName ScenarioStateCompleted = ''scenario.complete''"
| "sseEventName ScenarioStateStopped = ''scenario.stopped''"
| "sseEventName ScenarioStateFailed = ''scenario.failed''"
| "sseEventName _ = []"

text \<open>The end of a session: its record is closed here, the messages follow in the next step.\<close>

definition terminateSession :: "'b sim_env \<Rightarrow> ScenarioSessionState \<Rightarrow> string \<Rightarrow> string \<Rightarrow> ScenarioSession \<Rightarrow> 'b execution \<Rightarrow> 'b sim \<Rightarrow>
    ScenarioSession \<times> 'b execution \<times> 'b sim" where
  "terminateSession env state reason errMsg s x m =
     (let (now, m1) = sim_now env m; durationMs = (now - xe_startedAt x) div 1000000; injected = ss_InjectedEvents s;
          s1 = s\<lparr>ss_State := state, ss_CompletedAt := Some now, ss_DurationMs := durationMs\<rparr>;
          s2 = (if errMsg \<noteq> [] then s1\<lparr>ss_ErrorMessage := errMsg\<rparr> else s1)
      in (s2,
          x\<lparr>xe_pc := SFinish (SimulationStop (ss_ID s) reason (of_nat injected) durationMs errMsg)
              \<lparr>cn_Name = sseEventName state, cn_Data = ScenarioEndData (ss_ID s) reason injected durationMs errMsg\<rparr>\<rparr>, m1))"

definition step_request :: "'b ScenarioStep \<Rightarrow> 'b InjectRequest" where
  "step_request stp = \<lparr>ir_EventType = sp_EventType stp, ir_SourceAgent = sp_SourceAgent stp, ir_TargetAgent = sp_TargetAgent stp,
     ir_WorkflowID = sp_WorkflowID stp, ir_CorrelationID = sp_CorrelationID stp, ir_PayloadJSON = sp_PayloadJSON stp, ir_Metadata = sp_Metadata stp\<rparr>"

type_synonym 'b slot = "ScenarioSession \<times> 'b execution \<times> 'b sim"

definition injectStep :: "'b sim_env \<Rightarrow> ScenarioSession \<Rightarrow> 'b execution \<Rightarrow> 'b sim \<Rightarrow> 'b slot" where
  "injectStep env s x m =
     (case Inject env (step_request (sd_Steps (xe_def x) ! xe_i x)) (ss_ID s) (sd_Name (xe_def x)) m of
        (Inl err, m1) \<Rightarrow> terminateSession env ScenarioStateFailed ''error'' (''step '' @ Itoa (xe_i x) @ '': inject failed: '' @ err) s x m1
      | (Inr result, m1) \<Rightarrow>
          (let injected = Suc (ss_InjectedEvents s) in
           (s\<lparr>ss_CurrentStep := Suc (xe_i x), ss_InjectedEvents := injected\<rparr>, x\<lparr>xe_pc := SReport result injected\<rparr>, m1)))"

definition executeScenario :: "'b sim_env \<Rightarrow> 'b step_env \<Rightarrow> ScenarioSession \<Rightarrow> 'b execution \<Rightarrow> 'b sim \<Rightarrow> ScenarioEventNotification watcherSet \<Rightarrow>
    ('b slot \<times> ScenarioEventNotification watcherSet) option" where
  "executeScenario env sn s x m ws =
     (let steps = sd_Steps (xe_def x); stp = steps ! xe_i x in
      case xe_pc x of
        SStart \<Rightarrow>
          (let (startedAt, m1) = sim_now env m;
               (_, m2) = PublishCoordination env ''simulation.start'' (ss_ID s) (SimulationStart (ss_ID s) (sd_Name (xe_def x)) (of_nat (length steps))) m1
           in Some ((s, x\<lparr>xe_startedAt := startedAt, xe_pc := SHead\<rparr>, m2), ws))
      | SHead \<Rightarrow>
          if length steps \<le> xe_i x then Some (terminateSession env ScenarioStateCompleted ''completed'' [] s x m, ws)
          else if xe_cancelled x then Some (terminateSession env ScenarioStateStopped ''operator_request'' [] s x m, ws)
          else Some ((s, x\<lparr>xe_pc := (if 0 < sp_DelayMs stp then SDelay else SInject)\<rparr>, m), ws)
      | SDelay \<Rightarrow>
          if sn_fired sn then Some ((s, x\<lparr>xe_pc := SInject\<rparr>, m), ws)
          else if xe_cancelled x then Some (terminateSession env ScenarioStateStopped ''operator_request'' [] s x m, ws)
          else Some ((s, x, m), ws)
      | SInject \<Rightarrow> Some (injectStep env s x m, ws)
      | SReport result injected \<Rightarrow>
          (let (_, m1) = PublishCoordination env ''simulation.inject_event'' (ss_ID s) (SimulationInjectEvent (ss_ID s) (of_nat (xe_i x)) (sp_EventType stp)) m;
               (ts, m2) = sim_now env m1;
               note1 = \<lparr>cn_Name = ''scenario.event'',
                 cn_Data = ScenarioEventData (in_EventID result) (sp_EventType stp) (xe_i x) (in_Sequence result) injected ts\<rparr>
           in map_option (\<lambda>ws'. ((s, (case sp_Condition stp of Some c \<Rightarrow> x\<lparr>xe_pc := SCond c\<rparr> | None \<Rightarrow> x\<lparr>xe_i := Suc (xe_i x), xe_pc := SHead\<rparr>), m2), ws'))
                (broadcast note1 ws))
      | SCond c \<Rightarrow>
          (case waitForCondition env c (xe_cancelled x) sn of
             Some err \<Rightarrow> Some (terminateSession env ScenarioStateFailed ''condition_timeout'' (''step '' @ Itoa (xe_i x) @ '': '' @ err) s x m, ws)
           | None \<Rightarrow> Some ((s, x\<lparr>xe_i := Suc (xe_i x), xe_pc := SHead\<rparr>, m), ws))
      | SFinish payload n \<Rightarrow>
          (let (_, m1) = PublishCoordination env ''simulation.stop'' (ss_ID s) payload m
           in map_option (\<lambda>ws'. ((s, x\<lparr>xe_pc := SDone\<rparr>, m1), ws')) (terminate n ws))
      | SDone \<Rightarrow> Some ((s, x, m), ws))"

section \<open>The engine\<close>

record 'b scenarioEngine =
  sc_sim :: "'b sim"
  sc_scenarios :: "(string \<times> 'b ScenarioDefinition) list"
  sc_sessions :: "(string \<times> ScenarioSession \<times> 'b execution) list"
  sc_watchers :: "string \<rightharpoonup> ScenarioEventNotification watcherSet"

definition new_ScenarioEngine :: "'b world \<Rightarrow> 'b scenarioEngine" where
  "new_ScenarioEngine w = \<lparr>sc_sim = \<lparr>si_world = w, si_published = []\<rparr>, sc_scenarios = [], sc_sessions = [], sc_watchers = Map.empty\<rparr>"

definition RegisterScenario :: "'b sim_env \<Rightarrow> 'b ScenarioDefinition \<Rightarrow> 'b scenarioEngine \<Rightarrow> (scenario_error + 'b ScenarioDefinition) \<times> 'b scenarioEngine" where
  "RegisterScenario env def e =
     (case scenario_Validate def of
        Some err \<Rightarrow> (Inl err, e)
      | None \<Rightarrow>
          if list_ex (\<lambda>(_, d). sd_Name d = sd_Name def) (sc_scenarios e) then (Inl (DuplicateName (sd_Name def)), e)
          else
            (let (uid, m1) = sim_uuid env (sc_sim e); (now, m2) = sim_now env m1; def1 = def\<lparr>sd_ID := uid, sd_CreatedAt := now\<rparr>
             in (Inr def1, e\<lparr>sc_sim := m2, sc_scenarios := AList.update uid def1 (sc_scenarios e)\<rparr>)))"

definition GetScenario :: "string \<Rightarrow> 'b scenarioEngine \<Rightarrow> 'b ScenarioDefinition option" where
  "GetScenario id1 e = map_of (sc_scenarios e) id1"

definition ListScenarios :: "'b scenarioEngine \<Rightarrow> 'b ScenarioDefinition list" where
  "ListScenarios e = map snd (sc_scenarios e)"

definition put_slot :: "string \<Rightarrow> 'b slot \<Rightarrow> 'b scenarioEngine \<Rightarrow> 'b scenarioEngine" where
  "put_slot sid sl e = (case sl of (s, x, m) \<Rightarrow> e\<lparr>sc_sim := m, sc_sessions := AList.update sid (s, x) (sc_sessions e)\<rparr>)"

definition StartScenario :: "'b sim_env \<Rightarrow> string \<Rightarrow> 'b scenarioEngine \<Rightarrow> (scenario_error + ScenarioSession) \<times> 'b scenarioEngine" where
  "StartScenario env scenarioID e =
     (case GetScenario scenarioID e of
        None \<Rightarrow> (Inl (ScenarioNotFound scenarioID), e)
      | Some def \<Rightarrow>
          (let (sid, m1) = sim_uuid env (sc_sim e); (now, m2) = sim_now env m1;
               s = \<lparr>ss_ID = sid, ss_ScenarioID = sd_ID def, ss_ScenarioName = sd_Name def, ss_State = ScenarioStateRunning, ss_CurrentStep = 0,
                 ss_TotalSteps = length (sd_Steps def), ss_InjectedEvents = 0, ss_ErrorMessage = [], ss_CreatedAt = now, ss_StartedAt = Some now,
                 ss_CompletedAt = None, ss_DurationMs = 0\<rparr>
           in (Inr s, put_slot sid (s, \<lparr>xe_def = def, xe_i = 0, xe_startedAt = 0, xe_cancelled = False, xe_pc = SStart\<rparr>, m2) e)))"

definition cancel_execution :: "string \<Rightarrow> 'b scenarioEngine \<Rightarrow> 'b scenarioEngine" where
  "cancel_execution sid e =
     (case map_of (sc_sessions e) sid of
        None \<Rightarrow> e
      | Some (s, x) \<Rightarrow> put_slot sid (s, x\<lparr>xe_cancelled := True\<rparr>, sc_sim e) e)"

definition scenario_StopSession :: "string \<Rightarrow> 'b scenarioEngine \<Rightarrow> scenario_error option \<times> 'b scenarioEngine" where
  "scenario_StopSession sessionID e =
     (case map_of (sc_sessions e) sessionID of
        None \<Rightarrow> (Some (ScenarioSessionNotFound sessionID), e)
      | Some (s, _) \<Rightarrow> if ss_State s \<noteq> ScenarioStateRunning then (Some (ScenarioNotRunning (ss_State s)), e)
                       else (None, cancel_execution sessionID e))"

definition scenario_GetSession :: "string \<Rightarrow> 'b scenarioEngine \<Rightarrow> ScenarioSession option" where
  "scenario_GetSession sid e = map_option fst (map_of (sc_sessions e) sid)"

definition scenario_ListSessions :: "string \<Rightarrow> 'b scenarioEngine \<Rightarrow> ScenarioSession list" where
  "scenario_ListSessions stateFilter e =
     filter (\<lambda>s. stateFilter = [] \<or> ScenarioState_string (ss_State s) = stateFilter) (map (fst \<circ> snd) (sc_sessions e))"

definition scenario_watcherSet :: "string \<Rightarrow> 'b scenarioEngine \<Rightarrow> ScenarioEventNotification watcherSet" where
  "scenario_watcherSet sid e = (case sc_watchers e sid of Some ws \<Rightarrow> ws | None \<Rightarrow> new_watcherSet)"

definition scenario_WatchSession :: "'b sim_env \<Rightarrow> string \<Rightarrow> 'b scenarioEngine \<Rightarrow> ((scenario_error + string \<times> nat) \<times> 'b scenarioEngine) option" where
  "scenario_WatchSession env sessionID e =
     (if map_of (sc_sessions e) sessionID = None then Some (Inl (ScenarioSessionNotFound sessionID), e)
      else
        (let (clientID, m) = sim_uuid env (sc_sim e) in
         map_option (\<lambda>(ch, ws). (Inr (clientID, ch), e\<lparr>sc_sim := m, sc_watchers := (sc_watchers e)(sessionID \<mapsto> ws)\<rparr>))
           (subscribe clientID (scenario_watcherSet sessionID e))))"

definition execute :: "'b sim_env \<Rightarrow> string \<Rightarrow> 'b step_env \<Rightarrow> 'b scenarioEngine \<Rightarrow> 'b scenarioEngine option" where
  "execute env sid sn e =
     (case map_of (sc_sessions e) sid of
        None \<Rightarrow> Some e
      | Some (s, x) \<Rightarrow> map_option (\<lambda>(sl, ws). put_slot sid sl (e\<lparr>sc_watchers := (sc_watchers e)(sid \<mapsto> ws)\<rparr>))
          (executeScenario env sn s x (sc_sim e) (scenario_watcherSet sid e)))"

datatype 'b scenario_act =
    ARegister "'b ScenarioDefinition"
  | AStart string
  | AHalt string
  | AExpire string
  | AExec string "'b step_env"
  | AAttach string
  | ADetach string string
  | AReceive string nat

fun scenario_exec :: "'b sim_env \<Rightarrow> 'b scenario_act \<Rightarrow> 'b scenarioEngine \<Rightarrow> 'b scenarioEngine option" where
  "scenario_exec env (ARegister def) e = Some (snd (RegisterScenario env def e))"
| "scenario_exec env (AStart scenarioID) e = Some (snd (StartScenario env scenarioID e))"
| "scenario_exec env (AHalt sid) e = Some (snd (scenario_StopSession sid e))"
| "scenario_exec env (AExpire sid) e = Some (cancel_execution sid e)"
| "scenario_exec env (AExec sid sn) e = execute env sid sn e"
| "scenario_exec env (AAttach sid) e = map_option snd (scenario_WatchSession env sid e)"
| "scenario_exec env (ADetach sid c) e = Some (e\<lparr>sc_watchers := (sc_watchers e)(sid \<mapsto> unsubscribe c (scenario_watcherSet sid e))\<rparr>)"
| "scenario_exec env (AReceive sid a) e = Some (e\<lparr>sc_watchers := (sc_watchers e)(sid \<mapsto> snd (receive a (scenario_watcherSet sid e)))\<rparr>)"

fun scenario_run :: "'b sim_env \<Rightarrow> 'b scenario_act list \<Rightarrow> 'b scenarioEngine \<Rightarrow> 'b scenarioEngine option" where
  "scenario_run env [] e = Some e"
| "scenario_run env (a # acts) e = Option.bind (scenario_exec env a e) (scenario_run env acts)"

end
