(* ===== verification/ScenarioProps.thy ===== *)
theory ScenarioProps
  imports Scenario
begin

text \<open>
  What the scenario engine guarantees in every interleaving: the invariant \<open>scenario_ok\<close> of the
  registered scenarios, the sessions and the published messages, and a bound on the steps of a
  session. Shown: scenarios are injected exactly, every session ends, and a session that is stopped
  while it waits for a condition ends as failed.
\<close>

section \<open>One session\<close>

definition synthetic_of_msg :: "'b sim_env \<Rightarrow> string \<Rightarrow> 'b js_msg \<Rightarrow> 'b event option" where
  "synthetic_of_msg env sid msg =
     (case sv_dec_agent_event (sm_services env) (snd (snd msg)) of
        Some e \<Rightarrow> if fst msg = syntheticSubject \<and> ev_ID e = fst (snd msg) \<and> ev_Metadata e ''simulation.session_id'' = Some sid then Some e else None
      | None \<Rightarrow> None)"

text \<open>The events a session has injected, as they are decoded from the messages JetStream has accepted.\<close>

definition synthetics_of :: "'b sim_env \<Rightarrow> string \<Rightarrow> 'b js_msg list \<Rightarrow> 'b event list" where
  "synthetics_of env sid msgs = List.map_filter (synthetic_of_msg env sid) msgs"

definition is_synthetic :: "'b sim_env \<Rightarrow> string \<Rightarrow> string \<Rightarrow> 'b event \<Rightarrow> 'b ScenarioStep \<Rightarrow> bool" where
  "is_synthetic env sid name e stp \<longleftrightarrow> e = synthetic_event env (step_request stp) sid name (ev_ID e) (ev_Timestamp e)"

lemma synthetics_of_append [simp]: "synthetics_of env sid (xs @ ys) = synthetics_of env sid xs @ synthetics_of env sid ys" "synthetics_of env sid [] = []"
  by (simp_all add: synthetics_of_def map_filter_def)

fun xpc_ok :: "ScenarioSession \<Rightarrow> 'b execution \<Rightarrow> scenario_pc \<Rightarrow> bool" where
  "xpc_ok s x SStart \<longleftrightarrow> ss_State s = ScenarioStateRunning \<and> ss_InjectedEvents s = xe_i x"
| "xpc_ok s x SHead \<longleftrightarrow> ss_State s = ScenarioStateRunning \<and> ss_InjectedEvents s = xe_i x"
| "xpc_ok s x SDelay \<longleftrightarrow> ss_State s = ScenarioStateRunning \<and> ss_InjectedEvents s = xe_i x \<and> xe_i x < length (sd_Steps (xe_def x))"
| "xpc_ok s x SInject \<longleftrightarrow> ss_State s = ScenarioStateRunning \<and> ss_InjectedEvents s = xe_i x \<and> xe_i x < length (sd_Steps (xe_def x))"
| "xpc_ok s x (SReport r k) \<longleftrightarrow> ss_State s = ScenarioStateRunning \<and> ss_InjectedEvents s = Suc (xe_i x) \<and> xe_i x < length (sd_Steps (xe_def x))"
| "xpc_ok s x (SCond c) \<longleftrightarrow> ss_State s = ScenarioStateRunning \<and> ss_InjectedEvents s = Suc (xe_i x) \<and> xe_i x < length (sd_Steps (xe_def x))"
| "xpc_ok s x _ \<longleftrightarrow> ss_State s \<in> {ScenarioStateCompleted, ScenarioStateStopped, ScenarioStateFailed} \<and>
     (ss_State s = ScenarioStateCompleted \<longrightarrow> ss_InjectedEvents s = length (sd_Steps (xe_def x)))"

definition xsession_ok :: "'b sim_env \<Rightarrow> string \<Rightarrow> ScenarioSession \<Rightarrow> 'b execution \<Rightarrow> 'b js_msg list \<Rightarrow> bool" where
  "xsession_ok env sid s x msgs \<longleftrightarrow> ss_ID s = sid \<and> ss_ScenarioName s = sd_Name (xe_def x) \<and> ss_TotalSteps s = length (sd_Steps (xe_def x)) \<and>
     ss_InjectedEvents s \<le> length (sd_Steps (xe_def x)) \<and> ss_CurrentStep s = ss_InjectedEvents s \<and> xpc_ok s x (xe_pc x) \<and>
     scenario_Validate (xe_def x) = None \<and>
     list_all2 (is_synthetic env sid (sd_Name (xe_def x))) (synthetics_of env sid msgs) (take (ss_InjectedEvents s) (sd_Steps (xe_def x)))"

text \<open>How a step may change what is published: it adds synthetic events of its own session only.\<close>

definition own_growth :: "'b sim_env \<Rightarrow> string \<Rightarrow> 'b sim \<Rightarrow> 'b sim \<Rightarrow> bool" where
  "own_growth env sid m m' \<longleftrightarrow> w_uuids (si_world m) \<le> w_uuids (si_world m') \<and>
     (\<forall>sid'. sid' \<noteq> sid \<longrightarrow> synthetics_of env sid' (si_published m') = synthetics_of env sid' (si_published m)) \<and>
     (list_all (\<lambda>msg. fst msg = syntheticSubject) (si_published m) \<longrightarrow> list_all (\<lambda>msg. fst msg = syntheticSubject) (si_published m'))"

lemma own_growth_quiet: "si_published m' = si_published m \<Longrightarrow> w_uuids (si_world m) \<le> w_uuids (si_world m') \<Longrightarrow> own_growth env sid m m'"
  by (simp add: own_growth_def)

lemma xpc_ok_cancel [simp]: "xpc_ok s (x\<lparr>xe_cancelled := b\<rparr>) c = xpc_ok s x c"
  by (cases c) auto

lemma terminateSession_ok:
  assumes "terminateSession env state reason err s x m = (s', x', m')" and "xsession_ok env sid s x (si_published m)"
    and "state \<in> {ScenarioStateCompleted, ScenarioStateStopped, ScenarioStateFailed}"
    and "state = ScenarioStateCompleted \<longrightarrow> ss_InjectedEvents s = length (sd_Steps (xe_def x))"
  shows "xsession_ok env sid s' x' (si_published m') \<and> own_growth env sid m m' \<and> ss_State s' = state \<and> xe_def x' = xe_def x \<and> xe_cancelled x' = xe_cancelled x \<and>
    ss_InjectedEvents s' = ss_InjectedEvents s \<and> (\<exists>p n. xe_pc x' = SFinish p n)"
proof -
  obtain t m1 where m1: "sim_now env m = (t, m1)" by fastforce
  have "si_published m1 = si_published m" "w_uuids (si_world m1) = w_uuids (si_world m)" using sim_now_sim [of env m] m1 by simp_all
  then have g: "own_growth env sid m m1" "si_published m1 = si_published m" by (simp_all add: own_growth_quiet)
  have "m' = m1" "xe_def x' = xe_def x" "xe_cancelled x' = xe_cancelled x" "\<exists>p n. xe_pc x' = SFinish p n" "ss_State s' = state"
    "ss_InjectedEvents s' = ss_InjectedEvents s" "ss_ID s' = ss_ID s" "ss_ScenarioName s' = ss_ScenarioName s" "ss_TotalSteps s' = ss_TotalSteps s" "ss_CurrentStep s' = ss_CurrentStep s"
    using assms(1) m1 by (auto simp: terminateSession_def Let_def split: if_splits)
  then show ?thesis using assms(2-4) g by (auto simp: xsession_ok_def)
qed

lemma injectStep_ok:
  assumes "codec_ok env" and "sid \<noteq> []" and "xsession_ok env sid s x (si_published m)" and "xe_pc x = SInject" and "injectStep env s x m = (s', x', m')"
  shows "xsession_ok env sid s' x' (si_published m') \<and> own_growth env sid m m'"
proof -
  let ?stp = "sd_Steps (xe_def x) ! xe_i x" and ?name = "sd_Name (xe_def x)"
  have o1: "ss_State s = ScenarioStateRunning" "ss_InjectedEvents s = xe_i x" "xe_i x < length (sd_Steps (xe_def x))" "ss_ID s = sid"
    using assms(3,4) by (simp_all add: xsession_ok_def)
  obtain res m1 where i: "Inject env (step_request ?stp) sid ?name m = (res, m1)" by fastforce
  note isim = Inject_sim [OF i]
  show ?thesis
  proof (cases res)
    case (Inl err)
    have t: "terminateSession env ScenarioStateFailed ''error'' (''step '' @ Itoa (xe_i x) @ '': inject failed: '' @ err) s x m1 = (s', x', m')"
      using assms(5) i Inl o1(4) by (simp add: injectStep_def)
    have "own_growth env sid m m1" "xsession_ok env sid s x (si_published m1)" using isim Inl assms(3) by (simp_all add: own_growth_quiet)
    then show ?thesis using terminateSession_ok [OF t, of sid] by (auto simp: own_growth_def)
  next
    case (Inr r)
    obtain data ts where d: "sv_marshal (sm_services env) (MAgentEvent (synthetic_event env (step_request ?stp) sid ?name (in_EventID r) ts)) = Some data"
      "si_published m1 = si_published m @ [(syntheticSubject, in_EventID r, data)]" using isim Inr by auto
    let ?e = "synthetic_event env (step_request ?stp) sid ?name (in_EventID r) ts"
    have "sv_dec_agent_event (sm_services env) data = Some ?e" using assms(1) d(1) by (simp add: codec_ok_def)
    then have one: "synthetics_of env sid' [(syntheticSubject, in_EventID r, data)] = (if sid' = sid then [?e] else [])" for sid'
      using assms(2) by (auto simp: synthetics_of_def synthetic_of_msg_def map_filter_def synthetic_event_def synthetic_meta_def Let_def)
    have "is_synthetic env sid ?name ?e ?stp" by (simp add: is_synthetic_def synthetic_event_def)
    then have "list_all2 (is_synthetic env sid ?name) (synthetics_of env sid (si_published m1)) (take (Suc (ss_InjectedEvents s)) (sd_Steps (xe_def x)))"
      using assms(3) o1 d(2) one by (simp add: xsession_ok_def take_Suc_conv_app_nth list_all2_appendI)
    then show ?thesis using assms(3,5) o1 i Inr isim d(2) one by (auto simp: injectStep_def Let_def xsession_ok_def own_growth_def)
  qed
qed

lemma executeScenario_ok:
  assumes "codec_ok env" and "sid \<noteq> []" and "xsession_ok env sid s x (si_published m)" and "watchers_ok ws"
  shows "\<exists>s' x' m' ws'. executeScenario env sn s x m ws = Some ((s', x', m'), ws') \<and> xsession_ok env sid s' x' (si_published m') \<and> own_growth env sid m m' \<and> watchers_ok ws'"
proof -
  have halt: ?thesis if "executeScenario env sn s x m ws = Some (terminateSession env state reason err s x m, ws)"
    "state \<in> {ScenarioStateCompleted, ScenarioStateStopped, ScenarioStateFailed}"
    "state = ScenarioStateCompleted \<longrightarrow> ss_InjectedEvents s = length (sd_Steps (xe_def x))" for state reason err
    using that terminateSession_ok [OF _ assms(3) that(2,3)] assms(4) by (metis prod.collapse)
  have move: ?thesis if "executeScenario env sn s x m ws = Some ((s, x', m'), ws')" "xe_def x' = xe_def x" "xpc_ok s x' (xe_pc x')"
    "si_published m' = si_published m" "w_uuids (si_world m) \<le> w_uuids (si_world m')" "watchers_ok ws'" for x' m' ws'
    using that assms(3) by (auto simp: xsession_ok_def own_growth_quiet)
  have o1: "xpc_ok s x (xe_pc x)" "ss_InjectedEvents s \<le> length (sd_Steps (xe_def x))" using assms(3) by (simp_all add: xsession_ok_def)
  show ?thesis
  proof (cases "xe_pc x")
    case SStart
    obtain t m1 where m1: "sim_now env m = (t, m1)" by fastforce
    obtain ok m2 where m2: "PublishCoordination env ''simulation.start'' (ss_ID s)
        (SimulationStart (ss_ID s) (sd_Name (xe_def x)) (of_nat (length (sd_Steps (xe_def x))))) m1 = (ok, m2)" by fastforce
    have "executeScenario env sn s x m ws = Some ((s, x\<lparr>xe_startedAt := t, xe_pc := SHead\<rparr>, m2), ws)" using SStart by (simp add: executeScenario_def m1 m2)
    then show ?thesis using move [of "x\<lparr>xe_startedAt := t, xe_pc := SHead\<rparr>" m2 ws] o1 SStart assms(4) sim_now_sim [of env m] m1
        coordinate_sim [OF m2 [unfolded PublishCoordination_def]] by simp
  next
    case SHead
    show ?thesis
    proof (cases "length (sd_Steps (xe_def x)) \<le> xe_i x")
      case True
      show ?thesis by (rule halt [of ScenarioStateCompleted "''completed''" "[]"]) (use True SHead o1 in \<open>simp_all add: executeScenario_def\<close>)
    next
      case False
      let ?x = "x\<lparr>xe_pc := (if 0 < sp_DelayMs (sd_Steps (xe_def x) ! xe_i x) then SDelay else SInject)\<rparr>"
      have e: "executeScenario env sn s x m ws =
          (if xe_cancelled x then Some (terminateSession env ScenarioStateStopped ''operator_request'' [] s x m, ws) else Some ((s, ?x, m), ws))"
        using SHead False by (simp add: executeScenario_def)
      show ?thesis
      proof (cases "xe_cancelled x")
        case True
        show ?thesis by (rule halt [of ScenarioStateStopped "''operator_request''" "[]"]) (use e True in simp_all)
      next
        case nc: False
        show ?thesis by (rule move [of ?x m ws]) (use e nc o1 SHead False assms(4) in auto)
      qed
    qed
  next
    case SDelay
    have e: "executeScenario env sn s x m ws =
        (if sn_fired sn then Some ((s, x\<lparr>xe_pc := SInject\<rparr>, m), ws)
         else if xe_cancelled x then Some (terminateSession env ScenarioStateStopped ''operator_request'' [] s x m, ws) else Some ((s, x, m), ws))"
      using SDelay by (simp add: executeScenario_def)
    show ?thesis
    proof (cases "\<not> sn_fired sn \<and> xe_cancelled x")
      case True
      show ?thesis by (rule halt [of ScenarioStateStopped "''operator_request''" "[]"]) (use e True in simp_all)
    next
      case False
      show ?thesis by (rule move [of "if sn_fired sn then x\<lparr>xe_pc := SInject\<rparr> else x" m ws]) (use e False o1 SDelay assms(4) in auto)
    qed
  next
    case SInject
    obtain s' x' m' where "injectStep env s x m = (s', x', m')" by (metis prod.collapse)
    then show ?thesis using injectStep_ok [OF assms(1-3) SInject] SInject assms(4) by (simp add: executeScenario_def)
  next
    case (SReport r k)
    let ?stp = "sd_Steps (xe_def x) ! xe_i x"
    obtain ok m1 where m1: "PublishCoordination env ''simulation.inject_event'' (ss_ID s) (SimulationInjectEvent (ss_ID s) (of_nat (xe_i x)) (sp_EventType ?stp)) m = (ok, m1)"
      by fastforce
    obtain t m2 where m2: "sim_now env m1 = (t, m2)" by fastforce
    obtain ws' where ws: "broadcast \<lparr>cn_Name = ''scenario.event'', cn_Data = ScenarioEventData (in_EventID r) (sp_EventType ?stp) (xe_i x) (in_Sequence r) k t\<rparr> ws = Some ws'"
      "watchers_ok ws'" using broadcast_ok [OF assms(4)] by blast
    have "executeScenario env sn s x m ws =
        Some ((s, (case sp_Condition ?stp of Some c \<Rightarrow> x\<lparr>xe_pc := SCond c\<rparr> | None \<Rightarrow> x\<lparr>xe_i := Suc (xe_i x), xe_pc := SHead\<rparr>), m2), ws')"
      using SReport by (simp add: executeScenario_def m1 m2 ws(1) Let_def)
    from move [OF this] show ?thesis using o1 SReport ws(2) sim_now_sim [of env m1] m2 coordinate_sim [OF m1 [unfolded PublishCoordination_def]]
      by (auto split: option.splits)
  next
    case (SCond c)
    show ?thesis
    proof (cases "waitForCondition env c (xe_cancelled x) sn")
      case None
      show ?thesis by (rule move [of "x\<lparr>xe_i := Suc (xe_i x), xe_pc := SHead\<rparr>" m ws]) (use None SCond o1 assms(4) in \<open>simp_all add: executeScenario_def\<close>)
    next
      case (Some err)
      show ?thesis
        by (rule halt [of ScenarioStateFailed "''condition_timeout''" "''step '' @ Itoa (xe_i x) @ '': '' @ err"])
          (use Some SCond in \<open>simp_all add: executeScenario_def\<close>)
    qed
  next
    case (SFinish p n)
    obtain ok m1 where m1: "PublishCoordination env ''simulation.stop'' (ss_ID s) p m = (ok, m1)" by fastforce
    obtain ws' where ws: "terminate n ws = Some ws'" "watchers_ok ws'" using terminate_ok [OF assms(4)] by blast
    have "executeScenario env sn s x m ws = Some ((s, x\<lparr>xe_pc := SDone\<rparr>, m1), ws')" using SFinish by (simp add: executeScenario_def m1 ws(1) Let_def)
    then show ?thesis using move o1 SFinish ws(2) coordinate_sim [OF m1 [unfolded PublishCoordination_def]] by simp
  next
    case SDone
    then show ?thesis using move [of x m ws] o1 assms(4) by (simp add: executeScenario_def)
  qed
qed

section \<open>The engine\<close>

definition uuids_ok :: "'b sim_env \<Rightarrow> bool" where
  "uuids_ok env \<longleftrightarrow> inj (sv_uuid (sm_services env)) \<and> (\<forall>n. sv_uuid (sm_services env) n \<noteq> [])"

definition drawn :: "'b sim_env \<Rightarrow> 'b sim \<Rightarrow> string set" where
  "drawn env m = sv_uuid (sm_services env) ` {..<w_uuids (si_world m)}"

definition xslot_ok :: "'b sim_env \<Rightarrow> string \<Rightarrow> (ScenarioSession \<times> 'b execution) option \<Rightarrow> 'b sim \<Rightarrow> bool" where
  "xslot_ok env sid so m \<longleftrightarrow>
     (case so of
        None \<Rightarrow> synthetics_of env sid (si_published m) = []
      | Some (s, x) \<Rightarrow> xsession_ok env sid s x (si_published m) \<and> sid \<in> drawn env m)"

definition scenarios_ok :: "'b sim_env \<Rightarrow> (string \<times> 'b ScenarioDefinition) list \<Rightarrow> 'b sim \<Rightarrow> bool" where
  "scenarios_ok env defs m \<longleftrightarrow> distinct (map (\<lambda>(_, d). sd_Name d) defs) \<and> fst ` set defs \<subseteq> drawn env m \<and>
     list_all (\<lambda>(uid, d). sd_ID d = uid \<and> scenario_Validate d = None) defs"

definition scenario_ok :: "'b sim_env \<Rightarrow> 'b scenarioEngine \<Rightarrow> bool" where
  "scenario_ok env e \<longleftrightarrow> (\<forall>sid. xslot_ok env sid (map_of (sc_sessions e) sid) (sc_sim e)) \<and>
     (\<forall>sid ws. sc_watchers e sid = Some ws \<longrightarrow> watchers_ok ws) \<and>
     list_all (\<lambda>msg. fst msg = syntheticSubject) (si_published (sc_sim e)) \<and> scenarios_ok env (sc_scenarios e) (sc_sim e)"

lemma drawn_mono: "w_uuids (si_world m) \<le> w_uuids (si_world m') \<Longrightarrow> drawn env m \<subseteq> drawn env m'"
  by (auto simp: drawn_def)

lemma fresh_uuid: "uuids_ok env \<Longrightarrow> sv_uuid (sm_services env) (w_uuids (si_world m)) \<notin> drawn env m"
  by (auto simp: uuids_ok_def drawn_def dest: injD)

lemma xslot_ok_mono:
  assumes "xslot_ok env sid so m" and "w_uuids (si_world m) \<le> w_uuids (si_world m')"
    and "synthetics_of env sid (si_published m') = synthetics_of env sid (si_published m)"
  shows "xslot_ok env sid so m'"
  using assms drawn_mono [OF assms(2), of env] by (auto simp: xslot_ok_def xsession_ok_def split: option.splits prod.splits)

lemma put_slot_ok:
  assumes "scenario_ok env e" and "xsession_ok env sid s x (si_published m)" and "sid \<in> drawn env m" and "own_growth env sid (sc_sim e) m"
  shows "scenario_ok env (put_slot sid (s, x, m) e)"
proof -
  have "xslot_ok env sid' (if sid' = sid then Some (s, x) else map_of (sc_sessions e) sid') m" for sid'
    using assms xslot_ok_mono [of env sid' "map_of (sc_sessions e) sid'" "sc_sim e" m]
    by (cases "sid' = sid") (auto simp: xslot_ok_def [of env sid "Some (s, x)"] scenario_ok_def own_growth_def)
  moreover have "map_of (AList.update sid (s, x) (sc_sessions e)) sid' = (if sid' = sid then Some (s, x) else map_of (sc_sessions e) sid')" for sid'
    by (simp add: update_conv)
  ultimately show ?thesis using assms(1,4) drawn_mono [of "sc_sim e" m env]
    by (auto simp: scenario_ok_def put_slot_def own_growth_def scenarios_ok_def)
qed

lemma scenario_watchers_ok: "scenario_ok env e \<Longrightarrow> watchers_ok (scenario_watcherSet sid e)"
  by (auto simp: scenario_ok_def scenario_watcherSet_def new_watcherSet_ok split: option.split)

lemma set_watchers_ok: "scenario_ok env e \<Longrightarrow> watchers_ok ws \<Longrightarrow> scenario_ok env (e\<lparr>sc_watchers := (sc_watchers e)(sid \<mapsto> ws)\<rparr>)"
  by (auto simp: scenario_ok_def)

lemma scenario_slot:
  assumes "scenario_ok env e" and "map_of (sc_sessions e) sid = Some (s, x)"
  shows "xsession_ok env sid s x (si_published (sc_sim e)) \<and> sid \<in> drawn env (sc_sim e)"
proof -
  have "xslot_ok env sid (map_of (sc_sessions e) sid) (sc_sim e)" using assms(1) by (simp add: scenario_ok_def)
  then show ?thesis using assms(2) by (simp add: xslot_ok_def)
qed

lemma execute_ok:
  assumes "codec_ok env" and "uuids_ok env" and "scenario_ok env e"
  shows "\<exists>e'. execute env sid sn e = Some e' \<and> scenario_ok env e'"
proof (cases "map_of (sc_sessions e) sid")
  case None
  then show ?thesis using assms(3) by (simp add: execute_def)
next
  case (Some sx)
  obtain s x where sx: "sx = (s, x)" by fastforce
  have o1: "xsession_ok env sid s x (si_published (sc_sim e))" "sid \<in> drawn env (sc_sim e)" using scenario_slot [OF assms(3)] Some sx by simp_all
  then have "sid \<noteq> []" using assms(2) by (auto simp: drawn_def uuids_ok_def)
  from executeScenario_ok [OF assms(1) this o1(1) scenario_watchers_ok [OF assms(3), of sid]] obtain s' x' m' ws'
    where r: "executeScenario env sn s x (sc_sim e) (scenario_watcherSet sid e) = Some ((s', x', m'), ws')" "xsession_ok env sid s' x' (si_published m')"
      "own_growth env sid (sc_sim e) m'" "watchers_ok ws'" by blast
  have d: "sid \<in> drawn env m'" using o1(2) drawn_mono [of "sc_sim e" m' env] r(3) by (auto simp: own_growth_def)
  show ?thesis using put_slot_ok [OF set_watchers_ok [OF assms(3) r(4)] r(2) d] r(1,3) Some sx by (simp add: execute_def)
qed

lemma cancel_execution_ok: "scenario_ok env e \<Longrightarrow> scenario_ok env (cancel_execution sid e)"
proof -
  assume ok: "scenario_ok env e"
  have "scenario_ok env (put_slot sid (s, x\<lparr>xe_cancelled := True\<rparr>, sc_sim e) e)" if "map_of (sc_sessions e) sid = Some (s, x)" for s x
    using scenario_slot [OF ok that] by (intro put_slot_ok [OF ok]) (auto simp: xsession_ok_def own_growth_quiet)
  then show ?thesis using ok by (auto simp: cancel_execution_def split: option.split prod.split)
qed

lemma scenario_quiet:
  assumes "scenario_ok env e" and "si_published m = si_published (sc_sim e)" and "w_uuids (si_world (sc_sim e)) \<le> w_uuids (si_world m)"
  shows "scenario_ok env (e\<lparr>sc_sim := m\<rparr>)"
  using assms xslot_ok_mono [OF _ assms(3)] drawn_mono [OF assms(3), of env] by (auto simp: scenario_ok_def scenarios_ok_def)

lemma update_new: "k \<notin> fst ` set al \<Longrightarrow> AList.update k v al = al @ [(k, v)]"
  by (induction al) auto

lemma RegisterScenario_ok:
  assumes "uuids_ok env" and "scenario_ok env e"
  shows "scenario_ok env (snd (RegisterScenario env def e))"
proof (cases "scenario_Validate def = None \<and> \<not> list_ex (\<lambda>(_, d). sd_Name d = sd_Name def) (sc_scenarios e)")
  case True
  let ?uid = "sv_uuid (sm_services env) (w_uuids (si_world (sc_sim e)))"
  obtain m1 where m1: "sim_uuid env (sc_sim e) = (?uid, m1)" "si_published m1 = si_published (sc_sim e)"
    "w_uuids (si_world m1) = Suc (w_uuids (si_world (sc_sim e)))" using sim_uuid_sim [of env "sc_sim e"] by (metis prod.collapse)
  obtain t m2 where m2: "sim_now env m1 = (t, m2)" by fastforce
  have m2': "si_published m2 = si_published (sc_sim e)" "w_uuids (si_world m2) = Suc (w_uuids (si_world (sc_sim e)))" using sim_now_sim [of env m1] m1 m2 by simp_all
  let ?def = "def\<lparr>sd_ID := ?uid, sd_CreatedAt := t\<rparr>"
  have "?uid \<notin> fst ` set (sc_scenarios e)" using assms fresh_uuid [OF assms(1), of "sc_sim e"] by (auto simp: scenario_ok_def scenarios_ok_def)
  then have u: "AList.update ?uid ?def (sc_scenarios e) = sc_scenarios e @ [(?uid, ?def)]"
    by (rule update_new)
  have v: "scenario_Validate ?def = None" using True by (simp add: scenario_Validate_def split: if_splits)
  have d: "?uid \<in> drawn env m2" using m2'(2) by (auto simp: drawn_def)
  have "scenario_ok env (e\<lparr>sc_sim := m2\<rparr>)" using assms(2) m2' by (intro scenario_quiet) simp_all
  then have "scenario_ok env (e\<lparr>sc_sim := m2, sc_scenarios := AList.update ?uid ?def (sc_scenarios e)\<rparr>)"
    using True v d unfolding u by (auto simp: scenario_ok_def scenarios_ok_def list_ex_iff)
  then show ?thesis using True by (simp add: RegisterScenario_def m1(1) m2 Let_def)
next
  case False
  then show ?thesis using assms(2) by (auto simp: RegisterScenario_def split: option.split)
qed

lemma StartScenario_new:
  assumes "uuids_ok env" and "scenario_ok env e" and "StartScenario env scenarioID e = (Inr s, e')"
  shows "map_of (sc_sessions e) (ss_ID s) = None \<and> scenario_ok env e' \<and> (\<exists>def x. GetScenario scenarioID e = Some def \<and> map_of (sc_sessions e') (ss_ID s) = Some (s, x) \<and>
    xe_def x = def \<and> xe_pc x = SStart \<and> \<not> xe_cancelled x \<and> xe_i x = 0 \<and> ss_State s = ScenarioStateRunning)"
proof -
  obtain def where def: "GetScenario scenarioID e = Some def" using assms(3) by (auto simp: StartScenario_def split: option.splits)
  let ?sid = "sv_uuid (sm_services env) (w_uuids (si_world (sc_sim e)))"
  obtain m1 where m1: "sim_uuid env (sc_sim e) = (?sid, m1)" "si_published m1 = si_published (sc_sim e)"
    "w_uuids (si_world m1) = Suc (w_uuids (si_world (sc_sim e)))" using sim_uuid_sim [of env "sc_sim e"] by (metis prod.collapse)
  obtain t m2 where m2: "sim_now env m1 = (t, m2)" by fastforce
  have m2': "si_published m2 = si_published (sc_sim e)" "w_uuids (si_world m2) = Suc (w_uuids (si_world (sc_sim e)))" using sim_now_sim [of env m1] m1 m2 by simp_all
  let ?x = "\<lparr>xe_def = def, xe_i = 0, xe_startedAt = 0, xe_cancelled = False, xe_pc = SStart\<rparr>"
  have s: "s = \<lparr>ss_ID = ?sid, ss_ScenarioID = sd_ID def, ss_ScenarioName = sd_Name def, ss_State = ScenarioStateRunning, ss_CurrentStep = 0,
      ss_TotalSteps = length (sd_Steps def), ss_InjectedEvents = 0, ss_ErrorMessage = [], ss_CreatedAt = t, ss_StartedAt = Some t,
      ss_CompletedAt = None, ss_DurationMs = 0\<rparr>" "e' = put_slot ?sid (s, ?x, m2) e"
    using assms(3) def by (auto simp: StartScenario_def m1(1) m2 Let_def)
  have slot: "xslot_ok env ?sid (map_of (sc_sessions e) ?sid) (sc_sim e)" using assms(2) by (simp add: scenario_ok_def)
  then have new: "map_of (sc_sessions e) ?sid = None" "synthetics_of env ?sid (si_published (sc_sim e)) = []"
    using fresh_uuid [OF assms(1), of "sc_sim e"] by (auto simp: xslot_ok_def split: option.splits prod.splits)
  have "(scenarioID, def) \<in> set (sc_scenarios e)" using def by (simp add: GetScenario_def map_of_SomeD)
  then have v: "scenario_Validate def = None" using assms(2) by (auto simp: scenario_ok_def scenarios_ok_def list_all_iff)
  have "scenario_ok env (put_slot ?sid (s, ?x, m2) e)"
    by (rule put_slot_ok [OF assms(2)]) (use s(1) new(2) m2' v in \<open>auto simp: xsession_ok_def drawn_def own_growth_quiet\<close>)
  then show ?thesis using s(2) new(1) def by (auto simp: s(1) put_slot_def update_conv)
qed

lemma scenario_exec_ok:
  assumes "codec_ok env" and "uuids_ok env" and "scenario_ok env e"
  shows "\<exists>e'. scenario_exec env a e = Some e' \<and> scenario_ok env e'"
proof (cases a)
  case (ARegister def)
  then show ?thesis using RegisterScenario_ok [OF assms(2,3)] by simp
next
  case (AStart scenarioID)
  obtain res e1 where s: "StartScenario env scenarioID e = (res, e1)" by fastforce
  have "scenario_ok env e1"
  proof (cases res)
    case (Inl err)
    then have "e1 = e" using s by (auto simp: StartScenario_def Let_def split: option.splits prod.splits)
    then show ?thesis using assms(3) by simp
  next
    case (Inr t)
    then show ?thesis using StartScenario_new [OF assms(2,3)] s by simp
  qed
  then show ?thesis using AStart s by simp
next
  case (AHalt sid)
  then show ?thesis using assms(3) cancel_execution_ok [OF assms(3), of sid] by (auto simp: scenario_StopSession_def split: option.split)
next
  case (AExec sid sn)
  then show ?thesis using execute_ok [OF assms] by simp
next
  case (AAttach sid)
  obtain c m where m: "sim_uuid env (sc_sim e) = (c, m)" by fastforce
  have ok: "scenario_ok env (e\<lparr>sc_sim := m\<rparr>)" using sim_uuid_sim [of env "sc_sim e"] m by (intro scenario_quiet [OF assms(3)]) simp_all
  obtain ch ws where ws: "subscribe c (scenario_watcherSet sid e) = Some (ch, ws)" "watchers_ok ws" using subscribe_ok [OF scenario_watchers_ok [OF assms(3)]] by blast
  then show ?thesis using AAttach assms(3) m set_watchers_ok [OF ok ws(2), of sid] by (simp add: scenario_WatchSession_def)
next
  case (ADetach sid c)
  then show ?thesis using set_watchers_ok [OF assms(3) unsubscribe_ok [OF scenario_watchers_ok [OF assms(3)]]] by simp
next
  case (AReceive sid c)
  then show ?thesis using set_watchers_ok [OF assms(3)] receive_ok [OF scenario_watchers_ok [OF assms(3)]] by simp
qed (use assms(3) cancel_execution_ok in simp)

lemma scenario_run_ok:
  assumes "codec_ok env" and "uuids_ok env" and "scenario_ok env e"
  shows "\<exists>e'. scenario_run env acts e = Some e' \<and> scenario_ok env e'"
  using assms(3)
proof (induction acts arbitrary: e)
  case (Cons a acts)
  then show ?case using scenario_exec_ok [OF assms(1,2) Cons.prems, of a] by auto
qed simp

lemma new_ScenarioEngine_ok: "scenario_ok env (new_ScenarioEngine w)"
  by (simp add: scenario_ok_def xslot_ok_def scenarios_ok_def new_ScenarioEngine_def)


section \<open>Sessions end\<close>

fun xsteps_left :: "'b execution \<Rightarrow> scenario_pc \<Rightarrow> nat" where
  "xsteps_left x SStart = 5 * (length (sd_Steps (xe_def x)) - xe_i x) + 3"
| "xsteps_left x SHead = 5 * (length (sd_Steps (xe_def x)) - xe_i x) + 2"
| "xsteps_left x SDelay = 5 * (length (sd_Steps (xe_def x)) - xe_i x) + 1"
| "xsteps_left x SInject = 5 * (length (sd_Steps (xe_def x)) - xe_i x)"
| "xsteps_left x (SReport r k) = 5 * (length (sd_Steps (xe_def x)) - xe_i x) - 1"
| "xsteps_left x (SCond c) = 5 * (length (sd_Steps (xe_def x)) - xe_i x) - 2"
| "xsteps_left x (SFinish p n) = 1"
| "xsteps_left x SDone = 0"

lemma xsteps_left_cancel [simp]: "xsteps_left (x\<lparr>xe_cancelled := b\<rparr>) c = xsteps_left x c"
  by (cases c) simp_all

lemma terminateSession_pc: "terminateSession env st rs err s x m = (s', x', m') \<Longrightarrow> xe_def x' = xe_def x \<and> (\<exists>p n. xe_pc x' = SFinish p n)"
  by (auto simp: terminateSession_def Let_def split: prod.splits)

lemma executeScenario_left:
  assumes "xsession_ok env sid s x msgs" and "executeScenario env sn s x m ws = Some ((s', x', m'), ws')"
  shows "xsteps_left x' (xe_pc x') \<le> (if sn_fired sn then xsteps_left x (xe_pc x) - 1 else xsteps_left x (xe_pc x))"
proof -
  have "xpc_ok s x (xe_pc x)" "ss_InjectedEvents s \<le> length (sd_Steps (xe_def x))" using assms(1) by (simp_all add: xsession_ok_def)
  then show ?thesis using assms(2)
    by (cases "xe_pc x")
      (auto simp: executeScenario_def injectStep_def Let_def split: if_splits option.splits prod.splits sum.splits dest!: terminateSession_pc)
qed

text \<open>An action that is not a step of the session leaves its slot as it is, or cancels it.\<close>

lemma scenario_elsewhere:
  assumes "uuids_ok env" and "scenario_ok env e" and "map_of (sc_sessions e) sid = Some (s, x)" and "scenario_exec env a e = Some e'" and "\<forall>sn. a \<noteq> AExec sid sn"
  shows "map_of (sc_sessions e') sid \<in> {Some (s, x), Some (s, x\<lparr>xe_cancelled := True\<rparr>)}"
proof (cases a)
  case (AStart scenarioID)
  obtain res where r: "StartScenario env scenarioID e = (res, e')" using assms(4) AStart by (cases "StartScenario env scenarioID e") simp
  show ?thesis
  proof (cases res)
    case (Inl err)
    then show ?thesis using r assms(3) by (auto simp: StartScenario_def Let_def split: option.splits prod.splits)
  next
    case (Inr t)
    then have "ss_ID t \<noteq> sid" using StartScenario_new [OF assms(1,2)] r assms(3) by auto
    then show ?thesis using r Inr assms(3) by (auto simp: StartScenario_def put_slot_def update_conv Let_def split: option.splits prod.splits)
  qed
next
  case (AExec sid' sn)
  then have ne: "sid' \<noteq> sid" using assms(5) by auto
  then show ?thesis using assms(3,4) AExec by (auto simp: execute_def put_slot_def update_conv split: option.splits prod.splits)
qed (use assms(3,4) in \<open>auto simp: RegisterScenario_def scenario_StopSession_def scenario_WatchSession_def cancel_execution_def put_slot_def update_conv Let_def
      split: option.splits if_splits prod.splits\<close>)

fun fired_steps :: "string \<Rightarrow> 'b scenario_act list \<Rightarrow> nat" where
  "fired_steps sid [] = 0"
| "fired_steps sid (AExec sid' sn # acts) = (if sid' = sid \<and> sn_fired sn then 1 else 0) + fired_steps sid acts"
| "fired_steps sid (_ # acts) = fired_steps sid acts"

lemma scenario_countdown:
  assumes "codec_ok env" and "uuids_ok env" and "scenario_ok env e" and "map_of (sc_sessions e) sid = Some (s, x)" and "scenario_run env acts e = Some e'"
  shows "\<exists>s' x'. scenario_ok env e' \<and> map_of (sc_sessions e') sid = Some (s', x') \<and> xsteps_left x' (xe_pc x') \<le> xsteps_left x (xe_pc x) - fired_steps sid acts"
  using assms(3-)
proof (induction acts arbitrary: e s x)
  case (Cons a acts)
  obtain e1 where e1: "scenario_exec env a e = Some e1" "scenario_ok env e1" using scenario_exec_ok [OF assms(1,2) Cons.prems(1), of a] by blast
  have run: "scenario_run env acts e1 = Some e'" using Cons.prems(3) e1(1) by simp
  have "\<exists>s1 x1. map_of (sc_sessions e1) sid = Some (s1, x1) \<and> xsteps_left x1 (xe_pc x1) + fired_steps sid acts \<le> max (xsteps_left x (xe_pc x) + fired_steps sid acts - (fired_steps sid (a # acts) - fired_steps sid acts)) (fired_steps sid acts)"
  proof (cases "\<exists>sn. a = AExec sid sn")
    case True
    then obtain sn where a: "a = AExec sid sn" ..
    have so: "xsession_ok env sid s x (si_published (sc_sim e))" using scenario_slot [OF Cons.prems(1,2)] by simp
    obtain s1 x1 m1 ws1 where st: "executeScenario env sn s x (sc_sim e) (scenario_watcherSet sid e) = Some ((s1, x1, m1), ws1)"
      using e1(1) a Cons.prems(2) by (auto simp: execute_def)
    have "map_of (sc_sessions e1) sid = Some (s1, x1)" using e1(1) a Cons.prems(2) st by (auto simp: execute_def put_slot_def update_conv)
    then show ?thesis using executeScenario_left [OF so st] a by auto
  next
    case False
    then have "fired_steps sid (a # acts) = fired_steps sid acts" by (cases a) auto
    then show ?thesis using scenario_elsewhere [OF assms(2) Cons.prems(1,2) e1(1)] False by auto
  qed
  then obtain s1 x1 where s1: "map_of (sc_sessions e1) sid = Some (s1, x1)"
    "xsteps_left x1 (xe_pc x1) + fired_steps sid acts \<le> max (xsteps_left x (xe_pc x) + fired_steps sid acts - (fired_steps sid (a # acts) - fired_steps sid acts)) (fired_steps sid acts)" by blast
  moreover have "fired_steps sid acts \<le> fired_steps sid (a # acts)" by (cases a) auto
  ultimately show ?case using Cons.IH [OF e1(2) s1(1) run] by fastforce
qed auto

text \<open>
  Every scenario session ends: once it has made five steps for each step of its scenario and
  three more, its waits counted when they are over, it is completed, stopped or failed, whatever
  its environment answered and whatever happened in between.
\<close>

lemma scenario_terminates:
  assumes "codec_ok env" and "uuids_ok env" and "scenario_run env before (new_ScenarioEngine w) = Some e"
    and "map_of (sc_sessions e) sid = Some (s, x)" and "scenario_run env acts e = Some e'" and "5 * ss_TotalSteps s + 3 \<le> fired_steps sid acts"
  shows "\<exists>s'. scenario_GetSession sid e' = Some s' \<and> ss_State s' \<in> {ScenarioStateCompleted, ScenarioStateStopped, ScenarioStateFailed}"
proof -
  have ok: "scenario_ok env e" using scenario_run_ok [OF assms(1,2) new_ScenarioEngine_ok, of before w] assms(3) by auto
  obtain s' x' where s': "scenario_ok env e'" "map_of (sc_sessions e') sid = Some (s', x')"
    "xsteps_left x' (xe_pc x') \<le> xsteps_left x (xe_pc x) - fired_steps sid acts" using scenario_countdown [OF assms(1,2) ok assms(4,5)] by blast
  have "xsteps_left x (xe_pc x) \<le> 5 * ss_TotalSteps s + 3" using scenario_slot [OF ok assms(4)] by (cases "xe_pc x") (auto simp: xsession_ok_def)
  then have "xsteps_left x' (xe_pc x') = 0" using s'(3) assms(6) by simp
  then have "ss_State s' \<in> {ScenarioStateCompleted, ScenarioStateStopped, ScenarioStateFailed}"
    using scenario_slot [OF s'(1,2)] by (cases "xe_pc x'") (auto simp: xsession_ok_def)
  then show ?thesis using s'(2) by (simp add: scenario_GetSession_def)
qed

text \<open>
  A session that is stopped while it waits for a condition ends as failed, not as stopped, and
  tells its reason as a timed-out condition: the operator's stop is accepted, but unless the expected
  event still arrives the wait reports the cancellation as an error.
\<close>

theorem stop_while_waiting_fails:
  assumes "map_of (sc_sessions e) sid = Some (s, x)" and "xe_pc x = SCond c" and "ss_State s = ScenarioStateRunning" and "sn_createErr sn = None" and "sn_next sn = [NextFailed True]"
  shows "\<exists>e1 e2 s2 x2 n. scenario_StopSession sid e = (None, e1) \<and> execute env sid sn e1 = Some e2 \<and> map_of (sc_sessions e2) sid = Some (s2, x2) \<and>
    ss_State s2 = ScenarioStateFailed \<and> ss_ErrorMessage s2 = ''step '' @ Itoa (xe_i x) @ '': cancelled while waiting for '' @ co_ExpectEventType c \<and>
    xe_pc x2 = SFinish (SimulationStop (ss_ID s) ''condition_timeout'' (of_nat (ss_InjectedEvents s)) (ss_DurationMs s2) (ss_ErrorMessage s2)) n \<and>
    cn_Name n = ''scenario.failed''"
proof -
  let ?e1 = "put_slot sid (s, x\<lparr>xe_cancelled := True\<rparr>, sc_sim e) e"
  have st: "scenario_StopSession sid e = (None, ?e1)" using assms(1,3) by (simp add: scenario_StopSession_def cancel_execution_def)
  have slot: "map_of (sc_sessions ?e1) sid = Some (s, x\<lparr>xe_cancelled := True\<rparr>)" by (simp add: put_slot_def update_conv)
  have w: "waitForCondition env c True sn = Some (''cancelled while waiting for '' @ co_ExpectEventType c)"
    using assms(4,5) by (simp add: waitForCondition_def condition_error_def)
  obtain t m where m: "sim_now env (sc_sim ?e1) = (t, m)" by fastforce
  show ?thesis using st slot w assms(2) m
    by (auto simp: execute_def executeScenario_def terminateSession_def Let_def put_slot_def update_conv)
qed

section \<open>A session on the example environment\<close>

definition ex_scenario :: "blob ScenarioDefinition" where
  "ex_scenario = \<lparr>sd_ID = [], sd_Name = ''drill'', sd_Description = [], sd_Steps = [\<lparr>sp_EventType = ''alarm'', sp_DelayMs = 0, sp_SourceAgent = [], sp_TargetAgent = [],
     sp_WorkflowID = [], sp_CorrelationID = [], sp_PayloadJSON = Raw 1, sp_Metadata = Map.empty,
     sp_Condition = Some \<lparr>co_ExpectEventType = ''answer'', co_TimeoutMs = 5\<rparr>\<rparr>], sd_CreatedAt = 0\<rparr>"

definition ex_go :: "blob step_env" where
  "ex_go = \<lparr>sn_fired = True, sn_createErr = None, sn_next = [NextFailed True]\<rparr>"

definition ex_waiting :: "blob scenario_act list" where
  "ex_waiting = [ARegister ex_scenario, AStart ''u'', AAttach ''uu'', AExec ''uu'' ex_go, AExec ''uu'' ex_go, AExec ''uu'' ex_go, AExec ''uu'' ex_go]"

lemma ex_sim_uuids: "uuids_ok ex_sim"
  using ex_sim_uuid by (simp add: uuids_ok_def ex_sim_def null_services_def)

lemma ex_waiting_run:
  "map_option (\<lambda>e. map_option (\<lambda>(s, x). (ss_State s, xe_pc x, ss_TotalSteps s)) (map_of (sc_sessions e) ''uu'')) (scenario_run ex_sim ex_waiting (new_ScenarioEngine empty_world)) =
     Some (Some (ScenarioStateRunning, SCond \<lparr>co_ExpectEventType = ''answer'', co_TimeoutMs = 5\<rparr>, 1))"
  by code_simp

lemma ex_waiting_state:
  obtains e s x where "scenario_run ex_sim ex_waiting (new_ScenarioEngine empty_world) = Some e" and "map_of (sc_sessions e) ''uu'' = Some (s, x)"
    and "ss_State s = ScenarioStateRunning" and "xe_pc x = SCond \<lparr>co_ExpectEventType = ''answer'', co_TimeoutMs = 5\<rparr>" and "ss_TotalSteps s = 1"
  using ex_waiting_run by (auto simp: map_option_case split: option.splits)


lemma scenario_terminates_witness:
  "\<exists>e e' s'. scenario_run ex_sim ex_waiting (new_ScenarioEngine empty_world) = Some e \<and>
    scenario_run ex_sim (AHalt ''uu'' # replicate 8 (AExec ''uu'' ex_go)) e = Some e' \<and> scenario_GetSession ''uu'' e' = Some s' \<and>
    ss_State s' \<in> {ScenarioStateCompleted, ScenarioStateStopped, ScenarioStateFailed}"
proof -
  obtain e s x where e: "scenario_run ex_sim ex_waiting (new_ScenarioEngine empty_world) = Some e" "map_of (sc_sessions e) ''uu'' = Some (s, x)" "ss_TotalSteps s = 1"
    by (rule ex_waiting_state)
  have "scenario_ok ex_sim e" using scenario_run_ok [OF ex_sim_codec ex_sim_uuids new_ScenarioEngine_ok, of ex_waiting empty_world] e(1) by auto
  then obtain e' where e': "scenario_run ex_sim (AHalt ''uu'' # replicate 8 (AExec ''uu'' ex_go)) e = Some e'"
    using scenario_run_ok [OF ex_sim_codec ex_sim_uuids] by blast
  have "5 * ss_TotalSteps s + 3 \<le> fired_steps ''uu'' (AHalt ''uu'' # replicate 8 (AExec ''uu'' ex_go))" using e(3) by (simp add: numeral_eq_Suc ex_go_def)
  from scenario_terminates [OF ex_sim_codec ex_sim_uuids e(1,2) e' this] show ?thesis using e(1) e' by blast
qed

theorem stop_while_waiting_fails_witness:
  "\<exists>e e1 e2 s2. scenario_run ex_sim ex_waiting (new_ScenarioEngine empty_world) = Some e \<and> scenario_StopSession ''uu'' e = (None, e1) \<and>
    execute ex_sim ''uu'' ex_go e1 = Some e2 \<and> scenario_GetSession ''uu'' e2 = Some s2 \<and> ss_State s2 = ScenarioStateFailed"
proof -
  obtain e s x where e: "scenario_run ex_sim ex_waiting (new_ScenarioEngine empty_world) = Some e" "map_of (sc_sessions e) ''uu'' = Some (s, x)"
    "ss_State s = ScenarioStateRunning" "xe_pc x = SCond \<lparr>co_ExpectEventType = ''answer'', co_TimeoutMs = 5\<rparr>" by (rule ex_waiting_state)
  have "sn_createErr ex_go = None" "sn_next ex_go = [NextFailed True]" by (simp_all add: ex_go_def)
  from stop_while_waiting_fails [OF e(2,4,3) this, of ex_sim] e(1) show ?thesis by (auto simp: scenario_GetSession_def)
qed

end
