(* ===== verification/SimulationApi.thy ===== *)
theory SimulationApi
  imports Operator ReplayProps ScenarioProps
begin

text \<open>
  The HTTP interface of the event store, the replay engine and the scenario engine
  (\<open>core/runtime/replay_handler.go\<close>, \<open>scenario_handler.go\<close>). Reading and printing times are
  parameters, as are the texts of errors, by which the handlers choose a status.
\<close>

section \<open>Queries of the event store\<close>

definition optional :: "string \<Rightarrow> (string \<Rightarrow> 'v option) \<Rightarrow> 'v \<Rightarrow> 'v option" where
  "optional s read absent = (if s = [] then Some absent else read s)"

definition readLimit :: "string \<Rightarrow> int option" where
  "readLimit s = (case Atoi s of None \<Rightarrow> None | Some v \<Rightarrow> if v \<le> 0 then None else Some (if 10000 < v then 10000 else v))"

definition readOffset :: "string \<Rightarrow> int option" where
  "readOffset s = (case Atoi s of None \<Rightarrow> None | Some v \<Rightarrow> if v < 0 then None else Some v)"

definition parseQuery :: "(string \<Rightarrow> int option) \<Rightarrow> api_request \<Rightarrow> EventQuery http_reply" where
  "parseQuery parse r =
     (let g = rq_query r in
      if g ''start'' = [] then Inl (400, ''start parameter is required'')
      else case parse (g ''start'') of
        None \<Rightarrow> Inl (400, ''invalid time format, expected RFC3339'')
      | Some startTime \<Rightarrow>
          (case optional (g ''end'') (\<lambda>s. map_option Some (parse s)) None of
             None \<Rightarrow> Inl (400, ''invalid time format, expected RFC3339'')
           | Some endTime \<Rightarrow>
               (case optional (g ''limit'') readLimit 0 of
                  None \<Rightarrow> Inl (400, ''invalid limit parameter'')
                | Some limit \<Rightarrow>
                    (case optional (g ''offset'') readOffset 0 of
                       None \<Rightarrow> Inl (400, ''invalid offset parameter'')
                     | Some offset \<Rightarrow> Inr \<lparr>eq_StartTime = startTime, eq_EndTime = endTime, eq_EventTypes = (if g ''type'' = [] then [] else [g ''type'']),
                         eq_WorkflowID = g ''workflow_id'', eq_SourceAgent = g ''source_agent'', eq_Limit = limit, eq_Offset = offset\<rparr>))))"

record 'b event_page =
  ep_events :: "'b StoredEvent list"
  ep_total :: nat
  ep_limit :: int
  ep_offset :: int

definition handleQueryEvents :: "(string \<Rightarrow> int option) \<Rightarrow> (EventQuery \<Rightarrow> stream_error + 'b StoredEvent list) \<Rightarrow> api_request \<Rightarrow> 'b event_page http_reply" where
  "handleQueryEvents parse query r =
     (if rq_Method r \<noteq> ''GET'' then Inl (405, ''method not allowed'')
      else case parseQuery parse r of
        Inl err \<Rightarrow> Inl err
      | Inr q \<Rightarrow>
          (case query q of
             Inl _ \<Rightarrow> Inl (500, ''failed to query event store'')
           | Inr events \<Rightarrow> Inr \<lparr>ep_events = events, ep_total = length events, ep_limit = (if eq_Limit q = 0 then 1000 else eq_Limit q), ep_offset = eq_Offset q\<rparr>))"

definition handleWorkflowEvents :: "(string \<Rightarrow> stream_error + 'b StoredEvent list) \<Rightarrow> api_request \<Rightarrow> (string \<times> 'b StoredEvent list) http_reply" where
  "handleWorkflowEvents events_of r =
     (let workflowID = TrimPrefix (rq_Path r) ''/api/events/workflows/'' in
      if rq_Method r \<noteq> ''GET'' then Inl (405, ''method not allowed'')
      else if workflowID = [] then Inl (400, ''workflow_id is required'')
      else case events_of workflowID of
        Inl _ \<Rightarrow> Inl (500, ''failed to query workflow events'')
      | Inr events \<Rightarrow> if events = [] then Inl (404, ''no events found for workflow '' @ workflowID) else Inr (workflowID, events))"

section \<open>Replay sessions\<close>

record replaySessionJSON =
  rj_id :: string
  rj_workflow_id :: string
  rj_state :: string
  rj_speed :: rat
  rj_total_events :: nat
  rj_replayed_events :: nat
  rj_created_at :: string
  rj_error_message :: string
  rj_started_at :: "string option"
  rj_completed_at :: "string option"

definition sessionToJSON :: "(int \<Rightarrow> string) \<Rightarrow> ReplaySession \<Rightarrow> replaySessionJSON" where
  "sessionToJSON fmt s = \<lparr>rj_id = rs_ID s, rj_workflow_id = rs_WorkflowID s, rj_state = SessionState_string (rs_State s), rj_speed = rs_Speed s,
     rj_total_events = rs_TotalEvents s, rj_replayed_events = rs_ReplayedEvents s, rj_created_at = fmt (rs_CreatedAt s), rj_error_message = rs_ErrorMessage s,
     rj_started_at = map_option fmt (rs_StartedAt s), rj_completed_at = map_option fmt (rs_CompletedAt s)\<rparr>"

text \<open>The body of a request, if it is valid JSON, is the workflow and the speed.\<close>

definition handleCreateSession :: "(int \<Rightarrow> string) \<Rightarrow> (replay_error \<Rightarrow> string) \<Rightarrow> 'b sim_env \<Rightarrow> (string \<times> rat) option \<Rightarrow> 'b replayEngine \<Rightarrow>
    replaySessionJSON http_reply \<times> 'b replayEngine" where
  "handleCreateSession fmt tx env body e =
     (case body of
        None \<Rightarrow> (Inl (400, ''invalid request body''), e)
      | Some (workflowID, speed) \<Rightarrow>
          if workflowID = [] then (Inl (400, ''workflow_id is required''), e)
          else (case CreateSession env workflowID speed e of
             (Inl err, e1) \<Rightarrow> (Inl (if Contains (tx err) ''no events found'' then (404, tx err) else (500, ''failed to create replay session'')), e1)
           | (Inr sid, e1) \<Rightarrow> (case re_session sid e1 of Some s \<Rightarrow> (Inr (sessionToJSON fmt s), e1) | None \<Rightarrow> (Inl (500, []), e1))))"

text \<open>The context of a request, under which the session was created, ends when the handler has returned.\<close>

definition serveCreateSession :: "(int \<Rightarrow> string) \<Rightarrow> (replay_error \<Rightarrow> string) \<Rightarrow> 'b sim_env \<Rightarrow> (string \<times> rat) option \<Rightarrow> 'b replayEngine \<Rightarrow>
    replaySessionJSON http_reply \<times> 'b replayEngine" where
  "serveCreateSession fmt tx env body e =
     (case handleCreateSession fmt tx env body e of
        (Inr s, e1) \<Rightarrow> (Inr s, cancel_run (rj_id s) e1)
      | (Inl err, e1) \<Rightarrow> (Inl err, e1))"

definition handleListSessions :: "(int \<Rightarrow> string) \<Rightarrow> api_request \<Rightarrow> 'b replayEngine \<Rightarrow> replaySessionJSON list" where
  "handleListSessions fmt r e = map (sessionToJSON fmt) (ListSessions (rq_query r ''state'') e)"

definition handleGetSession :: "(int \<Rightarrow> string) \<Rightarrow> api_request \<Rightarrow> string \<Rightarrow> 'b replayEngine \<Rightarrow> replaySessionJSON http_reply" where
  "handleGetSession fmt r sessionID e =
     (if rq_Method r \<noteq> ''GET'' then Inl (405, ''method not allowed'')
      else case GetSession sessionID e of None \<Rightarrow> Inl (404, ''session not found'') | Some s \<Rightarrow> Inr (sessionToJSON fmt s))"

definition stopStatus :: "string \<Rightarrow> nat \<times> string" where
  "stopStatus err = (if Contains err ''session not found'' then (404, err) else if Contains err ''session is not running'' then (409, err) else (500, ''failed to stop session''))"

definition handleStopSession :: "(replay_error \<Rightarrow> string) \<Rightarrow> api_request \<Rightarrow> string \<Rightarrow> 'b replayEngine \<Rightarrow> string http_reply \<times> 'b replayEngine" where
  "handleStopSession tx r sessionID e =
     (if rq_Method r \<noteq> ''POST'' then (Inl (405, ''method not allowed''), e)
      else case StopSession sessionID e of (Some err, e1) \<Rightarrow> (Inl (stopStatus (tx err)), e1) | (None, e1) \<Rightarrow> (Inr sessionID, e1))"

text \<open>The watcher of a stream until its loop starts; a panic is \<open>None\<close>.\<close>

definition handleStreamSession :: "'b sim_env \<Rightarrow> api_request \<Rightarrow> bool \<Rightarrow> string \<Rightarrow> 'b replayEngine \<Rightarrow> ((string \<times> nat) http_reply \<times> 'b replayEngine) option" where
  "handleStreamSession env r flusher sessionID e =
     (if rq_Method r \<noteq> ''GET'' then Some (Inl (405, ''method not allowed''), e)
      else if \<not> flusher then Some (Inl (500, ''streaming not supported''), e)
      else map_option (\<lambda>(res, e1). (case res of Inl _ \<Rightarrow> Inl (404, ''session not found'') | Inr c \<Rightarrow> Inr c, e1)) (WatchSession env sessionID e))"

datatype session_route = ListRoute | CreateRoute | StopRoute string | StreamRoute string | GetRoute string

definition handleReplaySessions :: "api_request \<Rightarrow> session_route http_reply" where
  "handleReplaySessions r = (if rq_Method r = ''POST'' then Inr CreateRoute else if rq_Method r = ''GET'' then Inr ListRoute else Inl (405, ''method not allowed''))"

definition sessionRoute :: "string \<Rightarrow> api_request \<Rightarrow> session_route http_reply" where
  "sessionRoute pre r =
     (let path = TrimPrefix (rq_Path r) pre in
      if path = [] then Inl (400, ''session_id is required'')
      else if HasSuffix path ''/stop'' then Inr (StopRoute (TrimSuffix path ''/stop''))
      else if HasSuffix path ''/stream'' then Inr (StreamRoute (TrimSuffix path ''/stream''))
      else Inr (GetRoute path))"

definition handleReplaySessionRoutes :: "api_request \<Rightarrow> session_route http_reply" where
  "handleReplaySessionRoutes = sessionRoute ''/api/replay/sessions/''"

section \<open>Scenarios\<close>

definition handleInject :: "'b sim_env \<Rightarrow> api_request \<Rightarrow> 'b InjectRequest option \<Rightarrow> 'b sim \<Rightarrow> InjectResult http_reply \<times> 'b sim" where
  "handleInject env r body m =
     (if rq_Method r \<noteq> ''POST'' then (Inl (405, ''method not allowed''), m)
      else case body of
        None \<Rightarrow> (Inl (400, ''invalid request body''), m)
      | Some req \<Rightarrow> (case Inject env req [] [] m of (Inl err, m1) \<Rightarrow> (Inl (400, err), m1) | (Inr res, m1) \<Rightarrow> (Inr res, m1)))"

record scenarioSummaryJSON =
  sj_id :: string
  sj_name :: string
  sj_description :: string
  sj_steps :: nat
  sj_created_at :: string

definition scenarioSummaryToJSON :: "(int \<Rightarrow> string) \<Rightarrow> 'b ScenarioDefinition \<Rightarrow> scenarioSummaryJSON" where
  "scenarioSummaryToJSON fmt d = \<lparr>sj_id = sd_ID d, sj_name = Scenario.sd_Name d, sj_description = sd_Description d, sj_steps = length (sd_Steps d),
     sj_created_at = fmt (sd_CreatedAt d)\<rparr>"

definition handleRegisterScenario :: "(int \<Rightarrow> string) \<Rightarrow> (scenario_error \<Rightarrow> string) \<Rightarrow> 'b sim_env \<Rightarrow> 'b ScenarioDefinition option \<Rightarrow> 'b scenarioEngine \<Rightarrow>
    scenarioSummaryJSON http_reply \<times> 'b scenarioEngine" where
  "handleRegisterScenario fmt tx env body e =
     (case body of
        None \<Rightarrow> (Inl (400, ''invalid request body''), e)
      | Some def \<Rightarrow>
          (case RegisterScenario env def e of
             (Inl err, e1) \<Rightarrow> (Inl (if Contains (tx err) ''already exists'' then 409 else 400, tx err), e1)
           | (Inr registered, e1) \<Rightarrow> (Inr (scenarioSummaryToJSON fmt registered), e1)))"

definition handleListScenarios :: "(int \<Rightarrow> string) \<Rightarrow> 'b scenarioEngine \<Rightarrow> scenarioSummaryJSON list" where
  "handleListScenarios fmt e = map (scenarioSummaryToJSON fmt) (ListScenarios e)"

text \<open>A scenario is printed in full.\<close>

definition handleGetScenario :: "api_request \<Rightarrow> string \<Rightarrow> 'b scenarioEngine \<Rightarrow> 'b ScenarioDefinition http_reply" where
  "handleGetScenario r scenarioID e =
     (if rq_Method r \<noteq> ''GET'' then Inl (405, ''method not allowed'')
      else case GetScenario scenarioID e of None \<Rightarrow> Inl (404, ''scenario not found'') | Some def \<Rightarrow> Inr def)"

record scenarioSessionJSON =
  zj_id :: string
  zj_scenario_id :: string
  zj_scenario_name :: string
  zj_state :: string
  zj_current_step :: nat
  zj_total_steps :: nat
  zj_injected_events :: nat
  zj_duration_ms :: int
  zj_error_message :: string
  zj_created_at :: string
  zj_started_at :: "string option"
  zj_completed_at :: "string option"

definition scenarioSessionToJSON :: "(int \<Rightarrow> string) \<Rightarrow> ScenarioSession \<Rightarrow> scenarioSessionJSON" where
  "scenarioSessionToJSON fmt s = \<lparr>zj_id = ss_ID s, zj_scenario_id = ss_ScenarioID s, zj_scenario_name = ss_ScenarioName s, zj_state = ScenarioState_string (ss_State s),
     zj_current_step = ss_CurrentStep s, zj_total_steps = ss_TotalSteps s, zj_injected_events = ss_InjectedEvents s, zj_duration_ms = ss_DurationMs s,
     zj_error_message = ss_ErrorMessage s, zj_created_at = fmt (ss_CreatedAt s), zj_started_at = map_option fmt (ss_StartedAt s),
     zj_completed_at = map_option fmt (ss_CompletedAt s)\<rparr>"

definition handleStartScenario :: "(int \<Rightarrow> string) \<Rightarrow> (scenario_error \<Rightarrow> string) \<Rightarrow> 'b sim_env \<Rightarrow> api_request \<Rightarrow> string \<Rightarrow> 'b scenarioEngine \<Rightarrow>
    scenarioSessionJSON http_reply \<times> 'b scenarioEngine" where
  "handleStartScenario fmt tx env r scenarioID e =
     (if rq_Method r \<noteq> ''POST'' then (Inl (405, ''method not allowed''), e)
      else case StartScenario env scenarioID e of
        (Inl err, e1) \<Rightarrow> (Inl (if Contains (tx err) ''not found'' then (404, tx err) else (500, ''failed to start scenario'')), e1)
      | (Inr s, e1) \<Rightarrow> (Inr (scenarioSessionToJSON fmt s), e1))"

definition handleSessions :: "(int \<Rightarrow> string) \<Rightarrow> api_request \<Rightarrow> 'b scenarioEngine \<Rightarrow> scenarioSessionJSON list http_reply" where
  "handleSessions fmt r e = (if rq_Method r \<noteq> ''GET'' then Inl (405, ''method not allowed'') else Inr (map (scenarioSessionToJSON fmt) (scenario_ListSessions (rq_query r ''state'') e)))"

definition scenario_handleGetSession :: "(int \<Rightarrow> string) \<Rightarrow> api_request \<Rightarrow> string \<Rightarrow> 'b scenarioEngine \<Rightarrow> scenarioSessionJSON http_reply" where
  "scenario_handleGetSession fmt r sessionID e =
     (if rq_Method r \<noteq> ''GET'' then Inl (405, ''method not allowed'')
      else case scenario_GetSession sessionID e of None \<Rightarrow> Inl (404, ''session not found'') | Some s \<Rightarrow> Inr (scenarioSessionToJSON fmt s))"

definition scenario_handleStopSession :: "(int \<Rightarrow> string) \<Rightarrow> (scenario_error \<Rightarrow> string) \<Rightarrow> api_request \<Rightarrow> string \<Rightarrow> 'b scenarioEngine \<Rightarrow>
    scenarioSessionJSON http_reply \<times> 'b scenarioEngine" where
  "scenario_handleStopSession fmt tx r sessionID e =
     (if rq_Method r \<noteq> ''POST'' then (Inl (405, ''method not allowed''), e)
      else case scenario_StopSession sessionID e of
        (Some err, e1) \<Rightarrow> (Inl (stopStatus (tx err)), e1)
      | (None, e1) \<Rightarrow> (case scenario_GetSession sessionID e1 of
           None \<Rightarrow> (Inl (404, ''session not found''), e1) | Some s \<Rightarrow> (Inr (scenarioSessionToJSON fmt s), e1)))"

definition scenario_handleStreamSession :: "'b sim_env \<Rightarrow> api_request \<Rightarrow> bool \<Rightarrow> string \<Rightarrow> 'b scenarioEngine \<Rightarrow> ((string \<times> nat) http_reply \<times> 'b scenarioEngine) option" where
  "scenario_handleStreamSession env r flusher sessionID e =
     (if rq_Method r \<noteq> ''GET'' then Some (Inl (405, ''method not allowed''), e)
      else if \<not> flusher then Some (Inl (500, ''streaming not supported''), e)
      else map_option (\<lambda>(res, e1). (case res of Inl _ \<Rightarrow> Inl (404, ''session not found'') | Inr c \<Rightarrow> Inr c, e1)) (scenario_WatchSession env sessionID e))"

definition handleSessionRoutes :: "api_request \<Rightarrow> session_route http_reply" where
  "handleSessionRoutes = sessionRoute ''/api/simulation/sessions/''"

datatype scenario_route = StartScenarioRoute string | GetScenarioRoute string

definition handleScenarioRoutes :: "api_request \<Rightarrow> scenario_route http_reply" where
  "handleScenarioRoutes r =
     (let path = TrimPrefix (rq_Path r) ''/api/simulation/scenarios/'' in
      if path = [] then Inl (400, ''scenario_id is required'')
      else if HasSuffix path ''/start'' then Inr (StartScenarioRoute (TrimSuffix path ''/start''))
      else Inr (GetScenarioRoute path))"

section \<open>What the interface shows\<close>

text \<open>A query that passes the checks is within the bounds the event store needs.\<close>

lemma parseQuery_range: "parseQuery parse r = Inr q \<Longrightarrow> 0 \<le> eq_Offset q \<and> 0 \<le> eq_Limit q \<and> eq_Limit q \<le> 10000"
  by (auto simp: parseQuery_def optional_def readLimit_def readOffset_def Let_def split: if_splits option.splits)

text \<open>
  The store is never asked for a negative offset, on which its slice expression panics: a query over
  HTTP is answered whenever the streams can be read.
\<close>

lemma query_api_answers:
  assumes "rq_Method r = ''GET''" and "parseQuery parse r = Inr q" and "\<And>t1 t2 streams. \<exists>all. readStreams sv js t1 t2 streams = Inr all"
  shows "\<exists>p. handleQueryEvents parse (\<lambda>q. store_Query sv js srt reg q t) r = Inr p"
proof -
  have "\<not> eq_Offset q < 0" using parseQuery_range [OF assms(2)] by simp
  moreover obtain all where "readStreams sv js (eq_StartTime q) (case eq_EndTime q of None \<Rightarrow> t | Some e \<Rightarrow> e) (resolveStreams reg q) = Inr all" using assms(3) by blast
  ultimately show ?thesis using assms(1,2) by (simp add: handleQueryEvents_def store_Query_def Let_def)
qed


definition ex_served :: "replaySessionJSON http_reply \<times> blob replayEngine" where
  "ex_served = serveCreateSession (\<lambda>_. []) (\<lambda>_. []) ex_sim (Some (''w'', 1)) (new_ReplayEngine empty_world)"


end
