(* ===== verification/EngineRuns.thy ===== *)
theory EngineRuns
  imports Engine
begin

text \<open>
  Runs of a node: an interleaving semantics of the handlers of the engine and the coordinator, and
  the proof that every run is a run of the lifecycle specification, whatever the order in which
  handlers read and act and whichever requests to the store fail.
\<close>

section \<open>Runs of a node\<close>

text \<open>
  Handlers run concurrently: each reads the workflow first and acts later, and any number of other
  handlers may act in between. A configuration is the node together with everything read so far;
  an acting handler uses any earlier read. The second read that \<open>dispatchStep\<close> makes after the
  write of \<open>advanceWorkflow\<close> is not separated from the handler that makes it; what another handler
  can do in that gap is shown for \<open>dispatchStep\<close> on its own in the theory of decisions. What only touches memory, the bus or the timers is one
  rule, so that it may happen at any time and in any way.
\<close>

type_synonym ('s, 'b) config = "('s, 'b) node \<times> (string \<times> 'b WorkflowState \<times> nat) set"

inductive engine_step :: "'b services \<Rightarrow> ('s, 'b) wf_kv \<Rightarrow> ('s, 'b) config \<Rightarrow> ('s, 'b) config \<Rightarrow> bool"
  for sv kv where
  es_read: "store_Get kv wid (nd_store n) = Inr (st, q) \<Longrightarrow> engine_step sv kv (n, S) (n, insert (wid, st, q) S)"
| es_start: "eg_store e = kv \<Longrightarrow> handleWorkflowStart sv e event n = (res, n') \<Longrightarrow> engine_step sv kv (n, S) (n', S)"
| es_result: "eg_store e = kv \<Longrightarrow> (ev_WorkflowID event, st, q) \<in> S \<Longrightarrow>
    acceptResult sv e event payload st q n = (res, n') \<Longrightarrow> engine_step sv kv (n, S) (n', S)"
| es_respond: "dc_store c = kv \<Longrightarrow> (hdr_workflow_id p, st, q) \<in> S \<Longrightarrow> n' = respond sv c p st q n \<Longrightarrow>
    engine_step sv kv (n, S) (n', S)"
| es_expire: "dc_store c = kv \<Longrightarrow> (wid, st, q) \<in> S \<Longrightarrow> n' = expire sv c wid d i st q n \<Longrightarrow>
    engine_step sv kv (n, S) (n', S)"
| es_step_expire: "eg_store e = kv \<Longrightarrow> (wid, st, q) \<in> S \<Longrightarrow> n' = stepExpire sv e wid i t a st q n \<Longrightarrow>
    engine_step sv kv (n, S) (n', S)"
| es_resume: "eg_store e = kv \<Longrightarrow> (wid, st, q) \<in> S \<Longrightarrow> n' = resume sv e wid i resp st q n \<Longrightarrow>
    engine_step sv kv (n, S) (n', S)"
| es_memory: "nd_store n' = nd_store n \<Longrightarrow> engine_step sv kv (n, S) (n', S)"

lemma stepsFromProto_Inr:
  "stepsFromProto i ss = Inr steps \<Longrightarrow> length steps = length ss \<and>
     (\<forall>s\<in>set steps. sd_Capability s \<noteq> [] \<or> sd_HumanApproval s)"
  by (induction i ss arbitrary: steps rule: stepsFromProto.induct) (auto split: if_splits sum.splits)

lemma workflowDefinitionFromProto_ok:
  fixes def :: "'b WorkflowDefinition"
  assumes "workflowDefinitionFromProto pb = Inr def"
  shows "wf_def_ok def"
proof -
  obtain d :: "'b pb_WorkflowDefinition" where "pwd_steps d \<noteq> []" "\<not> 100 < length (pwd_steps d)" "stepsFromProto 0 (pwd_steps d) = Inr (wd_Steps def)"
    using assms by (auto simp: workflowDefinitionFromProto_def split: option.splits if_splits sum.splits)
  then show ?thesis using stepsFromProto_Inr [of 0 "pwd_steps d" "wd_Steps def"]
    by (auto simp: wf_def_ok_def Suc_le_eq)
qed

lemma initial_state_ok: "wf_def_ok def \<Longrightarrow> wf_ok wid (initial_state wid def ts) \<and> \<not> terminal (initial_state wid def ts)"
  by (auto simp: wf_ok_def initial_state_def terminal_def persisted_id wf_def_ok_def)

context workflow_store
begin

definition reads_ok :: "('s, 'b) config \<Rightarrow> bool" where
  "reads_ok cfg \<longleftrightarrow> (\<forall>(wid, st, q)\<in>snd cfg.
     revision_bound wid (Json st) q (view (nd_store (fst cfg))) \<and> wf_ok wid st)"

definition config_ok :: "('s, 'b) config \<Rightarrow> bool" where
  "config_ok cfg \<longleftrightarrow> bucket_ok (view (nd_store (fst cfg))) \<and> reads_ok cfg"

lemma config_read: "config_ok (n, S) \<Longrightarrow> (wid, st, q) \<in> S \<Longrightarrow> read_ok (view (nd_store n)) wid st q"
  using revision_bound_snapshot by (fastforce simp: config_ok_def reads_ok_def read_ok_def)

lemma startWorkflow_run:
  assumes e: "eg_store e = kv" and ok: "bucket_ok (view (nd_store n))" and d: "wf_def_ok def"
  shows "store_run (view (nd_store n)) (view (nd_store (snd (startWorkflow sv e def n))))"
proof -
  obtain wid n1 where u: "uuid sv n = (wid, n1)" by fastforce
  obtain ts n2 where t: "now sv n1 = (ts, n2)" by fastforce
  have s2: "nd_store n2 = nd_store n" using u t node_frame(1) [of sv n] node_frame(7) [of sv n1] by simp
  let ?st = "initial_state wid def ts"
  have p: "persisted ?st = ?st" using initial_state_ok [OF d] wf_ok_persisted by blast
  obtain res s where c: "store_Create kv wid ?st (nd_store n) = (res, s)" by fastforce
  from c have run: "store_run (view (nd_store n)) (view s)"
  proof (cases rule: store_Create_cases)
    case (wrote r)
    have "store_step True (view (nd_store n)) ((view (nd_store n))(wid \<mapsto> (Json ?st, r)))"
      using initial_state_ok [OF d] wrote by (intro st_create) (auto simp: initial_state_def)
    then show ?thesis using wrote p by (auto intro: r_into_rtranclp)
  qed simp
  show ?thesis
  proof (cases res)
    case (Some x)
    then show ?thesis using run c u t e s2 by (simp add: startWorkflow_def)
  next
    case None
    from c have v: "\<exists>q. view s wid = Some (Json ?st, q)"
      by (cases rule: store_Create_cases) (use None p in auto)
    obtain g en where g: "GetOrCreateStream sv wid (nd_env n2) = (g, en)" by fastforce
    define n3 where "n3 = snd (node_subscribe sv (''workflow.'' @ wid @ ''.workflow.step.result'') (n2\<lparr>nd_store := s, nd_env := en\<rparr>))"
    have s3: "nd_store n3 = s" by (simp add: n3_def)
    have "store_run (view s) (view (nd_store (snd (dispatchStep sv e wid 0 n3))))"
      using side_run_store [OF dispatchStep_run [OF e, of n3 wid ?st]] v ok_inv.run_keeps [OF run ok] initial_state_ok [OF d]
      by (auto simp: s3 initial_state_def)
    with run have all: "store_run (view (nd_store n)) (view (nd_store (snd (dispatchStep sv e wid 0 n3))))" by simp
    show ?thesis
    proof (cases g)
      case None
      then show ?thesis using \<open>res = None\<close> run c u t e s2 g by (simp add: startWorkflow_def)
    next
      case (Some x)
      obtain b m where sub: "node_subscribe sv (''workflow.'' @ wid @ ''.workflow.step.result'')
          (n2\<lparr>nd_store := s, nd_env := en\<rparr>) = (b, m)" by fastforce
      then have "m = n3" by (simp add: n3_def)
      then show ?thesis using Some \<open>res = None\<close> run all c u t e s2 g s3 sub
        by (cases b) (simp_all add: startWorkflow_def)
    qed
  qed
qed

text \<open>Every step of a node is a run of the specification.\<close>

lemma engine_step_run:
  assumes "engine_step sv kv (n, S) (n', S')" and "config_ok (n, S)"
  shows "store_run (view (nd_store n)) (view (nd_store n'))"
  using assms(1)
proof cases
  case (es_start e event res)
  have "store_run (view (nd_store n)) (view (nd_store (snd (handleWorkflowStart sv e event n))))"
    using startWorkflow_run [of e n] workflowDefinitionFromProto_ok assms(2) es_start(2)
    by (auto simp: handleWorkflowStart_def config_ok_def engine_publishError_def case_prod_unfold Let_def
        split: option.split sum.split)
  then show ?thesis using es_start by simp
next
  case (es_result e event st q payload res)
  have "store_run (view (nd_store n)) (view (nd_store (snd (acceptResult sv e event payload st q n))))"
    using es_result(2,3) advanceWorkflow_run [of e "snd (now sv n)" "ev_WorkflowID event" st q] config_read [OF assms(2)] assms(2)
    by (auto simp: acceptResult_def terminal_def config_ok_def case_prod_unfold Let_def)
  then show ?thesis using es_result by simp
next
  case (es_respond c p st q)
  then show ?thesis using side_run_store respond_run config_read [OF assms(2)] by blast
next
  case (es_expire c wid st q d i)
  then show ?thesis using side_run_store expire_run config_read [OF assms(2)] by blast
next
  case (es_step_expire e wid st q i t a)
  then show ?thesis using side_run_store [OF failWorkflow_run] config_read [OF assms(2)] by (auto simp: stepExpire_def terminal_def)
next
  case (es_resume e wid st q i resp)
  then show ?thesis using advanceWorkflow_run [of e "snd (now sv n)" wid st q] config_read [OF assms(2)] assms(2)
    by (auto simp: resume_def terminal_def config_ok_def case_prod_unfold Let_def)
qed auto

lemma engine_step_ok:
  assumes "engine_step sv kv (n, S) (n', S')" and "config_ok (n, S)"
  shows "config_ok (n', S')"
proof -
  have run: "store_run (view (nd_store n)) (view (nd_store n'))" using engine_step_run [OF assms] .
  then have ok: "bucket_ok (view (nd_store n'))" using assms(2) ok_inv.run_keeps by (auto simp: config_ok_def)
  have old: "\<forall>(wid, st, q)\<in>S. revision_bound wid (Json st) q (view (nd_store n')) \<and> wf_ok wid st"
    using assms(2) bound_inv.run_keeps [OF run] by (fastforce simp: config_ok_def reads_ok_def)
  have "S' = S \<or> (\<exists>wid st q. S' = insert (wid, st, q) S \<and> n' = n \<and> store_Get kv wid (nd_store n) = Inr (st, q))"
    using assms(1) by cases auto
  then show ?thesis
  proof (elim disjE exE conjE)
    assume "S' = S"
    then show ?thesis using ok old by (simp add: config_ok_def reads_ok_def)
  next
    fix wid st q assume new: "S' = insert (wid, st, q) S" "n' = n" "store_Get kv wid (nd_store n) = Inr (st, q)"
    then have "view (nd_store n') wid = Some (Json st, q)" using store_Get_Inr by simp
    then show ?thesis using ok old new(1) bucket_okD [OF ok] by (auto simp: config_ok_def reads_ok_def revision_bound_def)
  qed
qed

lemma engine_run_refines:
  assumes "(engine_step sv kv)\<^sup>*\<^sup>* (n, S) (n', S')" and "config_ok (n, S)"
  shows "store_run (view (nd_store n)) (view (nd_store n')) \<and> config_ok (n', S')"
  using assms(1)
proof (induction rule: rtranclp_induct2)
  case (step n1 S1 n2 S2)
  then show ?case using engine_step_run engine_step_ok by (meson rtranclp_trans)
qed (use assms(2) in simp)

lemma config_start: "bucket_ok (view (nd_store n)) \<Longrightarrow> config_ok (n, {})"
  by (simp add: config_ok_def reads_ok_def)

end

end
