(* ===== verification/WorkflowProps.thy ===== *)
theory WorkflowProps
  imports EngineRuns
begin

text \<open>
  Properties of the workflow engine and the decision coordinator: runs of the interleaving
  semantics, and the effect of single handlers on a store that answers
  (\<open>reliable_workflow_store\<close>), with closed examples over the in-memory bucket.
\<close>

section \<open>A store that answers\<close>

locale reliable_workflow_store = workflow_store kv view + reliable_kv kv view
  for kv :: "('s, 'b WorkflowState json) kv_ops" and view :: "'s \<Rightarrow> 'b WorkflowState json kv_map"
begin

lemma store_Get_present: "view s wid = Some (Json st, q) \<Longrightarrow> store_Get kv wid s = Inr (st, q)"
  by (simp add: store_Get_def get_present)

lemma node_Update_current:
  assumes "view (nd_store n) wid = Some (v, q)"
  obtains n' r where "node_Update kv wid st q n = (None, n')"
    "view (nd_store n') = (view (nd_store n))(wid \<mapsto> (Json (persisted st), r))"
    "nd_env n' = nd_env n" "nd_timeouts n' = nd_timeouts n" "nd_pending n' = nd_pending n"
    "nd_resumeCh n' = nd_resumeCh n" "nd_buffers n' = nd_buffers n" "nd_waiting n' = nd_waiting n"
proof -
  obtain r s' where u: "kv_update kv wid (Json (persisted st)) q (nd_store n) = (Inr r, s')"
    using update_match [OF assms] by blast
  then have "node_Update kv wid st q n = (None, n\<lparr>nd_store := s'\<rparr>)"
    by (simp add: node_Update_def store_Update_def)
  moreover have "view s' = (view (nd_store n))(wid \<mapsto> (Json (persisted st), r))" using update_ok [OF u] by blast
  ultimately show thesis using that by simp
qed

text \<open>A successful result moves a workflow forward by one step, whatever index it carries.\<close>

lemma advance_effect:
  assumes e: "eg_store e = kv" and ok: "bucket_ok (view (nd_store n))"
    and v: "view (nd_store n) wid = Some (Json st, q)" and nt: "\<not> terminal st"
    and nf: "rs_Status r \<noteq> StepStatusFailure"
  shows "\<exists>st' q'. view (nd_store (snd (advanceWorkflow sv e wid st q r n))) wid = Some (Json st', q') \<and>
    ws_StepResults st' = ws_StepResults st @ [r] \<and> ws_CurrentStep st' = ws_CurrentStep st + 1 \<and>
    (ws_Status st' = StatusCompleted \<longleftrightarrow> length (steps_of st) \<le> unat (ws_CurrentStep st + 1))"
proof -
  let ?n0 = "n\<lparr>nd_timeouts := Cancel wid (nd_timeouts n)\<rparr>"
  obtain ts n1 where t: "now sv ?n0 = (ts, n1)" by fastforce
  have s1: "nd_store n1 = nd_store n" using t node_frame(7) [of sv ?n0] by simp
  let ?st = "st\<lparr>ws_StepResults := ws_StepResults st @ [r], ws_CurrentStep := ws_CurrentStep st + 1, ws_UpdatedAt := ts\<rparr>"
  have p: "persisted ?st = ?st" by (rule persisted_keep [OF wf_ok_persisted [OF bucket_okD [OF ok v]]]) simp
  show ?thesis
  proof (cases "unat (ws_CurrentStep st + 1) < length (steps_of st)")
    case True
    obtain n2 rv where u: "node_Update kv wid ?st q n1 = (None, n2)"
      and v2: "view (nd_store n2) = (view (nd_store n))(wid \<mapsto> (Json ?st, rv))"
      using node_Update_current [of n1 wid "Json st" q ?st] v s1 p by metis
    have "store_run (view (nd_store n)) (view (nd_store n2))"
      using labelled_run_store [OF update_run [of n1 wid st q True ?st]] u p tr_advance [OF nt nf True, of ts] v s1
      by (simp add: snapshot_ok_def)
    then have ok2: "bucket_ok (view (nd_store n2))" using ok by (rule ok_inv.run_keeps)
    have nt2: "\<not> terminal ?st" using nt by (simp add: terminal_def)
    have run: "side_run (view (nd_store n2)) (view (nd_store (snd (dispatchStep sv e wid (ws_CurrentStep ?st) n2))))"
      using dispatchStep_run [OF e ok2 _ nt2, of wid rv] v2 by simp
    have "undecided wid ?st (view (nd_store n2))" using v2 nt by (auto simp: undecided_def terminal_def)
    from undecided_inv.run_keeps [OF run this] show ?thesis
      using True t nf u e by (auto simp: undecided_def advanceWorkflow_def)
  next
    case False
    obtain ts' n2 where t': "now sv n1 = (ts', n2)" by fastforce
    have s2: "nd_store n2 = nd_store n" using t' s1 node_frame(7) [of sv n1] by simp
    let ?st' = "?st\<lparr>ws_Status := StatusCompleted, ws_UpdatedAt := ts'\<rparr>"
    have p': "persisted ?st' = ?st'" by (rule persisted_keep [OF p]) simp
    obtain n3 rv where u: "node_Update kv wid ?st' q n2 = (None, n3)"
      and v3: "view (nd_store n3) = (view (nd_store n))(wid \<mapsto> (Json ?st', rv))"
      using node_Update_current [of n2 wid "Json st" q ?st'] v s2 p' by metis
    then have "view (nd_store (snd (completeWorkflow sv e wid ?st q n1))) wid = Some (Json ?st', rv)"
      using t' e by (simp add: completeWorkflow_def)
    then show ?thesis using False t nf by (simp add: advanceWorkflow_def)
  qed
qed

lemma fail_effect:
  assumes e: "eg_store e = kv" and v: "view (nd_store n) wid = Some (Json st, q)"
  shows "\<exists>st' q'. view (nd_store (snd (failWorkflowWithError sv e wid st q err n))) wid = Some (Json st', q') \<and>
    ws_Status st' = StatusFailed \<and> ws_Error st' = Some err \<and> ws_StepResults st' = ws_StepResults st"
proof -
  let ?n0 = "n\<lparr>nd_timeouts := Cancel wid (nd_timeouts n)\<rparr>"
  obtain ts n1 where t: "now sv ?n0 = (ts, n1)" by fastforce
  have s1: "nd_store n1 = nd_store n" using t node_frame(7) [of sv ?n0] by simp
  let ?st = "st\<lparr>ws_Status := StatusFailed, ws_Error := Some err, ws_UpdatedAt := ts\<rparr>"
  obtain n2 rv where "node_Update kv wid ?st q n1 = (None, n2)"
    and "view (nd_store n2) = (view (nd_store n))(wid \<mapsto> (Json (persisted ?st), rv))"
    using node_Update_current [of n1 wid "Json st" q ?st] v s1 by metis
  then show ?thesis using t e by (simp add: failWorkflowWithError_def)
qed

end

interpretation mem_rwf: reliable_workflow_store mem_ops mem_view
  by (intro reliable_workflow_store.intro mem_wf.workflow_store_axioms mem.reliable_kv_axioms)

context reliable_workflow_store
begin

lemma handleResult_effect:
  assumes e: "eg_store e = kv" and ok: "bucket_ok (view (nd_store n))"
    and v: "view (nd_store n) (ev_WorkflowID event) = Some (Json st, q)" and nt: "\<not> terminal st"
    and ev: "ev_WorkflowID event \<noteq> []" "sv_dec_step_result sv (ev_Payload event) = Some payload"
    and nf: "wsr_status payload \<noteq> StepStatusFailure"
  shows "\<exists>st' q' ts. view (nd_store (snd (handleWorkflowStepResult sv e event n))) (ev_WorkflowID event) = Some (Json st', q') \<and>
    ws_StepResults st' = ws_StepResults st @ [result_of event payload ts] \<and>
    ws_CurrentStep st' = ws_CurrentStep st + 1 \<and> ws_Definition st' = ws_Definition st \<and>
    (ws_Status st' = StatusCompleted \<longleftrightarrow> Suc (unat (ws_CurrentStep st)) = length (steps_of st))"
proof -
  let ?r = "result_of event payload (fst (now sv n))" and ?n = "snd (now sv n)"
  let ?m = "snd (advanceWorkflow sv e (ev_WorkflowID event) st q ?r ?n)"
  have b: "unat (ws_CurrentStep st + 1) = Suc (unat (ws_CurrentStep st))" "unat (ws_CurrentStep st) < length (steps_of st)"
    using wf_ok_running_bound [OF bucket_okD [OF ok v] nt] by simp_all
  have h: "snd (handleWorkflowStepResult sv e event n) = ?m"
    using e ev nt store_Get_present [OF v]
    by (simp add: handleWorkflowStepResult_def acceptResult_def terminal_def case_prod_unfold Let_def)
  have ok': "bucket_ok (view (nd_store ?n))" and v': "view (nd_store ?n) (ev_WorkflowID event) = Some (Json st, q)"
    and nf': "rs_Status ?r \<noteq> StepStatusFailure"
    using ok v nf by (simp_all add: result_of_def)
  obtain st' q' where st': "view (nd_store ?m) (ev_WorkflowID event) = Some (Json st', q')"
    "ws_StepResults st' = ws_StepResults st @ [?r]" "ws_CurrentStep st' = ws_CurrentStep st + 1"
    "ws_Status st' = StatusCompleted \<longleftrightarrow> length (steps_of st) \<le> unat (ws_CurrentStep st + 1)"
    using advance_effect [OF e ok' v' nt nf', of sv] by blast
  have rd: "read_ok (view (nd_store ?n)) (ev_WorkflowID event) st q"
    using v bucket_okD [OF ok v] by (simp add: read_ok_def snapshot_ok_def)
  have "store_run (view (nd_store ?n)) (view (nd_store ?m))"
    using advanceWorkflow_run [OF e _ rd nt] ok by simp
  moreover have "progressed (ev_WorkflowID event) st (view (nd_store ?n))" using v by (simp add: progressed_def)
  ultimately have "progressed (ev_WorkflowID event) st (view (nd_store ?m))" by (rule progressed_inv.run_keeps)
  then have "ws_Definition st' = ws_Definition st" using st'(1) by (auto simp: progressed_def)
  with st' b h show ?thesis by auto
qed

end

section \<open>Examples\<close>

definition wf_step_def :: "bool \<Rightarrow> nat pb_StepDefinition" where
  "wf_step_def human = \<lparr>psd_name = ''s'', psd_capability = ''nlp.qa'', psd_timeout_seconds = 0, psd_input = 0,
     psd_human_approval = human, psd_prompt = [], psd_resource_ids = [''db'']\<rparr>"

definition wf_result :: "nat WorkflowStepResultPayload" where
  "wf_result = \<lparr>wsr_step_index = 7, wsr_status = 1, wsr_result = 0, wsr_error = None\<rparr>"

text \<open>Payload 1 starts a workflow of two steps, the second for a human; 2 is a result, 3 an approval.\<close>

definition wf_services :: "nat services" where
  "wf_services = (null_services 0)\<lparr>
     sv_dec_start := (\<lambda>b. if b = 1 then Some (Some \<lparr>pwd_name = ''p'',
        pwd_steps = [wf_step_def False, wf_step_def True], pwd_initiator = []\<rparr>) else None),
     sv_dec_step_result := (\<lambda>b. if b = 2 then Some wf_result else None)\<rparr>"

definition wf_engine :: "(nat WorkflowState json bucket, nat) WorkflowEngine" where
  "wf_engine = NewWorkflowEngine mem_ops
     \<lparr>dr_registry = registry_reads (mem_registry 3 6 None) ex_agents, dr_relay = None\<rparr> ''n1'' 0 (\<lambda>_. [])"

definition wf_node :: "'s \<Rightarrow> ('s, nat) node" where
  "wf_node s = \<lparr>nd_store = s, nd_env = ex_env, nd_timeouts = NewStepTimeoutManager, nd_pending = [],
     nd_resumeCh = [], nd_buffers = [], nd_waiting = [], nd_next = 0\<rparr>"

definition wf_event :: "nat \<Rightarrow> string \<Rightarrow> nat event" where
  "wf_event payload wid = (zero_event payload)\<lparr>ev_SourceAgent := ''a1'', ev_WorkflowID := wid\<rparr>"

definition wf_state :: "bool list \<Rightarrow> nat WorkflowState" where
  "wf_state hs = initial_state ''w'' \<lparr>wd_Name = ''p'', wd_Steps = map (\<lambda>h. \<lparr>sd_Name = ''s'',
     sd_Capability = ''nlp.qa'', sd_TimeoutSeconds = 0, sd_Input = 0, sd_HumanApproval = h, sd_Prompt = [],
     sd_ResourceIDs = [''db'']\<rparr>) hs, wd_Initiator = []\<rparr> 0"

definition wf_bucket :: "nat WorkflowState \<Rightarrow> nat WorkflowState json bucket" where
  "wf_bucket st = \<lparr>bk_entries = [(''w'', Json st, 1)], bk_seq = 1\<rparr>"

lemma wf_bucket_ok: "wf_ok ''w'' st \<Longrightarrow> bucket_ok (mem_view (nd_store (wf_node (wf_bucket st))))"
  by (simp add: bucket_ok_def mem_view_def wf_bucket_def wf_node_def)

lemma wf_state_ok: "hs \<noteq> [] \<Longrightarrow> length hs \<le> 100 \<Longrightarrow> wf_ok ''w'' (wf_state hs)"
  unfolding wf_state_def by (rule initial_state_ok [THEN conjunct1]) (auto simp: wf_def_ok_def Suc_le_eq)

lemma wf_engine_store [simp]: "eg_store wf_engine = mem_ops"
  by (simp add: wf_engine_def NewWorkflowEngine_def)

section \<open>Properties of runs\<close>




definition wf_done :: "nat WorkflowState" where
  "wf_done = (wf_state [False])\<lparr>ws_Status := StatusFailed, ws_Error := Some (newWorkflowError ''X'' [] 0 [])\<rparr>"

lemma wf_done_ok: "wf_ok ''w'' wf_done"
  using wf_state_ok [of "[False]"] by (auto simp: wf_done_def wf_ok_def wf_state_def initial_state_def persisted_id)


section \<open>Properties of results\<close>

context workflow_store
begin

lemma handleResult_ok:
  assumes "eg_store e = kv" and "bucket_ok (view (nd_store n))"
  shows "bucket_ok (view (nd_store (snd (handleWorkflowStepResult sv e event n))))"
proof (cases "store_Get kv (ev_WorkflowID event) (nd_store n)")
  case (Inr p)
  obtain st q where p: "p = (st, q)" by fastforce
  with Inr have "store_Get kv (ev_WorkflowID event) (nd_store n) = Inr (st, q)" by simp
  from read_okI [OF this assms(2)] have "store_run (view (nd_store n))
      (view (nd_store (snd (acceptResult sv e event payload st q n))))" for payload
    using advanceWorkflow_run [of e "snd (now sv n)" "ev_WorkflowID event" st q] assms
    by (auto simp: acceptResult_def terminal_def case_prod_unfold Let_def)
  then show ?thesis using Inr p assms ok_inv.run_keeps
    by (auto simp: handleWorkflowStepResult_def split: option.split)
qed (use assms in \<open>auto simp: handleWorkflowStepResult_def split: option.split\<close>)

end

text \<open>
  C10. On a store that answers, a successful result of a workflow that is not finished is recorded
  as the next one and moves the workflow forward by exactly one step; the workflow is completed
  exactly when that was its last step.
\<close>

theorem result_advances_one_step:
  assumes "reliable_workflow_store kv view" and "eg_store e = kv" and "bucket_ok (view (nd_store n))"
    and "view (nd_store n) (ev_WorkflowID event) = Some (Json st, q)" and "\<not> terminal st"
    and "ev_WorkflowID event \<noteq> []" and "sv_dec_step_result sv (ev_Payload event) = Some payload"
    and "wsr_status payload \<noteq> StepStatusFailure"
  shows "\<exists>st' q' ts. view (nd_store (snd (handleWorkflowStepResult sv e event n))) (ev_WorkflowID event) = Some (Json st', q') \<and>
    ws_StepResults st' = ws_StepResults st @ [result_of event payload ts] \<and>
    unat (ws_CurrentStep st') = Suc (unat (ws_CurrentStep st)) \<and>
    (ws_Status st' = StatusCompleted \<longleftrightarrow> Suc (unat (ws_CurrentStep st)) = length (steps_of st))"
proof -
  have "wf_ok (ev_WorkflowID event) st" using bucket_okD [OF assms(3,4)] .
  then have "unat (ws_CurrentStep st + 1) = Suc (unat (ws_CurrentStep st))"
    using wf_ok_running_bound assms(5) by blast
  then show ?thesis using reliable_workflow_store.handleResult_effect [OF assms] by fastforce
qed

lemma wf_view [simp]: "mem_view (nd_store (wf_node (wf_bucket st))) ''w'' = Some (Json st, 1)"
  by (simp add: mem_view_def wf_node_def wf_bucket_def)

lemma wf_event_simps [simp]: "ev_WorkflowID (wf_event b w) = w" "ev_Payload (wf_event b w) = b"
  by (simp_all add: wf_event_def zero_event_def)

lemma wf_services_result [simp]: "sv_dec_step_result wf_services 2 = Some wf_result"
  by (simp add: wf_services_def)

lemma wf_result_ok [simp]: "wsr_status wf_result \<noteq> StepStatusFailure"
  by (simp add: wf_result_def StepStatusFailure_def)

lemma wf_state_simps [simp]: "\<not> terminal (wf_state hs)" "ws_StepResults (wf_state hs) = []"
  "ws_CurrentStep (wf_state hs) = 0" "length (steps_of (wf_state hs)) = length hs"
  "ws_Status (wf_state hs) = StatusRunning" "ws_PendingDecision (wf_state hs) = None"
  by (simp_all add: wf_state_def initial_state_def terminal_def)

theorem result_advances_one_step_witness:
  "\<exists>st' q'. mem_view (nd_store (snd (handleWorkflowStepResult wf_services wf_engine (wf_event 2 ''w'')
      (wf_node (wf_bucket (wf_state [False])))))) ''w'' = Some (Json st', q') \<and> ws_Status st' = StatusCompleted"
  using result_advances_one_step [OF mem_rwf.reliable_workflow_store_axioms wf_engine_store
      wf_bucket_ok [OF wf_state_ok [of "[False]"]], of "wf_event 2 ''w''" "wf_state [False]" 1 wf_services wf_result]
  by auto

text \<open>
  C36. The index a result carries is not compared with the current step: the same result event
  delivered twice, one delivery after the other, is recorded twice and advances the workflow by
  two steps.
\<close>

theorem duplicate_result_advances_twice:
  assumes "reliable_workflow_store kv view" and "eg_store e = kv" and "bucket_ok (view (nd_store n))"
    and "view (nd_store n) (ev_WorkflowID event) = Some (Json st, q)" and "\<not> terminal st"
    and "ev_WorkflowID event \<noteq> []" and "sv_dec_step_result sv (ev_Payload event) = Some payload"
    and "wsr_status payload \<noteq> StepStatusFailure"
    and "n1 = snd (handleWorkflowStepResult sv e event n)"
    and "view (nd_store n1) (ev_WorkflowID event) = Some (Json st1, q1)" and "\<not> terminal st1"
  shows "\<exists>st2 q2 t1 t2. view (nd_store (snd (handleWorkflowStepResult sv e event n1))) (ev_WorkflowID event) = Some (Json st2, q2) \<and>
    unat (ws_CurrentStep st2) = unat (ws_CurrentStep st) + 2 \<and>
    ws_StepResults st2 = ws_StepResults st @ [result_of event payload t1, result_of event payload t2]"
proof -
  obtain t1 where s1: "ws_StepResults st1 = ws_StepResults st @ [result_of event payload t1]"
    "ws_CurrentStep st1 = ws_CurrentStep st + 1"
    using reliable_workflow_store.handleResult_effect [OF assms(1-8)] assms(9,10) by fastforce
  have ok1: "bucket_ok (view (nd_store n1))"
    using workflow_store.handleResult_ok [OF reliable_workflow_store.axioms(1) [OF assms(1)] assms(2,3)] assms(9) by simp
  obtain st2 q2 t2 where s2: "view (nd_store (snd (handleWorkflowStepResult sv e event n1))) (ev_WorkflowID event) = Some (Json st2, q2)"
    "ws_StepResults st2 = ws_StepResults st1 @ [result_of event payload t2]" "ws_CurrentStep st2 = ws_CurrentStep st1 + 1"
    using reliable_workflow_store.handleResult_effect [OF assms(1,2) ok1 assms(10,11) assms(6-8)] by blast
  have "unat (ws_CurrentStep st1) = Suc (unat (ws_CurrentStep st))" "unat (ws_CurrentStep st2) = Suc (unat (ws_CurrentStep st1))"
    using wf_ok_running_bound [OF bucket_okD [OF assms(3,4)] assms(5)] wf_ok_running_bound [OF bucket_okD [OF ok1 assms(10)] assms(11)] s1 s2
    by simp_all
  then show ?thesis using s1 s2 by (intro exI [of _ st2] exI [of _ q2] exI [of _ t1] exI [of _ t2]) simp
qed

theorem duplicate_result_advances_twice_witness:
  "\<exists>st2 q2. mem_view (nd_store (snd (handleWorkflowStepResult wf_services wf_engine (wf_event 2 ''w'')
      (snd (handleWorkflowStepResult wf_services wf_engine (wf_event 2 ''w'') (wf_node (wf_bucket (wf_state [False, False])))))))) ''w''
      = Some (Json st2, q2) \<and> unat (ws_CurrentStep st2) = 2"
proof -
  let ?n = "wf_node (wf_bucket (wf_state [False, False]))"
  let ?n1 = "snd (handleWorkflowStepResult wf_services wf_engine (wf_event 2 ''w'') ?n)"
  have "case mem_view (nd_store ?n1) ''w'' of Some (Json st1, q1) \<Rightarrow> \<not> terminal st1 | _ \<Rightarrow> False" by code_simp
  then obtain st1 q1 where v1: "mem_view (nd_store ?n1) ''w'' = Some (Json st1, q1)" "\<not> terminal st1"
    by (auto split: option.splits json.splits)
  have ok: "bucket_ok (mem_view (nd_store ?n))" by (rule wf_bucket_ok [OF wf_state_ok]) simp_all
  from duplicate_result_advances_twice [OF mem_rwf.reliable_workflow_store_axioms wf_engine_store ok _ _ _ _ _ refl,
      of "wf_event 2 ''w''" "wf_state [False, False]" 1 wf_services wf_result st1 q1] v1
  show ?thesis by auto
qed


definition wf_waiting :: "nat WorkflowState" where
  "wf_waiting = (wf_state [True, False])\<lparr>ws_Status := StatusWaitingHuman,
     ws_PendingDecision := Some (new_decision ''d'' ''w'' (steps_of (wf_state [True, False]) ! 0) 0 0)\<rparr>"

lemma wf_waiting_ok: "wf_ok ''w'' wf_waiting"
  using wf_state_ok [of "[True, False]"]
  by (auto simp: wf_waiting_def wf_ok_def wf_state_def initial_state_def persisted_id new_decision_def)


section \<open>Publications of the engine\<close>

lemma published_now [simp]:
  "published (nd_env (snd (now sv n))) en es ms \<longleftrightarrow> published (nd_env n) en es ms"
  "published (nd_env (snd (uuid sv n))) en es ms \<longleftrightarrow> published (nd_env n) en es ms"
  "published en (nd_env (snd (now sv n))) es ms \<longleftrightarrow> published en (nd_env n) es ms"
  by (simp_all add: published_def)

context workflow_store
begin

lemma stale_Update:
  assumes "\<And>v. view (nd_store n) wid \<noteq> Some (v, q)"
  obtains x n' where "node_Update kv wid st q n = (Some x, n')" "view (nd_store n') = view (nd_store n)" "nd_env n' = nd_env n"
proof -
  obtain res s' where u: "store_Update kv wid st q (nd_store n) = (res, s')" by fastforce
  from store_Update_stale [OF this assms] obtain x where "res = Some x" "view s' = view (nd_store n)" by blast
  with u that show thesis by (auto simp: node_Update_def)
qed

lemma fail_stale:
  assumes e: "eg_store e = kv" and st: "\<And>v. view (nd_store n) wid \<noteq> Some (v, q)"
  shows "fst (failWorkflowWithError sv e wid s q err n) = None \<and>
    view (nd_store (snd (failWorkflowWithError sv e wid s q err n))) = view (nd_store n) \<and>
    published (nd_env n) (nd_env (snd (failWorkflowWithError sv e wid s q err n))) [] []"
proof -
  let ?n0 = "n\<lparr>nd_timeouts := Cancel wid (nd_timeouts n)\<rparr>"
  let ?st = "s\<lparr>ws_Status := StatusFailed, ws_Error := Some err, ws_UpdatedAt := fst (now sv ?n0)\<rparr>"
  have "\<And>v. view (nd_store (snd (now sv ?n0))) wid \<noteq> Some (v, q)" using st by simp
  then obtain x n' where "node_Update kv wid ?st q (snd (now sv ?n0)) = (Some x, n')"
    "view (nd_store n') = view (nd_store n)" "nd_env n' = nd_env (snd (now sv ?n0))"
    by (rule stale_Update [of "snd (now sv ?n0)" wid q ?st]) simp
  then show ?thesis using e by (simp add: failWorkflowWithError_def Let_def case_prod_unfold published_def)
qed

lemma advance_stale:
  assumes e: "eg_store e = kv" and st: "\<And>v. view (nd_store n) wid \<noteq> Some (v, q)"
  shows "fst (advanceWorkflow sv e wid s q r n) = None \<and>
    view (nd_store (snd (advanceWorkflow sv e wid s q r n))) = view (nd_store n) \<and>
    published (nd_env n) (nd_env (snd (advanceWorkflow sv e wid s q r n))) [] []"
proof (cases "rs_Status r = StepStatusFailure")
  case True
  then show ?thesis using fail_stale [of e "n\<lparr>nd_timeouts := Cancel wid (nd_timeouts n)\<rparr>" wid q sv] e st
    by (simp add: advanceWorkflow_def published_def)
next
  case nf: False
  obtain ts n1 where t: "now sv (n\<lparr>nd_timeouts := Cancel wid (nd_timeouts n)\<rparr>) = (ts, n1)" by fastforce
  have s1: "nd_store n1 = nd_store n" "published (nd_env n) (nd_env n1) [] []"
    using t node_frame(7) [of sv "n\<lparr>nd_timeouts := Cancel wid (nd_timeouts n)\<rparr>"]
      node_now_quiet(1,2) [of sv "n\<lparr>nd_timeouts := Cancel wid (nd_timeouts n)\<rparr>"] by (simp_all add: published_def)
  let ?st = "s\<lparr>ws_StepResults := ws_StepResults s @ [r], ws_CurrentStep := ws_CurrentStep s + 1, ws_UpdatedAt := ts\<rparr>"
  show ?thesis
  proof (cases "unat (ws_CurrentStep s + 1) < length (steps_of s)")
    case True
    obtain x n2 where "node_Update kv wid ?st q n1 = (Some x, n2)" "view (nd_store n2) = view (nd_store n)" "nd_env n2 = nd_env n1"
      by (rule stale_Update [of n1 wid q ?st]) (use st s1 in auto)
    then show ?thesis using True nf t e s1 by (simp add: advanceWorkflow_def)
  next
    case False
    obtain ts' n2 where t': "now sv n1 = (ts', n2)" by fastforce
    have s2: "nd_store n2 = nd_store n" "published (nd_env n) (nd_env n2) [] []"
      using t' s1 node_frame(7) [of sv n1] node_now_quiet(1,2) [of sv n1] by (simp_all add: published_def)
    let ?st' = "?st\<lparr>ws_Status := StatusCompleted, ws_UpdatedAt := ts'\<rparr>"
    obtain x n3 where "node_Update kv wid ?st' q n2 = (Some x, n3)" "view (nd_store n3) = view (nd_store n)" "nd_env n3 = nd_env n2"
      by (rule stale_Update [of n2 wid q ?st']) (use st s2 in auto)
    then show ?thesis using False nf t t' e s2 by (simp add: advanceWorkflow_def completeWorkflow_def)
  qed
qed

end

text \<open>
  Of two handlers that read the same revision only one has an effect: a result processed
  against a revision that is no longer the stored one changes no stored workflow, publishes
  nothing and reports success, on any store, reliable or not.
\<close>

lemma stale_result_ignored:
  assumes "workflow_store kv view" and "eg_store e = kv"
    and "\<forall>v. view (nd_store n) (ev_WorkflowID event) \<noteq> Some (v, q)"
    and "acceptResult sv e event payload st q n = (res, n')"
  shows "res = None \<and> view (nd_store n') = view (nd_store n) \<and> published (nd_env n) (nd_env n') [] []"
proof (cases "ws_Status st = StatusCompleted \<or> ws_Status st = StatusFailed")
  case True
  then show ?thesis using assms(4) by (simp add: acceptResult_def)
next
  case False
  let ?r = "result_of event payload (fst (now sv n))"
  have "advanceWorkflow sv e (ev_WorkflowID event) st q ?r (snd (now sv n)) = (res, n')"
    using False assms(4) by (simp add: acceptResult_def case_prod_unfold Let_def)
  then show ?thesis
    using workflow_store.advance_stale [OF assms(1,2), of "snd (now sv n)" "ev_WorkflowID event" q sv st ?r] assms(3) by simp
qed

lemma stale_result_ignored_witness:
  "mem_view (nd_store (snd (acceptResult wf_services wf_engine (wf_event 2 ''w'') wf_result (wf_state [False]) 0
     (wf_node (wf_bucket (wf_state [False])))))) = mem_view (nd_store (wf_node (wf_bucket (wf_state [False]))))"
proof -
  have "\<forall>v. mem_view (nd_store (wf_node (wf_bucket (wf_state [False])))) (ev_WorkflowID (wf_event 2 ''w'')) \<noteq> Some (v, 0)"
    by simp
  from stale_result_ignored [OF mem_wf.workflow_store_axioms wf_engine_store this prod.collapse [symmetric]]
  show ?thesis by blast
qed

section \<open>Announcements\<close>

lemma route_workflow_event:
  assumes "route_event sv e ty wid [] ts data n = (None, n')" and "wid \<noteq> []"
  shows "\<exists>uid. published (nd_env n) (nd_env n')
    [(engine_event e ty wid [] ts uid data)\<lparr>ev_Type := ''workflow.'' @ wid @ ''.'' @ ty\<rparr>] []"
proof -
  let ?e = "engine_event e ty wid [] ts (fst (uuid sv n)) data"
  have strat: "ResolveStrategy ?e = StrategyWorkflow" "ev_WorkflowID ?e = wid" "ev_Type ?e = ty"
    using assms(2) by (simp_all add: ResolveStrategy_def engine_event_def zero_event_def)
  have r: "Route sv (eg_router e) ?e (nd_env (snd (uuid sv n))) = (None, nd_env n')"
    using assms(1) by (auto simp: route_event_def node_Route_def case_prod_unfold Let_def prod_eq_iff)
  obtain g en where g: "GetOrCreateStream sv wid (nd_env (snd (uuid sv n))) = (g, en)" by fastforce
  have "published (nd_env n) en [] []" using GetOrCreateStream_sent [OF g] by (simp add: published_def)
  moreover have "on_world RoutePublish (Publish sv (?e\<lparr>ev_Type := ''workflow.'' @ wid @ ''.'' @ ty\<rparr>)) en = (None, nd_env n')"
    using r strat g by (auto simp: Route_def routeWorkflow_def split: option.splits)
  ultimately show ?thesis using Publish_published published_trans by fastforce
qed

lemma announce_end_None:
  assumes "announce_end sv e ty wid ts msg n = (None, n')" and "wid \<noteq> []"
  shows "\<exists>data uid. sv_marshal sv msg = Some data \<and> published (nd_env n) (nd_env n')
      [(engine_event e ty wid [] ts uid data)\<lparr>ev_Type := ''workflow.'' @ wid @ ''.'' @ ty\<rparr>] [] \<and>
    LookupStream wid (nd_env n') = None"
proof -
  obtain data m where d: "sv_marshal sv msg = Some data" and r: "route_event sv e ty wid [] ts data n = (None, m)"
    and n': "n' = m\<lparr>nd_env := Cleanup wid (nd_env m)\<rparr>"
    using assms(1) by (auto simp: announce_end_def split: option.splits prod.splits)
  from route_workflow_event [OF r assms(2)] d n' show ?thesis
    by (auto simp: published_def Cleanup_def LookupStream_def map_of_alist_delete)
qed

text \<open>
  A failing result ends the workflow visibly: it is stored as FAILED with the reported error,
  exactly one event is published, \<open>workflow.failed\<close> on the workflow's own subject with that error,
  and the workflow's stream is forgotten.
\<close>

lemma failed_result_announced:
  assumes "reliable_workflow_store kv view" and "eg_store e = kv"
    and "view (nd_store n) (ev_WorkflowID event) = Some (Json st, q)" and "\<not> terminal st"
    and "ev_WorkflowID event \<noteq> []" and "sv_dec_step_result sv (ev_Payload event) = Some payload"
    and "wsr_status payload = StepStatusFailure" and "wsr_error payload = Some werr"
    and "handleWorkflowStepResult sv e event n = (None, n')"
  shows "(\<exists>st' q'. view (nd_store n') (ev_WorkflowID event) = Some (Json st', q') \<and> ws_Status st' = StatusFailed \<and>
      map_option workflowErrorToProto (ws_Error st') = Some werr) \<and>
    (\<exists>x ts. published (nd_env n) (nd_env n') [x] [] \<and>
      ev_Type x = ''workflow.'' @ ev_WorkflowID event @ ''.workflow.failed'' \<and>
      sv_marshal sv (MWorkflowFailed \<lparr>wfp_workflow_id = ev_WorkflowID event, wfp_error = Some werr,
         wfp_failed_step = pwe_step_index werr, wfp_started_at = ws_CreatedAt st, wfp_failed_at = ts\<rparr>) = Some (ev_Payload x)) \<and>
    LookupStream (ev_WorkflowID event) (nd_env n') = None"
proof -
  let ?wid = "ev_WorkflowID event" and ?err = "\<lparr>we_Code = pwe_code werr, we_Message = pwe_message werr,
    we_StepIndex = pwe_step_index werr, we_AgentID = pwe_agent_id werr\<rparr>"
  have pb: "workflowErrorToProto ?err = werr" by (simp add: workflowErrorToProto_def)
  let ?n = "(snd (now sv n))\<lparr>nd_timeouts := Cancel ?wid (nd_timeouts n)\<rparr>"
  have v: "view (nd_store ?n) ?wid = Some (Json st, q)" using assms(3) by simp
  have f: "failWorkflowWithError sv e ?wid st q ?err ?n = (None, n')"
    using assms(2,4-9) reliable_workflow_store.store_Get_present [OF assms(1,3)]
    by (simp add: handleWorkflowStepResult_def acceptResult_def advanceWorkflow_def result_of_def terminal_def
        case_prod_unfold Let_def)
  from reliable_workflow_store.fail_effect [OF assms(1,2) v, of sv ?err] f pb
  have "\<exists>st' q'. view (nd_store n') ?wid = Some (Json st', q') \<and> ws_Status st' = StatusFailed \<and>
      map_option workflowErrorToProto (ws_Error st') = Some werr" by fastforce
  moreover
  let ?n0 = "?n\<lparr>nd_timeouts := Cancel ?wid (nd_timeouts ?n)\<rparr>"
  obtain ts n1 where t: "now sv ?n0 = (ts, n1)" by fastforce
  have n1: "nd_store n1 = nd_store n" "published (nd_env n) (nd_env n1) [] []"
    using t node_frame(7) [of sv ?n0] node_now_quiet(1,2) [of sv ?n0] by (simp_all add: published_def)
  let ?st = "st\<lparr>ws_Status := StatusFailed, ws_Error := Some ?err, ws_UpdatedAt := ts\<rparr>"
  obtain n2 where u: "node_Update kv ?wid ?st q n1 = (None, n2)" "nd_env n2 = nd_env n1"
    using reliable_workflow_store.node_Update_current [OF assms(1), of n1 ?wid "Json st" q ?st] assms(3) n1(1) by metis
  have a: "announce_end sv e ''workflow.failed'' ?wid ts (MWorkflowFailed \<lparr>wfp_workflow_id = ?wid, wfp_error = Some werr,
      wfp_failed_step = pwe_step_index werr, wfp_started_at = ws_CreatedAt st, wfp_failed_at = ts\<rparr>) n2 = (None, n')"
    using f t u(1) assms(2) pb by (simp add: failWorkflowWithError_def)
  from announce_end_None [OF a assms(5)] n1(2) u(2) published_trans [of "nd_env n" "nd_env n1" "[]" "[]"]
  have "(\<exists>x ts. published (nd_env n) (nd_env n') [x] [] \<and> ev_Type x = ''workflow.'' @ ?wid @ ''.workflow.failed'' \<and>
      sv_marshal sv (MWorkflowFailed \<lparr>wfp_workflow_id = ?wid, wfp_error = Some werr, wfp_failed_step = pwe_step_index werr,
         wfp_started_at = ws_CreatedAt st, wfp_failed_at = ts\<rparr>) = Some (ev_Payload x)) \<and> LookupStream ?wid (nd_env n') = None"
    by (fastforce simp: engine_event_def zero_event_def)
  ultimately show ?thesis by blast
qed

definition wf_failing :: "nat services" where
  "wf_failing = wf_services\<lparr>sv_dec_step_result := (\<lambda>b. Some (wf_result\<lparr>wsr_status := 2,
     wsr_error := Some \<lparr>pwe_code = ''E'', pwe_message = [], pwe_step_index = 0, pwe_agent_id = ''a1''\<rparr>\<rparr>))\<rparr>"

lemma failed_result_announced_witness:
  "\<exists>x. published (nd_env (wf_node (wf_bucket (wf_state [False]))))
      (nd_env (snd (handleWorkflowStepResult wf_failing wf_engine (wf_event 2 ''w'') (wf_node (wf_bucket (wf_state [False])))))) [x] [] \<and>
    ev_Type x = ''workflow.w.workflow.failed''"
proof -
  let ?n = "wf_node (wf_bucket (wf_state [False]))" and ?h = "handleWorkflowStepResult wf_failing wf_engine (wf_event 2 ''w'')"
  have "fst (?h ?n) = None" by code_simp
  then have h: "?h ?n = (None, snd (?h ?n))" by (metis prod.collapse)
  let ?p = "wf_result\<lparr>wsr_status := 2,
     wsr_error := Some \<lparr>pwe_code = ''E'', pwe_message = [], pwe_step_index = 0, pwe_agent_id = ''a1''\<rparr>\<rparr>"
  have "sv_dec_step_result wf_failing (ev_Payload (wf_event 2 ''w'')) = Some ?p" by (simp add: wf_failing_def)
  note dec = this
  have v: "mem_view (nd_store ?n) (ev_WorkflowID (wf_event 2 ''w'')) = Some (Json (wf_state [False]), 1)" by simp
  have "ev_WorkflowID (wf_event 2 ''w'') \<noteq> []" "wsr_status ?p = StepStatusFailure"
    "wsr_error ?p = Some \<lparr>pwe_code = ''E'', pwe_message = [], pwe_step_index = 0, pwe_agent_id = ''a1''\<rparr>"
    by (simp_all add: StepStatusFailure_def)
  from failed_result_announced [OF mem_rwf.reliable_workflow_store_axioms wf_engine_store v wf_state_simps(1) this(1) dec this(2,3) h]
  show ?thesis by auto
qed

section \<open>Dispatch\<close>

lemma route_direct_event:
  assumes "route_event sv e ty wid a ts data n = (None, n')" and "a \<noteq> []"
    and "ri_get (dr_registry (eg_router e)) a = Inr (reg, q)" and "\<not> IsRemote reg"
  shows "\<exists>uid. published (nd_env n) (nd_env n') [directEvent (engine_event e ty wid a ts uid data)] []"
proof -
  let ?e = "engine_event e ty wid a ts (fst (uuid sv n)) data"
  have e: "ResolveStrategy ?e = StrategyDirect" "ev_TargetAgent ?e = a"
    using assms(2) by (simp_all add: ResolveStrategy_def engine_event_def)
  have r: "Route sv (eg_router e) ?e (nd_env (snd (uuid sv n))) = (None, nd_env n')"
    using assms(1) by (auto simp: route_event_def node_Route_def case_prod_unfold Let_def prod_eq_iff)
  have "on_world RoutePublish (Publish sv (directEvent ?e)) (nd_env (snd (uuid sv n))) = (None, nd_env n')"
    using r e routeDirect_local [of "eg_router e" ?e reg q] assms(3,4) by (simp add: Route_def)
  from Publish_published [OF this] show ?thesis by auto
qed

lemma dispatch_sends:
  assumes "reliable_workflow_store kv view" and "eg_store e = kv"
    and "view (nd_store n) wid = Some (Json st, q)" and "wid \<noteq> []"
    and "unat i < length (steps_of st)" and "\<not> sd_HumanApproval (steps_of st ! unat i)"
    and "ri_find (dr_registry (eg_router e)) (sd_Capability (steps_of st ! unat i)) [] = Inr (a # as)"
    and "reg_AgentID a \<noteq> []" and "ri_get (dr_registry (eg_router e)) (reg_AgentID a) = Inr (reg, rv)" and "\<not> IsRemote reg"
    and "dispatchStep sv e wid i n = (None, n')"
  obtains ts r x y st' where "st' = st\<lparr>ws_AssignedAgent := reg_AgentID a, ws_UpdatedAt := ts\<rparr>"
    "view (nd_store n') = (view (nd_store n))(wid \<mapsto> (Json (persisted st'), r))"
    "published (nd_env n) (nd_env n') [x, y] []" "ev_Payload x = ev_Payload y"
    "sv_marshal sv (MWorkflowStep (step_payload wid st' (steps_of st ! unat i) i)) = Some (ev_Payload y)"
    "ev_Type x = ''workflow.'' @ wid @ ''.workflow.step''" "ev_Type y = ''agent.direct.'' @ reg_AgentID a @ ''.workflow.step''"
    "\<exists>t\<in>snd ` set (tm_armed (nd_timeouts n')). tr_workflow t = wid"
proof -
  let ?step = "steps_of st ! unat i"
  obtain ts n1 where t: "now sv n = (ts, n1)" by fastforce
  have n1: "nd_store n1 = nd_store n" "published (nd_env n) (nd_env n1) [] []" "nd_timeouts n1 = nd_timeouts n"
    using t node_frame(7,9) [of sv n] node_now_quiet(1,2) [of sv n] by (simp_all add: published_def)
  let ?st = "st\<lparr>ws_AssignedAgent := reg_AgentID a, ws_UpdatedAt := ts\<rparr>"
  obtain n2 r2 where u: "node_Update kv wid ?st q n1 = (None, n2)" "nd_env n2 = nd_env n1"
    "view (nd_store n2) = (view (nd_store n))(wid \<mapsto> (Json (persisted ?st), r2))"
    using reliable_workflow_store.node_Update_current [OF assms(1), of n1 wid "Json st" q ?st] assms(3) n1(1) by metis
  have d: "dispatchAgentStep sv e wid st q ?step i n = (None, n')"
    using assms(2,5,6,11) reliable_workflow_store.store_Get_present [OF assms(1,3)]
    by (simp add: dispatchStep_def dispatch_def Let_def)
  obtain data sent n3 n4 n5 where c: "now sv n2 = (sent, n3)"
    "route_event sv e ''workflow.step'' wid [] sent data n3 = (None, n4)"
    "route_event sv e ''workflow.step'' wid (reg_AgentID a) sent data n4 = (None, n5)"
    "nd_env n' = nd_env n5" "nd_store n' = nd_store n5" "\<exists>t\<in>snd ` set (tm_armed (nd_timeouts n')). tr_workflow t = wid"
    "sv_marshal sv (MWorkflowStep (step_payload wid ?st ?step i)) = Some data"
    using d t u(1) assms(2,7) by (auto simp: dispatchAgentStep_def Let_def Schedule_def split: option.splits prod.splits)
  have p2: "published (nd_env n) (nd_env n3) [] []"
    using c(1) n1(2) u(2) node_now_quiet(1,2) [of sv n2] by (simp add: published_def)
  obtain x where x: "published (nd_env n3) (nd_env n4) [x] []" "ev_Payload x = data" "ev_Type x = ''workflow.'' @ wid @ ''.workflow.step''"
    using route_workflow_event [OF c(2) assms(4)] by (auto simp: engine_event_def zero_event_def)
  obtain y where y: "published (nd_env n4) (nd_env n5) [y] []" "ev_Payload y = data"
      "ev_Type y = ''agent.direct.'' @ reg_AgentID a @ ''.workflow.step''"
    using route_direct_event [OF c(3) assms(8-10)] by (auto simp: directEvent_def engine_event_def zero_event_def)
  have p: "published (nd_env n) (nd_env n') [x, y] []"
    using published_trans [OF published_trans [OF p2 x(1)] y(1)] c(4) by simp
  have "nd_store n5 = nd_store n2"
    using c node_frame(7) [of sv n2] route_event_frame(1) [of sv e "''workflow.step''" wid "[]" sent data n3]
      route_event_frame(1) [of sv e "''workflow.step''" wid "reg_AgentID a" sent data n4] by simp
  then have "view (nd_store n') = (view (nd_store n))(wid \<mapsto> (Json (persisted ?st), r2))" using u(3) c(5) by simp
  from that [OF refl this p _ _ x(3) y(3) c(6)] show thesis using c(7) x(2) y(2) by simp
qed

text \<open>
  A dispatched agent step reaches the least active agent offering its capability: on success
  the agent is stored as assigned, the step goes out twice, on the workflow's subject and on the
  agent's direct subject, with the same payload, and a timer for the step is running.
\<close>

theorem dispatch_reaches_agent:
  assumes "reliable_workflow_store kv view" and "eg_store e = kv" and "agent_directory (dr_registry (eg_router e))"
    and "view (nd_store n) wid = Some (Json st, q)" and "wid \<noteq> []"
    and "unat i < length (steps_of st)" and "\<not> sd_HumanApproval (steps_of st ! unat i)"
    and "ri_find (dr_registry (eg_router e)) (sd_Capability (steps_of st ! unat i)) [] = Inr (a # as)"
    and "reg_AgentID a \<noteq> []" and "ri_get (dr_registry (eg_router e)) (reg_AgentID a) = Inr (reg, rv)" and "\<not> IsRemote reg"
    and "dispatchStep sv e wid i n = (None, n')"
  shows "(\<forall>b\<in>set as. reg_AgentID a \<le> reg_AgentID b) \<and> reg_Status a = StatusActive \<and>
    (\<exists>st' q'. view (nd_store n') wid = Some (Json st', q') \<and> ws_AssignedAgent st' = reg_AgentID a) \<and>
    (\<exists>x y. published (nd_env n) (nd_env n') [x, y] [] \<and> ev_Payload x = ev_Payload y \<and>
       ev_Type x = ''workflow.'' @ wid @ ''.workflow.step'' \<and>
       ev_Type y = ''agent.direct.'' @ reg_AgentID a @ ''.workflow.step'') \<and>
    (\<exists>t\<in>snd ` set (tm_armed (nd_timeouts n')). tr_workflow t = wid)"
proof -
  have least: "(\<forall>b\<in>set as. reg_AgentID a \<le> reg_AgentID b) \<and> reg_Status a = StatusActive"
    using agent_directory.find_sorted [OF assms(3,8)] agent_directory.find_active [OF assms(3,8)] by auto
  from dispatch_sends [OF assms(1,2,4-12)] obtain ts r x y st' where d: "st' = st\<lparr>ws_AssignedAgent := reg_AgentID a, ws_UpdatedAt := ts\<rparr>"
    "view (nd_store n') = (view (nd_store n))(wid \<mapsto> (Json (persisted st'), r))"
    "published (nd_env n) (nd_env n') [x, y] []" "ev_Payload x = ev_Payload y"
    "ev_Type x = ''workflow.'' @ wid @ ''.workflow.step''" "ev_Type y = ''agent.direct.'' @ reg_AgentID a @ ''.workflow.step''"
    "\<exists>t\<in>snd ` set (tm_armed (nd_timeouts n')). tr_workflow t = wid" by metis
  then have "view (nd_store n') wid = Some (Json (persisted st'), r)" "ws_AssignedAgent (persisted st') = reg_AgentID a" by simp_all
  then show ?thesis using least d(3-7) by metis
qed


lemma wf_engine_router: "eg_router wf_engine = \<lparr>dr_registry = registry_reads (mem_registry 3 6 None) ex_agents, dr_relay = None\<rparr>"
  by (simp add: wf_engine_def NewWorkflowEngine_def)

theorem dispatch_reaches_agent_witness:
  "\<exists>x y. published (nd_env (wf_node (wf_bucket (wf_state [False]))))
     (nd_env (snd (dispatchStep wf_services wf_engine ''w'' 0 (wf_node (wf_bucket (wf_state [False])))))) [x, y] [] \<and>
     ev_Type y = ''agent.direct.a1.workflow.step''"
proof -
  let ?n = "wf_node (wf_bucket (wf_state [False]))" and ?d = "dispatchStep wf_services wf_engine ''w'' 0"
  have "fst (?d ?n) = None" by code_simp
  then have h: "?d ?n = (None, snd (?d ?n))" by (metis prod.collapse)
  have "case ri_find (dr_registry (eg_router wf_engine)) (sd_Capability (steps_of (wf_state [False]) ! 0)) [] of
      Inr (a # as) \<Rightarrow> reg_AgentID a = ''a1'' | _ \<Rightarrow> False" by code_simp
  then obtain a as where f: "ri_find (dr_registry (eg_router wf_engine)) (sd_Capability (steps_of (wf_state [False]) ! unat (0::32 word))) [] = Inr (a # as)"
    "reg_AgentID a = ''a1''" by (auto split: sum.splits list.splits)
  have "case ri_get (dr_registry (eg_router wf_engine)) ''a1'' of Inr (reg, q) \<Rightarrow> \<not> IsRemote reg | Inl _ \<Rightarrow> False" by code_simp
  then obtain reg q where g: "ri_get (dr_registry (eg_router wf_engine)) (reg_AgentID a) = Inr (reg, q)" "\<not> IsRemote reg"
    using f(2) by (auto split: sum.splits)
  have dir: "agent_directory (dr_registry (eg_router wf_engine))"
    using mem_reg.dir.agent_directory_axioms by (simp add: wf_engine_router)
  have "unat (0::32 word) < length (steps_of (wf_state [False]))" "\<not> sd_HumanApproval (steps_of (wf_state [False]) ! unat (0::32 word))"
    "reg_AgentID a \<noteq> []" "''w'' \<noteq> []" using f(2) by (simp_all add: wf_state_def initial_state_def)
  from dispatch_reaches_agent [OF mem_rwf.reliable_workflow_store_axioms wf_engine_store dir wf_view this(4,1,2) f(1) this(3) g h] f(2)
  show ?thesis by auto
qed

end
