(* ===== verification/DecisionProps.thy ===== *)
theory DecisionProps
  imports WorkflowProps
begin

text \<open>
  The human side of the workflow engine: what an operator's response does to a waiting workflow,
  what is lost when a response meets a failing store or a restarted node, and that the detection
  of conflicting decisions is complete and symmetric.
\<close>

section \<open>Human decisions\<close>

context reliable_workflow_store
begin

lemma respond_effect:
  assumes c: "dc_store c = kv" and v: "view (nd_store n) (hdr_workflow_id p) = Some (Json st, q)"
    and w: "ws_Status st = StatusWaitingHuman" "map_option pd_DecisionID (ws_PendingDecision st) = Some (hdr_decision_id p)"
  obtains ts r where
    "view (nd_store (respond sv c p st q n)) = (view (nd_store n))(hdr_workflow_id p \<mapsto> (Json (decided p ts st), r))"
    "nd_waiting (respond sv c p st q n) = nd_waiting n"
    "nd_timeouts (respond sv c p st q n) = Cancel (hdr_workflow_id p) (nd_timeouts n)"
    "\<And>ch. map_of (nd_resumeCh n) (hdr_workflow_id p) = Some ch \<Longrightarrow> map_of (nd_buffers n) ch = Some None \<Longrightarrow>
       map_of (nd_buffers (respond sv c p st q n)) ch = Some (Some
         \<lparr>dx_Approved = (hdr_action p = ActionApprove), dx_Response = Some p\<rparr>)"
proof -
  let ?n = "n\<lparr>nd_timeouts := Cancel (hdr_workflow_id p) (nd_timeouts n),
      nd_pending := AList.delete (hdr_decision_id p) (nd_pending n)\<rparr>"
  obtain ts n3 where t: "now sv ?n = (ts, n3)" by fastforce
  have f3: "nd_store n3 = nd_store n" "nd_timeouts n3 = Cancel (hdr_workflow_id p) (nd_timeouts n)"
    "nd_resumeCh n3 = nd_resumeCh n" "nd_buffers n3 = nd_buffers n" "nd_waiting n3 = nd_waiting n"
    using t node_frame(7,9,10,11,12) [of sv ?n] by simp_all
  have ps: "persisted (decided p ts st) = decided p ts st" by (simp add: persisted_id decided_def)
  obtain n4 r where u: "node_Update kv (hdr_workflow_id p) (decided p ts st) q n3 = (None, n4)"
    "view (nd_store n4) = (view (nd_store n))(hdr_workflow_id p \<mapsto> (Json (decided p ts st), r))"
    "nd_timeouts n4 = nd_timeouts n3" "nd_resumeCh n4 = nd_resumeCh n3" "nd_buffers n4 = nd_buffers n3" "nd_waiting n4 = nd_waiting n3"
    using node_Update_current [of n3 "hdr_workflow_id p" "Json st" q "decided p ts st"] v f3(1) ps by metis
  let ?r = "notify (hdr_workflow_id p) \<lparr>dx_Approved = (hdr_action p = ActionApprove), dx_Response = Some p\<rparr>
      (publishResolved sv c p (map_of (nd_pending n) (hdr_decision_id p)) n4)"
  have r: "respond sv c p st q n = ?r" using w t u(1) c by (auto simp: respond_def Let_def)
  have b: "map_of (nd_buffers ?r) ch = Some (Some \<lparr>dx_Approved = (hdr_action p = ActionApprove), dx_Response = Some p\<rparr>)"
    if "map_of (nd_resumeCh n) (hdr_workflow_id p) = Some ch" "map_of (nd_buffers n) ch = Some None" for ch
    using that u f3 by (simp add: notify_def map_of_alist_update)
  show thesis by (rule that [of ts r]) (use r b u f3 in auto)
qed

end

lemma approval_resumes:
  assumes "reliable_workflow_store kv view" and "eg_store e = kv" and "bucket_ok (view (nd_store n))"
    and "view (nd_store n) wid = Some (Json st, q)" and "ws_Status st = StatusWaitingHuman"
    and "ws_PendingDecision st = Some pd" and "p = \<lparr>hdr_decision_id = pd_DecisionID pd, hdr_workflow_id = wid,
      hdr_action = ActionApprove, hdr_operator_id = op, hdr_comment = cm, hdr_responded_at = at\<rparr>"
    and "map_of (nd_resumeCh n) wid = Some ch" and "map_of (nd_buffers n) ch = Some None"
    and "ProcessResponse sv (eg_coordinator e) p n = (res, n1)"
  shows "res = None \<and> (\<exists>st' q' r. view (nd_store (wake sv e (ch, wid, i) n1)) wid = Some (Json st', q') \<and>
    ws_StepResults st' = ws_StepResults st @ [r] \<and> rs_AgentID r = ''human-operator'' \<and> rs_StepIndex r = i \<and>
    unat (ws_CurrentStep st') = Suc (unat (ws_CurrentStep st)))"
proof -
  let ?c = "eg_coordinator e"
  have p: "hdr_workflow_id p = wid" "hdr_action p = ActionApprove" "hdr_decision_id p = pd_DecisionID pd"
    using assms(7) by simp_all
  have c: "dc_store ?c = kv" using assms(2) by simp
  have g: "store_Get kv wid (nd_store n) = Inr (st, q)" using reliable_workflow_store.store_Get_present [OF assms(1,4)] .
  have n1: "n1 = respond sv ?c p st q n" and res: "res = None" using assms(10) g c p by (simp_all add: ProcessResponse_def)
  have v: "view (nd_store n) (hdr_workflow_id p) = Some (Json st, q)" using assms(4) p by simp
  have w: "map_option pd_DecisionID (ws_PendingDecision st) = Some (hdr_decision_id p)" using assms(6) p by simp
  obtain ts r where v1: "view (nd_store n1) = (view (nd_store n))(wid \<mapsto> (Json (decided p ts st), r))"
    and b1: "map_of (nd_buffers n1) ch = Some (Some \<lparr>dx_Approved = True, dx_Response = Some p\<rparr>)"
    by (rule reliable_workflow_store.respond_effect [OF assms(1) c v assms(5) w, of sv]) (use n1 p assms(8,9) in auto)
  have wf: "workflow_store kv view" using assms(1) by (rule reliable_workflow_store.axioms(1))
  have rd: "read_ok (view (nd_store n)) (hdr_workflow_id p) st q"
    using assms(3,4) p bucket_okD [OF assms(3,4)] by (simp add: read_ok_def snapshot_ok_def)
  have ok1: "bucket_ok (view (nd_store n1))"
    using side_run_store [OF workflow_store.respond_run [OF wf c rd]] assms(3) n1 ok_inv.run_keeps by blast
  let ?n2 = "n1\<lparr>nd_waiting := remove1 (ch, wid, i) (nd_waiting n1), nd_buffers := AList.update ch None (nd_buffers n1)\<rparr>"
  let ?st1 = "decided p ts st"
  have st1: "ws_Status ?st1 = StatusRunning" "ws_StepResults ?st1 = ws_StepResults st" "ws_CurrentStep ?st1 = ws_CurrentStep st"
    using p(2) by (simp_all add: decided_def)
  have v2: "view (nd_store ?n2) wid = Some (Json ?st1, r)" using v1 by simp
  have nt: "\<not> terminal ?st1" using st1(1) by (simp add: terminal_def)
  let ?n3 = "snd (now sv ?n2)"
  obtain bytes where wk: "wake sv e (ch, wid, i) n1 = snd (advanceWorkflow sv e wid ?st1 r
      \<lparr>rs_StepIndex = i, rs_AgentID = ''human-operator'', rs_Status = StepStatusSuccess, rs_Result = bytes,
       rs_Error = None, rs_CompletedAt = fst (now sv ?n2)\<rparr> ?n3)"
    using b1 st1(1) reliable_workflow_store.store_Get_present [OF assms(1) v2] assms(2)
    by (simp add: wake_def resumeAfterApproval_def resume_def Let_def case_prod_unfold)
  have "unat (ws_CurrentStep st + 1) = Suc (unat (ws_CurrentStep st))"
    using wf_ok_running_bound [OF bucket_okD [OF ok1, of wid ?st1 r] nt] v1 st1(3) by simp
  moreover from reliable_workflow_store.advance_effect [OF assms(1,2) _ _ nt, of ?n3 wid r
      "\<lparr>rs_StepIndex = i, rs_AgentID = ''human-operator'', rs_Status = StepStatusSuccess, rs_Result = bytes,
       rs_Error = None, rs_CompletedAt = fst (now sv ?n2)\<rparr>" sv] ok1 v2 wk st1
  obtain st' q' where "view (nd_store (wake sv e (ch, wid, i) n1)) wid = Some (Json st', q')"
    "ws_StepResults st' = ws_StepResults st @ [\<lparr>rs_StepIndex = i, rs_AgentID = ''human-operator'',
       rs_Status = StepStatusSuccess, rs_Result = bytes, rs_Error = None, rs_CompletedAt = fst (now sv ?n2)\<rparr>]"
    "ws_CurrentStep st' = ws_CurrentStep st + 1"
    by (auto simp: StepStatusSuccess_def StepStatusFailure_def)
  ultimately show ?thesis using res by fastforce
qed

text \<open>
  An approval makes the workflow go on: if the goroutine of the human step is still waiting on
  its channel, then after the operator's approval has been processed and the goroutine has woken
  up, the decision is recorded as the result of the step and the workflow has moved one step
  forward.
\<close>

theorem approval_resumes_workflow:
  assumes "reliable_workflow_store kv view" and "eg_store e = kv" and "bucket_ok (view (nd_store n))"
    and "view (nd_store n) wid = Some (Json st, q)" and "ws_Status st = StatusWaitingHuman"
    and "ws_PendingDecision st = Some pd" and "p = \<lparr>hdr_decision_id = pd_DecisionID pd, hdr_workflow_id = wid,
      hdr_action = ActionApprove, hdr_operator_id = op, hdr_comment = cm, hdr_responded_at = at\<rparr>"
    and "map_of (nd_resumeCh n) wid = Some ch" and "map_of (nd_buffers n) ch = Some None"
    and "ProcessResponse sv (eg_coordinator e) p n = (res, n1)"
  shows "res = None \<and> (\<exists>st' q' r. view (nd_store (wake sv e (ch, wid, i) n1)) wid = Some (Json st', q') \<and>
    ws_StepResults st' = ws_StepResults st @ [r] \<and> rs_AgentID r = ''human-operator'' \<and> rs_StepIndex r = i \<and>
    unat (ws_CurrentStep st') = Suc (unat (ws_CurrentStep st)))"
  by (rule approval_resumes [OF assms])

definition wf_approval :: HumanDecisionResponsePayload where
  "wf_approval = \<lparr>hdr_decision_id = ''d'', hdr_workflow_id = ''w'', hdr_action = ActionApprove,
     hdr_operator_id = ''op'', hdr_comment = [], hdr_responded_at = 0\<rparr>"

lemma wf_waiting_decision:
  "ws_PendingDecision wf_waiting = Some (new_decision ''d'' ''w'' (steps_of (wf_state [True, False]) ! 0) 0 0)"
  "ws_Status wf_waiting = StatusWaitingHuman" "ws_CurrentStep wf_waiting = 0"
  by (simp_all add: wf_waiting_def)

theorem approval_resumes_workflow_witness:
  "\<exists>st' q'. mem_view (nd_store (wake wf_services wf_engine (0, ''w'', 0)
      (snd (ProcessResponse wf_services (eg_coordinator wf_engine) wf_approval
        ((wf_node (wf_bucket wf_waiting))\<lparr>nd_resumeCh := [(''w'', 0)], nd_buffers := [(0, None)],
           nd_waiting := [(0, ''w'', 0)]\<rparr>))))) ''w'' = Some (Json st', q') \<and> unat (ws_CurrentStep st') = 1"
proof -
  let ?n = "(wf_node (wf_bucket wf_waiting))\<lparr>nd_resumeCh := [(''w'', 0)], nd_buffers := [(0, None)], nd_waiting := [(0, ''w'', 0)]\<rparr>"
  have ok: "bucket_ok (mem_view (nd_store ?n))" using wf_bucket_ok [OF wf_waiting_ok] by simp
  have v: "mem_view (nd_store ?n) ''w'' = Some (Json wf_waiting, 1)" using wf_view [of wf_waiting] by simp
  have a: "wf_approval = \<lparr>hdr_decision_id = pd_DecisionID (new_decision ''d'' ''w'' (steps_of (wf_state [True, False]) ! 0) 0 0),
      hdr_workflow_id = ''w'', hdr_action = ActionApprove, hdr_operator_id = ''op'', hdr_comment = [], hdr_responded_at = 0\<rparr>"
    by (simp add: wf_approval_def new_decision_def)
  have "map_of (nd_resumeCh ?n) ''w'' = Some 0" "map_of (nd_buffers ?n) 0 = Some None" by simp_all
  from approval_resumes_workflow [OF mem_rwf.reliable_workflow_store_axioms wf_engine_store ok v wf_waiting_decision(2,1) a
      this prod.collapse [symmetric], of wf_services 0]
  show ?thesis by (auto simp: wf_waiting_decision)
qed

lemma recoverOne_frame [simp]:
  "nd_store (recoverOne sv c st pd n) = nd_store n" "nd_waiting (recoverOne sv c st pd n) = nd_waiting n"
  "nd_timeouts (recoverOne sv c st pd n) = nd_timeouts n" "nd_resumeCh (recoverOne sv c st pd n) = nd_resumeCh n"
  by (simp_all add: recoverOne_def Let_def case_prod_unfold split: option.split)

lemma recoverStates_frame [simp]:
  "nd_store (recoverStates sv c sts n) = nd_store n" "nd_waiting (recoverStates sv c sts n) = nd_waiting n"
  "nd_timeouts (recoverStates sv c sts n) = nd_timeouts n" "nd_resumeCh (recoverStates sv c sts n) = nd_resumeCh n"
  by (induction sts arbitrary: n) (auto split: option.split)



text \<open>
  A response is lost when the store cannot be written: the handler stops the timer and drops the
  pending decision before it updates the workflow, and reports success although the update failed.
  The workflow stays WAITING_HUMAN with its decision no longer listed and no timer to expire it.
\<close>

lemma response_lost_on_failed_update:
  assumes "workflow_store kv view" and "dc_store c = kv" and "tracked (nd_timeouts n)"
    and "store_Get kv (hdr_workflow_id p) (nd_store n) = Inr (st, q)"
    and "ws_Status st = StatusWaitingHuman" and "map_option pd_DecisionID (ws_PendingDecision st) = Some (hdr_decision_id p)"
    and "\<forall>x. \<exists>err s. kv_update kv (hdr_workflow_id p) x q (nd_store n) = (Inl err, s) \<and> view s = view (nd_store n)"
    and "ProcessResponse sv c p n = (res, n')"
  shows "res = None \<and> view (nd_store n') = view (nd_store n) \<and> GetPending (hdr_decision_id p) n' = None \<and>
    (\<forall>(i, t)\<in>set (tm_armed (nd_timeouts n')). tr_workflow t \<noteq> hdr_workflow_id p)"
proof -
  let ?w = "hdr_workflow_id p"
  let ?n = "n\<lparr>nd_timeouts := Cancel ?w (nd_timeouts n), nd_pending := AList.delete (hdr_decision_id p) (nd_pending n)\<rparr>"
  obtain ts n3 where t: "now sv ?n = (ts, n3)" by fastforce
  have f3: "nd_store n3 = nd_store n" "nd_timeouts n3 = Cancel ?w (nd_timeouts n)"
    "nd_pending n3 = AList.delete (hdr_decision_id p) (nd_pending n)"
    using t node_frame(7-9) [of sv ?n] by simp_all
  obtain err s where u: "kv_update kv ?w (Json (persisted (decided p ts st))) q (nd_store n) = (Inl err, s)"
    "view s = view (nd_store n)" using assms(7) by blast
  have "node_Update kv ?w (decided p ts st) q n3 = (Some WfCASConflict, n3\<lparr>nd_store := s\<rparr>)"
    using u(1) f3(1) by (simp add: node_Update_def store_Update_def)
  then have n': "n' = n3\<lparr>nd_store := s\<rparr>" and "res = None"
    using assms(2,4-6,8) t by (auto simp: ProcessResponse_def respond_def Let_def)
  moreover have "\<forall>(i, t)\<in>set (tm_armed (Cancel ?w (nd_timeouts n))). tr_workflow t \<noteq> ?w"
    using assms(3) by (rule Cancel_stops)
  ultimately show ?thesis using u(2) f3 by (simp add: GetPending_def map_of_alist_delete)
qed

lemma response_lost_on_failed_update_witness:
  "fst (ProcessResponse wf_services (NewDecisionCoordinator flaky_ops ''n1'') wf_approval (wf_node (wf_bucket wf_waiting, [Lose]))) = None \<and>
   flaky_view (nd_store (snd (ProcessResponse wf_services (NewDecisionCoordinator flaky_ops ''n1'') wf_approval
     (wf_node (wf_bucket wf_waiting, [Lose]))))) = mem_view (wf_bucket wf_waiting)"
proof -
  let ?n = "wf_node (wf_bucket wf_waiting, [Lose])" and ?c = "NewDecisionCoordinator flaky_ops ''n1''"
  have "store_Get flaky_ops (hdr_workflow_id wf_approval) (nd_store ?n) = Inr (wf_waiting, 1)"
    by (simp add: store_Get_def flaky_ops_def mem_get_def wf_node_def wf_bucket_def mem_view_def wf_approval_def)
  moreover have "map_option pd_DecisionID (ws_PendingDecision wf_waiting) = Some (hdr_decision_id wf_approval)"
    by (simp add: wf_waiting_decision wf_approval_def new_decision_def)
  moreover have "\<forall>x. \<exists>err s. kv_update flaky_ops (hdr_workflow_id wf_approval) x 1 (nd_store ?n) = (Inl err, s) \<and>
      flaky_view s = flaky_view (nd_store ?n)"
    by (simp add: flaky_ops_def flaky_write_def flaky_view_def wf_node_def)
  moreover have "dc_store ?c = flaky_ops" "tracked (nd_timeouts ?n)"
    by (simp_all add: NewDecisionCoordinator_def wf_node_def tracked_new)
  ultimately have "fst (ProcessResponse wf_services ?c wf_approval ?n) = None \<and>
      flaky_view (nd_store (snd (ProcessResponse wf_services ?c wf_approval ?n))) = flaky_view (nd_store ?n)"
    using response_lost_on_failed_update [OF flaky_wf.workflow_store_axioms _ _ _ wf_waiting_decision(2) _ _ prod.collapse [symmetric],
        of ?c ?n wf_approval 1 wf_services] by blast
  then show ?thesis by (simp add: flaky_view_def wf_node_def)
qed

section \<open>Conflicts between decisions\<close>

text \<open>
  Every pending decision is indexed by its own identifier, and two pending decisions name each
  other as conflicting exactly when they share a resource.
\<close>

definition shares :: "PendingDecision \<Rightarrow> PendingDecision \<Rightarrow> bool" where
  "shares x y \<longleftrightarrow> set (pd_ResourceIDs x) \<inter> set (pd_ResourceIDs y) \<noteq> {}"

definition conflicts_ok :: "(string \<times> PendingDecision) list \<Rightarrow> bool" where
  "conflicts_ok p \<longleftrightarrow> distinct (map fst p) \<and> (\<forall>k x. map_of p k = Some x \<longrightarrow> pd_DecisionID x = k) \<and>
     (\<forall>a b x y. a \<noteq> b \<longrightarrow> map_of p a = Some x \<longrightarrow> map_of p b = Some y \<longrightarrow>
        (b \<in> set (pd_ConflictIDs x) \<longleftrightarrow> shares x y))"

lemma set_appendUnique [simp]: "set (appendUnique xs v) = insert v (set xs)"
  by (auto simp: appendUnique_def)

lemma fst_modify [simp]: "map fst (modify k f p) = map fst p"
  by (induction p) (auto simp: modify_def)

lemma fst_annotate [simp]: "map fst (annotate pd cds p) = map fst p"
  by (induction cds arbitrary: p) (simp_all add: annotate_def)

text \<open>What one round of annotation does to the entry of a key.\<close>

lemma annotate_entry:
  assumes "map_of p k = Some x"
  shows "\<exists>x'. map_of (annotate pd cds p) k = Some x' \<and> strip x' = strip x \<and>
    set (pd_ConflictIDs x') = set (pd_ConflictIDs x) \<union> (if k = pd_DecisionID pd then pd_DecisionID ` set cds else {}) \<union>
      (if k \<in> pd_DecisionID ` set cds then {pd_DecisionID pd} else {})"
  using assms
proof (induction cds arbitrary: p x)
  case Nil
  then show ?case by (auto simp: annotate_def)
next
  case (Cons cd cds)
  let ?f = "\<lambda>d y. y\<lparr>pd_ConflictIDs := appendUnique (pd_ConflictIDs y) d\<rparr>"
  let ?p = "modify (pd_DecisionID pd) (?f (pd_DecisionID cd)) (modify (pd_DecisionID cd) (?f (pd_DecisionID pd)) p)"
  have a: "annotate pd (cd # cds) p = annotate pd cds ?p" by (simp add: annotate_def)
  define z where "z = (if k = pd_DecisionID cd then ?f (pd_DecisionID pd) x else x)"
  define y where "y = (if k = pd_DecisionID pd then ?f (pd_DecisionID cd) z else z)"
  have y: "map_of ?p k = Some y" "strip y = strip x"
    "set (pd_ConflictIDs y) = set (pd_ConflictIDs x) \<union> (if k = pd_DecisionID pd then {pd_DecisionID cd} else {}) \<union>
       (if k = pd_DecisionID cd then {pd_DecisionID pd} else {})"
    using Cons.prems by (auto simp: map_of_modify strip_def y_def z_def)
  from Cons.IH [OF y(1)] y(2,3) show ?case by (auto simp: a)
qed

lemma strip_fields: "strip x = strip y \<Longrightarrow> pd_DecisionID x = pd_DecisionID y \<and> pd_ResourceIDs x = pd_ResourceIDs y"
  by (cases x; cases y) (simp add: strip_def)

lemma conflicting_set:
  assumes "distinct (map fst p)"
  shows "x \<in> set (conflicting pd p) \<longleftrightarrow>
    (\<exists>k. map_of p k = Some x) \<and> pd_DecisionID x \<noteq> pd_DecisionID pd \<and> shares x pd"
  using assms by (force simp: conflicting_def shares_def list_ex_iff map_of_eq_Some_iff disjoint_iff)

text \<open>Adding a decision and annotating it restores the relation between all pending ones.\<close>

lemma annotate_conflicts_ok:
  assumes ok: "conflicts_ok p" and fresh: "map_of p (pd_DecisionID pd) = None" and none: "pd_ConflictIDs pd = []"
    and stale: "\<And>k x. map_of p k = Some x \<Longrightarrow> pd_DecisionID pd \<notin> set (pd_ConflictIDs x)"
  shows "conflicts_ok (annotate pd (conflicting pd (AList.update (pd_DecisionID pd) pd p)) (AList.update (pd_DecisionID pd) pd p))"
proof -
  let ?d = "pd_DecisionID pd" and ?u = "AList.update (pd_DecisionID pd) pd p"
  let ?cds = "conflicting pd ?u"
  have u: "map_of ?u = (map_of p)(?d \<mapsto> pd)" by (rule map_of_alist_update)
  have du: "distinct (map fst ?u)" using ok by (simp add: conflicts_ok_def distinct_update)
  have key: "map_of ?u k = Some x \<Longrightarrow> pd_DecisionID x = k" for k x
    using ok by (auto simp: u conflicts_ok_def split: if_splits)
  have ids: "k \<in> pd_DecisionID ` set ?cds \<longleftrightarrow> k \<noteq> ?d \<and> (\<exists>x. map_of p k = Some x \<and> shares x pd)" for k
  proof
    assume "k \<in> pd_DecisionID ` set ?cds"
    then obtain x k' where "k = pd_DecisionID x" "map_of ?u k' = Some x" "k \<noteq> ?d" "shares x pd"
      by (auto simp: conflicting_set [OF du])
    with key [of k' x] show "k \<noteq> ?d \<and> (\<exists>x. map_of p k = Some x \<and> shares x pd)" by (auto simp: u)
  next
    assume "k \<noteq> ?d \<and> (\<exists>x. map_of p k = Some x \<and> shares x pd)"
    then obtain x where x: "k \<noteq> ?d" "map_of ?u k = Some x" "shares x pd" by (auto simp: u)
    then have "pd_DecisionID x = k" using key by blast
    with x have "x \<in> set ?cds" by (auto simp: conflicting_set [OF du])
    with \<open>pd_DecisionID x = k\<close> show "k \<in> pd_DecisionID ` set ?cds" by blast
  qed
  have ent: "\<exists>x. map_of ?u k = Some x \<and> strip x' = strip x \<and>
      set (pd_ConflictIDs x') = set (pd_ConflictIDs x) \<union> (if k = ?d then pd_DecisionID ` set ?cds else {}) \<union>
        (if k \<in> pd_DecisionID ` set ?cds then {?d} else {})"
    if "map_of (annotate pd ?cds ?u) k = Some x'" for k x'
  proof -
    have "map_of ?u k \<noteq> None" using that fst_annotate [of pd ?cds ?u]
      by (metis map_of_eq_None_iff set_map option.distinct(1))
    then show ?thesis using annotate_entry [of ?u k _ pd ?cds] that by fastforce
  qed
  have sym: "shares x y \<longleftrightarrow> shares y x" for x y by (auto simp: shares_def)
  show ?thesis unfolding conflicts_ok_def
  proof (intro conjI allI impI)
    show "distinct (map fst (annotate pd ?cds ?u))" using du by simp
    show "pd_DecisionID x = k" if "map_of (annotate pd ?cds ?u) k = Some x" for k x
      using ent [OF that] key strip_fields by metis
    fix a b x y assume ab: "a \<noteq> b" "map_of (annotate pd ?cds ?u) a = Some x" "map_of (annotate pd ?cds ?u) b = Some y"
    obtain x0 where x0: "map_of ?u a = Some x0" "strip x = strip x0"
      "set (pd_ConflictIDs x) = set (pd_ConflictIDs x0) \<union> (if a = ?d then pd_DecisionID ` set ?cds else {}) \<union>
        (if a \<in> pd_DecisionID ` set ?cds then {?d} else {})" using ent [OF ab(2)] by blast
    obtain y0 where y0: "map_of ?u b = Some y0" "strip y = strip y0" using ent [OF ab(3)] by blast
    have sh: "shares x y \<longleftrightarrow> shares x0 y0" using strip_fields [OF x0(2)] strip_fields [OF y0(2)] by (simp add: shares_def)
    consider "a = ?d" | "a \<noteq> ?d" "b = ?d" | "a \<noteq> ?d" "b \<noteq> ?d" by blast
    then show "b \<in> set (pd_ConflictIDs x) \<longleftrightarrow> shares x y"
    proof cases
      case 1
      have "map_of p b = Some y0" using y0(1) ab(1) 1 by (simp add: u)
      moreover have "x0 = pd" using x0(1) 1 by (simp add: u)
      moreover note 1
      ultimately show ?thesis using x0(3) none ids [of b] ids [of a] ab(1) sh sym by auto
    next
      case 2
      then have "y0 = pd" "map_of p a = Some x0" using x0(1) y0(1) by (simp_all add: u)
      then show ?thesis using x0(3) 2 stale [of a x0] ids [of a] sh by auto
    next
      case 3
      then have p: "map_of p a = Some x0" "map_of p b = Some y0" using x0(1) y0(1) by (auto simp: u)
      then have "b \<in> set (pd_ConflictIDs x0) \<longleftrightarrow> shares x0 y0" using ok ab(1) by (auto simp: conflicts_ok_def)
      then show ?thesis using x0(3) 3 sh by auto
    qed
  qed
qed

lemma conflicts_ok_delete: "conflicts_ok p \<Longrightarrow> conflicts_ok (AList.delete k p)"
  by (auto simp: conflicts_ok_def map_of_alist_delete distinct_delete split: if_splits)


lemma set_group_lookup: "map_of (set_group g ids p) k =
    map_option (\<lambda>x. if k \<in> set ids then x\<lparr>pd_conflictGroupID := g\<rparr> else x) (map_of p k)"
  by (induction p) (auto simp: set_group_def)

lemma conflicts_ok_cong:
  assumes ok: "conflicts_ok p" and "map fst p' = map fst p"
    and core: "\<And>k. map_option (\<lambda>x. (pd_DecisionID x, pd_ConflictIDs x, pd_ResourceIDs x)) (map_of p' k) =
      map_option (\<lambda>x. (pd_DecisionID x, pd_ConflictIDs x, pd_ResourceIDs x)) (map_of p k)"
  shows "conflicts_ok p'"
proof -
  have ent: "\<exists>y. map_of p k = Some y \<and> pd_DecisionID y = pd_DecisionID x \<and> pd_ConflictIDs y = pd_ConflictIDs x \<and>
      pd_ResourceIDs y = pd_ResourceIDs x" if "map_of p' k = Some x" for k x
    using core [of k] that by (cases "map_of p k") auto
  show ?thesis unfolding conflicts_ok_def
  proof (intro conjI allI impI)
    show "distinct (map fst p')" using ok assms(2) by (simp add: conflicts_ok_def)
    show "pd_DecisionID x = k" if "map_of p' k = Some x" for k x
      using ent [OF that] ok by (auto simp: conflicts_ok_def)
    show "b \<in> set (pd_ConflictIDs x) \<longleftrightarrow> shares x y"
      if h: "a \<noteq> b" "map_of p' a = Some x" "map_of p' b = Some y" for a b x y
    proof -
      obtain x0 y0 where "map_of p a = Some x0" "map_of p b = Some y0" "pd_ConflictIDs x0 = pd_ConflictIDs x"
        "pd_ResourceIDs x0 = pd_ResourceIDs x" "pd_ResourceIDs y0 = pd_ResourceIDs y"
        using ent [OF h(2)] ent [OF h(3)] by blast
      moreover from this(1,2) have "b \<in> set (pd_ConflictIDs x0) \<longleftrightarrow> shares x0 y0"
        using ok h(1) unfolding conflicts_ok_def by blast
      ultimately show ?thesis by (simp add: shares_def)
    qed
  qed
qed

lemma set_group_conflicts:
  assumes "conflicts_ok p"
  shows "conflicts_ok (set_group g ids p)"
proof (rule conflicts_ok_cong [OF assms])
  show "map fst (set_group g ids p) = map fst p" by (auto simp: set_group_def)
  show "map_option (\<lambda>x. (pd_DecisionID x, pd_ConflictIDs x, pd_ResourceIDs x)) (map_of (set_group g ids p) k) =
      map_option (\<lambda>x. (pd_DecisionID x, pd_ConflictIDs x, pd_ResourceIDs x)) (map_of p k)" for k
    by (cases "map_of p k") (simp_all add: set_group_lookup)
qed

lemma recordConflicts_frame [simp]: "nd_pending (recordConflicts kv wid d ids n) = nd_pending n"
  by (simp add: recordConflicts_def Let_def split: sum.split)

lemma handleConflicts_pending:
  assumes "conflicts_ok (annotate pd (conflicting pd (nd_pending n)) (nd_pending n))"
  shows "conflicts_ok (nd_pending (handleConflicts sv c wid pd n))"
proof (cases "conflicting pd (nd_pending n) = []")
  case True
  then show ?thesis using assms by (simp add: handleConflicts_def annotate_def)
next
  case False
  then show ?thesis using set_group_conflicts [OF assms] by (simp add: handleConflicts_def Let_def case_prod_unfold)
qed



text \<open>
  Dispatching does not look at the status: if another handler has ended the workflow between the
  write that advanced it and the read that dispatches its next step, and that step needs a human,
  the finished workflow is stored as WAITING_HUMAN again.
\<close>

lemma dispatch_reopens_finished:
  assumes "reliable_workflow_store kv view" and "eg_store e = kv"
    and "view (nd_store n) wid = Some (Json st, q)" and "terminal st" and "nd_pending n = []"
    and "unat i < length (steps_of st)" and "sd_HumanApproval (steps_of st ! unat i)"
    and "dispatchStep sv e wid i n = (res, n')"
  shows "\<exists>st' q'. view (nd_store n') wid = Some (Json st', q') \<and> ws_Status st' = StatusWaitingHuman"
proof -
  let ?sd = "steps_of st ! unat i"
  obtain did n1 where u: "uuid sv n = (did, n1)" by fastforce
  obtain ts n2 where t: "now sv n1 = (ts, n2)" by fastforce
  have n2: "nd_store n2 = nd_store n" "nd_pending n2 = []"
    using u t assms(5) node_frame(1,2) [of sv n] node_frame(7,8) [of sv n1] by simp_all
  define pd where "pd = new_decision did wid ?sd i ts"
  let ?st = "st\<lparr>ws_Status := StatusWaitingHuman, ws_PendingDecision := Some pd, ws_UpdatedAt := ts\<rparr>"
  obtain n3 r where n3: "node_Update kv wid ?st q n2 = (None, n3)" "nd_pending n3 = nd_pending n2"
    "view (nd_store n3) = (view (nd_store n))(wid \<mapsto> (Json (persisted ?st), r))"
    using reliable_workflow_store.node_Update_current [OF assms(1), of n2 wid "Json st" q ?st] assms(3) n2(1) by metis
  have "conflicting pd [(did, pd)] = []" by (simp add: conflicting_def)
  then have "nd_store (snd (RequestDecision sv (eg_coordinator e) wid st q ?sd i n)) = nd_store n3"
    using u t n3(1,2) n2(2) assms(2) by (simp add: RequestDecision_def handleConflicts_def flip: pd_def)
  then have "nd_store (snd (dispatchHumanStep sv e wid st q ?sd i n)) = nd_store n3"
    by (simp add: dispatchHumanStep_def case_prod_unfold split: sum.split)
  moreover have "dispatchHumanStep sv e wid st q ?sd i n = (res, n')"
    using assms(2,6-8) reliable_workflow_store.store_Get_present [OF assms(1,3)] by (simp add: dispatchStep_def dispatch_def Let_def)
  ultimately show ?thesis using n3(3) by (auto intro!: exI [of _ "persisted ?st"])
qed

lemma dispatch_reopens_finished_witness:
  "\<exists>st' q'. mem_view (nd_store (snd (dispatchStep wf_services wf_engine ''w'' 0
      (wf_node (wf_bucket ((wf_state [True])\<lparr>ws_Status := StatusFailed\<rparr>)))))) ''w'' = Some (Json st', q') \<and>
    ws_Status st' = StatusWaitingHuman"
proof -
  let ?st = "(wf_state [True])\<lparr>ws_Status := StatusFailed\<rparr>"
  have "terminal ?st" "nd_pending (wf_node (wf_bucket ?st)) = []" "unat (0::32 word) < length (steps_of ?st)"
    "sd_HumanApproval (steps_of ?st ! unat (0::32 word))"
    by (simp_all add: terminal_def wf_node_def wf_state_def initial_state_def)
  from dispatch_reopens_finished [OF mem_rwf.reliable_workflow_store_axioms wf_engine_store wf_view this prod.collapse [symmetric]]
  show ?thesis by blast
qed

end
