(* ===== verification/Alias.thy ===== *)
theory Alias
  imports KV Protocol
begin

text \<open>
  Capability aliases (\<open>core/registry/alias.go\<close>): mappings between two capability names, kept in a
  bucket under their identifiers, resolved by a depth-limited search and merged between nodes by
  last-write-wins. The locale \<open>alias_bucket\<close> holds what is true over every lawful bucket, resolution
  within the class of a name; \<open>reliable_alias\<close> adds that requests are answered and holds the merge,
  a join of maps from identifiers to mappings.
\<close>

section \<open>Types\<close>

record AliasMapping =
  am_ID :: string
  am_Source :: string
  am_Target :: string
  am_NodeID :: string
  am_CreatedAt :: int

record AliasRegistrySnapshot =
  sn_NodeID :: string
  sn_Aliases :: "AliasMapping list"

datatype alias_error = AliasNamesRequired | AliasSameName | AliasCycle | AliasStore kv_error

record 's KVAliasRegistry =
  ka_kv :: "('s, AliasMapping json) kv_ops"
  ka_nodeID :: string

definition maxAliasDepth :: nat where "maxAliasDepth = 5"

section \<open>Reading\<close>

fun readAliases :: "('s, AliasMapping json) kv_ops \<Rightarrow> string list \<Rightarrow> 's \<Rightarrow> alias_error + AliasMapping list" where
  "readAliases kv [] s = Inr []"
| "readAliases kv (k # ks) s =
     (case kv_get kv k s of
        Inl err \<Rightarrow> if err = ErrKeyNotFound then readAliases kv ks s else Inl (AliasStore err)
      | Inr (Corrupt, _) \<Rightarrow> readAliases kv ks s
      | Inr (Json m, _) \<Rightarrow>
          (case readAliases kv ks s of Inl err \<Rightarrow> Inl err | Inr ms \<Rightarrow> Inr (m # ms)))"

definition listAll :: "'s KVAliasRegistry \<Rightarrow> 's \<Rightarrow> alias_error + AliasMapping list" where
  "listAll r s =
     (case kv_keys (ka_kv r) s of
        Inl err \<Rightarrow> if err = ErrNoKeysFound then Inr [] else Inl (AliasStore err)
      | Inr ks \<Rightarrow> readAliases (ka_kv r) ks s)"

definition ListAliases :: "'s KVAliasRegistry \<Rightarrow> string \<Rightarrow> 's \<Rightarrow> alias_error + AliasMapping list" where
  "ListAliases r nodeFilter s =
     (case listAll r s of
        Inl err \<Rightarrow> Inl err
      | Inr all \<Rightarrow> Inr (if nodeFilter = [] then all else filter (\<lambda>a. am_NodeID a = nodeFilter) all))"

definition Snapshot :: "'s KVAliasRegistry \<Rightarrow> 's \<Rightarrow> alias_error + AliasRegistrySnapshot" where
  "Snapshot r s =
     (case listAll r s of
        Inl err \<Rightarrow> Inl err
      | Inr all \<Rightarrow> Inr \<lparr>sn_NodeID = ka_nodeID r, sn_Aliases = all\<rparr>)"

section \<open>Resolution\<close>

text \<open>
  \<open>resolveFrom\<close> is a depth-first search that stops \<open>maxAliasDepth\<close> links away from its start; the
  counter here is the number of links left, \<open>maxAliasDepth - depth\<close>. \<open>resolveEach\<close> is its loop over
  the aliases, \<open>visit\<close> the recursive call. Both accumulate the visited names and the result; a
  failing read leaves what was found so far in the result.
\<close>

record resolution =
  rn_seen :: "string list"
  rn_result :: "string list"

definition otherName :: "string \<Rightarrow> AliasMapping \<Rightarrow> string option" where
  "otherName name a = (if am_Source a = name then Some (am_Target a)
     else if am_Target a = name then Some (am_Source a) else None)"

fun resolveEach :: "(string \<Rightarrow> resolution \<Rightarrow> alias_error option \<times> resolution) \<Rightarrow> string \<Rightarrow> AliasMapping list \<Rightarrow>
    resolution \<Rightarrow> alias_error option \<times> resolution" where
  "resolveEach visit name [] acc = (None, acc)"
| "resolveEach visit name (a # as) acc =
     (case otherName name a of
        None \<Rightarrow> resolveEach visit name as acc
      | Some nxt \<Rightarrow>
          if nxt \<in> set (rn_seen acc) then resolveEach visit name as acc
          else (case visit nxt \<lparr>rn_seen = nxt # rn_seen acc, rn_result = rn_result acc @ [nxt]\<rparr> of
                  (Some err, acc') \<Rightarrow> (Some err, acc')
                | (None, acc') \<Rightarrow> resolveEach visit name as acc'))"

primrec resolveFrom :: "'s KVAliasRegistry \<Rightarrow> 's \<Rightarrow> nat \<Rightarrow> string \<Rightarrow> resolution \<Rightarrow> alias_error option \<times> resolution" where
  "resolveFrom r s 0 = (\<lambda>name acc. (None, acc))"
| "resolveFrom r s (Suc left) = (\<lambda>name acc.
     (case listAll r s of
        Inl err \<Rightarrow> (Some err, acc)
      | Inr all \<Rightarrow> resolveEach (resolveFrom r s left) name all acc))"

definition Resolve :: "'s KVAliasRegistry \<Rightarrow> string \<Rightarrow> 's \<Rightarrow> alias_error option \<times> string list" where
  "Resolve r capabilityName s =
     (let (err, acc) = resolveFrom r s maxAliasDepth capabilityName
            \<lparr>rn_seen = [capabilityName], rn_result = [capabilityName]\<rparr>
      in (err, rn_result acc))"

section \<open>Adding, removing, merging\<close>

definition AddAlias :: "'b services \<Rightarrow> 's KVAliasRegistry \<Rightarrow> string \<Rightarrow> string \<Rightarrow> 's \<Rightarrow> 'b world \<Rightarrow>
    (alias_error + AliasMapping) \<times> 's \<times> 'b world" where
  "AddAlias sv r source target s w =
     (if source = [] \<or> target = [] then (Inl AliasNamesRequired, s, w)
      else if source = target then (Inl AliasSameName, s, w)
      else case Resolve r target s of
             (Some err, _) \<Rightarrow> (Inl err, s, w)
           | (None, resolved) \<Rightarrow>
               if source \<in> set resolved then (Inl AliasCycle, s, w)
               else (let (uid, w1) = new_uuid sv w; (ts, w2) = time_now sv w1;
                         mapping = \<lparr>am_ID = uid, am_Source = source, am_Target = target,
                           am_NodeID = ka_nodeID r, am_CreatedAt = ts\<rparr>
                     in case kv_create (ka_kv r) (am_ID mapping) (Json mapping) s of
                          (Inl err, s') \<Rightarrow> (Inl (AliasStore err), s', w2)
                        | (Inr _, s') \<Rightarrow> (Inr mapping, s', w2)))"

definition RemoveAlias :: "'s KVAliasRegistry \<Rightarrow> string \<Rightarrow> 's \<Rightarrow> alias_error option \<times> 's" where
  "RemoveAlias r aliasID s =
     (case kv_purge (ka_kv r) aliasID s of
        (None, s') \<Rightarrow> (None, s')
      | (Some err, s') \<Rightarrow> (if err = ErrKeyNotFound then None else Some (AliasStore err), s'))"

text \<open>
  Merging is best effort: a failing create or update is ignored, a failing read ends the merge.
  Bytes that are no mapping count as older than everything.
\<close>

definition overrides :: "AliasMapping json \<Rightarrow> AliasMapping \<Rightarrow> bool" where
  "overrides v a = (case v of Json cur \<Rightarrow> am_CreatedAt a \<le> am_CreatedAt cur | Corrupt \<Rightarrow> False)"

fun applyAliases :: "('s, AliasMapping json) kv_ops \<Rightarrow> AliasMapping list \<Rightarrow> 's \<Rightarrow> alias_error option \<times> 's" where
  "applyAliases kv [] s = (None, s)"
| "applyAliases kv (a # as) s =
     (case kv_get kv (am_ID a) s of
        Inl err \<Rightarrow> if err \<noteq> ErrKeyNotFound then (Some (AliasStore err), s)
          else applyAliases kv as (snd (kv_create kv (am_ID a) (Json a) s))
      | Inr (v, rv) \<Rightarrow>
          if overrides v a then applyAliases kv as s
          else applyAliases kv as (snd (kv_update kv (am_ID a) (Json a) rv s)))"

definition ApplySnapshot :: "'s KVAliasRegistry \<Rightarrow> AliasRegistrySnapshot option \<Rightarrow> 's \<Rightarrow> alias_error option \<times> 's" where
  "ApplySnapshot r snapshot s =
     (case snapshot of None \<Rightarrow> (None, s) | Some sn \<Rightarrow> applyAliases (ka_kv r) (sn_Aliases sn) s)"

section \<open>The alias graph\<close>

definition stored_aliases :: "AliasMapping json kv_map \<Rightarrow> AliasMapping set" where
  "stored_aliases m = {a. \<exists>k q. m k = Some (Json a, q)}"

definition linked :: "AliasMapping json kv_map \<Rightarrow> string \<Rightarrow> string \<Rightarrow> bool" where
  "linked m x y \<longleftrightarrow> (\<exists>a\<in>stored_aliases m. otherName x a = Some y)"

definition equivalents :: "AliasMapping json kv_map \<Rightarrow> string \<Rightarrow> string set" where
  "equivalents m x = {y. (linked m)\<^sup>*\<^sup>* x y}"

lemma linked_sym: "linked m x y \<Longrightarrow> linked m y x"
  unfolding linked_def by (elim bexE, rule bexI) (auto simp: otherName_def split: if_splits)

lemma equivalents_refl [simp]: "x \<in> equivalents m x"
  by (simp add: equivalents_def)

lemma equivalents_step: "y \<in> equivalents m x \<Longrightarrow> linked m y z \<Longrightarrow> z \<in> equivalents m x"
  by (auto simp: equivalents_def)

lemma equivalents_names:
  "equivalents m x \<subseteq> insert x (am_Source ` stored_aliases m \<union> am_Target ` stored_aliases m)"
proof
  fix y assume "y \<in> equivalents m x"
  then have "(linked m)\<^sup>*\<^sup>* x y" by (simp add: equivalents_def)
  then show "y \<in> insert x (am_Source ` stored_aliases m \<union> am_Target ` stored_aliases m)"
    by (induction rule: rtranclp_induct) (auto simp: linked_def otherName_def split: if_splits)
qed

lemma equivalents_least:
  assumes "x \<in> A" and "\<And>y z. y \<in> A \<Longrightarrow> linked m y z \<Longrightarrow> z \<in> A"
  shows "equivalents m x \<subseteq> A"
proof
  fix y assume "y \<in> equivalents m x"
  then have "(linked m)\<^sup>*\<^sup>* x y" by (simp add: equivalents_def)
  then show "y \<in> A" using assms by (induction rule: rtranclp_induct) auto
qed

text \<open>What one exploration adds: new names only, each at most \<open>left\<close> links away.\<close>

definition explored :: "AliasMapping json kv_map \<Rightarrow> nat \<Rightarrow> string \<Rightarrow> resolution \<Rightarrow> resolution \<Rightarrow> bool" where
  "explored m left name acc acc' \<longleftrightarrow> (\<exists>ext. rn_result acc' = rn_result acc @ ext \<and>
     set (rn_seen acc') = set (rn_seen acc) \<union> set ext \<and> distinct ext \<and> set ext \<inter> set (rn_seen acc) = {} \<and>
     (\<forall>y\<in>set ext. \<exists>k\<le>left. ((linked m) ^^ k) name y))"

lemma explored_refl [simp]: "explored m left name acc acc"
  by (auto simp: explored_def)

lemma explored_trans:
  "explored m left name acc acc' \<Longrightarrow> explored m left name acc' acc'' \<Longrightarrow> explored m left name acc acc''"
  unfolding explored_def by (elim exE conjE, rule exI, intro conjI) (simp, auto)

lemma explored_link:
  assumes "linked m name nxt" and "nxt \<notin> set (rn_seen acc)"
    and "explored m left nxt \<lparr>rn_seen = nxt # rn_seen acc, rn_result = rn_result acc @ [nxt]\<rparr> acc'"
  shows "explored m (Suc left) name acc acc'"
proof -
  obtain ext where e: "rn_result acc' = rn_result acc @ nxt # ext"
    "set (rn_seen acc') = insert nxt (set (rn_seen acc)) \<union> set ext" "distinct ext"
    "set ext \<inter> insert nxt (set (rn_seen acc)) = {}"
    "\<forall>y\<in>set ext. \<exists>k\<le>left. ((linked m) ^^ k) nxt y"
    using assms(3) by (auto simp: explored_def)
  have "\<exists>k\<le>Suc left. ((linked m) ^^ k) name y" if y: "y \<in> set (nxt # ext)" for y
  proof (cases "y = nxt")
    case True
    then show ?thesis using assms(1) by (intro exI [of _ "Suc 0"]) (auto simp: relcompp_apply)
  next
    case False
    then obtain k where "k \<le> left" "((linked m) ^^ k) nxt y" using y e(5) by auto
    then show ?thesis using assms(1) by (intro exI [of _ "Suc k"]) (simp add: relpowp_Suc_I2 del: relpowp.simps)
  qed
  then show ?thesis using e assms(2) unfolding explored_def by (intro exI [of _ "nxt # ext"]) auto
qed

lemma resolveEach_explored:
  assumes "\<And>nxt acc res acc'. visit nxt acc = (res, acc') \<Longrightarrow> explored m left nxt acc acc'"
    and "set as \<subseteq> stored_aliases m" and "resolveEach visit name as acc = (res, acc')"
  shows "explored m (Suc left) name acc acc'"
  using assms(2,3)
proof (induction as arbitrary: acc)
  case (Cons a as)
  show ?case
  proof (cases "otherName name a")
    case (Some nxt)
    let ?acc = "\<lparr>rn_seen = nxt # rn_seen acc, rn_result = rn_result acc @ [nxt]\<rparr>"
    obtain r1 acc1 where v: "visit nxt ?acc = (r1, acc1)" by fastforce
    have l: "linked m name nxt" using Some Cons.prems(1) by (auto simp: linked_def)
    show ?thesis
    proof (cases "nxt \<in> set (rn_seen acc)")
      case False
      note ex = explored_link [OF l False assms(1) [OF v]]
      show ?thesis
      proof (cases r1)
        case None
        then have "resolveEach visit name as acc1 = (res, acc')" using Cons.prems(2) Some False v by simp
        then show ?thesis using Cons.IH Cons.prems(1) ex explored_trans by (metis set_subset_Cons order.trans)
      next
        case (Some err)
        then show ?thesis using Cons.prems(2) \<open>otherName name a = Some nxt\<close> False v ex by simp
      qed
    qed (use Cons Some in auto)
  qed (use Cons in auto)
qed auto

text \<open>
  Completeness: the names on the path of the search are distinct, so when the search is cut off
  every name of a small class has been seen.
\<close>

definition closed_under :: "AliasMapping json kv_map \<Rightarrow> string set \<Rightarrow> string set \<Rightarrow> bool" where
  "closed_under m A B \<longleftrightarrow> (\<forall>x y. x \<in> A \<longrightarrow> linked m x y \<longrightarrow> y \<in> B)"

lemma closed_under_mono: "closed_under m A B \<Longrightarrow> B \<subseteq> B' \<Longrightarrow> closed_under m A B'"
  by (auto simp: closed_under_def)

definition covers :: "AliasMapping json kv_map \<Rightarrow> string set \<Rightarrow> nat \<Rightarrow>
    (string \<Rightarrow> resolution \<Rightarrow> alias_error option \<times> resolution) \<Rightarrow> bool" where
  "covers m C left visit \<longleftrightarrow> (\<forall>name acc acc'. visit name acc = (None, acc') \<longrightarrow>
     name \<in> set (rn_seen acc) \<longrightarrow> set (rn_seen acc) \<subseteq> C \<longrightarrow> card C \<le> card (set (rn_seen acc)) + left \<longrightarrow>
     set (rn_seen acc) \<subseteq> set (rn_seen acc') \<and> set (rn_seen acc') \<subseteq> C \<and>
     closed_under m (insert name (set (rn_seen acc') - set (rn_seen acc))) (set (rn_seen acc')))"

lemma coversD:
  assumes "covers m C left visit" and "visit name acc = (None, acc')"
    and "name \<in> set (rn_seen acc)" and "set (rn_seen acc) \<subseteq> C" and "card C \<le> card (set (rn_seen acc)) + left"
  shows "set (rn_seen acc) \<subseteq> set (rn_seen acc')" and "set (rn_seen acc') \<subseteq> C"
    and "closed_under m (insert name (set (rn_seen acc') - set (rn_seen acc))) (set (rn_seen acc'))"
  using assms unfolding covers_def by blast+

lemma resolveEach_covers:
  assumes c: "covers m C left visit" and C: "finite C" "closed_under m C C"
    and "resolveEach visit name as acc = (None, acc')" and "set as \<subseteq> stored_aliases m"
    and "name \<in> C" and "set (rn_seen acc) \<subseteq> C" and "card C \<le> card (set (rn_seen acc)) + Suc left"
  shows "set (rn_seen acc) \<subseteq> set (rn_seen acc') \<and> set (rn_seen acc') \<subseteq> C \<and>
    (\<forall>a\<in>set as. \<forall>y. otherName name a = Some y \<longrightarrow> y \<in> set (rn_seen acc')) \<and>
    closed_under m (set (rn_seen acc') - set (rn_seen acc)) (set (rn_seen acc'))"
  using assms(4-)
proof (induction as arbitrary: acc)
  case Nil
  then show ?case by (auto simp: closed_under_def)
next
  case (Cons a as)
  let ?S = "\<lambda>acc. set (rn_seen acc)"
  show ?case
  proof (cases "otherName name a")
    case None
    then show ?thesis using Cons by auto
  next
    case (Some nxt)
    show ?thesis
    proof (cases "nxt \<in> ?S acc")
      case True
      then have "?S acc \<subseteq> ?S acc' \<and> ?S acc' \<subseteq> C \<and> (\<forall>a\<in>set as. \<forall>y. otherName name a = Some y \<longrightarrow> y \<in> ?S acc') \<and>
        closed_under m (?S acc' - ?S acc) (?S acc')"
        using Cons.prems Some by (intro Cons.IH) auto
      then show ?thesis using True Some by auto
    next
      case False
      let ?acc = "\<lparr>rn_seen = nxt # rn_seen acc, rn_result = rn_result acc @ [nxt]\<rparr>"
      obtain acc1 where v: "visit nxt ?acc = (None, acc1)" and rest: "resolveEach visit name as acc1 = (None, acc')"
        using Cons.prems(1) Some False by (auto split: prod.splits option.splits)
      have "linked m name nxt" using Some Cons.prems(2) by (auto simp: linked_def)
      then have "nxt \<in> C" using C(2) Cons.prems(3) by (auto simp: closed_under_def)
      then have s1: "insert nxt (?S acc) \<subseteq> ?S acc1" "?S acc1 \<subseteq> C"
        "closed_under m (insert nxt (?S acc1 - insert nxt (?S acc))) (?S acc1)"
        using coversD [OF c v] Cons.prems(4,5) False by auto
      have "card (?S acc) \<le> card (?S acc1)" using s1(1) by (intro card_mono) auto
      then have s2: "?S acc1 \<subseteq> ?S acc' \<and> ?S acc' \<subseteq> C \<and> (\<forall>a\<in>set as. \<forall>y. otherName name a = Some y \<longrightarrow> y \<in> ?S acc') \<and>
        closed_under m (?S acc' - ?S acc1) (?S acc')"
        using Cons.prems s1(2) rest by (intro Cons.IH) auto
      have "closed_under m (?S acc' - ?S acc) (?S acc')"
        using s1(3) s2 unfolding closed_under_def by blast
      then show ?thesis using s1(1) s2 Some by auto
    qed
  qed
qed

section \<open>Resolution over a lawful bucket\<close>

locale alias_bucket = kv_store "ka_kv r" view
  for r :: "'s KVAliasRegistry" and view :: "'s \<Rightarrow> AliasMapping json kv_map"
begin

lemma readAliases_Inr:
  assumes "readAliases (ka_kv r) ks s = Inr as"
  shows "set as = {a. \<exists>k q. k \<in> set ks \<and> view s k = Some (Json a, q)}"
  using assms
proof (induction ks arbitrary: as)
  case (Cons k ks)
  show ?case
  proof (cases "kv_get (ka_kv r) k s")
    case (Inl err)
    then have "err = ErrKeyNotFound" "readAliases (ka_kv r) ks s = Inr as" using Cons.prems by (auto split: if_splits)
    then show ?thesis using Cons.IH get_none Inl by auto
  next
    case (Inr ent)
    then have v: "view s k = Some ent" by (rule get_some)
    obtain x q where e: "ent = (x, q)" by fastforce
    show ?thesis
    proof (cases x)
      case (Json m)
      then obtain as' where "readAliases (ka_kv r) ks s = Inr as'" "as = m # as'"
        using Cons.prems Inr e by (auto split: sum.splits)
      then show ?thesis using Cons.IH v e Json by auto
    next
      case Corrupt
      then show ?thesis using Cons v e Inr by auto
    qed
  qed
qed simp

lemma listAll_Inr: "listAll r s = Inr as \<Longrightarrow> set as = stored_aliases (view s)"
proof (cases "kv_keys (ka_kv r) s")
  case (Inl err)
  moreover assume "listAll r s = Inr as"
  ultimately show ?thesis using keys_none by (auto simp: listAll_def stored_aliases_def split: if_splits)
next
  case (Inr ks)
  moreover assume "listAll r s = Inr as"
  ultimately have "set as = {a. \<exists>k q. k \<in> set ks \<and> view s k = Some (Json a, q)}" and "set ks = dom (view s)"
    using readAliases_Inr keys_ok by (auto simp: listAll_def)
  then show ?thesis unfolding stored_aliases_def by blast
qed

lemma resolveFrom_explored:
  "resolveFrom r s left name acc = (res, acc') \<Longrightarrow> explored (view s) left name acc acc'"
proof (induction left arbitrary: name acc res acc')
  case (Suc left)
  show ?case
  proof (cases "listAll r s")
    case (Inr as)
    then have e: "resolveEach (resolveFrom r s left) name as acc = (res, acc')" using Suc.prems by simp
    show ?thesis by (rule resolveEach_explored [OF _ _ e]) (use Suc.IH listAll_Inr [OF Inr] in auto)
  qed (use Suc in simp)
qed simp

lemma resolveFrom_covers:
  assumes C: "finite C" "closed_under (view s) C C"
  shows "covers (view s) C left (resolveFrom r s left)"
proof (induction left)
  case 0
  have "set (rn_seen acc) = C" if "set (rn_seen acc) \<subseteq> C" "card C \<le> card (set (rn_seen acc))" for acc
    using that C(1) by (simp add: card_seteq)
  then show ?case using C(2) by (auto simp: covers_def closed_under_def)
next
  case (Suc left)
  show ?case unfolding covers_def
  proof (intro allI impI)
    fix name acc acc'
    let ?S = "\<lambda>acc. set (rn_seen acc)"
    assume run: "resolveFrom r s (Suc left) name acc = (None, acc')" and a: "name \<in> ?S acc" "?S acc \<subseteq> C"
      "card C \<le> card (?S acc) + Suc left"
    then obtain as where l: "listAll r s = Inr as" and e: "resolveEach (resolveFrom r s left) name as acc = (None, acc')"
      by (auto split: sum.splits)
    have "name \<in> C" using a by blast
    from resolveEach_covers [OF Suc.IH C e _ this a(2,3)] listAll_Inr [OF l]
    have "?S acc \<subseteq> ?S acc' \<and> ?S acc' \<subseteq> C" "closed_under (view s) {name} (?S acc')"
      "closed_under (view s) (?S acc' - ?S acc) (?S acc')"
      by (auto simp: closed_under_def linked_def)
    then show "?S acc \<subseteq> ?S acc' \<and> ?S acc' \<subseteq> C \<and> closed_under (view s) (insert name (?S acc' - ?S acc)) (?S acc')"
      by (auto simp: closed_under_def)
  qed
qed

lemma Resolve_sound:
  assumes "Resolve r name s = (res, names)"
  shows "hd names = name" and "distinct names"
    and "\<forall>y\<in>set names. \<exists>k\<le>maxAliasDepth. ((linked (view s)) ^^ k) name y"
proof -
  let ?acc = "\<lparr>rn_seen = [name], rn_result = [name]\<rparr>"
  obtain acc' where a: "resolveFrom r s maxAliasDepth name ?acc = (res, acc')" "names = rn_result acc'"
    using assms by (auto simp: Resolve_def split: prod.splits)
  obtain ext where e: "names = name # ext" "distinct ext" "name \<notin> set ext"
    "\<forall>y\<in>set ext. \<exists>k\<le>maxAliasDepth. ((linked (view s)) ^^ k) name y"
    using resolveFrom_explored [OF a(1)] a(2) by (auto simp: explored_def)
  show "hd names = name" "distinct names" using e by simp_all
  show "\<forall>y\<in>set names. \<exists>k\<le>maxAliasDepth. ((linked (view s)) ^^ k) name y"
    using e(1,4) by (auto intro: exI [of _ "0::nat"])
qed

lemma equivalents_finite: "listAll r s = Inr as \<Longrightarrow> finite (equivalents (view s) name)"
  using equivalents_names [of "view s" name] listAll_Inr [of s as] by (metis finite_insert finite_UnI finite_imageI finite_set finite_subset)

lemma Resolve_complete:
  assumes "Resolve r name s = (None, names)" and "card (equivalents (view s) name) \<le> Suc maxAliasDepth"
  shows "set names = equivalents (view s) name"
proof -
  let ?acc = "\<lparr>rn_seen = [name], rn_result = [name]\<rparr>" and ?C = "equivalents (view s) name"
  obtain acc' where a: "resolveFrom r s maxAliasDepth name ?acc = (None, acc')" "names = rn_result acc'"
    using assms(1) by (auto simp: Resolve_def split: prod.splits)
  have seen: "set names = set (rn_seen acc')"
    using resolveFrom_explored [OF a(1)] a(2) by (auto simp: explored_def)
  obtain as where "listAll r s = Inr as" using a(1) by (auto simp: maxAliasDepth_def numeral_eq_Suc split: sum.splits)
  then have "finite ?C" by (rule equivalents_finite)
  moreover have "closed_under (view s) ?C ?C" using equivalents_step by (auto simp: closed_under_def)
  ultimately have "covers (view s) ?C maxAliasDepth (resolveFrom r s maxAliasDepth)" by (rule resolveFrom_covers)
  from coversD [OF this a(1)] assms(2)
  have "name \<in> set (rn_seen acc')" "set (rn_seen acc') \<subseteq> ?C" "closed_under (view s) (set (rn_seen acc')) (set (rn_seen acc'))"
    by (auto simp: insert_absorb)
  then show ?thesis using seen equivalents_least [of name "set (rn_seen acc')" "view s"] by (auto simp: closed_under_def)
qed

end

section \<open>Merging is last-write-wins\<close>

text \<open>A bucket as a map from identifiers to mappings, and the join of two of them.\<close>

definition aliases_of :: "AliasMapping json kv_map \<Rightarrow> string \<rightharpoonup> AliasMapping" where
  "aliases_of m k = (case m k of Some (Json a, _) \<Rightarrow> Some a | _ \<Rightarrow> None)"

fun lww :: "AliasMapping option \<Rightarrow> AliasMapping option \<Rightarrow> AliasMapping option" where
  "lww None y = y"
| "lww x None = x"
| "lww (Some c) (Some a) = Some (if am_CreatedAt a \<le> am_CreatedAt c then c else a)"

definition absorb :: "AliasMapping \<Rightarrow> (string \<rightharpoonup> AliasMapping) \<Rightarrow> string \<rightharpoonup> AliasMapping" where
  "absorb a M = M(am_ID a := lww (M (am_ID a)) (Some a))"

definition alias_keyed :: "AliasMapping json kv_map \<Rightarrow> bool" where
  "alias_keyed m \<longleftrightarrow> (\<forall>k a q. m k = Some (Json a, q) \<longrightarrow> am_ID a = k)"

lemma lww_None [simp]: "lww x None = x"
  by (cases x) auto

lemma aliases_of_upd [simp]: "aliases_of (m(k \<mapsto> (Json a, q))) = (aliases_of m)(k \<mapsto> a)"
  by (auto simp: aliases_of_def)

lemma fold_absorb:
  "distinct (map am_ID as) \<Longrightarrow> fold absorb as M k = lww (M k) (map_of (map (\<lambda>a. (am_ID a, a)) as) k)"
proof (induction as arbitrary: M)
  case (Cons a as)
  then have "map_of (map (\<lambda>a. (am_ID a, a)) as) (am_ID a) = None" by (force simp: map_of_eq_None_iff)
  then show ?case using Cons by (auto simp: absorb_def)
qed simp

lemma lww_commute:
  assumes "\<And>a b. x = Some a \<Longrightarrow> y = Some b \<Longrightarrow> am_CreatedAt a = am_CreatedAt b \<Longrightarrow> a = b"
  shows "lww x y = lww y x"
  using assms by (cases x; cases y) auto

locale reliable_alias = reliable_kv "ka_kv r" view
  for r :: "'s KVAliasRegistry" and view :: "'s \<Rightarrow> AliasMapping json kv_map"

sublocale reliable_alias \<subseteq> bucket: alias_bucket r view
  by unfold_locales

context reliable_alias
begin

lemma applyAliases_merges:
  "applyAliases (ka_kv r) as s = (res, s') \<Longrightarrow>
     res = None \<and> aliases_of (view s') = fold absorb as (aliases_of (view s))"
proof (induction as arbitrary: s)
  case (Cons a as)
  show ?case
  proof (cases "view s (am_ID a)")
    case None
    obtain rv s1 where c: "kv_create (ka_kv r) (am_ID a) (Json a) s = (Inr rv, s1)" using create_absent [OF None] by blast
    have "aliases_of (view s) (am_ID a) = None" using None by (simp add: aliases_of_def)
    then have "aliases_of (view s1) = absorb a (aliases_of (view s))" using create_ok [OF c] by (simp add: absorb_def)
    then show ?thesis using Cons get_absent [OF None] c by simp
  next
    case (Some ent)
    obtain v q where e: "ent = (v, q)" by fastforce
    show ?thesis
    proof (cases "overrides v a")
      case True
      then have "absorb a (aliases_of (view s)) = aliases_of (view s)"
        using Some e by (cases v) (auto simp: absorb_def aliases_of_def overrides_def)
      then show ?thesis using Cons True get_present [OF Some] e by simp
    next
      case False
      obtain rv s1 where u: "kv_update (ka_kv r) (am_ID a) (Json a) q s = (Inr rv, s1)"
        using update_match Some e by blast
      have "lww (aliases_of (view s) (am_ID a)) (Some a) = Some a"
        using Some e False by (cases v) (auto simp: aliases_of_def overrides_def)
      then have "aliases_of (view s1) = absorb a (aliases_of (view s))" using update_ok [OF u] by (simp add: absorb_def)
      then show ?thesis using Cons False get_present [OF Some] e u by simp
    qed
  qed
qed simp

lemma readAliases_ids:
  assumes "readAliases (ka_kv r) ks s = Inr as" and "alias_keyed (view s)" and "distinct ks"
  shows "distinct (map am_ID as) \<and> set (map am_ID as) \<subseteq> set ks"
  using assms
proof (induction ks arbitrary: as)
  case (Cons k ks)
  show ?case
  proof (cases "kv_get (ka_kv r) k s")
    case (Inl err)
    then show ?thesis using Cons by (auto split: if_splits)
  next
    case (Inr ent)
    then obtain x q where e: "ent = (x, q)" "view s k = Some (x, q)" using get_some by (metis surj_pair)
    show ?thesis
    proof (cases x)
      case (Json m)
      then obtain as' where "readAliases (ka_kv r) ks s = Inr as'" "as = m # as'" "am_ID m = k"
        using Cons.prems Inr e by (auto simp: alias_keyed_def split: sum.splits)
      then show ?thesis using Cons by auto
    qed (use Cons e Inr in auto)
  qed
qed simp

lemma listAll_map:
  assumes "alias_keyed (view s)"
  obtains as where "listAll r s = Inr as" "distinct (map am_ID as)"
    "map_of (map (\<lambda>a. (am_ID a, a)) as) = aliases_of (view s)"
proof -
  obtain as where as: "listAll r s = Inr as" "distinct (map am_ID as)"
  proof (cases "view s = Map.empty")
    case True
    then show ?thesis using that keys_empty by (auto simp: listAll_def)
  next
    case False
    then obtain ks where ks: "kv_keys (ka_kv r) s = Inr ks" "distinct ks" "set ks = dom (view s)"
      using keys_answered [of s] by blast
    have "\<exists>as. readAliases (ka_kv r) ks' s = Inr as" for ks'
    proof (induction ks')
      case (Cons k ks')
      then obtain as where "readAliases (ka_kv r) ks' s = Inr as" by blast
      then show ?case using get_iff [of k s] by (auto split: option.splits json.splits)
    qed simp
    then obtain as where "readAliases (ka_kv r) ks s = Inr as" by blast
    then show ?thesis using that ks readAliases_ids assms by (auto simp: listAll_def)
  qed
  have "map_of (map (\<lambda>a. (am_ID a, a)) as) k = aliases_of (view s) k" for k
  proof (cases "aliases_of (view s) k")
    case None
    have "aliases_of (view s) (am_ID a) = Some a" if "a \<in> set as" for a
      using that bucket.listAll_Inr [OF as(1)] assms by (fastforce simp: stored_aliases_def aliases_of_def alias_keyed_def)
    then have "k \<notin> am_ID ` set as" using None by force
    then show ?thesis using None by (force simp: map_of_eq_None_iff)
  next
    case (Some a)
    then obtain q where "view s k = Some (Json a, q)" by (auto simp: aliases_of_def split: option.splits json.splits)
    then have "a \<in> set as" "am_ID a = k" using bucket.listAll_Inr [OF as(1)] assms
      by (auto simp: stored_aliases_def alias_keyed_def)
    then show ?thesis using Some as(2) by (auto intro!: map_of_is_SomeI simp: o_def)
  qed
  then show thesis using that as by blast
qed

lemma ApplySnapshot_joins:
  assumes "alias_keyed m" and "\<And>k. map_of (map (\<lambda>a. (am_ID a, a)) (sn_Aliases sn)) k = aliases_of m k"
    and "distinct (map am_ID (sn_Aliases sn))" and "ApplySnapshot r (Some sn) s = (res, s')"
  shows "res = None" and "aliases_of (view s') k = lww (aliases_of (view s) k) (aliases_of m k)"
  using applyAliases_merges [of "sn_Aliases sn" s res s'] assms fold_absorb [of "sn_Aliases sn" "aliases_of (view s)" k]
  by (auto simp: ApplySnapshot_def)

end

definition mem_aliases :: "string \<Rightarrow> AliasMapping json bucket KVAliasRegistry" where
  "mem_aliases nodeID = \<lparr>ka_kv = mem_ops, ka_nodeID = nodeID\<rparr>"

definition flaky_aliases :: "string \<Rightarrow> AliasMapping json flaky KVAliasRegistry" where
  "flaky_aliases nodeID = \<lparr>ka_kv = flaky_ops, ka_nodeID = nodeID\<rparr>"

interpretation mem_alias: reliable_alias "mem_aliases nodeID" mem_view for nodeID
  by (simp add: reliable_alias_def mem_aliases_def mem.reliable_kv_axioms)

interpretation flaky_alias: alias_bucket "flaky_aliases nodeID" flaky_view for nodeID
  by (simp add: alias_bucket_def flaky_aliases_def flaky.kv_store_axioms)

section \<open>Properties\<close>

definition ex_alias :: "string \<Rightarrow> string \<Rightarrow> string \<Rightarrow> int \<Rightarrow> AliasMapping" where
  "ex_alias k x y ts = \<lparr>am_ID = k, am_Source = x, am_Target = y, am_NodeID = ''n'', am_CreatedAt = ts\<rparr>"

definition ex_aliases :: "AliasMapping json bucket" where
  "ex_aliases = \<lparr>bk_entries = [(''1'', Json (ex_alias ''1'' ''a'' ''b'' 5), 1), (''2'', Json (ex_alias ''2'' ''c'' ''b'' 6), 2)], bk_seq = 2\<rparr>"

text \<open>
  C27. Resolution of a class of at most six names is exact: a successful \<open>Resolve\<close> starts with the
  given name, repeats no name, and returns precisely the names connected to it by aliases in
  either direction, whatever cycles the aliases form.
\<close>

theorem resolve_small_class_exact:
  assumes "alias_bucket r view" and "card (equivalents (view s) name) \<le> 6" and "Resolve r name s = (None, names)"
  shows "hd names = name \<and> distinct names \<and> set names = equivalents (view s) name"
  using alias_bucket.Resolve_sound(1,2) [OF assms(1,3)] alias_bucket.Resolve_complete [OF assms(1,3)] assms(2)
  by (simp add: maxAliasDepth_def)

lemma ex_aliases_equivalents: "equivalents (mem_view ex_aliases) ''a'' \<subseteq> {''a'', ''b'', ''c''}"
  using equivalents_names [of "mem_view ex_aliases" "''a''"]
  by (auto simp: stored_aliases_def mem_view_def ex_aliases_def ex_alias_def split: if_splits)

theorem resolve_small_class_exact_witness:
  "equivalents (mem_view ex_aliases) ''a'' = {''a'', ''b'', ''c''}"
proof -
  have "card (equivalents (mem_view ex_aliases) ''a'') \<le> card {''a'', ''b'', ''c''}"
    using ex_aliases_equivalents by (intro card_mono) auto
  then have c: "card (equivalents (mem_view ex_aliases) ''a'') \<le> 6" by simp
  have r: "Resolve (mem_aliases ''n'') ''a'' ex_aliases = (None, [''a'', ''b'', ''c''])" by code_simp
  from resolve_small_class_exact [OF mem_alias.bucket.alias_bucket_axioms c r] show ?thesis by auto
qed

text \<open>
  Resolution never invents an equivalence: whatever it returns, also with an error, lies within
  five aliases of the given name.
\<close>

lemma resolve_within_five:
  assumes "alias_bucket r view" and "Resolve r name s = (res, names)"
  shows "\<forall>y\<in>set names. \<exists>k\<le>5. ((linked (view s)) ^^ k) name y"
  using alias_bucket.Resolve_sound(3) [OF assms] by (simp add: maxAliasDepth_def)

lemma resolve_within_five_witness:
  "\<exists>k\<le>5. ((linked (mem_view ex_aliases)) ^^ k) ''a'' ''c''"
proof -
  have r: "Resolve (mem_aliases ''n'') ''a'' ex_aliases = (None, [''a'', ''b'', ''c''])" by code_simp
  from resolve_within_five [OF mem_alias.bucket.alias_bucket_axioms r] show ?thesis by simp
qed


lemma ex_aliases_keyed: "alias_keyed (mem_view ex_aliases)" "alias_keyed (mem_view empty_bucket)"
  by (auto simp: alias_keyed_def mem_view_def ex_aliases_def ex_alias_def empty_bucket_def split: if_splits)


text \<open>
  The depth limit and the seen-set together lose names: a small network, built by calls of
  \<open>AddAlias\<close> that all succeed.
\<close>

primrec addAll :: "'b services \<Rightarrow> 's KVAliasRegistry \<Rightarrow> (string \<times> string) list \<Rightarrow> 's \<Rightarrow> 'b world \<Rightarrow> bool list \<times> 's" where
  "addAll sv r [] s w = ([], s)"
| "addAll sv r (p # ps) s w = (case AddAlias sv r (fst p) (snd p) s w of (res, s', w') \<Rightarrow>
     (let (oks, t) = addAll sv r ps s' w' in ((case res of Inl _ \<Rightarrow> False | Inr _ \<Rightarrow> True) # oks, t)))"

definition ex_ring :: "(string \<times> string) list" where
  "ex_ring = [(''g'', ''f''), (''f'', ''e''), (''e'', ''d''), (''d'', ''c''), (''c'', ''b''), (''a'', ''g''),
     (''f'', ''x''), (''a'', ''b'')]"

definition ex_ring_state :: "AliasMapping json bucket" where
  "ex_ring_state = snd (addAll (null_services ()) (mem_aliases ''n'') ex_ring empty_bucket empty_world)"

lemma linkedI: "m k = Some (Json a, q) \<Longrightarrow> otherName x a = Some y \<Longrightarrow> linked m x y"
  by (auto simp: linked_def stored_aliases_def)

lemma ex_ring_links:
  "linked (mem_view ex_ring_state) ''a'' ''g''" "linked (mem_view ex_ring_state) ''g'' ''f''"
  "linked (mem_view ex_ring_state) ''f'' ''x''"
proof -
  have "mem_view ex_ring_state ''uuuuuu'' = Some (Json (ex_alias ''uuuuuu'' ''a'' ''g'' 5), 6)" by code_simp
  then show "linked (mem_view ex_ring_state) ''a'' ''g''" by (rule linkedI) (simp add: otherName_def ex_alias_def)
  have "mem_view ex_ring_state ''u'' = Some (Json (ex_alias ''u'' ''g'' ''f'' 0), 1)" by code_simp
  then show "linked (mem_view ex_ring_state) ''g'' ''f''" by (rule linkedI) (simp add: otherName_def ex_alias_def)
  have "mem_view ex_ring_state ''uuuuuuu'' = Some (Json (ex_alias ''uuuuuuu'' ''f'' ''x'' 6), 7)" by code_simp
  then show "linked (mem_view ex_ring_state) ''f'' ''x''" by (rule linkedI) (simp add: otherName_def ex_alias_def)
qed

text \<open>
  The cycle check and the resolution are incomplete beyond five aliases: aliases added one by
  one, each accepted, can close a ring of seven names, and \<open>Resolve\<close> then misses a name that is
  three aliases away, because it first meets that name's neighbour at the depth limit and never
  expands it again.
\<close>

theorem resolve_misses_near_name:
  "fst (addAll (null_services ()) (mem_aliases ''n'') ex_ring empty_bucket empty_world) = replicate 8 True \<and>
   ((linked (mem_view ex_ring_state)) ^^ 3) ''a'' ''x'' \<and>
   Resolve (mem_aliases ''n'') ''a'' ex_ring_state = (None, [''a'', ''b'', ''c'', ''d'', ''e'', ''f'', ''g''])"
proof (intro conjI)
  show "fst (addAll (null_services ()) (mem_aliases ''n'') ex_ring empty_bucket empty_world) = replicate 8 True" by code_simp
  show "((linked (mem_view ex_ring_state)) ^^ 3) ''a'' ''x''"
    using ex_ring_links by (auto simp: numeral_3_eq_3)
  show "Resolve (mem_aliases ''n'') ''a'' ex_ring_state = (None, [''a'', ''b'', ''c'', ''d'', ''e'', ''f'', ''g''])" by code_simp
qed

end
