(* ===== verification/Discovery.thy ===== *)
theory Discovery
  imports Registry Alias
begin

text \<open>
  Capability discovery (\<open>core/discovery\<close>): the announcer, which turns registration events into
  announcements, and the handler of discovery requests, a client of the agent registry through the
  interface \<open>agent_directory\<close> and of the alias registry through \<open>Resolve\<close>.
\<close>

section \<open>The announcer\<close>

datatype discovery_error = DiscoveryDecode | DiscoveryPublish publish_error

definition publishAnnounce :: "'b services \<Rightarrow> string \<Rightarrow> string \<Rightarrow> pb_Capability list \<Rightarrow> 'b world \<Rightarrow>
    discovery_error option \<times> 'b world" where
  "publishAnnounce sv nodeID agentID caps w =
     (let (res, w') = emit sv (MCapabilityAnnounce \<lparr>cap_ann_agent_id = agentID, cap_ann_capabilities = caps\<rparr>)
            (\<lambda>data. (zero_event data)\<lparr>ev_Type := ''agent.capability.announce'', ev_SourceNode := nodeID,
                                     ev_SourceAgent := ''runtime''\<rparr>) w
      in (map_option DiscoveryPublish res, w'))"

definition announceRegister :: "'b services \<Rightarrow> string \<Rightarrow> 'b event \<Rightarrow> 'b world \<Rightarrow> discovery_error option \<times> 'b world" where
  "announceRegister sv nodeID evt w =
     (case sv_dec_register sv (ev_Payload evt) of
        None \<Rightarrow> (Some DiscoveryDecode, w)
      | Some payload \<Rightarrow>
          if arp_capabilities payload = [] then (None, w)
          else publishAnnounce sv nodeID (arp_agent_id payload) (arp_capabilities payload) w)"

definition announceUnregister :: "'b services \<Rightarrow> string \<Rightarrow> 'b event \<Rightarrow> 'b world \<Rightarrow> discovery_error option \<times> 'b world" where
  "announceUnregister sv nodeID evt w =
     (case sv_dec_unregister sv (ev_Payload evt) of
        None \<Rightarrow> (Some DiscoveryDecode, w)
      | Some payload \<Rightarrow> publishAnnounce sv nodeID (aup_agent_id payload) [] w)"

definition announceAgentError :: "'b services \<Rightarrow> string \<Rightarrow> 'b event \<Rightarrow> 'b world \<Rightarrow> discovery_error option \<times> 'b world" where
  "announceAgentError sv nodeID evt w =
     (case sv_dec_error sv (ev_Payload evt) of
        None \<Rightarrow> (Some DiscoveryDecode, w)
      | Some payload \<Rightarrow>
          if aep_error_code payload \<noteq> ''AGENT_DEAD'' then (None, w)
          else publishAnnounce sv nodeID (aep_agent_id payload) [] w)"

section \<open>The discovery handler\<close>

text \<open>
  The handler reads the agent registry through its read interface and, where one is configured, the
  alias registry through \<open>Resolve\<close>.
\<close>

record DiscoveryHandler =
  dh_registry :: registry_if
  dh_nodeID :: string
  dh_resolve :: "(string \<Rightarrow> alias_error option \<times> string list) option"
  dh_errText :: "reg_error \<Rightarrow> string"

definition SetAliasRegistry :: "(string \<Rightarrow> alias_error option \<times> string list) \<Rightarrow> DiscoveryHandler \<Rightarrow> DiscoveryHandler" where
  "SetAliasRegistry ar h = h\<lparr>dh_resolve := Some ar\<rparr>"

fun deduplicate :: "string list \<Rightarrow> AgentRegistration list \<Rightarrow> AgentRegistration list" where
  "deduplicate seen [] = []"
| "deduplicate seen (a # as) =
     (if reg_AgentID a \<in> set seen then deduplicate seen as
      else a # deduplicate (reg_AgentID a # seen) as)"

definition deduplicateByAgentID :: "AgentRegistration list \<Rightarrow> AgentRegistration list" where
  "deduplicateByAgentID = deduplicate []"

fun findEquivalents :: "registry_if \<Rightarrow> string \<Rightarrow> string list \<Rightarrow> string list \<Rightarrow> AgentRegistration list \<Rightarrow> AgentRegistration list" where
  "findEquivalents ri constraint seen [] agents = agents"
| "findEquivalents ri constraint seen (name # es) agents =
     (if name \<in> set seen then findEquivalents ri constraint seen es agents
      else findEquivalents ri constraint (name # seen) es
        (case ri_find ri name constraint of Inl _ \<Rightarrow> agents | Inr found \<Rightarrow> agents @ found))"

definition aliasFallback :: "DiscoveryHandler \<Rightarrow> string \<Rightarrow> string \<Rightarrow> AgentRegistration list \<Rightarrow> AgentRegistration list" where
  "aliasFallback h name constraint agents =
     (case (agents, dh_resolve h) of
        ([], Some resolve) \<Rightarrow>
          (case resolve name of
             (Some _, _) \<Rightarrow> []
           | (None, names) \<Rightarrow>
               deduplicateByAgentID (findEquivalents (dh_registry h) constraint [name] names []))
      | _ \<Rightarrow> agents)"

definition to_match :: "string \<Rightarrow> AgentRegistration \<Rightarrow> AgentCapabilityMatch" where
  "to_match nodeID agent = \<lparr>acm_agent_id = reg_AgentID agent, acm_agent_type = reg_AgentType agent,
     acm_capabilities = map (\<lambda>c. \<lparr>pc_name = cap_Name c, pc_version = cap_Version c,
        pc_description = cap_Description c, pc_parameters = cap_Parameters c, pc_category = [],
        pc_action = [], pc_input_types = [], pc_output_types = []\<rparr>) (reg_Capabilities agent),
     acm_source_node = (if IsRemote agent then reg_NodeID agent else nodeID)\<rparr>"

definition discovery_publishError :: "'b services \<Rightarrow> string \<Rightarrow> string \<Rightarrow> string \<Rightarrow> string \<Rightarrow> 'b world \<Rightarrow>
    discovery_error option \<times> 'b world" where
  "discovery_publishError sv nodeID agentID code message w =
     (let (res, w') = emit sv (MAgentError \<lparr>aep_agent_id = agentID, aep_error_code = code, aep_message = message,
            aep_stack_trace = [], aep_workflow_id = []\<rparr>)
            (\<lambda>data. (zero_event data)\<lparr>ev_Type := ''agent.error'', ev_SourceNode := nodeID,
                                     ev_SourceAgent := ''runtime''\<rparr>) w
      in (map_option DiscoveryPublish res, w'))"

definition discoveryResponse :: "DiscoveryHandler \<Rightarrow> 'b event \<Rightarrow> 'b \<Rightarrow> 'b event" where
  "discoveryResponse h evt data = (zero_event data)\<lparr>ev_Type := ''agent.discovery.response'',
     ev_SourceNode := dh_nodeID h, ev_SourceAgent := ''runtime'', ev_CorrelationID := ev_CorrelationID evt\<rparr>"

definition handleDiscoveryRequest :: "'b services \<Rightarrow> DiscoveryHandler \<Rightarrow> 'b event \<Rightarrow> 'b world \<Rightarrow>
    discovery_error option \<times> 'b world" where
  "handleDiscoveryRequest sv h evt w =
     (case sv_dec_discovery sv (ev_Payload evt) of
        None \<Rightarrow> discovery_publishError sv (dh_nodeID h) (ev_SourceAgent evt) ''INVALID_PAYLOAD''
          (''failed to unmarshal discovery request: '' @ sv_decerr sv (ev_Payload evt)) w
      | Some payload \<Rightarrow>
          if drq_capability_name payload = [] then
            discovery_publishError sv (dh_nodeID h) (ev_SourceAgent evt) ''INVALID_DISCOVERY_REQUEST''
              ''capability_name is required'' w
          else
            (case ri_find (dh_registry h) (drq_capability_name payload) (drq_version_constraint payload) of
               Inl err \<Rightarrow> discovery_publishError sv (dh_nodeID h) (ev_SourceAgent evt) ''DISCOVERY_FAILED''
                 (''registry query failed: '' @ dh_errText h err) w
             | Inr direct \<Rightarrow>
                 (let agents = aliasFallback h (drq_capability_name payload) (drq_version_constraint payload) direct;
                      (res, w') = emit sv (MDiscoveryResponse (map (to_match (dh_nodeID h)) agents))
                        (discoveryResponse h evt) w
                  in (map_option DiscoveryPublish res, w'))))"

section \<open>Facts\<close>

lemma deduplicate_ids:
  "distinct (map reg_AgentID (deduplicate seen as)) \<and> reg_AgentID ` set (deduplicate seen as) = reg_AgentID ` set as - set seen"
proof (induction as arbitrary: seen)
  case (Cons a as)
  then show ?case using Cons [of "reg_AgentID a # seen"] by (auto simp: image_iff)
qed simp

lemma findEquivalents_set:
  assumes "\<And>n. ri_find ri n v = Inr (f n)"
  shows "set (findEquivalents ri v seen es agents) = set agents \<union> (\<Union>n\<in>set es - set seen. set (f n))"
  by (induction es arbitrary: seen agents) (auto simp: assms)

lemma to_match_id [simp]: "acm_agent_id (to_match n a) = reg_AgentID a"
  by (simp add: to_match_def)

section \<open>Properties\<close>


definition ex_finder :: "AgentRegistration json bucket" where
  "ex_finder = \<lparr>bk_entries = [(''g1'', Json ((ex_registration ''g1'')\<lparr>reg_Status := StatusActive,
     reg_Capabilities := [ex_capability\<lparr>cap_Name := ''c''\<rparr>]\<rparr>), 1)], bk_seq = 1\<rparr>"

definition ex_finder_handler :: DiscoveryHandler where
  "ex_finder_handler = \<lparr>dh_registry = registry_reads (mem_registry 3 6 None) ex_finder, dh_nodeID = ''n'',
     dh_resolve = Some (\<lambda>k. Resolve (mem_aliases ''n'') k ex_aliases), dh_errText = (\<lambda>_. [])\<rparr>"

definition ex_finder_services :: "unit services" where
  "ex_finder_services = (null_services ())\<lparr>sv_dec_discovery := \<lambda>_. Some \<lparr>drq_capability_name = ''a'', drq_version_constraint = []\<rparr>\<rparr>"


text \<open>
  A request with a direct match is answered without looking at aliases: the response lists exactly
  what the registry returns; a failing registry is reported as an error event.
\<close>

lemma discovery_answers_directly:
  assumes "sv_dec_discovery sv (ev_Payload evt) = Some req"
    and "handleDiscoveryRequest sv h evt w = (None, w')"
  shows "\<exists>e. w_sent w' = w_sent w @ [e] \<and> (case ri_find (dh_registry h) (drq_capability_name req) (drq_version_constraint req) of
      Inr (a # as) \<Rightarrow> drq_capability_name req \<noteq> [] \<longrightarrow>
        ev_Type e = ''agent.discovery.response'' \<and>
        sv_marshal sv (MDiscoveryResponse (map (to_match (dh_nodeID h)) (a # as))) = Some (ev_Payload e)
    | Inl _ \<Rightarrow> ev_Type e = ''agent.error''
    | Inr [] \<Rightarrow> True)"
proof -
  consider (err) "discovery_publishError sv (dh_nodeID h) (ev_SourceAgent evt) ''INVALID_DISCOVERY_REQUEST''
        ''capability_name is required'' w = (None, w')" "drq_capability_name req = []"
    | (fail) x where "discovery_publishError sv (dh_nodeID h) (ev_SourceAgent evt) ''DISCOVERY_FAILED''
        (''registry query failed: '' @ dh_errText h x) w = (None, w')"
        "ri_find (dh_registry h) (drq_capability_name req) (drq_version_constraint req) = Inl x"
    | (ok) found where "ri_find (dh_registry h) (drq_capability_name req) (drq_version_constraint req) = Inr found"
        "emit sv (MDiscoveryResponse (map (to_match (dh_nodeID h))
          (aliasFallback h (drq_capability_name req) (drq_version_constraint req) found))) (discoveryResponse h evt) w = (None, w')"
    using assms by (auto simp: handleDiscoveryRequest_def Let_def split: if_splits sum.splits prod.splits)
  then show ?thesis
  proof cases
    case err
    then show ?thesis by (auto simp: discovery_publishError_def Let_def zero_event_def split: prod.splits sum.split list.split elim!: emit_None)
  next
    case fail
    then show ?thesis by (auto simp: discovery_publishError_def Let_def zero_event_def split: prod.splits elim!: emit_None)
  next
    case ok
    from ok(2) obtain data uid ts where "sv_marshal sv (MDiscoveryResponse (map (to_match (dh_nodeID h))
          (aliasFallback h (drq_capability_name req) (drq_version_constraint req) found))) = Some data"
      "w_sent w' = w_sent w @ [(discoveryResponse h evt data)\<lparr>ev_ID := uid, ev_Timestamp := ts\<rparr>]" by (rule emit_None)
    then show ?thesis using ok(1) by (cases found) (auto simp: aliasFallback_def discoveryResponse_def zero_event_def)
  qed
qed

end
