(* ===== verification/AliasSync.thy ===== *)
theory AliasSync
  imports Alias
begin

text \<open>
  The exchange of aliases between federated nodes (\<open>core/federation/alias_sync.go\<close>): whole snapshots
  when a node joins, and single changes. The JSON codec of the messages is a parameter; what a
  handler logs is not modelled.
\<close>

section \<open>Synchronising aliases between nodes\<close>

record aliasUpdateMessage =
  au_NodeID :: string
  au_Op :: string
  au_Mapping :: "AliasMapping option"
  au_AliasID :: string

text \<open>The JSON codec of the two messages, on the bytes the transport carries.\<close>

record 'b alias_json =
  aj_snapshot :: "AliasRegistrySnapshot \<Rightarrow> 'b"
  aj_update :: "aliasUpdateMessage \<Rightarrow> 'b"
  aj_dec_snapshot :: "'b \<Rightarrow> AliasRegistrySnapshot option"
  aj_dec_update :: "'b \<Rightarrow> aliasUpdateMessage option"

record 's AliasSync =
  ay_nodeID :: string
  ay_registry :: "'s KVAliasRegistry"

definition SendSnapshot :: "'b services \<Rightarrow> 'b alias_json \<Rightarrow> 's AliasSync \<Rightarrow> 's \<Rightarrow> 'b world \<Rightarrow> 'b world" where
  "SendSnapshot sv jc y s w =
     (case Snapshot (ay_registry y) s of
        Inl _ \<Rightarrow> w
      | Inr snapshot \<Rightarrow> snd (wire_publish sv ''federation.alias.sync'' (aj_snapshot jc snapshot) w))"

definition handleAliasSync :: "'b alias_json \<Rightarrow> 's AliasSync \<Rightarrow> 'b \<Rightarrow> 's \<Rightarrow> 's" where
  "handleAliasSync jc y data s =
     (case aj_dec_snapshot jc data of
        None \<Rightarrow> s
      | Some snapshot \<Rightarrow>
          if sn_NodeID snapshot = ay_nodeID y then s
          else snd (ApplySnapshot (ay_registry y) (Some snapshot) s))"

definition PublishAliasCreate :: "'b services \<Rightarrow> 'b alias_json \<Rightarrow> 's AliasSync \<Rightarrow> AliasMapping \<Rightarrow> 'b world \<Rightarrow> 'b world" where
  "PublishAliasCreate sv jc y mapping w =
     snd (wire_publish sv ''federation.alias.update'' (aj_update jc
       \<lparr>au_NodeID = ay_nodeID y, au_Op = ''create'', au_Mapping = Some mapping, au_AliasID = []\<rparr>) w)"

definition PublishAliasDelete :: "'b services \<Rightarrow> 'b alias_json \<Rightarrow> 's AliasSync \<Rightarrow> string \<Rightarrow> 'b world \<Rightarrow> 'b world" where
  "PublishAliasDelete sv jc y aliasID w =
     snd (wire_publish sv ''federation.alias.update'' (aj_update jc
       \<lparr>au_NodeID = ay_nodeID y, au_Op = ''delete'', au_Mapping = None, au_AliasID = aliasID\<rparr>) w)"

definition handleAliasUpdate :: "'b alias_json \<Rightarrow> 's AliasSync \<Rightarrow> 'b \<Rightarrow> 's \<Rightarrow> 's" where
  "handleAliasUpdate jc y data s =
     (case aj_dec_update jc data of
        None \<Rightarrow> s
      | Some msg \<Rightarrow>
          if au_NodeID msg = ay_nodeID y then s
          else if au_Op msg = ''create'' then
            (case au_Mapping msg of
               None \<Rightarrow> s
             | Some m \<Rightarrow> snd (ApplySnapshot (ay_registry y) (Some \<lparr>sn_NodeID = au_NodeID msg, sn_Aliases = [m]\<rparr>) s))
          else if au_Op msg = ''delete'' then
            (if au_AliasID msg = [] then s else snd (RemoveAlias (ay_registry y) (au_AliasID msg) s))
          else s)"

lemma wire_publish_cases:
  "w_wire (snd (wire_publish sv t d w)) = w_wire w \<or> w_wire (snd (wire_publish sv t d w)) = w_wire w @ [(t, d)]"
  by (simp add: wire_publish_def Let_def)

context reliable_alias
begin

lemma RemoveAlias_gone:
  assumes "RemoveAlias r k s = (res, s')"
  shows "res = None" and "view s' = (view s)(k := None)"
proof -
  obtain s1 where p: "kv_purge (ka_kv r) k s = (None, s1)" using purge_done by blast
  then show "res = None" and "view s' = (view s)(k := None)" using assms purge_ok [OF p] by (auto simp: RemoveAlias_def)
qed

end

text \<open>
  A change of an alias reaches a peer: when the transport accepts the message of
  \<open>PublishAliasCreate\<close> or \<open>PublishAliasDelete\<close> and hands its bytes to another node, that node holds the
  mapping unless it had one as new, respectively no longer holds it, and nothing else has changed;
  the sender itself ignores the echo of its own message.
\<close>

lemma alias_update_reaches_peer:
  assumes "reliable_alias (ay_registry peer) view" and "\<forall>m. aj_dec_update jc (aj_update jc m) = Some m"
    and "ay_nodeID peer \<noteq> ay_nodeID y" and "k \<noteq> []"
    and "w_wire (PublishAliasCreate sv jc y a w) = w_wire w @ [(t1, created)]"
    and "w_wire (PublishAliasDelete sv jc y k w) = w_wire w @ [(t2, deleted)]"
  shows "t1 = ''federation.alias.update'' \<and> t2 = ''federation.alias.update'' \<and>
    aliases_of (view (handleAliasUpdate jc peer created s)) =
      (aliases_of (view s))(am_ID a := lww (aliases_of (view s) (am_ID a)) (Some a)) \<and>
    view (handleAliasUpdate jc peer deleted s) = (view s)(k := None) \<and>
    handleAliasUpdate jc y created s' = s' \<and> handleAliasUpdate jc y deleted s' = s'"
proof -
  let ?c = "\<lparr>au_NodeID = ay_nodeID y, au_Op = ''create'', au_Mapping = Some a, au_AliasID = []\<rparr>"
  let ?d = "\<lparr>au_NodeID = ay_nodeID y, au_Op = ''delete'', au_Mapping = None, au_AliasID = k\<rparr>"
  have t: "t1 = ''federation.alias.update''" "created = aj_update jc ?c" "t2 = ''federation.alias.update''" "deleted = aj_update jc ?d"
    using assms(5,6) wire_publish_cases [of sv "''federation.alias.update''" "aj_update jc ?c" w]
      wire_publish_cases [of sv "''federation.alias.update''" "aj_update jc ?d" w]
    by (auto simp: PublishAliasCreate_def PublishAliasDelete_def)
  obtain res s1 where ap: "ApplySnapshot (ay_registry peer) (Some \<lparr>sn_NodeID = ay_nodeID y, sn_Aliases = [a]\<rparr>) s = (res, s1)"
    by fastforce
  then have "applyAliases (ka_kv (ay_registry peer)) [a] s = (res, s1)" by (simp add: ApplySnapshot_def)
  from reliable_alias.applyAliases_merges [OF assms(1) this]
  have "aliases_of (view (handleAliasUpdate jc peer created s)) = absorb a (aliases_of (view s))"
    using t assms(2,3) ap by (simp add: handleAliasUpdate_def)
  moreover have "view (handleAliasUpdate jc peer deleted s) = (view s)(k := None)"
    using t assms(2-4) reliable_alias.RemoveAlias_gone(2) [OF assms(1) prod.collapse [symmetric]]
    by (simp add: handleAliasUpdate_def)
  ultimately show ?thesis using t assms(2) by (simp add: handleAliasUpdate_def absorb_def)
qed

text \<open>A codec on messages tagged by their kind.\<close>

definition ex_alias_json :: "(AliasRegistrySnapshot + aliasUpdateMessage) alias_json" where
  "ex_alias_json = \<lparr>aj_snapshot = Inl, aj_update = Inr, aj_dec_snapshot = case_sum Some (\<lambda>_. None),
     aj_dec_update = case_sum (\<lambda>_. None) Some\<rparr>"

lemma alias_update_reaches_peer_witness:
  "aliases_of (mem_view (handleAliasUpdate ex_alias_json \<lparr>ay_nodeID = ''m'', ay_registry = mem_aliases ''m''\<rparr>
     (Inr \<lparr>au_NodeID = ''n'', au_Op = ''create'', au_Mapping = Some (ex_alias ''3'' ''c'' ''d'' 7), au_AliasID = []\<rparr>)
     ex_aliases)) ''3'' = Some (ex_alias ''3'' ''c'' ''d'' 7)"
proof -
  let ?y = "\<lparr>ay_nodeID = ''n'', ay_registry = mem_aliases ''n''\<rparr>" and ?a = "ex_alias ''3'' ''c'' ''d'' 7"
  let ?sv = "null_services (Inl \<lparr>sn_NodeID = [], sn_Aliases = []\<rparr>) :: (AliasRegistrySnapshot + aliasUpdateMessage) services"
  have p: "reliable_alias (ay_registry \<lparr>ay_nodeID = ''m'', ay_registry = mem_aliases ''m''\<rparr>) mem_view"
    using mem_alias.reliable_alias_axioms by simp
  have j: "\<forall>m. aj_dec_update ex_alias_json (aj_update ex_alias_json m) = Some m" by (simp add: ex_alias_json_def)
  have "w_wire (PublishAliasCreate ?sv ex_alias_json ?y ?a empty_world) = w_wire empty_world @ [(''federation.alias.update'',
      Inr \<lparr>au_NodeID = ''n'', au_Op = ''create'', au_Mapping = Some ?a, au_AliasID = []\<rparr>)]"
    and "w_wire (PublishAliasDelete ?sv ex_alias_json ?y ''1'' empty_world) = w_wire empty_world @ [(''federation.alias.update'',
      Inr \<lparr>au_NodeID = ''n'', au_Op = ''delete'', au_Mapping = None, au_AliasID = ''1''\<rparr>)]"
    by (simp_all add: PublishAliasCreate_def PublishAliasDelete_def wire_publish_def null_services_def empty_world_def ex_alias_json_def Let_def)
  from alias_update_reaches_peer [OF p j _ _ this, of ex_aliases]
  show ?thesis by (simp add: aliases_of_def mem_view_def ex_aliases_def ex_alias_def)
qed

end
