(* ===== verification/Gateway.thy ===== *)
theory Gateway
  imports Nodes AliasSync Router
begin

text \<open>
  The federation gateway (\<open>core/federation/gateway.go\<close>): how nodes join, are introduced to each other
  and leave, how an event relayed by another node is routed here, and how the results of a relayed
  workflow are sent back. The leaf connection itself (\<open>transport.go\<close>) is the wire of the services.
\<close>

section \<open>Node membership\<close>

text \<open>
  The gateway after \<open>Start\<close>, when the monitor and the capability synchronisation exist. \<open>gt_snapshot\<close>
  is \<open>SendSnapshot\<close> of the alias synchronisation, where one is configured.
\<close>

record ('s, 'a, 'c, 'b) FederationGateway =
  gt_node :: "('s, 'a, 'c) fed_node"
  gt_Seeds :: "string list"
  gt_PSK :: string
  gt_LeafPort :: int
  gt_snapshot :: "('b world \<Rightarrow> 'b world) option"

definition IsEnabled :: "('s, 'a, 'c, 'b) FederationGateway \<Rightarrow> bool" where
  "IsEnabled g \<longleftrightarrow> gt_Seeds g \<noteq> [] \<or> gt_PSK g \<noteq> []"

datatype gateway_error = GatewayRegister node_error | GatewayMarshal | GatewayPublish

definition announceNode :: "'b services \<Rightarrow> ('s, 'a, 'c, 'b) FederationGateway \<Rightarrow> ('s, 'a, 'b) fed_state \<Rightarrow>
    gateway_error option \<times> ('s, 'a, 'b) fed_state" where
  "announceNode sv g st =
     (let (now, w1) = time_now sv (fs_world st);
          nodeID = fn_nodeID (gt_node g);
          address = ''127.0.0.1:'' @ ItoaInt (gt_LeafPort g);
          (res, s, w2) = NodeRegister sv (fn_nodes (gt_node g)) \<lparr>ni_NodeID = nodeID, ni_Address = address,
             ni_Status = NodeStatusActive, ni_CapabilitiesCount = 0, ni_LastSeen = 0, ni_JoinedAt = now,
             ni_MissedHeartbeats = 0, ni_Version = ''0.2.0'', ni_Revision = 0\<rparr> (fs_nodes st) w1;
          st1 = st\<lparr>fs_nodes := s, fs_world := w2\<rparr>
      in case res of
           Inl err \<Rightarrow> (Some (GatewayRegister err), st1)
         | Inr _ \<Rightarrow>
             (case sv_marshal sv (MNodeRegister \<lparr>nrp_node_id = nodeID, nrp_address = address, nrp_version = ''0.2.0'',
                     nrp_joined_at = now, nrp_capabilities_count = 0\<rparr>) of
                None \<Rightarrow> (Some GatewayMarshal, st1)
              | Some data \<Rightarrow>
                  (let (ok, w3) = wire_publish sv ''federation.node.register'' data w2
                   in (if ok then None else Some GatewayPublish, st1\<lparr>fs_world := w3\<rparr>))))"

definition registration :: "NodeInfo \<Rightarrow> NodeRegisterPayload" where
  "registration n = \<lparr>nrp_node_id = ni_NodeID n, nrp_address = ni_Address n, nrp_version = ni_Version n,
     nrp_joined_at = ni_JoinedAt n, nrp_capabilities_count = ni_CapabilitiesCount n\<rparr>"

definition propagateKnownNodes :: "'b services \<Rightarrow> ('s, 'a, 'c, 'b) FederationGateway \<Rightarrow> string \<Rightarrow>
    ('s, 'a, 'b) fed_state \<Rightarrow> ('s, 'a, 'b) fed_state" where
  "propagateKnownNodes sv g excludeNodeID st =
     (case NodeList (fn_nodes (gt_node g)) (fs_nodes st) of
        Inl _ \<Rightarrow> st
      | Inr infos \<Rightarrow> fold (\<lambda>n st. if ni_NodeID n = excludeNodeID then st
          else send sv ''federation.node.register'' (MNodeRegister (registration n)) st) infos st)"

definition handleNodeRegister :: "'b services \<Rightarrow> ('s, 'a, 'c, 'b) FederationGateway \<Rightarrow> 'b \<Rightarrow>
    ('s, 'a, 'b) fed_state \<Rightarrow> ('s, 'a, 'b) fed_state" where
  "handleNodeRegister sv g data st =
     (case sv_dec_node_register sv data of
        None \<Rightarrow> st
      | Some p \<Rightarrow>
          if nrp_node_id p = fn_nodeID (gt_node g) then st
          else
            (let isNew = (case NodeGet (fn_nodes (gt_node g)) (nrp_node_id p) (fs_nodes st) of Inl _ \<Rightarrow> True | Inr _ \<Rightarrow> False);
                 (res, s, w) = NodeRegister sv (fn_nodes (gt_node g)) \<lparr>ni_NodeID = nrp_node_id p, ni_Address = nrp_address p,
                   ni_Status = NodeStatusActive, ni_CapabilitiesCount = nrp_capabilities_count p, ni_LastSeen = 0,
                   ni_JoinedAt = nrp_joined_at p, ni_MissedHeartbeats = 0, ni_Version = nrp_version p, ni_Revision = 0\<rparr>
                   (fs_nodes st) (fs_world st);
                 st1 = st\<lparr>fs_nodes := s, fs_world := w\<rparr>
             in case res of
                  Inl _ \<Rightarrow> st1
                | Inr _ \<Rightarrow>
                    if \<not> isNew then st1
                    else (let st2 = propagateKnownNodes sv g (nrp_node_id p) st1
                          in case gt_snapshot g of
                               None \<Rightarrow> st2
                             | Some snapshot \<Rightarrow> st2\<lparr>fs_world := snapshot (fs_world st2)\<rparr>)))"

definition onNodeDead :: "('s, 'a, 'c, 'b) FederationGateway \<Rightarrow> string \<Rightarrow> ('s, 'a, 'b) fed_state \<Rightarrow> ('s, 'a, 'b) fed_state" where
  "onNodeDead g nodeID st = PurgeNode (gt_node g) nodeID st"

definition handleNodeUnregister :: "'b services \<Rightarrow> ('s, 'a, 'c, 'b) FederationGateway \<Rightarrow> 'b \<Rightarrow>
    ('s, 'a, 'b) fed_state \<Rightarrow> ('s, 'a, 'b) fed_state" where
  "handleNodeUnregister sv g data st =
     (case sv_dec_node_unregister sv data of
        None \<Rightarrow> st
      | Some p \<Rightarrow>
          if nup_node_id p = fn_nodeID (gt_node g) then st
          else
            (case NodeGet (fn_nodes (gt_node g)) (nup_node_id p) (fs_nodes st) of
               Inl _ \<Rightarrow> st
             | Inr (_, rv) \<Rightarrow>
                 (case NodeUpdateStatus (fn_nodes (gt_node g)) (nup_node_id p) NodeStatusDead rv (fs_nodes st) of
                    (Inl _, s) \<Rightarrow> st\<lparr>fs_nodes := s\<rparr>
                  | (Inr _, s) \<Rightarrow> onNodeDead g (nup_node_id p) (st\<lparr>fs_nodes := s\<rparr>))))"

definition announceDeparture :: "'b services \<Rightarrow> ('s, 'a, 'c, 'b) FederationGateway \<Rightarrow> ('s, 'a, 'b) fed_state \<Rightarrow> ('s, 'a, 'b) fed_state" where
  "announceDeparture sv g st =
     (if \<not> IsEnabled g then st
      else send sv ''federation.node.unregister''
        (MNodeUnregister \<lparr>nup_node_id = fn_nodeID (gt_node g), nup_reason = ''shutdown''\<rparr>) st)"

section \<open>Relayed events\<close>

text \<open>
  State of the relaying side: the environment of the local router, the workflows relayed from other
  nodes with their origin, and the forwarding subscriptions made.
\<close>

record 'b relay_state =
  rs_env :: "'b env"
  rs_relayed :: "(string \<times> string) list"
  rs_forwarding :: "(string \<times> string) list"

definition resultSubject :: "string \<Rightarrow> string" where
  "resultSubject workflowID = ''workflow.'' @ workflowID @ ''.workflow.step.result''"

definition setupResultForwarding :: "'b services \<Rightarrow> string \<Rightarrow> string \<Rightarrow> 'b relay_state \<Rightarrow> 'b relay_state" where
  "setupResultForwarding sv workflowID sourceNodeID rs =
     (if map_of (rs_relayed rs) workflowID \<noteq> None then rs
      else
        (let (ok, en) = ensureStream sv (wf_stream workflowID) (rs_env rs);
             rs1 = rs\<lparr>rs_relayed := (workflowID, sourceNodeID) # rs_relayed rs, rs_env := en\<rparr>
         in if \<not> ok then rs1
            else
              (let w = en_world en;
                   rs2 = rs1\<lparr>rs_env := en\<lparr>en_world := w\<lparr>w_attempts := Suc (w_attempts w)\<rparr>\<rparr>\<rparr>
               in if sv_subscribe sv (w_attempts w) (resultSubject workflowID)
                  then rs2\<lparr>rs_forwarding := (workflowID, sourceNodeID) # rs_forwarding rs2\<rparr> else rs2)))"

definition markRelayed :: "string \<Rightarrow> 'b event \<Rightarrow> 'b event" where
  "markRelayed sourceNodeID event = event\<lparr>ev_Metadata := (ev_Metadata event)(''federation.relayed'' \<mapsto> ''true'',
     ''federation.source_node'' \<mapsto> sourceNodeID)\<rparr>"

definition handleIncomingRelay :: "'b services \<Rightarrow> string \<Rightarrow> 'b DefaultRouter option \<Rightarrow> 'b \<Rightarrow> 'b relay_state \<Rightarrow> 'b relay_state" where
  "handleIncomingRelay sv nodeID localRouter data rs =
     (case sv_dec_relay sv data of
        None \<Rightarrow> rs
      | Some p \<Rightarrow>
          if frp_target_node_id p \<noteq> nodeID then rs
          else
            (case sv_dec_agent_event sv (frp_original_event p) of
               None \<Rightarrow> rs
             | Some event \<Rightarrow>
                 (let evt = markRelayed (frp_source_node_id p) event in
                  case localRouter of
                    None \<Rightarrow> rs
                  | Some r \<Rightarrow>
                      (let rs1 = (if ev_WorkflowID evt \<noteq> []
                             then setupResultForwarding sv (ev_WorkflowID evt) (frp_source_node_id p) rs else rs)
                       in rs1\<lparr>rs_env := snd (Route sv r evt (rs_env rs1))\<rparr>))))"

definition stripRelayed :: "'b event \<Rightarrow> 'b event" where
  "stripRelayed event = event\<lparr>ev_Metadata := (ev_Metadata event)(''federation.relayed'' := None, ''federation.source_node'' := None)\<rparr>"

definition forwardResultToSource :: "'b services \<Rightarrow> EventRelayImpl option \<Rightarrow> string \<Rightarrow> 'b event \<Rightarrow> 'b relay_state \<Rightarrow> 'b relay_state" where
  "forwardResultToSource sv relay sourceNodeID resultEvt rs =
     (case relay of
        None \<Rightarrow> rs
      | Some er \<Rightarrow> rs\<lparr>rs_env := (rs_env rs)\<lparr>en_world := snd (Relay sv er sourceNodeID (stripRelayed resultEvt) (en_world (rs_env rs)))\<rparr>\<rparr>)"

section \<open>Properties\<close>

lemma Relay_wire:
  assumes "Relay sv er node event w = (None, w')" and "w_wire w' = w_wire w @ [(t, data)]"
  obtains bytes uid ts where "sv_marshal sv (MAgentEvent event) = Some bytes"
    "sv_marshal sv (MFederationRelay \<lparr>frp_source_node_id = er_nodeID er, frp_target_node_id = node,
       frp_original_event = bytes, frp_relay_id = uid, frp_relay_timestamp = ts\<rparr>) = Some data"
  using assms
  by (auto simp: Relay_def new_uuid_def time_now_def Let_def split: option.splits prod.splits if_splits dest!: wire_publish_True)

lemma setupResultForwarding_quiet [simp]:
  "published (rs_env rs) (rs_env (setupResultForwarding sv wid src rs)) [] []"
  by (auto simp: setupResultForwarding_def ensureStream_def published_def Let_def)

text \<open>The codec is lossless on relayed events and their envelopes.\<close>

definition relay_codec :: "'b services \<Rightarrow> bool" where
  "relay_codec sv \<longleftrightarrow> (\<forall>e d. sv_marshal sv (MAgentEvent e) = Some d \<longrightarrow> sv_dec_agent_event sv d = Some e) \<and>
     (\<forall>p d. sv_marshal sv (MFederationRelay p) = Some d \<longrightarrow> sv_dec_relay sv d = Some p)"

lemma incoming_relay:
  assumes "relay_codec sv" and "Relay sv er node event w = (None, w')" and "w_wire w' = w_wire w @ [(t, data)]"
  obtains rs1 where "handleIncomingRelay sv node (Some r) data rs =
      rs1\<lparr>rs_env := snd (Route sv r (markRelayed (er_nodeID er) event) (rs_env rs1))\<rparr>"
    "published (rs_env rs) (rs_env rs1) [] []"
proof -
  obtain bytes uid ts where m: "sv_marshal sv (MAgentEvent event) = Some bytes"
    "sv_marshal sv (MFederationRelay \<lparr>frp_source_node_id = er_nodeID er, frp_target_node_id = node,
       frp_original_event = bytes, frp_relay_id = uid, frp_relay_timestamp = ts\<rparr>) = Some data"
    using Relay_wire [OF assms(2,3)] .
  then have "sv_dec_relay sv data = Some \<lparr>frp_source_node_id = er_nodeID er, frp_target_node_id = node,
       frp_original_event = bytes, frp_relay_id = uid, frp_relay_timestamp = ts\<rparr>" "sv_dec_agent_event sv bytes = Some event"
    using assms(1) by (auto simp: relay_codec_def)
  then show thesis using that [of "if ev_WorkflowID event \<noteq> [] then setupResultForwarding sv (ev_WorkflowID event) (er_nodeID er) rs else rs"]
    by (simp add: handleIncomingRelay_def markRelayed_def Let_def)
qed

lemma markRelayed_simps [simp]:
  "ev_TargetAgent (markRelayed n e) = ev_TargetAgent e" "ev_WorkflowID (markRelayed n e) = ev_WorkflowID e"
  "ev_Type (markRelayed n e) = ev_Type e" "isRelayedEvent (markRelayed n e)"
  "ev_Metadata (markRelayed n e) ''route.capability'' = ev_Metadata e ''route.capability''"
  by (simp_all add: markRelayed_def isRelayedEvent_def)

text \<open>
  C5. A relayed event arrives: an event sent to another node for one of its local agents is published
  there exactly once, on the agent's direct subject, unchanged but for the two marks of a relayed
  event, and is not relayed any further.
\<close>

theorem relayed_event_delivered:
  assumes "relay_codec sv" and "Relay sv er node event w = (None, w')" and "w_wire w' = w_wire w @ [(t, data)]"
    and "ev_TargetAgent event \<noteq> []" and "ri_get (dr_registry r) (ev_TargetAgent event) = Inr (reg, q)" and "\<forall>i e. sv_bus sv i e"
  shows "published (rs_env rs) (rs_env (handleIncomingRelay sv node (Some r) data rs))
    [directEvent (markRelayed (er_nodeID er) event)] []"
proof -
  let ?e = "markRelayed (er_nodeID er) event"
  obtain rs1 where h: "handleIncomingRelay sv node (Some r) data rs = rs1\<lparr>rs_env := snd (Route sv r ?e (rs_env rs1))\<rparr>"
    "published (rs_env rs) (rs_env rs1) [] []" using incoming_relay [OF assms(1-3)] .
  have "Route sv r ?e (rs_env rs1) = on_world RoutePublish (Publish sv (directEvent ?e)) (rs_env rs1)"
    using assms(4,5) by (simp add: Route_def ResolveStrategy_def routeDirect_def split: option.split)
  then have "published (rs_env rs1) (snd (Route sv r ?e (rs_env rs1))) [directEvent ?e] []"
    using assms(6) by (simp add: on_world_def Publish_def bus_publish_def published_def Let_def)
  from published_trans [OF h(2) this] show ?thesis using h(1) by simp
qed

text \<open>
  C40. A step result that comes back from another node misses the workflow engine: the forwarding
  node relays the result under the subject it was published on, the origin's router puts the
  workflow's prefix in front of it a second time, and nothing is published on the subject the
  engine has subscribed to.
\<close>

theorem relayed_result_misses_engine:
  assumes "relay_codec sv" and "ev_Type event = resultSubject wid" and "ev_WorkflowID event = wid" and "wid \<noteq> []"
    and "ev_TargetAgent event = []" and "ev_Metadata event ''route.capability'' = None"
    and "w_wire (en_world (rs_env (forwardResultToSource sv (Some er) origin event rsr))) = w_wire (en_world (rs_env rsr)) @ [(t, data)]"
  shows "\<exists>es. published (rs_env rs) (rs_env (handleIncomingRelay sv origin (Some r) data rs)) es [] \<and>
    (\<forall>e\<in>set es. ev_Type e = ''workflow.'' @ wid @ ''.'' @ resultSubject wid \<and> ev_Type e \<noteq> resultSubject wid)"
proof -
  let ?s = "stripRelayed event" let ?e = "markRelayed (er_nodeID er) ?s"
  obtain res w' where rl: "Relay sv er origin ?s (en_world (rs_env rsr)) = (res, w')" by fastforce
  then have w: "w_wire w' = w_wire (en_world (rs_env rsr)) @ [(t, data)]" using assms(7) by (simp add: forwardResultToSource_def)
  have "res = None" using impl.relay_err [of sv er origin ?s "en_world (rs_env rsr)"] rl w by (cases res) (auto simp: relay_of_def)
  with rl have rl: "Relay sv er origin ?s (en_world (rs_env rsr)) = (None, w')" by simp
  obtain rs1 where h: "handleIncomingRelay sv origin (Some r) data rs = rs1\<lparr>rs_env := snd (Route sv r ?e (rs_env rs1))\<rparr>"
    "published (rs_env rs) (rs_env rs1) [] []" using incoming_relay [OF assms(1) rl w] .
  have e: "ev_Type ?e = resultSubject wid" "ev_WorkflowID ?e = wid" "ev_TargetAgent ?e = []" "ev_Metadata ?e ''route.capability'' = None"
    using assms(2-6) by (simp_all add: stripRelayed_def)
  let ?p = "?e\<lparr>ev_Type := ''workflow.'' @ wid @ ''.'' @ resultSubject wid\<rparr>"
  have rt: "Route sv r ?e (rs_env rs1) = routeWorkflow sv ?e (rs_env rs1)" using e assms(4) by (simp add: Route_def ResolveStrategy_def)
  obtain es where es: "published (rs_env rs1) (snd (Route sv r ?e (rs_env rs1))) es []" "set es \<subseteq> {?p}"
  proof -
    obtain name en1 where g: "GetOrCreateStream sv wid (rs_env rs1) = (name, en1)" by fastforce
    have q: "published (rs_env rs1) en1 [] []" using GetOrCreateStream_sent [OF g] by (simp add: published_def)
    show thesis
    proof (cases name)
      case None
      then show thesis using that [of "[]"] q rt g e(2) by (simp add: routeWorkflow_def)
    next
      case (Some nm)
      obtain res2 en2 where p: "on_world RoutePublish (Publish sv ?p) en1 = (res2, en2)" by fastforce
      then have out: "snd (Route sv r ?e (rs_env rs1)) = en2" using rt g e(1,2) Some by (simp add: routeWorkflow_def)
      let ?es = "if res2 = None then [?p] else []"
      have "published (rs_env rs1) en2 ?es []" using published_trans [OF q conjunct1 [OF Publish_published [OF p]]] by simp
      moreover have "set ?es \<subseteq> {?p}" by (cases res2) simp_all
      ultimately show thesis using that [of ?es] out by simp
    qed
  qed
  have "published (rs_env rs) (rs_env (handleIncomingRelay sv origin (Some r) data rs)) es []"
    using published_trans [OF h(2) es(1)] h(1) by simp
  moreover have "length (''workflow.'' @ wid @ ''.'' @ resultSubject wid) \<noteq> length (resultSubject wid)" by simp
  then have "''workflow.'' @ wid @ ''.'' @ resultSubject wid \<noteq> resultSubject wid" by metis
  ultimately show ?thesis using es(2) by (intro exI [of _ es]) auto
qed

text \<open>A codec for one event and its envelope, and a router for one local agent.\<close>

definition ex_envelope :: "nat FederationRelayPayload" where
  "ex_envelope = \<lparr>frp_source_node_id = ''m'', frp_target_node_id = ''n'', frp_original_event = 1, frp_relay_id = ''u'', frp_relay_timestamp = 0\<rparr>"

definition ex_relaying :: "nat event \<Rightarrow> nat services" where
  "ex_relaying event = (null_services 0)
     \<lparr>sv_marshal := \<lambda>m. (case m of MAgentEvent e \<Rightarrow> if e = event then Some 1 else None
        | MFederationRelay p \<Rightarrow> if p = ex_envelope then Some 2 else None | _ \<Rightarrow> None),
      sv_dec_agent_event := \<lambda>d. if d = 1 then Some event else None,
      sv_dec_relay := \<lambda>d. if d = 2 then Some ex_envelope else None\<rparr>"

definition ex_local_router :: "'b DefaultRouter" where
  "ex_local_router = \<lparr>dr_registry = \<lparr>ri_get = (\<lambda>k. if k = ''a'' then Inr (ex_registration ''a'', 1) else Inl ErrNotFound),
     ri_list = Inr [], ri_find = (\<lambda>_ _. Inr [])\<rparr>, dr_relay = None\<rparr>"

definition ex_sender :: EventRelayImpl where
  "ex_sender = \<lparr>er_nodeID = ''m'', er_registry = \<lparr>ri_get = (\<lambda>_. Inl ErrNotFound), ri_list = Inr [], ri_find = (\<lambda>_ _. Inr [])\<rparr>\<rparr>"

definition ex_relay_state :: "nat relay_state" where
  "ex_relay_state = \<lparr>rs_env = \<lparr>en_world = empty_world, en_active = [], en_streams = DefaultStreamRegistry\<rparr>, rs_relayed = [], rs_forwarding = []\<rparr>"

lemma ex_relaying_codec: "relay_codec (ex_relaying event)"
  by (simp add: relay_codec_def ex_relaying_def)

lemma ex_relaying_sends:
  "Relay (ex_relaying event) ex_sender ''n'' event empty_world = (None, snd (Relay (ex_relaying event) ex_sender ''n'' event empty_world))"
  "w_wire (snd (Relay (ex_relaying event) ex_sender ''n'' event empty_world)) = w_wire empty_world @ [(''federation.relay.n.'' @ ev_Type event, 2)]"
  by (simp_all add: Relay_def ex_relaying_def ex_sender_def ex_envelope_def null_services_def new_uuid_def time_now_def wire_publish_def empty_world_def Let_def)

theorem relayed_event_delivered_witness:
  "\<exists>e. w_sent (en_world (rs_env (handleIncomingRelay (ex_relaying ((zero_event 0)\<lparr>ev_Type := ''t'', ev_TargetAgent := ''a''\<rparr>)) ''n''
     (Some ex_local_router) 2 ex_relay_state))) = [e] \<and> ev_Type e = ''agent.direct.a.t''"
proof -
  let ?e = "(zero_event 0)\<lparr>ev_Type := ''t'', ev_TargetAgent := ''a''\<rparr>"
  have "ev_TargetAgent ?e \<noteq> []" "ri_get (dr_registry ex_local_router) (ev_TargetAgent ?e) = Inr (ex_registration ''a'', 1)"
    "\<forall>i e. sv_bus (ex_relaying ?e) i e" by (simp_all add: ex_local_router_def ex_relaying_def null_services_def)
  from relayed_event_delivered [OF ex_relaying_codec ex_relaying_sends this, of ex_relay_state]
  show ?thesis by (simp add: published_def ex_relay_state_def empty_world_def directEvent_def)
qed

theorem relayed_result_misses_engine_witness:
  "resultSubject ''w'' \<notin> ev_Type ` set (w_sent (en_world (rs_env (handleIncomingRelay
     (ex_relaying ((zero_event 0)\<lparr>ev_Type := resultSubject ''w'', ev_WorkflowID := ''w''\<rparr>)) ''n'' (Some ex_local_router) 2 ex_relay_state))))"
proof -
  let ?e = "(zero_event 0)\<lparr>ev_Type := resultSubject ''w'', ev_WorkflowID := ''w''\<rparr>"
  have s: "stripRelayed ?e = ?e" by (auto simp: stripRelayed_def zero_event_def)
  have "ev_Type ?e = resultSubject ''w''" "ev_WorkflowID ?e = ''w''" "''w'' \<noteq> []" "ev_TargetAgent ?e = []"
    "ev_Metadata ?e ''route.capability'' = None" by (simp_all add: zero_event_def)
  moreover have "w_wire (en_world (rs_env (forwardResultToSource (ex_relaying ?e) (Some ex_sender) ''n'' ?e ex_relay_state))) =
      w_wire (en_world (rs_env ex_relay_state)) @ [(''federation.relay.n.'' @ ev_Type ?e, 2)]"
    using ex_relaying_sends(2) [of ?e] unfolding forwardResultToSource_def s by (simp add: ex_relay_state_def)
  ultimately obtain es where "published (rs_env ex_relay_state) (rs_env (handleIncomingRelay (ex_relaying ?e) ''n'' (Some ex_local_router) 2 ex_relay_state)) es []"
    "\<forall>e\<in>set es. ev_Type e \<noteq> resultSubject ''w''"
    using relayed_result_misses_engine [OF ex_relaying_codec, of ?e "''w''" ?e ex_sender "''n''" ex_relay_state _ 2 ex_relay_state ex_local_router] by blast
  then show ?thesis by (auto simp: published_def ex_relay_state_def empty_world_def)
qed

lemma fold_send:
  assumes "\<forall>p. \<exists>d. sv_marshal sv (MNodeRegister p) = Some d" and "\<forall>i t. sv_wire sv i t"
  shows "set (w_wire (fs_world (fold (\<lambda>n st. if ni_NodeID n = x then st
      else send sv ''federation.node.register'' (MNodeRegister (registration n)) st) infos st))) =
    set (w_wire (fs_world st)) \<union> {(''federation.node.register'', d) | d n. n \<in> set infos \<and> ni_NodeID n \<noteq> x \<and>
      sv_marshal sv (MNodeRegister (registration n)) = Some d}"
proof (induction infos arbitrary: st)
  case (Cons n infos)
  obtain d where d: "sv_marshal sv (MNodeRegister (registration n)) = Some d" using assms(1) by blast
  have "set (w_wire (fs_world (send sv ''federation.node.register'' (MNodeRegister (registration n)) st))) =
      insert (''federation.node.register'', d) (set (w_wire (fs_world st)))"
    using d assms(2) by (simp add: send_def wire_publish_def Let_def)
  then show ?case using Cons d by auto
qed simp

context reliable_nodes
begin

lemma upsertNode_reliable:
  obtains rv s' where "upsertNode (kn_kv r) info s = (Inr rv, s')" "view s' = (view s)(ni_NodeID info \<mapsto> (Json info, rv))"
proof (cases "view s (ni_NodeID info)")
  case None
  then obtain rv s' where c: "kv_create (kn_kv r) (ni_NodeID info) (Json info) s = (Inr rv, s')" using create_absent by blast
  then show thesis using that [of rv s'] create_ok [OF c] by (simp add: upsertNode_def)
next
  case (Some ent)
  obtain u q where e: "ent = (u, q)" by fastforce
  obtain rv s' where c: "kv_update (kn_kv r) (ni_NodeID info) (Json info) q s = (Inr rv, s')" using update_match Some e by blast
  then show thesis using that [of rv s'] update_ok [OF c] create_exists [OF Some] get_present [OF Some] e by (simp add: upsertNode_def)
qed

lemma NodeRegister_reliable:
  assumes "ni_NodeID info \<noteq> []" and "ni_Address info \<noteq> []"
  obtains seen joined rv s' w' where "NodeRegister sv r info s w = (Inr rv, s', w')"
    "view s' = (view s)(ni_NodeID info \<mapsto> (Json (registeredInfo info seen joined), rv))"
proof -
  let ?seen = "fst (time_now sv w)" and ?joined = "if ni_JoinedAt info = 0 then fst (time_now sv (snd (time_now sv w))) else 0"
  obtain rv s' where "upsertNode (kn_kv r) (registeredInfo info ?seen ?joined) s = (Inr rv, s')"
    "view s' = (view s)(ni_NodeID (registeredInfo info ?seen ?joined) \<mapsto> (Json (registeredInfo info ?seen ?joined), rv))"
    using upsertNode_reliable .
  then show thesis using that [of rv s'] assms
    by (cases "ni_JoinedAt info = 0") (simp_all add: NodeRegister_def registeredInfo_def case_prod_unfold Let_def)
qed

end

lemma fold_send_nodes: "fs_nodes (fold (\<lambda>n st. if ni_NodeID n = x then st
    else send sv ''federation.node.register'' (MNodeRegister (registration n)) st) infos st) = fs_nodes st"
  by (induction infos arbitrary: st) (simp_all add: send_def split: option.split)

lemma propagateKnownNodes_nodes [simp]: "fs_nodes (propagateKnownNodes sv g x st) = fs_nodes st"
  by (simp add: propagateKnownNodes_def fold_send_nodes split: sum.split)

lemma handleNodeRegister_stores:
  assumes "reliable_nodes (fn_nodes (gt_node b)) bview" and "sv_dec_node_register sv d = Some p"
    and "nrp_node_id p \<noteq> fn_nodeID (gt_node b)" and "nrp_node_id p \<noteq> []" and "nrp_address p \<noteq> []"
  obtains info q where "bview (fs_nodes (handleNodeRegister sv b d st)) = (bview (fs_nodes st))(nrp_node_id p \<mapsto> (Json info, q))"
    "ni_Status info = NodeStatusActive" "ni_MissedHeartbeats info = 0"
proof -
  let ?i = "\<lparr>ni_NodeID = nrp_node_id p, ni_Address = nrp_address p,
     ni_Status = NodeStatusActive, ni_CapabilitiesCount = nrp_capabilities_count p, ni_LastSeen = 0,
     ni_JoinedAt = nrp_joined_at p, ni_MissedHeartbeats = 0, ni_Version = nrp_version p, ni_Revision = 0\<rparr>"
  obtain seen joined rv s' w' where n: "NodeRegister sv (fn_nodes (gt_node b)) ?i (fs_nodes st) (fs_world st) = (Inr rv, s', w')"
    "bview s' = (bview (fs_nodes st))(ni_NodeID ?i \<mapsto> (Json (registeredInfo ?i seen joined), rv))"
    by (rule reliable_nodes.NodeRegister_reliable [OF assms(1), of ?i sv "fs_nodes st" "fs_world st"]) (simp_all add: assms(4,5))
  then have "fs_nodes (handleNodeRegister sv b d st) = s'"
    using assms(2,3) by (simp add: handleNodeRegister_def Let_def split: option.split)
  then show thesis using that n(2) by (simp add: registeredInfo_def)
qed

text \<open>
  Dead nodes are revived by newcomers: when a node joins, the gateway announces every node it
  knows, the dead ones included, and any other gateway that handles such an announcement stores the
  dead node as ACTIVE with no missed heartbeat.
\<close>

lemma dead_node_reannounced:
  assumes "federation_stores (gt_node g) nview aview" and "node_keyed (nview (fs_nodes st))"
    and "nview (fs_nodes st) k = Some (Json info, q)" and "ni_Status info = NodeStatusDead" and "ni_Address info \<noteq> []" and "k \<noteq> []" and "k \<noteq> x"
    and "\<forall>p. \<exists>d. sv_marshal sv (MNodeRegister p) = Some d \<and> sv_dec_node_register sv d = Some p" and "\<forall>i t. sv_wire sv i t"
    and "federation_stores (gt_node b) bview cview" and "fn_nodeID (gt_node b) \<noteq> k"
  shows "\<exists>d. (''federation.node.register'', d) \<in> set (w_wire (fs_world (propagateKnownNodes sv g x st))) \<and>
    (\<exists>info' q'. bview (fs_nodes (handleNodeRegister sv b d stb)) k = Some (Json info', q') \<and>
       ni_Status info' = NodeStatusActive \<and> ni_MissedHeartbeats info' = 0)"
proof -
  let ?m = "nview (fs_nodes st)"
  obtain ks where ks: "NodeList (fn_nodes (gt_node g)) (fs_nodes st) = Inr (map (listed ?m) ks)" "set ks = dom ?m"
    using reliable_nodes.NodeList_keyed [OF federation_stores.axioms(1) [OF assms(1)] assms(2)] .
  let ?n = "listed ?m k"
  have "\<exists>i. Json info = Json i \<and> ni_NodeID i = k" using assms(2,3) unfolding node_keyed_def by blast
  then have n: "ni_NodeID ?n = k" "ni_Address ?n = ni_Address info" using assms(3) by (simp_all add: listed_def)
  obtain d where d: "sv_marshal sv (MNodeRegister (registration ?n)) = Some d" "sv_dec_node_register sv d = Some (registration ?n)"
    using assms(8) by blast
  have "?n \<in> set (map (listed ?m) ks)" using ks(2) assms(3) by auto
  then have known: "(''federation.node.register'', d) \<in> {(''federation.node.register'', d) | d n. n \<in> set (map (listed ?m) ks) \<and>
      ni_NodeID n \<noteq> x \<and> sv_marshal sv (MNodeRegister (registration n)) = Some d}" by (intro CollectI exI [of _ d] exI [of _ ?n]) (use d(1) n(1) assms(7) in simp)
  have "\<forall>p. \<exists>d. sv_marshal sv (MNodeRegister p) = Some d" using assms(8) by blast
  note sent = fold_send [OF this assms(9)]
  have "(''federation.node.register'', d) \<in> set (w_wire (fs_world (propagateKnownNodes sv g x st)))"
    unfolding propagateKnownNodes_def ks(1) sum.case sent using known by (rule UnI2)
  moreover have r: "nrp_node_id (registration ?n) = k" "nrp_address (registration ?n) \<noteq> []" using n assms(5) by (simp_all add: registration_def)
  obtain info' q' where "bview (fs_nodes (handleNodeRegister sv b d stb)) = (bview (fs_nodes stb))(nrp_node_id (registration ?n) \<mapsto> (Json info', q'))"
    "ni_Status info' = NodeStatusActive" "ni_MissedHeartbeats info' = 0"
    by (rule handleNodeRegister_stores [OF federation_stores.axioms(1) [OF assms(10)] d(2), of stb]) (use r assms(6,11) in auto)
  ultimately show ?thesis using r(1) by auto
qed

definition ex_registering :: "NodeRegisterPayload services" where
  "ex_registering = (null_services \<lparr>nrp_node_id = [], nrp_address = [], nrp_version = [], nrp_joined_at = 0, nrp_capabilities_count = 0\<rparr>)
     \<lparr>sv_marshal := \<lambda>m. (case m of MNodeRegister p \<Rightarrow> Some p | _ \<Rightarrow> None), sv_dec_node_register := Some\<rparr>"

definition ex_gateway :: "string \<Rightarrow> (NodeInfo json bucket, AgentRegistration json bucket, TaxonomyEntry json bucket, NodeRegisterPayload) FederationGateway" where
  "ex_gateway nodeID = \<lparr>gt_node = mem_node nodeID 1 2 9, gt_Seeds = [''s''], gt_PSK = [], gt_LeafPort = 7422, gt_snapshot = None\<rparr>"

definition ex_known :: "(NodeInfo json bucket, AgentRegistration json bucket, NodeRegisterPayload) fed_state" where
  "ex_known = \<lparr>fs_nodes = fs_nodes (ex_fed NodeStatusDead), fs_agents = empty_bucket, fs_sequence = 0, fs_world = empty_world\<rparr>"

lemma dead_node_reannounced_witness:
  "\<exists>d info q. (''federation.node.register'', d) \<in> set (w_wire (fs_world (propagateKnownNodes ex_registering (ex_gateway ''n'') ''x'' ex_known))) \<and>
    mem_view (fs_nodes (handleNodeRegister ex_registering (ex_gateway ''m'') d ex_known)) ''p'' = Some (Json info, q) \<and>
    ni_Status info = NodeStatusActive"
proof -
  have f: "federation_stores (gt_node (ex_gateway nodeID)) mem_view mem_view" for nodeID
    using mem_fed.federation_stores_axioms by (simp add: ex_gateway_def)
  have i: "ni_Status (ex_peer\<lparr>ni_Status := NodeStatusDead\<rparr>) = NodeStatusDead" "ni_Address (ex_peer\<lparr>ni_Status := NodeStatusDead\<rparr>) \<noteq> []"
    "''p'' \<noteq> []" "''p'' \<noteq> ''x''" by (simp_all add: ex_peer_def)
  have c: "\<forall>p. \<exists>d. sv_marshal ex_registering (MNodeRegister p) = Some d \<and> sv_dec_node_register ex_registering d = Some p"
    "\<forall>i t. sv_wire ex_registering i t" by (simp_all add: ex_registering_def null_services_def)
  have b: "fn_nodeID (gt_node (ex_gateway ''m'')) \<noteq> ''p''" by (simp add: ex_gateway_def mem_node_def)
  have v: "node_keyed (mem_view (fs_nodes ex_known))" "mem_view (fs_nodes ex_known) ''p'' = Some (Json (ex_peer\<lparr>ni_Status := NodeStatusDead\<rparr>), 1)"
    using ex_fed_view by (simp_all add: ex_known_def)
  from dead_node_reannounced [OF f [of "''n''"] v i c f [of "''m''"] b, of ex_known] show ?thesis by blast
qed

end
