(* ===== verification/Idempotency.thy ===== *)
theory Idempotency
  imports Prelude "HOL-Library.Multiset"
begin

text \<open>
  The cache with which an agent recognises events it has already processed (\<open>sdk/idempotency.go\<close>): a
  table into a list ordered by recency. The table and the list are tied by the invariant \<open>cache_ok\<close>,
  under which both operations refine operations on a list of distinct identifiers.
\<close>

section \<open>The idempotency cache\<close>

text \<open>
  The eviction list holds its elements from the most to the least recently used one; an element is
  identified by the number of \<open>PushFront\<close> calls made before it, which stands for its address, and
  the table maps an event ID to its element.
\<close>

record idempotencyCache =
  ic_maxSize :: int
  ic_items :: "string \<rightharpoonup> nat"
  ic_eviction :: "(nat \<times> string) list"
  ic_allocated :: nat

definition newIdempotencyCache :: "int \<Rightarrow> idempotencyCache" where
  "newIdempotencyCache maxSize = \<lparr>ic_maxSize = maxSize, ic_items = Map.empty, ic_eviction = [], ic_allocated = 0\<rparr>"

definition MoveToFront :: "nat \<Rightarrow> (nat \<times> string) list \<Rightarrow> (nat \<times> string) list" where
  "MoveToFront el l = filter (\<lambda>x. fst x = el) l @ filter (\<lambda>x. fst x \<noteq> el) l"

definition Has :: "string \<Rightarrow> idempotencyCache \<Rightarrow> bool \<times> idempotencyCache" where
  "Has eventID c =
     (case ic_items c eventID of
        Some el \<Rightarrow> (True, c\<lparr>ic_eviction := MoveToFront el (ic_eviction c)\<rparr>)
      | None \<Rightarrow> (False, c))"

definition evictOldest :: "idempotencyCache \<Rightarrow> idempotencyCache" where
  "evictOldest c =
     (if ic_eviction c = [] then c
      else c\<lparr>ic_eviction := butlast (ic_eviction c), ic_items := (ic_items c)(snd (last (ic_eviction c)) := None)\<rparr>)"

definition Add :: "string \<Rightarrow> idempotencyCache \<Rightarrow> idempotencyCache" where
  "Add eventID c =
     (if ic_items c eventID \<noteq> None then c
      else
        (let c1 = (if ic_maxSize c \<le> int (length (ic_eviction c)) then evictOldest c else c);
             el = ic_allocated c1
         in c1\<lparr>ic_eviction := (el, eventID) # ic_eviction c1, ic_items := (ic_items c1)(eventID \<mapsto> el), ic_allocated := Suc el\<rparr>))"

section \<open>The cache remembers the most recent events\<close>

text \<open>The identifiers from the most to the least recently used one, and the invariant that ties the table to the list.\<close>

definition ids :: "idempotencyCache \<Rightarrow> string list" where
  "ids c = map snd (ic_eviction c)"

definition cache_ok :: "idempotencyCache \<Rightarrow> bool" where
  "cache_ok c \<longleftrightarrow> distinct (map fst (ic_eviction c)) \<and> distinct (ids c) \<and>
     (\<forall>x el. ic_items c x = Some el \<longleftrightarrow> (el, x) \<in> set (ic_eviction c)) \<and>
     (\<forall>(el, x) \<in> set (ic_eviction c). el < ic_allocated c)"

text \<open>The specification: a list of distinct identifiers, no longer than the capacity.\<close>

definition touch :: "string \<Rightarrow> string list \<Rightarrow> string list" where
  "touch x xs = (if x \<in> set xs then x # remove1 x xs else xs)"

definition push :: "nat \<Rightarrow> string \<Rightarrow> string list \<Rightarrow> string list" where
  "push n x xs = (if x \<in> set xs then xs else x # (if n \<le> length xs then butlast xs else xs))"

lemma cache_items: "cache_ok c \<Longrightarrow> ic_items c x = None \<longleftrightarrow> x \<notin> set (ids c)"
proof -
  assume "cache_ok c"
  then have "ic_items c x = Some el \<longleftrightarrow> (el, x) \<in> set (ic_eviction c)" for el by (simp add: cache_ok_def)
  then have "(\<exists>el. ic_items c x = Some el) \<longleftrightarrow> (\<exists>el. (el, x) \<in> set (ic_eviction c))" by simp
  moreover have "(\<exists>el. (el, x) \<in> set (ic_eviction c)) \<longleftrightarrow> x \<in> set (ids c)" by (force simp: ids_def)
  ultimately show ?thesis by auto
qed

lemma mset_MoveToFront: "mset (MoveToFront el l) = mset l"
  by (induction l) (auto simp: MoveToFront_def)

lemma distinct_MoveToFront: "distinct (map f (MoveToFront el l)) = distinct (map f l)"
  by (metis mset_MoveToFront mset_map mset_eq_imp_distinct_iff)

lemma MoveToFront_present:
  assumes "distinct (map fst l)" and "distinct (map snd l)" and "(el, x) \<in> set l"
  shows "MoveToFront el l = (el, x) # remove1 (el, x) l" and "map snd (MoveToFront el l) = touch x (map snd l)"
proof -
  have f: "filter (\<lambda>y. fst y = el) l = [(el, x)] \<and> filter (\<lambda>y. fst y \<noteq> el) l = remove1 (el, x) l \<and>
      map snd (remove1 (el, x) l) = remove1 x (map snd l)"
    using assms
  proof (induction l)
    case (Cons y l)
    show ?case
    proof (cases "y = (el, x)")
      case True
      then have "filter (\<lambda>y. fst y = el) l = []" "filter (\<lambda>y. fst y \<noteq> el) l = l"
        using Cons.prems(1) by (auto simp: filter_empty_conv filter_id_conv image_iff)
      then show ?thesis using True by simp
    next
      case False
      then have "fst y \<noteq> el" "snd y \<noteq> x" using Cons.prems by (auto simp: image_iff)
      then show ?thesis using Cons False by auto
    qed
  qed simp
  show "MoveToFront el l = (el, x) # remove1 (el, x) l" using f by (simp add: MoveToFront_def)
  then show "map snd (MoveToFront el l) = touch x (map snd l)" using f assms(3) by (force simp: touch_def)
qed

lemma Has_refines:
  assumes "cache_ok c" and "Has x c = (b, c')"
  shows "b \<longleftrightarrow> x \<in> set (ids c)" and "ids c' = touch x (ids c)" and "cache_ok c'" and "ic_maxSize c' = ic_maxSize c"
proof -
  consider (miss) "ic_items c x = None" | (hit) el where "ic_items c x = Some el" by (cases "ic_items c x") auto
  then have "(b \<longleftrightarrow> x \<in> set (ids c)) \<and> ids c' = touch x (ids c) \<and> cache_ok c' \<and> ic_maxSize c' = ic_maxSize c"
  proof cases
    case miss
    then have "b = False" "c' = c" using assms(2) by (auto simp: Has_def)
    then show ?thesis using assms(1) miss cache_items [OF assms(1), of x] by (simp add: touch_def)
  next
    case hit
    then have m: "(el, x) \<in> set (ic_eviction c)" "distinct (map fst (ic_eviction c))" "distinct (map snd (ic_eviction c))"
      using assms(1) by (auto simp: cache_ok_def ids_def)
    note f = MoveToFront_present [OF m(2,3,1)]
    have "set (MoveToFront el (ic_eviction c)) = set (ic_eviction c)" using mset_MoveToFront mset_eq_setD by blast
    then have "cache_ok (c\<lparr>ic_eviction := MoveToFront el (ic_eviction c)\<rparr>)"
      using assms(1) by (simp add: cache_ok_def ids_def distinct_MoveToFront)
    moreover have "x \<in> set (ids c)" using m(1) by (force simp: ids_def)
    ultimately show ?thesis using assms(2) hit f(2) by (auto simp: Has_def ids_def)
  qed
  then show "b \<longleftrightarrow> x \<in> set (ids c)" and "ids c' = touch x (ids c)" and "cache_ok c'" and "ic_maxSize c' = ic_maxSize c" by blast+
qed

lemmas Has_spec = Has_refines [OF _ prod.collapse [symmetric]]

lemma evictOldest_refines:
  assumes "cache_ok c"
  shows "ids (evictOldest c) = butlast (ids c)" and "cache_ok (evictOldest c)"
    and "ic_maxSize (evictOldest c) = ic_maxSize c" and "ic_allocated (evictOldest c) = ic_allocated c"
proof -
  show "ids (evictOldest c) = butlast (ids c)" by (simp add: evictOldest_def ids_def map_butlast)
  show "cache_ok (evictOldest c)"
  proof (cases "ic_eviction c" rule: rev_cases)
    case Nil
    then show ?thesis using assms by (simp add: evictOldest_def)
  next
    case (snoc l y)
    then have "evictOldest c = c\<lparr>ic_eviction := l, ic_items := (ic_items c)(snd y := None)\<rparr>" by (simp add: evictOldest_def)
    then show ?thesis using assms snoc by (cases y) (force simp: cache_ok_def ids_def)
  qed
qed (simp_all add: evictOldest_def)

lemma push_fresh:
  assumes "cache_ok c" and "x \<notin> set (ids c)"
  shows "cache_ok (c\<lparr>ic_eviction := (ic_allocated c, x) # ic_eviction c, ic_items := (ic_items c)(x \<mapsto> ic_allocated c),
     ic_allocated := Suc (ic_allocated c)\<rparr>)"
proof -
  have "\<And>el. (el, x) \<notin> set (ic_eviction c)" using assms(2) by (force simp: ids_def)
  moreover have "ic_allocated c \<notin> fst ` set (ic_eviction c)" using assms(1) by (force simp: cache_ok_def)
  ultimately show ?thesis using assms by (auto simp: cache_ok_def ids_def less_Suc_eq)
qed

lemma Add_refines:
  assumes "cache_ok c"
  shows "ids (Add x c) = push (nat (ic_maxSize c)) x (ids c)" and "cache_ok (Add x c)" and "ic_maxSize (Add x c) = ic_maxSize c"
proof -
  let ?c = "if ic_maxSize c \<le> int (length (ic_eviction c)) then evictOldest c else c"
  have e: "ids ?c = (if nat (ic_maxSize c) \<le> length (ids c) then butlast (ids c) else ids c)" "cache_ok ?c" "ic_maxSize ?c = ic_maxSize c"
    using assms evictOldest_refines [OF assms] by (auto simp: ids_def nat_le_iff)
  have s: "set (ids ?c) \<subseteq> set (ids c)" using e(1) by (auto dest: in_set_butlastD split: if_splits)
  have i: "ic_items c x = None \<longleftrightarrow> x \<notin> set (ids c)" using cache_items [OF assms] .
  show "ids (Add x c) = push (nat (ic_maxSize c)) x (ids c)"
    using e(1) i by (simp add: Add_def push_def Let_def ids_def)
  show "cache_ok (Add x c)"
  proof (cases "x \<in> set (ids c)")
    case True
    then show ?thesis using assms i by (simp add: Add_def)
  next
    case False
    then have "x \<notin> set (ids ?c)" using s by blast
    from push_fresh [OF e(2) this] show ?thesis using False i by (simp add: Add_def Let_def fun_upd_def)
  qed
  show "ic_maxSize (Add x c) = ic_maxSize c" using e(3) by (simp add: Add_def Let_def)
qed

text \<open>What the agent does with its cache: look up an identifier, or record one.\<close>

datatype cache_op = Lookup_op string | Record_op string

fun op_id :: "cache_op \<Rightarrow> string" where
  "op_id (Lookup_op x) = x"
| "op_id (Record_op x) = x"

fun cache_run :: "cache_op list \<Rightarrow> idempotencyCache \<Rightarrow> idempotencyCache" where
  "cache_run [] c = c"
| "cache_run (Lookup_op x # ops) c = cache_run ops (snd (Has x c))"
| "cache_run (Record_op x # ops) c = cache_run ops (Add x c)"

text \<open>Everything in front of \<open>e\<close> has been used since \<open>e\<close> was.\<close>

definition used_since :: "string \<Rightarrow> string set \<Rightarrow> string list \<Rightarrow> bool" where
  "used_since e S xs \<longleftrightarrow> (\<exists>ys zs. xs = ys @ e # zs \<and> set ys \<subseteq> S \<and> e \<notin> set ys)"

lemma used_since_touch:
  assumes "used_since e S xs" and "distinct xs"
  shows "used_since e (if x = e then S else insert x S) (touch x xs)"
proof -
  obtain ys zs where xs: "xs = ys @ e # zs" "set ys \<subseteq> S" "e \<notin> set ys" using assms(1) by (auto simp: used_since_def)
  show ?thesis
  proof (cases "x = e")
    case True
    then have "touch x xs = [] @ e # remove1 e xs" using xs(1) by (simp add: touch_def)
    then show ?thesis unfolding used_since_def by fastforce
  next
    case False
    then consider (front) "touch x xs = (x # remove1 x ys) @ e # zs" "x \<in> set ys" | (rear) "touch x xs = (x # ys) @ e # remove1 x zs" | (off) "touch x xs = xs"
      using xs(1) by (cases "x \<in> set ys"; cases "x \<in> set zs") (auto simp: touch_def remove1_append)
    then show ?thesis
    proof cases
      case front
      then show ?thesis using False xs notin_set_remove1 [of e ys x] set_remove1_subset [of x ys] unfolding used_since_def
        by (intro exI [of _ "x # remove1 x ys"] exI [of _ zs]) auto
    next
      case rear
      then show ?thesis using False xs unfolding used_since_def by (intro exI [of _ "x # ys"] exI [of _ "remove1 x zs"]) auto
    next
      case off
      then show ?thesis using False xs unfolding used_since_def by (intro exI [of _ ys] exI [of _ zs]) auto
    qed
  qed
qed

lemma used_since_push:
  assumes "used_since e S xs" and "distinct xs" and "finite S" and "card (insert x S - {e}) < n"
  shows "used_since e (if x = e then S else insert x S) (push n x xs)"
proof -
  obtain ys zs where xs: "xs = ys @ e # zs" "set ys \<subseteq> S" "e \<notin> set ys" using assms(1) by (auto simp: used_since_def)
  show ?thesis
  proof (cases "x \<in> set xs")
    case True
    then show ?thesis using assms(1) by (auto simp: push_def used_since_def)
  next
    case False
    then have x: "x \<noteq> e" "x \<notin> set ys" using xs(1) by auto
    have "set (x # ys) \<subseteq> insert x S - {e}" using xs(2,3) x by auto
    then have "card (set (x # ys)) \<le> card (insert x S - {e})" using assms(3) by (intro card_mono) auto
    moreover have "card (set (x # ys)) = Suc (length ys)" using assms(2) xs(1) x(2) by (simp add: distinct_card)
    ultimately have "n \<le> length xs \<Longrightarrow> zs \<noteq> []" using assms(4) xs(1) by auto
    then obtain zs' where "push n x xs = (x # ys) @ e # zs'" using False xs(1) by (cases "n \<le> length xs") (auto simp: push_def butlast_append)
    then show ?thesis using xs x unfolding used_since_def by (intro exI [of _ "x # ys"] exI [of _ zs']) auto
  qed
qed

lemma cache_run_refines:
  assumes "cache_ok c"
  shows "cache_ok (cache_run ops c)" and "ic_maxSize (cache_run ops c) = ic_maxSize c"
  using assms
proof (induction ops c rule: cache_run.induct)
  case (2 x ops c)
  { case 1
    then show ?case using 2 Has_spec(3) by simp
  next
    case 2
    then show ?case using "2.IH" Has_spec(3,4) by simp }
next
  case (3 x ops c)
  { case 1
    then show ?case using 3 Add_refines(2) by simp
  next
    case 2
    then show ?case using "3.IH" Add_refines(2,3) by simp }
qed simp_all

lemma cache_run_used:
  assumes "cache_ok c" and "used_since e S (ids c)" and "finite S"
    and "card ((S \<union> op_id ` set ops) - {e}) < nat (ic_maxSize c)"
  shows "e \<in> set (ids (cache_run ops c))"
  using assms
proof (induction ops c arbitrary: S rule: cache_run.induct)
  case (1 c)
  then show ?case by (auto simp: used_since_def)
next
  case (2 x ops c)
  let ?c = "snd (Has x c)" and ?S = "if x = e then S else insert x S"
  have r: "cache_ok ?c" "ids ?c = touch x (ids c)" "ic_maxSize ?c = ic_maxSize c"
    using Has_spec [OF 2(2)] by simp_all
  have "used_since e ?S (ids ?c)" using used_since_touch [OF 2(3)] 2(2) r(2) by (simp add: cache_ok_def)
  moreover have "(?S \<union> op_id ` set ops) - {e} = (S \<union> op_id ` set (Lookup_op x # ops)) - {e}" by auto
  ultimately show ?case using 2(1) [OF r(1), of ?S] 2(4,5) r(3) by simp
next
  case (3 x ops c)
  let ?c = "Add x c" and ?S = "if x = e then S else insert x S"
  have r: "cache_ok ?c" "ids ?c = push (nat (ic_maxSize c)) x (ids c)" "ic_maxSize ?c = ic_maxSize c" using Add_refines [OF 3(2)] by simp_all
  have "card (insert x S - {e}) \<le> card ((S \<union> op_id ` set (Record_op x # ops)) - {e})" using 3(4) by (intro card_mono) auto
  then have "card (insert x S - {e}) < nat (ic_maxSize c)" using 3(5) by linarith
  then have "used_since e ?S (ids ?c)" using used_since_push [OF 3(3) _ 3(4)] 3(2) r(2) by (simp add: cache_ok_def)
  moreover have "(?S \<union> op_id ` set ops) - {e} = (S \<union> op_id ` set (Record_op x # ops)) - {e}" by auto
  ultimately show ?case using 3(1) [OF r(1), of ?S] 3(4,5) r(3) by simp
qed

lemma used_first: "e \<in> set xs \<Longrightarrow> used_since e {} (touch e xs)" "e \<notin> set xs \<Longrightarrow> used_since e {} (push n e xs)"
  by (auto simp: touch_def push_def used_since_def intro!: exI [of _ "[]"])

lemma cache_bounded:
  assumes "cache_ok c" and "length (ids c) \<le> nat (ic_maxSize c)" and "0 < ic_maxSize c"
  shows "length (ids (cache_run ops c)) \<le> nat (ic_maxSize c)"
  using assms
proof (induction ops c rule: cache_run.induct)
  case (2 x ops c)
  have r: "cache_ok (snd (Has x c))" "ids (snd (Has x c)) = touch x (ids c)" "ic_maxSize (snd (Has x c)) = ic_maxSize c"
    using Has_spec [OF 2(2)] by simp_all
  have "length (touch x (ids c)) = length (ids c)" by (auto simp: touch_def length_remove1 in_set_conv_nth)
  then show ?case using 2 r by simp
next
  case (3 x ops c)
  have "length (push (nat (ic_maxSize c)) x (ids c)) \<le> nat (ic_maxSize c)" using 3(3,4) by (cases "ids c") (auto simp: push_def)
  then show ?case using 3 Add_refines [OF 3(2)] by simp
qed simp

lemma newIdempotencyCache_ok [simp]: "cache_ok (newIdempotencyCache n)" "ids (newIdempotencyCache n) = []"
  by (simp_all add: newIdempotencyCache_def cache_ok_def ids_def)

text \<open>
  C28. The cache of an agent never holds more than its capacity, and it knows an event as long as fewer
  other events than the capacity have been looked up or recorded since: whatever happened before,
  once the agent has recorded an event, a look-up finds it after any further operations that
  concern fewer than \<open>n\<close> other events.
\<close>

theorem recorded_event_remembered:
  assumes "0 < n" and "card (op_id ` set later - {e}) < nat n"
  shows "length (ids (cache_run ops (newIdempotencyCache n))) \<le> nat n \<and>
    fst (Has e (cache_run (before @ Lookup_op e # Record_op e # later) (newIdempotencyCache n)))"
proof -
  let ?new = "newIdempotencyCache n" let ?b = "cache_run before ?new"
  have app: "cache_run (xs @ ys) c = cache_run ys (cache_run xs c)" for xs ys c
    by (induction xs c rule: cache_run.induct) simp_all
  have m: "ic_maxSize ?new = n" by (simp add: newIdempotencyCache_def)
  have b: "cache_ok ?b" "ic_maxSize ?b = n" using cache_run_refines [of ?new] m by simp_all
  let ?h = "snd (Has e ?b)" let ?a = "Add e ?h"
  have h: "cache_ok ?h" "ids ?h = touch e (ids ?b)" "ic_maxSize ?h = n" using Has_spec [OF b(1)] b(2) by simp_all
  have a: "cache_ok ?a" "ids ?a = push (nat n) e (ids ?h)" "ic_maxSize ?a = n" using Add_refines [OF h(1)] h(3) by simp_all
  have "used_since e {} (ids ?a)"
  proof (cases "e \<in> set (ids ?b)")
    case True
    then have "ids ?a = touch e (ids ?b)" using a(2) h(2) by (simp add: push_def touch_def)
    then show ?thesis using used_first(1) [OF True] by simp
  next
    case False
    then show ?thesis using a(2) h(2) used_first(2) by (simp add: touch_def)
  qed
  then have "e \<in> set (ids (cache_run later ?a))" using cache_run_used [OF a(1), of e "{}" later] assms(2) a(3) by simp
  then have "fst (Has e (cache_run later ?a))"
    using Has_spec(1) [OF cache_run_refines(1) [OF a(1), of later]] by simp
  moreover have "length (ids (cache_run ops ?new)) \<le> nat n" using cache_bounded [of ?new ops] assms(1) m by simp
  ultimately show ?thesis by (simp add: app)
qed

theorem recorded_event_remembered_witness:
  "fst (Has ''e'' (cache_run [Lookup_op ''e'', Record_op ''e'', Record_op ''f'', Lookup_op ''f''] (newIdempotencyCache 2)))"
  using recorded_event_remembered [of 2 "[Record_op ''f'', Lookup_op ''f'']" "''e''" "[]" "[]"] by simp

end
