(* ===== verification/Sdk.thy ===== *)
theory Sdk
  imports Idempotency Protocol "HOL-Library.AList"
begin

text \<open>
  The Go SDK for agents (\<open>sdk\<close>): options, validation of payloads, registration, health pings, workflow
  steps and the life of an agent from \<open>Start\<close> to \<open>Stop\<close>. Handlers of steps are code of the agent's
  author and run in goroutines of their own, so starting and running one are separate steps.
\<close>

section \<open>Options\<close>

record options =
  op_natsURL :: string
  op_eventBus :: bool
  op_labels :: "string \<rightharpoonup> string"
  op_shutdownTimeout :: int
  op_idempotencyCacheSize :: int

definition defaultOptions :: options where
  "defaultOptions = \<lparr>op_natsURL = ''nats://localhost:4222'', op_eventBus = False, op_labels = Map.empty,
     op_shutdownTimeout = 10 * 1000000000, op_idempotencyCacheSize = 10000\<rparr>"

definition WithNATSURL :: "string \<Rightarrow> options \<Rightarrow> options" where
  "WithNATSURL url o1 = (if url \<noteq> [] then o1\<lparr>op_natsURL := url\<rparr> else o1)"

definition WithEventBus :: "bool \<Rightarrow> options \<Rightarrow> options" where
  "WithEventBus bus o1 = o1\<lparr>op_eventBus := bus\<rparr>"

definition WithLabels :: "(string \<rightharpoonup> string) \<Rightarrow> options \<Rightarrow> options" where
  "WithLabels labels o1 = o1\<lparr>op_labels := labels\<rparr>"

definition WithShutdownTimeout :: "int \<Rightarrow> options \<Rightarrow> options" where
  "WithShutdownTimeout d o1 = (if 0 < d then o1\<lparr>op_shutdownTimeout := d\<rparr> else o1)"

definition WithIdempotencyCacheSize :: "int \<Rightarrow> options \<Rightarrow> options" where
  "WithIdempotencyCacheSize n o1 = (if 0 < n then o1\<lparr>op_idempotencyCacheSize := n\<rparr> else o1)"

datatype option_error = NoNATSURL | BadShutdownTimeout | BadCacheSize

definition validateOptions :: "options \<Rightarrow> option_error option" where
  "validateOptions o1 =
     (if op_natsURL o1 = [] then Some NoNATSURL
      else if op_shutdownTimeout o1 \<le> 0 then Some BadShutdownTimeout
      else if op_idempotencyCacheSize o1 \<le> 0 then Some BadCacheSize else None)"

section \<open>Payload validation\<close>

definition payloadTypeNames :: "string \<rightharpoonup> string" where
  "payloadTypeNames = [''agent.register'' \<mapsto> ''AgentRegisterPayload'', ''agent.unregister'' \<mapsto> ''AgentUnregisterPayload'',
     ''agent.error'' \<mapsto> ''AgentErrorPayload'', ''agent.health.pong'' \<mapsto> ''HealthPongPayload'',
     ''workflow.step.result'' \<mapsto> ''WorkflowStepResultPayload'']"

text \<open>\<open>proto.MessageName(msg).Name()\<close>, by the message's declaration.\<close>

fun messageName :: "'b message \<Rightarrow> string" where
  "messageName (MAgentError _) = ''AgentErrorPayload''"
| "messageName (MHealthPing _) = ''HealthPingPayload''"
| "messageName (MHealthPong _) = ''HealthPongPayload''"
| "messageName (MAgentRegister _) = ''AgentRegisterPayload''"
| "messageName (MAgentUnregister _) = ''AgentUnregisterPayload''"
| "messageName (MCapabilityAnnounce _) = ''CapabilityAnnouncePayload''"
| "messageName (MDiscoveryResponse _) = ''DiscoveryResponsePayload''"
| "messageName (MWorkflowStep _) = ''WorkflowStepPayload''"
| "messageName (MWorkflowStepResult _) = ''WorkflowStepResultPayload''"
| "messageName (MWorkflowComplete _) = ''WorkflowCompletePayload''"
| "messageName (MWorkflowFailed _) = ''WorkflowFailedPayload''"
| "messageName (MWorkflowState _) = ''WorkflowStateResponsePayload''"
| "messageName (MDecisionRequest _) = ''HumanDecisionRequestPayload''"
| "messageName (MDecisionResponse _) = ''HumanDecisionResponsePayload''"
| "messageName (MDecisionConflict _) = ''DecisionConflictPayload''"
| "messageName (MDecisionResolved _) = ''DecisionResolvedPayload''"
| "messageName (MNodeRegister _) = ''NodeRegisterPayload''"
| "messageName (MNodeUnregister _) = ''NodeUnregisterPayload''"
| "messageName (MNodePing _) = ''NodeHealthPingPayload''"
| "messageName (MNodePong _) = ''NodeHealthPongPayload''"
| "messageName (MFederationCapability _) = ''FederationCapabilityPayload''"
| "messageName (MFederationCapabilityRemove _) = ''FederationCapabilityRemovePayload''"
| "messageName (MAgentEvent _) = ''AgentEvent''"
| "messageName (MFederationRelay _) = ''FederationRelayPayload''"

fun indexOf :: "string \<Rightarrow> char \<Rightarrow> nat option" where
  "indexOf [] b = None"
| "indexOf (c # cs) b = (if c = b then Some 0 else map_option Suc (indexOf cs b))"

datatype payload_error = NilPayload | WrongPayload string string | PayloadMarshal

definition payloadKey :: "string \<Rightarrow> string" where
  "payloadKey eventType =
     (if 9 < length eventType \<and> take 9 eventType = ''workflow.'' then
        (case indexOf (drop 9 eventType) CHR ''.'' of
           Some dot \<Rightarrow> ''workflow.'' @ drop (dot + 1) (drop 9 eventType)
         | None \<Rightarrow> eventType)
      else eventType)"

definition validatePayload :: "string \<Rightarrow> 'b message option \<Rightarrow> payload_error option" where
  "validatePayload eventType msg =
     (case msg of
        None \<Rightarrow> Some NilPayload
      | Some m \<Rightarrow>
          (case payloadTypeNames (payloadKey eventType) of
             None \<Rightarrow> None
           | Some expected \<Rightarrow> if messageName m \<noteq> expected then Some (WrongPayload expected (messageName m)) else None))"

definition marshalPayload :: "'b services \<Rightarrow> string \<Rightarrow> 'b message option \<Rightarrow> payload_error + 'b" where
  "marshalPayload sv eventType msg =
     (case validatePayload eventType msg of
        Some err \<Rightarrow> Inl err
      | None \<Rightarrow> (case Option.bind msg (sv_marshal sv) of None \<Rightarrow> Inl PayloadMarshal | Some data \<Rightarrow> Inr data))"

definition stripWorkflowPrefix :: "string \<Rightarrow> string" where
  "stripWorkflowPrefix eventType =
     (if \<not> HasPrefix eventType ''workflow.'' then eventType
      else case indexOf (drop 9 eventType) CHR ''.'' of
             None \<Rightarrow> eventType
           | Some dot \<Rightarrow> ''workflow.'' @ drop (dot + 1) (drop 9 eventType))"

section \<open>The agent\<close>

datatype AgentState = AgentStateCreated | AgentStateStarting | AgentStateRunning | AgentStateStopping | AgentStateStopped

text \<open>The constants are consecutive integers and compared as such.\<close>

fun agent_state_int :: "AgentState \<Rightarrow> int" where
  "agent_state_int AgentStateCreated = 0"
| "agent_state_int AgentStateStarting = 1"
| "agent_state_int AgentStateRunning = 2"
| "agent_state_int AgentStateStopping = 3"
| "agent_state_int AgentStateStopped = 4"

instantiation AgentState :: linorder
begin

definition less_eq_AgentState :: "AgentState \<Rightarrow> AgentState \<Rightarrow> bool" where
  "less_eq_AgentState a b \<longleftrightarrow> agent_state_int a \<le> agent_state_int b"

definition less_AgentState :: "AgentState \<Rightarrow> AgentState \<Rightarrow> bool" where
  "less_AgentState a b \<longleftrightarrow> agent_state_int a < agent_state_int b"

instance
proof
  fix a b :: AgentState
  show "a \<le> b \<Longrightarrow> b \<le> a \<Longrightarrow> a = b" by (cases a; cases b) (simp_all add: less_eq_AgentState_def)
qed (auto simp: less_eq_AgentState_def less_AgentState_def)

end

record sdk_Capability =
  sc_Name :: string
  sc_Version :: string
  sc_Description :: string
  sc_Parameters :: "string \<rightharpoonup> string"
  sc_Category :: string
  sc_Action :: string
  sc_InputTypes :: "string list"
  sc_OutputTypes :: "string list"

record 'b sdk_StepResult =
  sr_StepIndex :: "32 word"
  sr_Status :: string
  sr_Result :: 'b

record 'b StepContext =
  sx_WorkflowID :: string
  sx_StepIndex :: "32 word"
  sx_StepName :: string
  sx_Capability :: string
  sx_Input :: 'b
  sx_PreviousResults :: "'b sdk_StepResult list"

text \<open>
  A step handler is code of the agent's author: it may return bytes with or without an error, or
  panic, and differently at every invocation, which the first argument counts.
\<close>

datatype 'b outcome = Returned 'b "string option" | Panicked string

type_synonym 'b StepHandler = "nat \<Rightarrow> 'b StepContext \<Rightarrow> 'b outcome"

text \<open>A goroutine started for a step: the event, its payload and the handler.\<close>

record 'b task =
  tk_event :: string
  tk_payload :: "'b WorkflowStepPayload"
  tk_handler :: "'b StepHandler"

datatype bus_state = NoBus | OpenBus | ClosedBus

text \<open>
  The agent with the bus it uses, the subjects it has subscribed to, the goroutines in flight (the
  wait group counts them), and the number of handler invocations made. A Go map of capabilities is
  an association list whose order is the iteration order.
\<close>

record 'b Agent =
  ag_id :: string
  ag_name :: string
  ag_agentType :: string
  ag_version :: string
  ag_opts :: options
  ag_state :: AgentState
  ag_capabilities :: "(string \<times> (sdk_Capability \<times> 'b StepHandler)) list"
  ag_bus :: bus_state
  ag_ownsBus :: bool
  ag_subs :: "string list"
  ag_inFlight :: "'b task list"
  ag_invocations :: nat
  ag_cache :: idempotencyCache

datatype agent_error = NoAgentName | NoAgentIDGiven | AlreadyStarted | NotConnected
  | RegisterPayload payload_error | RegisterPublish | SubscribeHealth | SubscribeDirect

definition NewWithID :: "string \<Rightarrow> string \<Rightarrow> string \<Rightarrow> string \<Rightarrow> (options \<Rightarrow> options) list \<Rightarrow> agent_error + 'b Agent" where
  "NewWithID agentID name agentType version opts =
     (if name = [] then Inl NoAgentName
      else if agentID = [] then Inl NoAgentIDGiven
      else
        (let o1 = fold (\<lambda>opt o1. opt o1) opts defaultOptions
         in Inr \<lparr>ag_id = agentID, ag_name = name, ag_agentType = agentType, ag_version = version, ag_opts = o1,
              ag_state = AgentStateCreated, ag_capabilities = [], ag_bus = NoBus, ag_ownsBus = False, ag_subs = [],
              ag_inFlight = [], ag_invocations = 0, ag_cache = newIdempotencyCache (op_idempotencyCacheSize o1)\<rparr>))"

definition New :: "'b services \<Rightarrow> string \<Rightarrow> string \<Rightarrow> string \<Rightarrow> (options \<Rightarrow> options) list \<Rightarrow> 'b world \<Rightarrow>
    (agent_error + 'b Agent) \<times> 'b world" where
  "New sv name agentType version opts w =
     (let (uid, w1) = new_uuid sv w in (NewWithID uid name agentType version opts, w1))"

definition Handle :: "sdk_Capability \<Rightarrow> 'b StepHandler \<Rightarrow> 'b Agent \<Rightarrow> 'b Agent" where
  "Handle cap handler a = a\<lparr>ag_capabilities := AList.update (sc_Name cap) (cap, handler) (ag_capabilities a)\<rparr>"

section \<open>Registration and health\<close>

definition to_pb :: "sdk_Capability \<Rightarrow> pb_Capability" where
  "to_pb c = \<lparr>pc_name = sc_Name c, pc_version = sc_Version c, pc_description = sc_Description c,
     pc_parameters = sc_Parameters c, pc_category = sc_Category c, pc_action = sc_Action c,
     pc_input_types = sc_InputTypes c, pc_output_types = sc_OutputTypes c\<rparr>"

text \<open>The common tail of the methods that publish an event of the agent.\<close>

definition publishOwn :: "'b services \<Rightarrow> 'b Agent \<Rightarrow> string \<Rightarrow> string \<Rightarrow> 'b \<Rightarrow> 'b world \<Rightarrow> bool \<times> 'b world" where
  "publishOwn sv a eventType workflowID data w =
     (let (uid, w1) = new_uuid sv w; (ts, w2) = time_now sv w1
      in bus_publish sv ((zero_event data)\<lparr>ev_ID := uid, ev_Type := eventType, ev_SourceAgent := ag_id a,
           ev_WorkflowID := workflowID, ev_Timestamp := ts\<rparr>) w2)"

definition register_agent :: "'b services \<Rightarrow> 'b Agent \<Rightarrow> 'b world \<Rightarrow> agent_error option \<times> 'b world" where
  "register_agent sv a w =
     (case marshalPayload sv ''agent.register'' (Some (MAgentRegister \<lparr>arp_agent_id = ag_id a, arp_agent_type = ag_agentType a,
             arp_version = ag_version a, arp_capabilities = map (\<lambda>e. to_pb (fst (snd e))) (ag_capabilities a),
             arp_labels = op_labels (ag_opts a)\<rparr>)) of
        Inl err \<Rightarrow> (Some (RegisterPayload err), w)
      | Inr data \<Rightarrow>
          (let (ok, w') = publishOwn sv a ''agent.register'' [] data w
           in (if ok then None else Some RegisterPublish, w')))"

definition unregister_agent :: "'b services \<Rightarrow> 'b Agent \<Rightarrow> 'b world \<Rightarrow> agent_error option \<times> 'b world" where
  "unregister_agent sv a w =
     (case marshalPayload sv ''agent.unregister'' (Some (MAgentUnregister \<lparr>aup_agent_id = ag_id a, aup_reason = ''shutdown''\<rparr>)) of
        Inl err \<Rightarrow> (Some (RegisterPayload err), w)
      | Inr data \<Rightarrow>
          (let (ok, w') = publishOwn sv a ''agent.unregister'' [] data w
           in (if ok then None else Some RegisterPublish, w')))"

definition publishHealthPong :: "'b services \<Rightarrow> 'b Agent \<Rightarrow> int \<Rightarrow> 'b world \<Rightarrow> 'b world" where
  "publishHealthPong sv a sequence w =
     (case marshalPayload sv ''agent.health.pong'' (Some (MHealthPong \<lparr>hpo_agent_id = ag_id a, hpo_sequence = sequence, hpo_status = 1\<rparr>)) of
        Inl _ \<Rightarrow> w
      | Inr data \<Rightarrow> snd (publishOwn sv a ''agent.health.pong'' [] data w))"

definition handlePing :: "'b services \<Rightarrow> 'b Agent \<Rightarrow> 'b event \<Rightarrow> 'b world \<Rightarrow> 'b world" where
  "handlePing sv a event w =
     (case sv_dec_ping sv (ev_Payload event) of
        None \<Rightarrow> w
      | Some ping \<Rightarrow> publishHealthPong sv a (hpi_sequence ping) w)"

section \<open>Steps\<close>

definition buildStepContext :: "'b services \<Rightarrow> 'b WorkflowStepPayload \<Rightarrow> 'b StepContext" where
  "buildStepContext sv payload =
     (let prev = map (\<lambda>r. \<lparr>sr_StepIndex = psr_step_index r,
            sr_Status = (if psr_status r = 1 then ''SUCCESS'' else ''FAILURE''), sr_Result = psr_result r\<rparr>)
            (wsp_previous_results payload);
          stepName = (case wsp_step payload of Some st \<Rightarrow> psd_name st | None \<Rightarrow> []);
          capName = (case wsp_step payload of Some st \<Rightarrow> psd_capability st | None \<Rightarrow> []);
          input0 = (case wsp_step payload of Some st \<Rightarrow> psd_input st | None \<Rightarrow> sv_nil sv);
          input1 = (if wsp_input payload \<noteq> sv_nil sv then wsp_input payload else input0)
      in \<lparr>sx_WorkflowID = wsp_workflow_id payload, sx_StepIndex = wsp_step_index payload, sx_StepName = stepName,
          sx_Capability = capName, sx_Input = input1, sx_PreviousResults = prev\<rparr>)"

definition safeInvoke :: "'b services \<Rightarrow> 'b outcome \<Rightarrow> 'b \<times> string option" where
  "safeInvoke sv oc =
     (case oc of
        Returned result err \<Rightarrow> (result, err)
      | Panicked msg \<Rightarrow> (sv_nil sv, Some (''handler panicked: '' @ msg)))"

definition stepResultPayload :: "'b services \<Rightarrow> string \<Rightarrow> 32 word \<Rightarrow> 'b \<Rightarrow> string option \<Rightarrow> 'b WorkflowStepResultPayload" where
  "stepResultPayload sv agentID stepIndex result handlerErr =
     (case handlerErr of
        None \<Rightarrow> \<lparr>wsr_step_index = stepIndex, wsr_status = 1, wsr_result = result, wsr_error = None\<rparr>
      | Some msg \<Rightarrow> \<lparr>wsr_step_index = stepIndex, wsr_status = 2, wsr_result = sv_nil sv,
          wsr_error = Some \<lparr>pwe_code = ''STEP_FAILED'', pwe_message = msg, pwe_step_index = stepIndex, pwe_agent_id = agentID\<rparr>\<rparr>)"

definition publishStepResult :: "'b services \<Rightarrow> 'b Agent \<Rightarrow> string \<Rightarrow> 32 word \<Rightarrow> 'b \<Rightarrow> string option \<Rightarrow> 'b world \<Rightarrow> 'b world" where
  "publishStepResult sv a workflowID stepIndex result handlerErr w =
     (case sv_marshal sv (MWorkflowStepResult (stepResultPayload sv (ag_id a) stepIndex result handlerErr)) of
        None \<Rightarrow> w
      | Some data \<Rightarrow> snd (publishOwn sv a (''workflow.'' @ workflowID @ ''.workflow.step.result'') workflowID data w))"

definition sdk_dispatchStep :: "'b services \<Rightarrow> 'b event \<Rightarrow> 'b Agent \<Rightarrow> 'b Agent" where
  "sdk_dispatchStep sv event a =
     (let (dup, c) = Has (ev_ID event) (ag_cache a);
          a1 = a\<lparr>ag_cache := c\<rparr>
      in if dup then a1
         else
           (case sv_dec_step sv (ev_Payload event) of
              None \<Rightarrow> a1
            | Some payload \<Rightarrow>
                (let capName = (case wsp_step payload of Some st \<Rightarrow> psd_capability st | None \<Rightarrow> [])
                 in case map_of (ag_capabilities a1) capName of
                      None \<Rightarrow> a1
                    | Some entry \<Rightarrow>
                        if AgentStateStopping \<le> ag_state a1 then a1
                        else a1\<lparr>ag_inFlight := ag_inFlight a1 @ [\<lparr>tk_event = ev_ID event, tk_payload = payload,
                               tk_handler = snd entry\<rparr>]\<rparr>)))"

text \<open>The body of the \<open>i\<close>-th goroutine in flight; what it fails to publish it only logs.\<close>

definition run_step :: "'b services \<Rightarrow> nat \<Rightarrow> 'b Agent \<Rightarrow> 'b world \<Rightarrow> 'b Agent \<times> 'b world" where
  "run_step sv i a w =
     (if length (ag_inFlight a) \<le> i then (a, w)
      else
        (let t = ag_inFlight a ! i;
             payload = tk_payload t;
             (result, handlerErr) = safeInvoke sv (tk_handler t (ag_invocations a) (buildStepContext sv payload));
             w' = publishStepResult sv a (wsp_workflow_id payload) (wsp_step_index payload) result handlerErr w
         in (a\<lparr>ag_invocations := Suc (ag_invocations a), ag_cache := Add (tk_event t) (ag_cache a),
               ag_inFlight := take i (ag_inFlight a) @ drop (Suc i) (ag_inFlight a)\<rparr>, w')))"

section \<open>Start and stop\<close>

definition subscribe_bus :: "'b services \<Rightarrow> string \<Rightarrow> 'b Agent \<Rightarrow> 'b world \<Rightarrow> bool \<times> 'b Agent \<times> 'b world" where
  "subscribe_bus sv subject a w =
     (let w' = w\<lparr>w_attempts := Suc (w_attempts w)\<rparr>
      in if sv_subscribe sv (w_attempts w) subject then (True, a\<lparr>ag_subs := ag_subs a @ [subject]\<rparr>, w') else (False, a, w'))"

definition directSubject :: "string \<Rightarrow> string" where
  "directSubject agentID = ''agent.direct.'' @ agentID @ ''.>''"

text \<open>Giving up in \<open>Start\<close>: a bus the agent opened is closed, the state goes back.\<close>

definition abandon :: "'b Agent \<Rightarrow> 'b Agent" where
  "abandon a = a\<lparr>ag_bus := (if ag_ownsBus a then ClosedBus else ag_bus a), ag_state := AgentStateCreated\<rparr>"

definition sdk_Start :: "'b services \<Rightarrow> (string \<Rightarrow> bool) \<Rightarrow> 'b Agent \<Rightarrow> 'b world \<Rightarrow> agent_error option \<times> 'b Agent \<times> 'b world" where
  "sdk_Start sv connect a w =
     (if ag_state a \<noteq> AgentStateCreated then (Some AlreadyStarted, a, w)
      else if \<not> op_eventBus (ag_opts a) \<and> \<not> connect (op_natsURL (ag_opts a)) then (Some NotConnected, a\<lparr>ag_state := AgentStateCreated\<rparr>, w)
      else
        (let a1 = a\<lparr>ag_state := AgentStateStarting, ag_ownsBus := \<not> op_eventBus (ag_opts a), ag_bus := OpenBus\<rparr>
         in case register_agent sv a1 w of
              (Some err, w1) \<Rightarrow> (Some err, abandon a1, w1)
            | (None, w1) \<Rightarrow>
                (case subscribe_bus sv ''agent.health.ping'' a1 w1 of
                   (False, a2, w2) \<Rightarrow> (Some SubscribeHealth, abandon a2, w2)
                 | (True, a2, w2) \<Rightarrow>
                     (case subscribe_bus sv (directSubject (ag_id a2)) a2 w2 of
                        (False, a3, w3) \<Rightarrow> (Some SubscribeDirect, abandon a3, w3)
                      | (True, a3, w3) \<Rightarrow> (None, a3\<lparr>ag_state := AgentStateRunning\<rparr>, w3)))))"

text \<open>
  \<open>Stop\<close> blocks between cancelling the subscriptions and unregistering, until the wait group is
  empty or the timeout has passed, so it is two steps.
\<close>

definition beginStop :: "'b Agent \<Rightarrow> 'b Agent" where
  "beginStop a = (if ag_state a \<noteq> AgentStateRunning then a else a\<lparr>ag_state := AgentStateStopping, ag_subs := []\<rparr>)"

definition finishStop :: "'b services \<Rightarrow> 'b Agent \<Rightarrow> 'b world \<Rightarrow> 'b Agent \<times> 'b world" where
  "finishStop sv a w =
     (if ag_bus a = NoBus then (a\<lparr>ag_state := AgentStateStopped\<rparr>, w)
      else
        (let (_, w') = unregister_agent sv a w
         in (a\<lparr>ag_state := AgentStateStopped, ag_bus := (if ag_ownsBus a then ClosedBus else ag_bus a)\<rparr>, w')))"

section \<open>Runs of an agent\<close>

text \<open>
  What can happen to a started agent: an event arrives, a ping arrives, a goroutine finishes, \<open>Stop\<close> is
  called, and \<open>Stop\<close> goes on because all goroutines have finished or because the timeout has passed.
\<close>

inductive agent_step :: "'b services \<Rightarrow> 'b Agent \<times> 'b world \<Rightarrow> 'b Agent \<times> 'b world \<Rightarrow> bool" for sv where
  deliver: "agent_step sv (a, w) (sdk_dispatchStep sv event a, w)"
| ping: "agent_step sv (a, w) (a, handlePing sv a event w)"
| work: "i < length (ag_inFlight a) \<Longrightarrow> agent_step sv (a, w) (run_step sv i a w)"
| stop: "agent_step sv (a, w) (beginStop a, w)"
| drained: "ag_state a = AgentStateStopping \<Longrightarrow> ag_inFlight a = [] \<Longrightarrow> agent_step sv (a, w) (finishStop sv a w)"
| expired: "ag_state a = AgentStateStopping \<Longrightarrow> agent_step sv (a, w) (finishStop sv a w)"

lemma dispatch_result:
  "sdk_dispatchStep sv event a = a\<lparr>ag_cache := snd (Has (ev_ID event) (ag_cache a))\<rparr> \<or>
   (\<exists>t. sdk_dispatchStep sv event a = a\<lparr>ag_cache := snd (Has (ev_ID event) (ag_cache a)), ag_inFlight := ag_inFlight a @ [t]\<rparr> \<and>
     ag_state a < AgentStateStopping)"
  by (simp add: sdk_dispatchStep_def Let_def case_prod_unfold not_le split: option.split) blast

lemma run_step_counts:
  assumes "i < length (ag_inFlight a)"
  shows "ag_invocations (fst (run_step sv i a w)) = Suc (ag_invocations a)"
    and "length (ag_inFlight (fst (run_step sv i a w))) = length (ag_inFlight a) - 1"
    and "set (ag_inFlight (fst (run_step sv i a w))) \<subseteq> set (ag_inFlight a)"
    and "ag_state (fst (run_step sv i a w)) = ag_state a"
  using assms by (auto simp: run_step_def Let_def case_prod_unfold dest: in_set_takeD in_set_dropD)

lemma agent_step_stopping:
  assumes "agent_step sv s s'" and "AgentStateStopping \<le> ag_state (fst s)"
  shows "AgentStateStopping \<le> ag_state (fst s') \<and>
    ag_invocations (fst s') + length (ag_inFlight (fst s')) = ag_invocations (fst s) + length (ag_inFlight (fst s)) \<and>
    set (ag_inFlight (fst s')) \<subseteq> set (ag_inFlight (fst s))"
  using assms
proof (cases rule: agent_step.cases)
  case (deliver a w event)
  then show ?thesis using assms(2) using dispatch_result [of sv event a] by auto
next
  case (work i a w)
  then show ?thesis using assms(2) run_step_counts [OF work(3), of sv w] by simp
next
  case (stop a w)
  then show ?thesis using assms(2) by (auto simp: beginStop_def less_eq_AgentState_def)
qed (auto simp: finishStop_def unregister_agent_def case_prod_unfold Let_def less_eq_AgentState_def)

interpretation stopping_inv: step_invariant "agent_step sv" "\<lambda>s. AgentStateStopping \<le> ag_state (fst s) \<and>
    ag_invocations (fst s) + length (ag_inFlight (fst s)) = n \<and> set (ag_inFlight (fst s)) \<subseteq> T" for sv n T
  by unfold_locales (use agent_step_stopping in fastforce)

text \<open>
  C29. Shutdown is graceful: once \<open>Stop\<close> has begun no further step is started, whatever arrives; the
  steps that were in flight are each run once, no other, and after as many runs of a goroutine as
  there were steps in flight none is left, so that \<open>Stop\<close> need not run into its timeout.
\<close>

theorem shutdown_drains:
  assumes "ag_state a = AgentStateRunning" and "(agent_step sv)\<^sup>*\<^sup>* (beginStop a, w) (a', w')"
  shows "ag_invocations a' + length (ag_inFlight a') = ag_invocations a + length (ag_inFlight a) \<and>
    set (ag_inFlight a') \<subseteq> set (ag_inFlight a) \<and>
    ag_inFlight (fst (((\<lambda>(b, v). run_step sv 0 b v) ^^ length (ag_inFlight a')) (a', w'))) = []"
proof -
  let ?n = "ag_invocations a + length (ag_inFlight a)"
  have b: "ag_inFlight (beginStop a) = ag_inFlight a" "ag_invocations (beginStop a) = ag_invocations a"
    "AgentStateStopping \<le> ag_state (beginStop a)" using assms(1) by (simp_all add: beginStop_def less_eq_AgentState_def)
  have c: "ag_invocations a' + length (ag_inFlight a') = ?n" "set (ag_inFlight a') \<subseteq> set (ag_inFlight a)"
    using stopping_inv.run_keeps [OF assms(2), of ?n "set (ag_inFlight a)"] b by simp_all
  have "length (ag_inFlight b) = n \<Longrightarrow> ag_inFlight (fst (((\<lambda>(b, v). run_step sv 0 b v) ^^ n) (b, v))) = []" for n b v
  proof (induction n arbitrary: b v)
    case (Suc n)
    obtain b' v' where r: "run_step sv 0 b v = (b', v')" by fastforce
    have "length (ag_inFlight b') = n" using run_step_counts(2) [of 0 b sv v] Suc.prems r by simp
    then show ?case using Suc.IH r by (simp add: funpow_Suc_right del: funpow.simps)
  qed simp
  then show ?thesis using c by auto
qed

text \<open>A step handler that echoes its input, and an agent that has it for one capability.\<close>

definition ex_cap :: sdk_Capability where
  "ex_cap = \<lparr>sc_Name = ''c'', sc_Version = ''1'', sc_Description = [], sc_Parameters = Map.empty, sc_Category = [],
     sc_Action = [], sc_InputTypes = [], sc_OutputTypes = []\<rparr>"

definition ex_step :: "nat WorkflowStepPayload" where
  "ex_step = \<lparr>wsp_step_index = 0, wsp_step = Some \<lparr>psd_name = ''s'', psd_capability = ''c'', psd_timeout_seconds = 0,
     psd_input = 0, psd_human_approval = False, psd_prompt = [], psd_resource_ids = []\<rparr>, wsp_workflow_id = ''w'',
     wsp_previous_results = [], wsp_input = 7\<rparr>"

definition ex_sdk :: "nat services" where
  "ex_sdk = (null_services 0)\<lparr>sv_dec_step := \<lambda>_. Some ex_step\<rparr>"

definition ex_agent :: "nat Agent" where
  "ex_agent = (case NewWithID ''a'' ''n'' ''t'' ''1'' [] of Inr a \<Rightarrow> Handle ex_cap (\<lambda>_ ctx. Returned (sx_Input ctx) None)
     (a\<lparr>ag_state := AgentStateRunning, ag_bus := OpenBus\<rparr>))"

theorem shutdown_drains_witness:
  "ag_inFlight (fst (((\<lambda>(b, v). run_step ex_sdk 0 b v) ^^ 1)
     (beginStop (sdk_dispatchStep ex_sdk ((zero_event 0)\<lparr>ev_ID := ''x''\<rparr>) ex_agent), empty_world))) = []"
proof -
  let ?a = "sdk_dispatchStep ex_sdk ((zero_event 0)\<lparr>ev_ID := ''x''\<rparr>) ex_agent"
  have "ag_state ?a = AgentStateRunning" by code_simp
  moreover have "length (ag_inFlight (beginStop ?a)) = 1" by code_simp
  ultimately show ?thesis using shutdown_drains [of ?a ex_sdk empty_world "beginStop ?a" empty_world] by simp
qed

section \<open>Duplicates\<close>

text \<open>
  Duplicates are recognised only once the first delivery has been processed: the same event
  delivered again while its handler is still running is started a second time; both handlers run
  and each publishes a result for the step. Delivered after the handler has finished it is skipped.
\<close>

theorem duplicate_in_flight_runs_twice:
  assumes "cache_ok (ag_cache a)" and "0 < ic_maxSize (ag_cache a)" and "\<not> fst (Has (ev_ID event) (ag_cache a))"
    and "sv_dec_step sv (ev_Payload event) = Some payload" and "wsp_step payload = Some st"
    and "map_of (ag_capabilities a) (psd_capability st) = Some entry" and "ag_state a < AgentStateStopping"
    and "ag_inFlight a = []" and "\<forall>p. \<exists>d. sv_marshal sv (MWorkflowStepResult p) = Some d" and "\<forall>i e. sv_bus sv i e"
  defines "a2 \<equiv> sdk_dispatchStep sv event (sdk_dispatchStep sv event a)"
  shows "length (ag_inFlight a2) = 2 \<and>
    (case run_step sv 0 a2 w of (a3, w3) \<Rightarrow> case run_step sv 0 a3 w3 of (a4, w4) \<Rightarrow>
       ag_invocations a4 = ag_invocations a + 2 \<and>
       (\<exists>x y. w_sent w4 = w_sent w @ [x, y] \<and> ev_Type x = ''workflow.'' @ wsp_workflow_id payload @ ''.workflow.step.result'' \<and>
          ev_Type y = ev_Type x) \<and>
       ag_inFlight (sdk_dispatchStep sv event a4) = [])"
proof -
  let ?x = "ev_ID event" and ?t = "\<lparr>tk_event = ev_ID event, tk_payload = payload, tk_handler = snd entry\<rparr>"
  have miss: "Has ?x (ag_cache a) = (False, ag_cache a)" using assms(3) by (auto simp: Has_def split: option.splits)
  have start: "sdk_dispatchStep sv event b = b\<lparr>ag_inFlight := ag_inFlight b @ [?t]\<rparr>"
    if "ag_cache b = ag_cache a" "ag_capabilities b = ag_capabilities a" "ag_state b = ag_state a" for b
    using that assms(4-7) miss by (simp add: sdk_dispatchStep_def not_le [symmetric])
  have a2: "a2 = a\<lparr>ag_inFlight := [?t, ?t]\<rparr>" using start [of a] start [of "a\<lparr>ag_inFlight := [?t]\<rparr>"] assms(8) by (simp add: a2_def)
  have pub: "\<exists>x. w_sent (publishStepResult sv b wid i r err v) = w_sent v @ [x] \<and> ev_Type x = ''workflow.'' @ wid @ ''.workflow.step.result''"
    for b :: "'a Agent" and wid i r err v
  proof -
    obtain d where "sv_marshal sv (MWorkflowStepResult (stepResultPayload sv (ag_id b) i r err)) = Some d" using assms(9) by blast
    then show ?thesis using assms(10) by (simp add: publishStepResult_def publishOwn_def bus_publish_def case_prod_unfold Let_def)
  qed
  have run: "\<exists>w'. run_step sv 0 b v = (b\<lparr>ag_invocations := Suc (ag_invocations b), ag_cache := Add ?x (ag_cache b), ag_inFlight := ts\<rparr>, w') \<and>
      (\<exists>x. w_sent w' = w_sent v @ [x] \<and> ev_Type x = ''workflow.'' @ wsp_workflow_id payload @ ''.workflow.step.result'')"
    if "ag_inFlight b = ?t # ts" for b v ts
    using that pub by (simp add: run_step_def case_prod_unfold Let_def)
  obtain w3 x where r3: "run_step sv 0 a2 w = (a2\<lparr>ag_invocations := Suc (ag_invocations a2), ag_cache := Add ?x (ag_cache a), ag_inFlight := [?t]\<rparr>, w3)"
    "w_sent w3 = w_sent w @ [x]" "ev_Type x = ''workflow.'' @ wsp_workflow_id payload @ ''.workflow.step.result''"
    using run [of a2 "[?t]" w] a2 by auto
  obtain w4 y where r4: "run_step sv 0 (a2\<lparr>ag_invocations := Suc (ag_invocations a2), ag_cache := Add ?x (ag_cache a), ag_inFlight := [?t]\<rparr>) w3 =
      (a\<lparr>ag_invocations := ag_invocations a + 2, ag_cache := Add ?x (Add ?x (ag_cache a)), ag_inFlight := []\<rparr>, w4)"
    "w_sent w4 = w_sent w3 @ [y]" "ev_Type y = ''workflow.'' @ wsp_workflow_id payload @ ''.workflow.step.result''"
    using run [of "a2\<lparr>ag_invocations := Suc (ag_invocations a2), ag_cache := Add ?x (ag_cache a), ag_inFlight := [?t]\<rparr>" "[]" w3] a2 by auto
  have "fst (Has ?x (Add ?x (Add ?x (ag_cache a))))"
    by (simp add: Has_def Add_def Let_def split: option.split)
  then show ?thesis using r3 r4 a2 by (simp add: sdk_dispatchStep_def case_prod_unfold)
qed

theorem duplicate_in_flight_runs_twice_witness:
  "length (ag_inFlight (sdk_dispatchStep ex_sdk ((zero_event 0)\<lparr>ev_ID := ''x''\<rparr>)
     (sdk_dispatchStep ex_sdk ((zero_event 0)\<lparr>ev_ID := ''x''\<rparr>) ex_agent))) = 2"
proof -
  let ?e = "(zero_event (0::nat))\<lparr>ev_ID := ''x''\<rparr>"
  have a: "ex_agent = \<lparr>ag_id = ''a'', ag_name = ''n'', ag_agentType = ''t'', ag_version = ''1'', ag_opts = defaultOptions,
      ag_state = AgentStateRunning, ag_capabilities = [(''c'', ex_cap, \<lambda>_ ctx. Returned (sx_Input ctx) None)], ag_bus = OpenBus,
      ag_ownsBus = False, ag_subs = [], ag_inFlight = [], ag_invocations = 0, ag_cache = newIdempotencyCache 10000\<rparr>"
    by (simp add: ex_agent_def NewWithID_def Handle_def ex_cap_def defaultOptions_def Let_def)
  have h: "cache_ok (ag_cache ex_agent)" "0 < ic_maxSize (ag_cache ex_agent)" "\<not> fst (Has (ev_ID ?e) (ag_cache ex_agent))"
    "ag_state ex_agent < AgentStateStopping" "ag_inFlight ex_agent = []"
    using newIdempotencyCache_ok(1) [of 10000] by (simp_all add: a Has_def less_AgentState_def newIdempotencyCache_def)
  have d: "sv_dec_step ex_sdk (ev_Payload ?e) = Some ex_step" by (simp add: ex_sdk_def)
  obtain st where st: "wsp_step ex_step = Some st" "psd_capability st = ''c''" by (simp add: ex_step_def)
  have c: "map_of (ag_capabilities ex_agent) (psd_capability st) = Some (ex_cap, \<lambda>_ ctx. Returned (sx_Input ctx) None)"
    using st(2) by (simp add: a)
  have s: "\<forall>p. \<exists>d. sv_marshal ex_sdk (MWorkflowStepResult p) = Some d" "\<forall>i e. sv_bus ex_sdk i e" by (simp_all add: ex_sdk_def null_services_def)
  from duplicate_in_flight_runs_twice [OF h(1-3) d st(1) c h(4,5) s] show ?thesis by blast
qed

section \<open>A failed start\<close>

text \<open>
  A start that fails on a subscription leaves the agent announced: the registration has been
  published and is not withdrawn, the agent is back in its initial state and \<open>Stop\<close> does nothing, so
  the runtime keeps routing steps to an agent that does not listen.
\<close>

lemma failed_start_stays_registered:
  assumes "sdk_Start sv connect a w = (Some err, a', w')" and "err = SubscribeHealth \<or> err = SubscribeDirect"
  shows "ag_state a' = AgentStateCreated \<and> beginStop a' = a' \<and>
    (\<exists>e. w_sent w' = w_sent w @ [e] \<and> ev_Type e = ''agent.register'' \<and> ev_SourceAgent e = ag_id a)"
proof -
  have sub: "w_sent (snd (snd (subscribe_bus sv subj b v))) = w_sent v" for subj b v
    by (simp add: subscribe_bus_def Let_def)
  define a1 where "a1 = a\<lparr>ag_state := AgentStateStarting, ag_ownsBus := \<not> op_eventBus (ag_opts a), ag_bus := OpenBus\<rparr>"
  obtain res w1 where r: "register_agent sv a1 w = (res, w1)" by fastforce
  obtain ok2 a2 w2 where s2: "subscribe_bus sv ''agent.health.ping'' a1 w1 = (ok2, a2, w2)" by (metis prod_cases3)
  obtain ok3 a3 w3 where s3: "subscribe_bus sv (directSubject (ag_id a2)) a2 w2 = (ok3, a3, w3)" by (metis prod_cases3)
  have "res = None \<and> (a' = abandon a2 \<and> w' = w2 \<or> a' = abandon a3 \<and> w' = w3)"
    using assms r s2 s3 by (auto simp: sdk_Start_def a1_def [symmetric] Let_def register_agent_def case_prod_unfold split: if_splits option.splits bool.splits sum.splits)
  moreover have "w_sent w2 = w_sent w1" "w_sent w3 = w_sent w1" using sub [of _ a1 w1] sub [of _ a2 w2] s2 s3 by (metis snd_conv)+
  moreover have "\<exists>e. w_sent w1 = w_sent w @ [e] \<and> ev_Type e = ''agent.register'' \<and> ev_SourceAgent e = ag_id a" if "res = None"
    using r that by (auto simp: register_agent_def publishOwn_def bus_publish_def a1_def new_uuid_def time_now_def Let_def split: sum.splits if_splits)
  ultimately show ?thesis by (auto simp: abandon_def beginStop_def)
qed

definition ex_deaf :: "nat services" where
  "ex_deaf = ex_sdk\<lparr>sv_subscribe := \<lambda>_ _. False\<rparr>"

lemma failed_start_stays_registered_witness:
  "\<exists>e. w_sent (snd (snd (sdk_Start ex_deaf (\<lambda>_. True) (ex_agent\<lparr>ag_state := AgentStateCreated\<rparr>) empty_world))) = [e] \<and> ev_Type e = ''agent.register''"
proof -
  let ?s = "sdk_Start ex_deaf (\<lambda>_. True) (ex_agent\<lparr>ag_state := AgentStateCreated\<rparr>) empty_world"
  have "fst ?s = Some SubscribeHealth"
    by (simp add: sdk_Start_def ex_agent_def NewWithID_def Handle_def ex_deaf_def ex_sdk_def null_services_def register_agent_def marshalPayload_def
        validatePayload_def payloadTypeNames_def payloadKey_def publishOwn_def bus_publish_def new_uuid_def time_now_def subscribe_bus_def empty_world_def Let_def)
  then have "?s = (Some SubscribeHealth, fst (snd ?s), snd (snd ?s))" by (metis prod.collapse)
  from failed_start_stays_registered [OF this] show ?thesis by (auto simp: empty_world_def)
qed

section \<open>The reply to a step\<close>

lemma agent_reply:
  assumes "\<not> fst (Has (ev_ID event) (ag_cache b))" and "sv_dec_step sv (ev_Payload event) = Some payload" and "wsp_step payload = Some st"
    and "map_of (ag_capabilities b) (psd_capability st) = Some (cap, h)" and "ag_state b < AgentStateStopping" and "ag_inFlight b = []"
    and "h (ag_invocations b) (buildStepContext sv payload) = Returned r None"
    and "run_step sv 0 (sdk_dispatchStep sv event b) w = (b', w')" and "w_sent w' = w_sent w @ [z]"
  shows "sv_marshal sv (MWorkflowStepResult \<lparr>wsr_step_index = wsp_step_index payload, wsr_status = 1, wsr_result = r, wsr_error = None\<rparr>) = Some (ev_Payload z)"
    and "ev_Type z = ''workflow.'' @ wsp_workflow_id payload @ ''.workflow.step.result''" and "ev_WorkflowID z = wsp_workflow_id payload"
    and "ev_SourceAgent z = ag_id b"
proof -
  let ?t = "\<lparr>tk_event = ev_ID event, tk_payload = payload, tk_handler = h\<rparr>"
  have "sdk_dispatchStep sv event b = b\<lparr>ag_cache := snd (Has (ev_ID event) (ag_cache b)), ag_inFlight := [?t]\<rparr>"
    using assms(1-6) by (simp add: sdk_dispatchStep_def case_prod_unfold not_le [symmetric])
  then have "w' = publishStepResult sv (b\<lparr>ag_cache := snd (Has (ev_ID event) (ag_cache b)), ag_inFlight := [?t]\<rparr>)
      (wsp_workflow_id payload) (wsp_step_index payload) r None w"
    using assms(7,8) by (simp add: run_step_def safeInvoke_def)
  then have "\<exists>data uid ts. sv_marshal sv (MWorkflowStepResult \<lparr>wsr_step_index = wsp_step_index payload, wsr_status = 1, wsr_result = r, wsr_error = None\<rparr>) = Some data \<and>
      z = (zero_event data)\<lparr>ev_ID := uid, ev_Type := ''workflow.'' @ wsp_workflow_id payload @ ''.workflow.step.result'',
        ev_SourceAgent := ag_id b, ev_WorkflowID := wsp_workflow_id payload, ev_Timestamp := ts\<rparr>"
    using assms(9) by (auto simp: publishStepResult_def stepResultPayload_def publishOwn_def bus_publish_def new_uuid_def time_now_def Let_def
        split: option.splits if_splits)
  then show "sv_marshal sv (MWorkflowStepResult \<lparr>wsr_step_index = wsp_step_index payload, wsr_status = 1, wsr_result = r, wsr_error = None\<rparr>) = Some (ev_Payload z)"
    and "ev_Type z = ''workflow.'' @ wsp_workflow_id payload @ ''.workflow.step.result''" and "ev_WorkflowID z = wsp_workflow_id payload"
    and "ev_SourceAgent z = ag_id b" by (auto simp: zero_event_def)
qed

end
