(* ===== verification/A2A.thy ===== *)
theory A2A
  imports WorkflowProps
begin

text \<open>
  The bridge to the agent-to-agent protocol (\<open>a2a\<close>): tasks that become workflows or are passed on
  to external agents, the JSON-RPC front, the agent card, and the onboarding and health polling of
  external agents. HTTP, JSON and protobuf encodings are parameters (\<open>a2a_env\<close>); a message is the
  byte string it is encoded to. The properties are in \<open>A2AProps\<close>.
\<close>

section \<open>Types\<close>

datatype TaskState = TaskStateSubmitted | TaskStateWorking | TaskStateCompleted | TaskStateFailed | TaskStateCanceled | TaskStateInputRequired | TaskStateOther string

record TaskStatus =
  tu_State :: TaskState
  tu_UpdatedAt :: string

text \<open>Text is kept as its bytes, and so is the content of structured data beside its type.\<close>

record 'b Part =
  pt_Text :: 'b
  pt_Data :: "(string \<times> 'b) option"

record 'b Message =
  ms_MessageID :: string
  ms_Role :: string
  ms_Parts :: "'b Part list"

record 'b Artifact =
  af_ArtifactID :: string
  af_Parts :: "'b Part list"

record 'b Task =
  tk_ID :: string
  tk_Status :: TaskStatus
  tk_Artifacts :: "'b Artifact list"

record SendTaskConfig =
  tc_AcceptedOutputModes :: "string list"
  tc_Skill :: string

record 'b SendMessageParams =
  sm_Message :: "'b Message"
  sm_Configuration :: SendTaskConfig

record AgentSkill =
  sk_ID :: string
  sk_Name :: string
  sk_Description :: string
  sk_Tags :: "string list"
  sk_InputModes :: "string list"
  sk_OutputModes :: "string list"

record SupportedInterface =
  si_URL :: string
  si_ProtocolBinding :: string
  si_ProtocolVersion :: string

record AgentCapabilities =
  ac_Streaming :: bool
  ac_PushNotifications :: bool
  ac_ExtendedAgentCard :: bool

record AgentCard =
  ca_Name :: string
  ca_Description :: string
  ca_Version :: string
  ca_SupportedInterfaces :: "SupportedInterface list"
  ca_Capabilities :: AgentCapabilities
  ca_DefaultInputModes :: "string list"
  ca_DefaultOutputModes :: "string list"
  ca_Skills :: "AgentSkill list"

definition ErrCodeTaskNotFound :: int where "ErrCodeTaskNotFound = - 32001"
definition ErrCodeTaskNotCancelable :: int where "ErrCodeTaskNotCancelable = - 32002"
definition ErrCodeSkillNotFound :: int where "ErrCodeSkillNotFound = - 32005"
definition ErrCodeParseError :: int where "ErrCodeParseError = - 32700"
definition ErrCodeInvalidRequest :: int where "ErrCodeInvalidRequest = - 32600"
definition ErrCodeMethodNotFound :: int where "ErrCodeMethodNotFound = - 32601"
definition ErrCodeInvalidParams :: int where "ErrCodeInvalidParams = - 32602"
definition ErrCodeInternal :: int where "ErrCodeInternal = - 32603"

text \<open>An \<open>A2AError\<close> has a code of its own; every other error is reported as internal.\<close>

datatype internal_error = CapabilityLookup reg_error | MessageMarshal | StartMarshal | OutboundMarshal | StartPublish | PostFailed string | ReplyUndecoded | ReplyNoTask | EmptyTaskID
  | PollCancelled | PollTimeout | RemoteError int string | StateUpdate wf_error

datatype task_error = A2AError int string | Internal internal_error

text \<open>A request to an external agent, and its answer as far as it can be decoded.\<close>

datatype 'b outbound = OutSend string "'b SendMessageParams" | OutGet string string

datatype 'b reply = ReplyInvalid | ReplyError int string | ReplyTask "'b Task" | ReplyOther

record 'b a2a_env =
  a2_services :: "'b services"
  a2_message :: "'b Message \<Rightarrow> 'b option"
  a2_start :: "'b pb_WorkflowDefinition \<Rightarrow> 'b option"
  a2_post :: "nat \<Rightarrow> string \<Rightarrow> 'b outbound \<Rightarrow> string + 'b reply"
  a2_rfc3339 :: "int \<Rightarrow> string"
  a2_text :: "internal_error \<Rightarrow> string"

definition NewTaskStatus :: "'b a2a_env \<Rightarrow> TaskState \<Rightarrow> ('s, 'b) node \<Rightarrow> TaskStatus \<times> ('s, 'b) node" where
  "NewTaskStatus env state n = (let (ts, n1) = now (a2_services env) n in (\<lparr>tu_State = state, tu_UpdatedAt = a2_rfc3339 env ts\<rparr>, n1))"

section \<open>Tasks\<close>

definition task_definition :: "string \<Rightarrow> 'b \<Rightarrow> 'b pb_WorkflowDefinition" where
  "task_definition skill input = \<lparr>pwd_name = ''a2a-task-'' @ skill,
     pwd_steps = [\<lparr>psd_name = skill, psd_capability = skill, psd_timeout_seconds = 0, psd_input = input,
       psd_human_approval = False, psd_prompt = [], psd_resource_ids = []\<rparr>], pwd_initiator = ''a2a-gateway''\<rparr>"

definition node_bus :: "'b services \<Rightarrow> 'b event \<Rightarrow> ('s, 'b) node \<Rightarrow> bool \<times> ('s, 'b) node" where
  "node_bus sv event n = (let (ok, w) = bus_publish sv event (en_world (nd_env n)) in (ok, n\<lparr>nd_env := (nd_env n)\<lparr>en_world := w\<rparr>\<rparr>))"

definition createBaranWorkflow :: "'b a2a_env \<Rightarrow> string \<Rightarrow> 'b SendMessageParams \<Rightarrow> ('s, 'b) node \<Rightarrow> (task_error + 'b Task) \<times> ('s, 'b) node" where
  "createBaranWorkflow env skill params n =
     (case Option.bind (a2_message env (sm_Message params)) (\<lambda>input. a2_start env (task_definition skill input)) of
        None \<Rightarrow> (Inl (Internal (if a2_message env (sm_Message params) = None then MessageMarshal else StartMarshal)), n)
      | Some data \<Rightarrow>
          (let (workflowID, n1) = uuid (a2_services env) n; (eventID, n2) = uuid (a2_services env) n1; (ts, n3) = now (a2_services env) n2;
               (ok, n4) = node_bus (a2_services env) ((zero_event data)\<lparr>ev_ID := eventID, ev_Type := ''workflow.start'', ev_Timestamp := ts,
                 ev_Metadata := [''a2a_task'' \<mapsto> ''true'', ''workflow_id'' \<mapsto> workflowID]\<rparr>) n3
           in if \<not> ok then (Inl (Internal StartPublish), n4)
              else (let (status, n5) = NewTaskStatus env TaskStateSubmitted n4
                    in (Inr \<lparr>tk_ID = workflowID, tk_Status = status, tk_Artifacts = []\<rparr>, n5))))"

fun firstEndpoint :: "Capability list \<Rightarrow> string" where
  "firstEndpoint [] = []"
| "firstEndpoint (c # caps) = (case cap_Parameters c ''a2a_endpoint'' of Some (x # xs) \<Rightarrow> x # xs | _ \<Rightarrow> firstEndpoint caps)"

definition a2aEndpointFromAgent :: "AgentRegistration \<Rightarrow> string \<Rightarrow> string" where
  "a2aEndpointFromAgent agent skill =
     (case find (\<lambda>c. cap_Name c = skill) (reg_Capabilities agent) of
        Some c \<Rightarrow> (case cap_Parameters c ''a2a_endpoint'' of Some ep \<Rightarrow> ep | None \<Rightarrow> [])
      | None \<Rightarrow> firstEndpoint (reg_Capabilities agent))"

text \<open>A POST to an external agent; the number of calls made so far makes the answers independent.\<close>

definition post :: "'b a2a_env \<Rightarrow> string \<Rightarrow> 'b outbound \<Rightarrow> ('s, 'b) node \<Rightarrow> (string + 'b reply) \<times> ('s, 'b) node" where
  "post env url req n =
     (let w = en_world (nd_env n)
      in (a2_post env (w_attempts w) url req, n\<lparr>nd_env := (nd_env n)\<lparr>en_world := w\<lparr>w_attempts := Suc (w_attempts w)\<rparr>\<rparr>\<rparr>))"

definition TrimRightSlash :: "string \<Rightarrow> string" where
  "TrimRightSlash s = List.rev (dropWhile (\<lambda>c. c = CHR ''/'') (List.rev s))"

definition getRemoteTask :: "'b a2a_env \<Rightarrow> string \<Rightarrow> string \<Rightarrow> ('s, 'b) node \<Rightarrow> (internal_error + 'b Task) \<times> ('s, 'b) node" where
  "getRemoteTask env baseURL taskID n =
     (let (reqID, n1) = uuid (a2_services env) n in
      case post env (baseURL @ ''/'') (OutGet reqID taskID) n1 of
        (Inl err, n2) \<Rightarrow> (Inl (PostFailed err), n2)
      | (Inr ReplyInvalid, n2) \<Rightarrow> (Inl ReplyUndecoded, n2)
      | (Inr (ReplyError code message), n2) \<Rightarrow> (Inl (RemoteError code message), n2)
      | (Inr ReplyOther, n2) \<Rightarrow> (Inl ReplyNoTask, n2)
      | (Inr (ReplyTask task), n2) \<Rightarrow> (Inr task, n2))"

text \<open>
  What wakes the polling loop: the end of its context, or its ticker, with whether the deadline has
  passed by then. The deadline passes after the ticks listed.
\<close>

datatype poll = PollDone | PollTick bool

fun pollUntilTerminal :: "'b a2a_env \<Rightarrow> string \<Rightarrow> string \<Rightarrow> poll list \<Rightarrow> ('s, 'b) node \<Rightarrow> (internal_error + 'b Task) \<times> ('s, 'b) node" where
  "pollUntilTerminal env baseURL taskID [] n = (Inl PollTimeout, n)"
| "pollUntilTerminal env baseURL taskID (PollDone # polls) n = (Inl PollCancelled, n)"
| "pollUntilTerminal env baseURL taskID (PollTick expired # polls) n =
     (if expired then (Inl PollTimeout, n)
      else case getRemoteTask env baseURL taskID n of
             (Inl _, n1) \<Rightarrow> pollUntilTerminal env baseURL taskID polls n1
           | (Inr task, n1) \<Rightarrow>
               if tu_State (tk_Status task) \<in> {TaskStateCompleted, TaskStateFailed, TaskStateCanceled} then (Inr task, n1)
               else pollUntilTerminal env baseURL taskID polls n1)"

definition dispatchToVirtualAgent :: "'b a2a_env \<Rightarrow> AgentRegistration \<Rightarrow> string \<Rightarrow> 'b SendMessageParams \<Rightarrow> poll list \<Rightarrow> ('s, 'b) node \<Rightarrow>
    (task_error + 'b Task) \<times> ('s, 'b) node" where
  "dispatchToVirtualAgent env agent skill params polls n =
     (let endpoint = a2aEndpointFromAgent agent skill in
      if endpoint = [] then (Inl (A2AError ErrCodeInvalidParams (''a2a_endpoint not set on virtual agent '' @ reg_AgentID agent)), n)
      else
        (let (reqID, n1) = uuid (a2_services env) n; baseURL = TrimRightSlash endpoint in
         if a2_message env (sm_Message params) = None then (Inl (Internal OutboundMarshal), n1)
         else case post env (baseURL @ ''/'') (OutSend reqID params) n1 of
           (Inl err, n2) \<Rightarrow> (Inl (Internal (PostFailed err)), n2)
         | (Inr ReplyInvalid, n2) \<Rightarrow> (Inl (Internal ReplyUndecoded), n2)
         | (Inr (ReplyError code message), n2) \<Rightarrow> (Inl (A2AError code message), n2)
         | (Inr ReplyOther, n2) \<Rightarrow> (Inl (Internal ReplyNoTask), n2)
         | (Inr (ReplyTask remoteTask), n2) \<Rightarrow>
             if tk_ID remoteTask = [] then (Inl (Internal EmptyTaskID), n2)
             else (case pollUntilTerminal env baseURL (tk_ID remoteTask) polls n2 of
                     (Inr task, n3) \<Rightarrow> (Inr task, n3)
                   | (Inl _, n3) \<Rightarrow>
                       (let (status, n4) = NewTaskStatus env TaskStateSubmitted n3
                        in (Inr \<lparr>tk_ID = tk_ID remoteTask, tk_Status = status, tk_Artifacts = []\<rparr>, n4)))))"

definition CreateTask :: "'b a2a_env \<Rightarrow> registry_if \<Rightarrow> 'b SendMessageParams \<Rightarrow> poll list \<Rightarrow> ('s, 'b) node \<Rightarrow> (task_error + 'b Task) \<times> ('s, 'b) node" where
  "CreateTask env reg params polls n =
     (let skill = tc_Skill (sm_Configuration params) in
      if skill = [] then (Inl (A2AError ErrCodeInvalidParams ''missing skill in configuration''), n)
      else case ri_find reg skill [] of
             Inl err \<Rightarrow> (Inl (Internal (CapabilityLookup err)), n)
           | Inr [] \<Rightarrow> (Inl (A2AError ErrCodeSkillNotFound (''no agent found for skill '' @ sv_quote (a2_services env) skill)), n)
           | Inr (agent # _) \<Rightarrow>
               if reg_Origin agent = ''a2a'' then dispatchToVirtualAgent env agent skill params polls n
               else createBaranWorkflow env skill params n)"

fun taskState_of :: "WorkflowStatus \<Rightarrow> TaskState" where
  "taskState_of StatusCreated = TaskStateSubmitted"
| "taskState_of StatusRunning = TaskStateWorking"
| "taskState_of StatusCompleted = TaskStateCompleted"
| "taskState_of WorkflowStatus.StatusFailed = TaskStateFailed"
| "taskState_of StatusWaitingHuman = TaskStateInputRequired"
| "taskState_of StatusUnspecified = TaskStateSubmitted"

definition workflowStatusToTaskStatus :: "'b a2a_env \<Rightarrow> 'b WorkflowState \<Rightarrow> TaskStatus" where
  "workflowStatusToTaskStatus env state = \<lparr>tu_State = taskState_of (ws_Status state), tu_UpdatedAt = a2_rfc3339 env (ws_UpdatedAt state)\<rparr>"

definition taskNotFound :: "'b a2a_env \<Rightarrow> string \<Rightarrow> task_error" where
  "taskNotFound env taskID = A2AError ErrCodeTaskNotFound (''task '' @ sv_quote (a2_services env) taskID @ '' not found'')"

definition GetTask :: "'b a2a_env \<Rightarrow> ('s, 'b) wf_kv \<Rightarrow> string \<Rightarrow> ('s, 'b) node \<Rightarrow> task_error + 'b Task" where
  "GetTask env kv taskID n =
     (case store_Get kv taskID (nd_store n) of
        Inl _ \<Rightarrow> Inl (taskNotFound env taskID)
      | Inr (state, _) \<Rightarrow>
          Inr \<lparr>tk_ID = taskID, tk_Status = workflowStatusToTaskStatus env state,
               tk_Artifacts = (if ws_Status state = StatusCompleted \<and> ws_StepResults state \<noteq> [] \<and>
                   rs_Result (last (ws_StepResults state)) \<noteq> sv_nil (a2_services env)
                 then [\<lparr>af_ArtifactID = ''result-0'', af_Parts = [\<lparr>pt_Text = rs_Result (last (ws_StepResults state)), pt_Data = None\<rparr>]\<rparr>] else [])\<rparr>)"

definition CancelTask :: "'b a2a_env \<Rightarrow> ('s, 'b) wf_kv \<Rightarrow> string \<Rightarrow> ('s, 'b) node \<Rightarrow> (task_error + 'b Task) \<times> ('s, 'b) node" where
  "CancelTask env kv taskID n =
     (case store_Get kv taskID (nd_store n) of
        Inl _ \<Rightarrow> (Inl (taskNotFound env taskID), n)
      | Inr (state, revision) \<Rightarrow>
          if ws_Status state = StatusCompleted \<or> ws_Status state = StatusFailed
          then (Inl (A2AError ErrCodeTaskNotCancelable ''task already in terminal state''), n)
          else
            (let (ts, n1) = now (a2_services env) n in
             case node_Update kv taskID (state\<lparr>ws_Status := StatusFailed, ws_UpdatedAt := ts\<rparr>) revision n1 of
               (Some err, n2) \<Rightarrow> (Inl (Internal (StateUpdate err)), n2)
             | (None, n2) \<Rightarrow>
                 (let (status, n3) = NewTaskStatus env TaskStateCanceled n2
                  in (Inr \<lparr>tk_ID = taskID, tk_Status = status, tk_Artifacts = []\<rparr>, n3))))"

section \<open>JSON-RPC\<close>

text \<open>
  A request after decoding, with the identifier its response repeats; the decoding of the
  parameters is a parameter. A response that answers no request has no identifier.
\<close>

record ('i, 'p) JSONRPCRequest =
  jr_JSONRPC :: string
  jr_Method :: string
  jr_ID :: 'i
  jr_Params :: 'p

datatype ('i, 'p) body = BodyUnreadable | BodyInvalid | Body "('i, 'p) JSONRPCRequest"

datatype 'b rpc_answer = RpcResult "'b Task" | RpcError int string

record ('i, 'b) JSONRPCResponse =
  jp_ID :: "'i option"
  jp_Answer :: "'b rpc_answer"

record ('p, 'b) decoders =
  de_send :: "'p \<Rightarrow> string + 'b SendMessageParams"
  de_query :: "'p \<Rightarrow> string + string"

definition writeJSONRPC :: "'i option \<Rightarrow> 'b rpc_answer \<Rightarrow> ('i, 'b) JSONRPCResponse" where
  "writeJSONRPC i answer = \<lparr>jp_ID = i, jp_Answer = answer\<rparr>"

definition writeJSONRPCFromError :: "'b a2a_env \<Rightarrow> 'i option \<Rightarrow> task_error \<Rightarrow> ('i, 'b) JSONRPCResponse" where
  "writeJSONRPCFromError env i err =
     writeJSONRPC i (case err of A2AError code message \<Rightarrow> RpcError code message | Internal e \<Rightarrow> RpcError ErrCodeInternal (a2_text env e))"

definition respond_with :: "'b a2a_env \<Rightarrow> 'i \<Rightarrow> task_error + 'b Task \<Rightarrow> ('i, 'b) JSONRPCResponse" where
  "respond_with env i res = (case res of Inl err \<Rightarrow> writeJSONRPCFromError env (Some i) err | Inr task \<Rightarrow> writeJSONRPC (Some i) (RpcResult task))"

definition handleMessageSend :: "'b a2a_env \<Rightarrow> ('p, 'b) decoders \<Rightarrow> registry_if \<Rightarrow> ('i, 'p) JSONRPCRequest \<Rightarrow> poll list \<Rightarrow> ('s, 'b) node \<Rightarrow>
    ('i, 'b) JSONRPCResponse \<times> ('s, 'b) node" where
  "handleMessageSend env de reg req polls n =
     (case de_send de (jr_Params req) of
        Inl err \<Rightarrow> (writeJSONRPC (Some (jr_ID req)) (RpcError ErrCodeInvalidParams err), n)
      | Inr params \<Rightarrow> (let (res, n1) = CreateTask env reg params polls n in (respond_with env (jr_ID req) res, n1)))"

definition handleTasksGet :: "'b a2a_env \<Rightarrow> ('p, 'b) decoders \<Rightarrow> ('s, 'b) wf_kv \<Rightarrow> ('i, 'p) JSONRPCRequest \<Rightarrow> ('s, 'b) node \<Rightarrow>
    ('i, 'b) JSONRPCResponse \<times> ('s, 'b) node" where
  "handleTasksGet env de kv req n =
     (case de_query de (jr_Params req) of
        Inl err \<Rightarrow> (writeJSONRPC (Some (jr_ID req)) (RpcError ErrCodeInvalidParams err), n)
      | Inr taskID \<Rightarrow> (respond_with env (jr_ID req) (GetTask env kv taskID n), n))"

definition handleTasksCancel :: "'b a2a_env \<Rightarrow> ('p, 'b) decoders \<Rightarrow> ('s, 'b) wf_kv \<Rightarrow> ('i, 'p) JSONRPCRequest \<Rightarrow> ('s, 'b) node \<Rightarrow>
    ('i, 'b) JSONRPCResponse \<times> ('s, 'b) node" where
  "handleTasksCancel env de kv req n =
     (case de_query de (jr_Params req) of
        Inl err \<Rightarrow> (writeJSONRPC (Some (jr_ID req)) (RpcError ErrCodeInvalidParams err), n)
      | Inr taskID \<Rightarrow> (let (res, n1) = CancelTask env kv taskID n in (respond_with env (jr_ID req) res, n1)))"

definition HandleJSONRPC :: "'b a2a_env \<Rightarrow> ('p, 'b) decoders \<Rightarrow> registry_if \<Rightarrow> ('s, 'b) wf_kv \<Rightarrow> ('i, 'p) body \<Rightarrow> poll list \<Rightarrow> ('s, 'b) node \<Rightarrow>
    ('i, 'b) JSONRPCResponse \<times> ('s, 'b) node" where
  "HandleJSONRPC env de reg kv body polls n =
     (case body of
        BodyUnreadable \<Rightarrow> (writeJSONRPC None (RpcError ErrCodeParseError ''failed to read request body''), n)
      | BodyInvalid \<Rightarrow> (writeJSONRPC None (RpcError ErrCodeParseError ''invalid JSON''), n)
      | Body req \<Rightarrow>
          if jr_JSONRPC req \<noteq> ''2.0''
          then (writeJSONRPC (Some (jr_ID req)) (RpcError ErrCodeInvalidRequest (''jsonrpc must be '' @ [CHR 0x22] @ ''2.0'' @ [CHR 0x22])), n)
          else if jr_Method req = ''message/send'' then handleMessageSend env de reg req polls n
          else if jr_Method req = ''tasks/get'' then handleTasksGet env de kv req n
          else if jr_Method req = ''tasks/cancel'' then handleTasksCancel env de kv req n
          else (writeJSONRPC (Some (jr_ID req)) (RpcError ErrCodeMethodNotFound (''method not found: '' @ jr_Method req)), n))"

section \<open>The agent card\<close>

text \<open>Letter case, on ASCII; capability names have no other letters.\<close>

definition to_upper :: "char \<Rightarrow> char" where
  "to_upper c = (let k = of_char c :: nat in if 97 \<le> k \<and> k \<le> 122 then char_of (k - 32) else c)"

definition to_lower :: "char \<Rightarrow> char" where
  "to_lower c = (let k = of_char c :: nat in if 65 \<le> k \<and> k \<le> 90 then char_of (k + 32) else c)"

definition title :: "string \<Rightarrow> string" where
  "title p = (if length p \<le> 4 then map to_upper p else map to_upper (take 1 p) @ drop 1 p)"

fun Join :: "string list \<Rightarrow> string \<Rightarrow> string" where
  "Join [] s = []"
| "Join [p] s = p"
| "Join (p # ps) s = p @ s @ Join ps s"

definition humanReadableName :: "string \<Rightarrow> string" where
  "humanReadableName name = Join (map title (Split CHR ''.'' name)) '' ''"

definition buildTags :: "Capability \<Rightarrow> string list" where
  "buildTags c = (if cap_Category c \<noteq> [] then [cap_Category c] else []) @ (if cap_Name c \<noteq> [] then [cap_Name c] else [])"

definition CapabilityToSkill :: "Capability \<Rightarrow> AgentSkill" where
  "CapabilityToSkill c = \<lparr>sk_ID = cap_Name c, sk_Name = humanReadableName (cap_Name c), sk_Description = cap_Description c, sk_Tags = buildTags c,
     sk_InputModes = (if cap_InputTypes c = [] then [''text/plain'', ''application/json''] else cap_InputTypes c),
     sk_OutputModes = (if cap_OutputTypes c = [] then [''text/plain'', ''application/json''] else cap_OutputTypes c)\<rparr>"

fun dedupSkills :: "string list \<Rightarrow> AgentSkill list \<Rightarrow> AgentSkill list" where
  "dedupSkills seen [] = []"
| "dedupSkills seen (s # skills) = (if sk_ID s \<in> set seen then dedupSkills seen skills else s # dedupSkills (sk_ID s # seen) skills)"

definition deduplicateSkills :: "AgentSkill list \<Rightarrow> AgentSkill list" where
  "deduplicateSkills skills = dedupSkills [] skills"

text \<open>The order of the modes is that of a Go map; the list stands for any order.\<close>

definition GenerateAgentCard :: "AgentRegistration list \<Rightarrow> string \<Rightarrow> nat \<Rightarrow> AgentCard" where
  "GenerateAgentCard agents externalURL port =
     (let skills = map CapabilityToSkill (concat (map reg_Capabilities agents)) in
      \<lparr>ca_Name = ''Baran OS Node'', ca_Description = ''Baran OS agent network'', ca_Version = ''1.0.0'',
       ca_SupportedInterfaces = [\<lparr>si_URL = (if externalURL = [] then ''http://localhost:'' @ Itoa port else externalURL),
         si_ProtocolBinding = ''JSONRPC'', si_ProtocolVersion = ''1.0''\<rparr>],
       ca_Capabilities = \<lparr>ac_Streaming = False, ac_PushNotifications = False, ac_ExtendedAgentCard = False\<rparr>,
       ca_DefaultInputModes = remdups (concat (map sk_InputModes skills)),
       ca_DefaultOutputModes = remdups (concat (map sk_OutputModes skills)),
       ca_Skills = deduplicateSkills skills\<rparr>)"

definition HandleDiscovery :: "registry_if \<Rightarrow> nat \<Rightarrow> reg_error + AgentCard" where
  "HandleDiscovery reg port =
     (case ri_list reg of
        Inl err \<Rightarrow> Inl err
      | Inr agents \<Rightarrow> Inr (GenerateAgentCard (filter (\<lambda>a. reg_Status a = StatusActive) agents) [] port))"

section \<open>The server\<close>

text \<open>
  An HTTP request: the credentials are the \<open>Authorization\<close> header and the \<open>token\<close> of the query, empty
  when absent. The paths are clean, as the multiplexer redirects every other one; a \<open>GET\<close> pattern
  also serves \<open>HEAD\<close>, and \<open>POST /\<close> serves every path.
\<close>

record ('i, 'p) http_request =
  hr_Method :: string
  hr_Path :: string
  hr_Authorization :: string
  hr_Token :: string
  hr_Body :: "('i, 'p) body"

datatype ('i, 'b) http_response = HttpCard AgentCard | HttpRpc "('i, 'b) JSONRPCResponse" | HttpError nat string

definition extractToken :: "('i, 'p) http_request \<Rightarrow> string" where
  "extractToken r = (if take 7 (hr_Authorization r) = ''Bearer '' then drop 7 (hr_Authorization r) else hr_Token r)"

definition authMiddleware :: "string \<Rightarrow> (('i, 'p) http_request \<Rightarrow> 'n \<Rightarrow> ('i, 'b) JSONRPCResponse \<times> 'n) \<Rightarrow>
    ('i, 'p) http_request \<Rightarrow> 'n \<Rightarrow> ('i, 'b) JSONRPCResponse \<times> 'n" where
  "authMiddleware psk h =
     (if psk = [] then h
      else (\<lambda>r n. if extractToken r \<noteq> psk then (writeJSONRPC None (RpcError ErrCodeInvalidRequest ''unauthorized''), n) else h r n))"

definition serve :: "'b a2a_env \<Rightarrow> ('p, 'b) decoders \<Rightarrow> registry_if \<Rightarrow> ('s, 'b) wf_kv \<Rightarrow> string \<Rightarrow> nat \<Rightarrow> ('i, 'p) http_request \<Rightarrow> poll list \<Rightarrow>
    ('s, 'b) node \<Rightarrow> ('i, 'b) http_response \<times> ('s, 'b) node" where
  "serve env de reg kv psk port r polls n =
     (if (hr_Method r = ''GET'' \<or> hr_Method r = ''HEAD'') \<and> hr_Path r = ''/.well-known/agent-card.json''
      then (case HandleDiscovery reg port of Inl _ \<Rightarrow> (HttpError 500 ''internal error'', n) | Inr c \<Rightarrow> (HttpCard c, n))
      else if hr_Method r = ''POST''
      then (let (resp, n') = authMiddleware psk (\<lambda>r. HandleJSONRPC env de reg kv (hr_Body r) polls) r n in (HttpRpc resp, n'))
      else (HttpError 405 ''Method Not Allowed'', n))"

section \<open>External agents\<close>

record ExternalAgentConfig =
  xa_Name :: string
  xa_Endpoint :: string
  xa_PollInterval :: int
  xa_SkillsMapping :: labels

definition TrimHyphens :: "string \<Rightarrow> string" where
  "TrimHyphens s = List.rev (dropWhile (\<lambda>c. c = CHR ''-'') (List.rev (dropWhile (\<lambda>c. c = CHR ''-'') s)))"

definition segment_char :: "char \<Rightarrow> bool" where
  "segment_char c = (let k = of_char c :: nat in 97 \<le> k \<and> k \<le> 122 \<or> 48 \<le> k \<and> k \<le> 57)"

definition sanitizeSegment :: "string \<Rightarrow> string" where
  "sanitizeSegment s = TrimHyphens (map (\<lambda>c. let l = to_lower c in if segment_char l then l else CHR ''-'') s)"

definition agentIDForExternal :: "string \<Rightarrow> string" where
  "agentIDForExternal name = ''a2a-ext-'' @ sanitizeSegment name"

definition resolveCapabilityName :: "standardCatalog option \<Rightarrow> ExternalAgentConfig \<Rightarrow> AgentSkill \<Rightarrow> string" where
  "resolveCapabilityName cat cfg skill =
     (case xa_SkillsMapping cfg (sk_ID skill) of
        Some (x # xs) \<Rightarrow> x # xs
      | _ \<Rightarrow>
          if (case cat of Some c \<Rightarrow> Lookup c (sk_ID skill) \<noteq> None | None \<Rightarrow> False) then sk_ID skill
          else
            (let agentSeg = sanitizeSegment (xa_Name cfg); skillSeg = sanitizeSegment (sk_ID skill);
                 vendorName = ''a2a.'' @ agentSeg @ ''.'' @ skillSeg
             in if agentSeg = [] \<or> skillSeg = [] then []
                else if (case cat of Some c \<Rightarrow> Validate c vendorName \<noteq> None | None \<Rightarrow> False) then [] else vendorName))"

fun mapSkills :: "standardCatalog option \<Rightarrow> ExternalAgentConfig \<Rightarrow> AgentSkill list \<Rightarrow> Capability list" where
  "mapSkills cat cfg [] = []"
| "mapSkills cat cfg (skill # skills) =
     (let capName = resolveCapabilityName cat cfg skill in
      if capName = [] then mapSkills cat cfg skills
      else \<lparr>cap_Name = capName, cap_Version = ''1.0.0'', cap_Description = sk_Description skill,
            cap_Parameters = [''a2a_endpoint'' \<mapsto> xa_Endpoint cfg], cap_Category = [], cap_Action = [],
            cap_InputTypes = (if sk_InputModes skill = [] then [''application/json''] else sk_InputModes skill),
            cap_OutputTypes = (if sk_OutputModes skill = [] then [''application/json''] else sk_OutputModes skill)\<rparr> # mapSkills cat cfg skills)"

text \<open>An HTTP GET: an error, or the status and the body, which may not decode to a card.\<close>

type_synonym http_get = "string \<Rightarrow> string + (nat \<times> (string + AgentCard))"

datatype fetch_error = GetFailed string | BadStatus nat | CardUndecoded string

datatype onboard_error = CardFetch fetch_error | NoMappable | OnboardRegister reg_error

definition fetchAgentCard :: "http_get \<Rightarrow> string \<Rightarrow> fetch_error + AgentCard" where
  "fetchAgentCard get endpoint =
     (case get (TrimRightSlash endpoint @ ''/.well-known/agent-card.json'') of
        Inl err \<Rightarrow> Inl (GetFailed err)
      | Inr (status, content) \<Rightarrow>
          if status \<noteq> 200 then Inl (BadStatus status) else (case content of Inl err \<Rightarrow> Inl (CardUndecoded err) | Inr c \<Rightarrow> Inr c))"

definition OnboardExternalAgent :: "standardCatalog option \<Rightarrow> ('s, 'c) KVRegistry \<Rightarrow> ExternalAgentConfig \<Rightarrow> http_get \<Rightarrow> int \<Rightarrow> 's \<times> 'c \<Rightarrow>
    (onboard_error + string) \<times> ('s \<times> 'c)" where
  "OnboardExternalAgent cat r cfg get ts sc =
     (case fetchAgentCard get (xa_Endpoint cfg) of
        Inl err \<Rightarrow> (Inl (CardFetch err), sc)
      | Inr fetchedCard \<Rightarrow>
          (let caps = mapSkills cat cfg (ca_Skills fetchedCard); agentID = agentIDForExternal (xa_Name cfg) in
           if caps = [] then (Inl NoMappable, sc)
           else
             (case Register r \<lparr>reg_AgentID = agentID, reg_AgentType = ''a2a-virtual'', reg_Version = ''1.0.0'', reg_Capabilities = caps,
                  reg_Labels = [''a2a_endpoint'' \<mapsto> xa_Endpoint cfg, ''a2a_name'' \<mapsto> xa_Name cfg], reg_Status = StatusActive,
                  reg_LastSeen = 0, reg_MissedHeartbeats = 0, reg_NodeID = ''a2a-gateway'', reg_Origin = ''a2a'', reg_Revision = 0\<rparr> ts sc of
                (Inl err, sc') \<Rightarrow> (Inl (OnboardRegister err), sc')
              | (Inr _, sc') \<Rightarrow> (Inr agentID, sc'))))"

definition checkHealth :: "('s, 'c) KVRegistry \<Rightarrow> string \<Rightarrow> string \<Rightarrow> http_get \<Rightarrow> int \<Rightarrow> 's \<Rightarrow> 's" where
  "checkHealth r agentID endpoint get ts s =
     (case Get r agentID s of
        Inl _ \<Rightarrow> s
      | Inr (reg, revision) \<Rightarrow>
          (case fetchAgentCard get endpoint of
             Inl _ \<Rightarrow> snd (IncrementMissedHeartbeats r agentID revision s)
           | Inr _ \<Rightarrow>
               if reg_Status reg \<noteq> StatusActive then snd (UpdateStatus r agentID StatusActive revision s)
               else snd (RecordHeartbeat r agentID revision ts s)))"

text \<open>
  The polling of one agent: its ticker fires, with what the network answers and the time by then,
  until its context ends. The interval only decides when it fires.
\<close>

datatype polling = WakeDone | WakeTick http_get int

fun StartHealthPolling :: "('s, 'c) KVRegistry \<Rightarrow> string \<Rightarrow> string \<Rightarrow> polling list \<Rightarrow> 's \<Rightarrow> 's" where
  "StartHealthPolling r agentID endpoint [] s = s"
| "StartHealthPolling r agentID endpoint (WakeDone # wakes) s = s"
| "StartHealthPolling r agentID endpoint (WakeTick get ts # wakes) s =
     StartHealthPolling r agentID endpoint wakes (checkHealth r agentID endpoint get ts s)"

text \<open>The configured agents are onboarded in turn; those that were are polled from then on.\<close>

fun onboardAll :: "standardCatalog option \<Rightarrow> ('s, 'c) KVRegistry \<Rightarrow> http_get \<Rightarrow> (ExternalAgentConfig \<times> int) list \<Rightarrow> 's \<times> 'c \<Rightarrow>
    (string \<times> string) list \<times> ('s \<times> 'c)" where
  "onboardAll cat r get [] sc = ([], sc)"
| "onboardAll cat r get ((cfg, ts) # cfgs) sc =
     (case OnboardExternalAgent cat r cfg get ts sc of
        (Inl _, sc1) \<Rightarrow> onboardAll cat r get cfgs sc1
      | (Inr agentID, sc1) \<Rightarrow> (let (polled, sc2) = onboardAll cat r get cfgs sc1 in ((agentID, xa_Endpoint cfg) # polled, sc2)))"

end
