(* ===== verification/A2AProps.thy ===== *)
theory A2AProps
  imports A2A Nodes
begin

text \<open>
  Properties of the bridge: what becomes of a task in the workflow engine, what cancelling one does,
  that standard capabilities keep their names when one node onboards the card of another while
  renamed ones cannot be used, what polling does to an external agent, and that requests without
  the key change nothing.
\<close>

section \<open>Tasks and workflows\<close>

lemma side_run_keys: "side_run m m' \<Longrightarrow> dom m' = dom m"
proof (induction rule: rtranclp_induct)
  case (step m1 m2)
  from step.hyps(2) have "dom m2 = dom m1" by (cases rule: store_step.cases) auto
  then show ?case using step.IH by simp
qed simp

context workflow_store
begin

text \<open>Starting a workflow adds at most the entry of its own, new identifier.\<close>

lemma startWorkflow_keys:
  assumes e: "eg_store e = kv" and ok: "bucket_ok (view (nd_store n))" and d: "wf_def_ok def"
  shows "dom (view (nd_store (snd (startWorkflow sv e def n)))) \<subseteq> insert (fst (uuid sv n)) (dom (view (nd_store n)))"
proof -
  obtain wid n1 where u: "uuid sv n = (wid, n1)" by fastforce
  obtain ts n2 where t: "now sv n1 = (ts, n2)" by fastforce
  have s2: "nd_store n2 = nd_store n" using u t node_frame(1) [of sv n] node_frame(7) [of sv n1] by simp
  let ?st = "initial_state wid def ts"
  have p: "persisted ?st = ?st" using initial_state_ok [OF d] wf_ok_persisted by blast
  obtain res s where c: "store_Create kv wid ?st (nd_store n) = (res, s)" by fastforce
  from c have keys: "dom (view s) \<subseteq> insert wid (dom (view (nd_store n)))" by (cases rule: store_Create_cases) auto
  show ?thesis
  proof (cases res)
    case (Some x)
    then show ?thesis using keys c u t e s2 by (simp add: startWorkflow_def)
  next
    case None
    from c have v: "(\<exists>q. view s wid = Some (Json ?st, q)) \<and> bucket_ok (view s)"
      by (cases rule: store_Create_cases) (use None p ok initial_state_ok [OF d] in \<open>auto simp: bucket_ok_def\<close>)
    obtain g en where g: "GetOrCreateStream sv wid (nd_env n2) = (g, en)" by fastforce
    define n3 where "n3 = snd (node_subscribe sv (''workflow.'' @ wid @ ''.workflow.step.result'') (n2\<lparr>nd_store := s, nd_env := en\<rparr>))"
    have s3: "nd_store n3 = s" by (simp add: n3_def)
    obtain b where sub: "node_subscribe sv (''workflow.'' @ wid @ ''.workflow.step.result'') (n2\<lparr>nd_store := s, nd_env := en\<rparr>) = (b, n3)"
      by (metis n3_def prod.collapse)
    have "side_run (view s) (view (nd_store (snd (dispatchStep sv e wid 0 n3))))"
      using dispatchStep_run [OF e, of n3 wid ?st] v initial_state_ok [OF d] by (auto simp: s3 initial_state_def)
    then have "dom (view (nd_store (snd (dispatchStep sv e wid 0 n3)))) \<subseteq> insert wid (dom (view (nd_store n)))" using keys by (simp add: side_run_keys)
    then show ?thesis using None keys c u t e s2 g s3 sub by (cases g; cases b) (simp_all add: startWorkflow_def)
  qed
qed

lemma handleWorkflowStart_keys:
  assumes e: "eg_store e = kv" and ok: "bucket_ok (view (nd_store n))"
  shows "dom (view (nd_store (snd (handleWorkflowStart sv e event n)))) \<subseteq> insert (fst (uuid sv n)) (dom (view (nd_store n)))"
  using startWorkflow_keys [OF e ok workflowDefinitionFromProto_ok, of _ _ sv]
  by (auto simp: handleWorkflowStart_def engine_publishError_def case_prod_unfold node_frame Let_def split: option.split sum.split)

end

context reliable_workflow_store
begin

lemma task_absent: "view (nd_store n) tid = None \<Longrightarrow>
    GetTask env kv tid n = Inl (taskNotFound env tid) \<and> CancelTask env kv tid n = (Inl (taskNotFound env tid), n)"
  by (simp add: GetTask_def CancelTask_def store_Get_def get_absent)

end

lemma uuid_counts: "fst (uuid sv n) = sv_uuid sv (w_uuids (en_world (nd_env n)))" "w_uuids (en_world (nd_env (snd (uuid sv n)))) = Suc (w_uuids (en_world (nd_env n)))"
  by (simp_all add: uuid_def new_uuid_def)

lemma now_counts: "w_uuids (en_world (nd_env (snd (now sv n)))) = w_uuids (en_world (nd_env n))"
  by (simp add: now_def time_now_def)

text \<open>A task that becomes a workflow draws two identifiers, its own first, and publishes one event.\<close>

lemma createBaranWorkflow_Inr:
  assumes "createBaranWorkflow env skill params n = (Inr task, n')"
  shows "tk_ID task = sv_uuid (a2_services env) (w_uuids (en_world (nd_env n))) \<and> nd_store n' = nd_store n \<and>
    w_uuids (en_world (nd_env n')) = Suc (Suc (w_uuids (en_world (nd_env n)))) \<and>
    (\<exists>event. w_sent (en_world (nd_env n')) = w_sent (en_world (nd_env n)) @ [event] \<and>
      Option.bind (a2_message env (sm_Message params)) (\<lambda>input. a2_start env (task_definition skill input)) = Some (ev_Payload event) \<and> ev_Type event = ''workflow.start'' \<and>
      ev_Metadata event ''workflow_id'' = Some (tk_ID task))"
  using assms
  by (auto simp: createBaranWorkflow_def NewTaskStatus_def uuid_def now_def new_uuid_def time_now_def node_bus_def bus_publish_def zero_event_def Let_def
      split: option.splits if_splits)

text \<open>
  C37. The task that \<open>CreateTask\<close> returns cannot be found: the workflow engine, which receives the event
  it has published, stores the workflow under an identifier of its own, and asking for the task by
  the identifier it was given is answered with an error, even though the event names it.
\<close>

theorem created_task_unknown:
  assumes "reliable_workflow_store kv view" and "eg_store e = kv" and "bucket_ok (view (nd_store n))" and "inj (sv_uuid (a2_services env))"
    and "view (nd_store n) (sv_uuid (a2_services env) (w_uuids (en_world (nd_env n)))) = None"
    and "ri_find reg (tc_Skill (sm_Configuration params)) [] = Inr (agent # agents)" and "reg_Origin agent \<noteq> ''a2a''"
    and "CreateTask env reg params polls n = (Inr task, n1)" and "w_sent (en_world (nd_env n1)) = w_sent (en_world (nd_env n)) @ [event]"
    and "handleWorkflowStart (a2_services env) e event n1 = (res, n2)"
  shows "ev_Metadata event ''workflow_id'' = Some (tk_ID task) \<and> GetTask env kv (tk_ID task) n2 = Inl (taskNotFound env (tk_ID task)) \<and>
    fst (CancelTask env kv (tk_ID task) n2) = Inl (taskNotFound env (tk_ID task))"
proof -
  let ?sv = "a2_services env"
  have "createBaranWorkflow env (tc_Skill (sm_Configuration params)) params n = (Inr task, n1)" using assms(6-8) by (simp add: CreateTask_def Let_def split: if_splits)
  note c = createBaranWorkflow_Inr [OF this]
  have ws: "workflow_store kv view" using assms(1) by (simp add: reliable_workflow_store_def)
  have "bucket_ok (view (nd_store n1))" using assms(3) c by simp
  from workflow_store.handleWorkflowStart_keys [OF ws assms(2) this, of ?sv event] assms(10)
  have "dom (view (nd_store n2)) \<subseteq> insert (fst (uuid ?sv n1)) (dom (view (nd_store n1)))" by simp
  moreover have "fst (uuid ?sv n1) \<noteq> tk_ID task" using c assms(4) by (auto simp: uuid_counts dest: injD)
  ultimately have "view (nd_store n2) (tk_ID task) = None" using c assms(5) by auto
  then show ?thesis using reliable_workflow_store.task_absent [OF assms(1)] c assms(9) by auto
qed


section \<open>Examples\<close>

text \<open>Services over the example engine; payload 1 is that of a start event.\<close>

definition ex_bridge :: "nat a2a_env" where
  "ex_bridge = \<lparr>a2_services = wf_services, a2_message = (\<lambda>_. Some 0), a2_start = (\<lambda>_. Some 1), a2_post = (\<lambda>_ _ _. Inl []),
     a2_rfc3339 = (\<lambda>_. []), a2_text = (\<lambda>_. [])\<rparr>"

definition ex_params :: "string \<Rightarrow> nat SendMessageParams" where
  "ex_params skill = \<lparr>sm_Message = \<lparr>ms_MessageID = ''m'', ms_Role = ''user'', ms_Parts = []\<rparr>,
     sm_Configuration = \<lparr>tc_AcceptedOutputModes = [], tc_Skill = skill\<rparr>\<rparr>"

definition ex_directory :: registry_if where
  "ex_directory = \<lparr>ri_get = (\<lambda>_. Inl ErrNotFound), ri_list = Inr [], ri_find = (\<lambda>_ _. Inr [ex_registration ''a1''])\<rparr>"

lemma ex_uuid_inj: "inj (sv_uuid (a2_services ex_bridge))"
  by (rule injI) (auto simp: ex_bridge_def wf_services_def null_services_def dest: arg_cong [where f = length])

theorem created_task_unknown_witness:
  "\<exists>n2. GetTask ex_bridge mem_ops ''u'' n2 = Inl (taskNotFound ex_bridge ''u'') \<and> mem_view (nd_store n2) ''uuu'' \<noteq> None"
proof -
  let ?n = "wf_node empty_bucket :: (nat WorkflowState json bucket, nat) node"
  let ?c = "CreateTask ex_bridge ex_directory (ex_params ''nlp.qa'') [] ?n"
  obtain task n1 event where c: "?c = (Inr task, n1)" "w_sent (en_world (nd_env n1)) = w_sent (en_world (nd_env ?n)) @ [event]"
    "event = (zero_event 1)\<lparr>ev_ID := ''uu'', ev_Type := ''workflow.start'', ev_Timestamp := 0, ev_Metadata := [''a2a_task'' \<mapsto> ''true'', ''workflow_id'' \<mapsto> ''u'']\<rparr>"
    "tk_ID task = ''u''" "n1 = snd ?c"
    by (simp add: CreateTask_def createBaranWorkflow_def ex_params_def ex_directory_def ex_bridge_def wf_services_def null_services_def NewTaskStatus_def
        uuid_def now_def new_uuid_def time_now_def node_bus_def bus_publish_def ex_registration_def wf_node_def ex_env_def empty_world_def Let_def)
  have b: "bucket_ok (mem_view (nd_store ?n))" by (simp add: bucket_ok_def mem_view_def empty_bucket_def wf_node_def)
  have r: "ri_find ex_directory (tc_Skill (sm_Configuration (ex_params ''nlp.qa''))) [] = Inr [ex_registration ''a1'']" "reg_Origin (ex_registration ''a1'') \<noteq> ''a2a''"
    by (simp_all add: ex_directory_def ex_registration_def)
  let ?h = "handleWorkflowStart (a2_services ex_bridge) wf_engine event n1"
  have "mem_view (nd_store (snd ?h)) ''uuu'' \<noteq> None" unfolding c(3,5) by code_simp
  moreover have "GetTask ex_bridge mem_ops (tk_ID task) (snd ?h) = Inl (taskNotFound ex_bridge (tk_ID task))"
    using created_task_unknown [OF mem_rwf.reliable_workflow_store_axioms wf_engine_store b ex_uuid_inj _ r c(1,2), of "fst ?h" "snd ?h"]
    by (simp add: mem_view_def empty_bucket_def wf_node_def)
  ultimately show ?thesis using c(4) by auto
qed

section \<open>Cancelling\<close>

lemma now_frame: "w_sent (en_world (nd_env (snd (now sv n)))) = w_sent (en_world (nd_env n))"
  by (simp add: now_def time_now_def)

lemma NewTaskStatus_frame:
  "nd_store (snd (NewTaskStatus env state n)) = nd_store n" "nd_timeouts (snd (NewTaskStatus env state n)) = nd_timeouts n"
  "nd_pending (snd (NewTaskStatus env state n)) = nd_pending n" "w_sent (en_world (nd_env (snd (NewTaskStatus env state n)))) = w_sent (en_world (nd_env n))"
  "tu_State (fst (NewTaskStatus env state n)) = state"
  by (simp_all add: NewTaskStatus_def now_frame case_prod_unfold Let_def)

text \<open>
  C18. Cancelling a task whose workflow has not ended succeeds and marks the workflow FAILED, with its
  results and its missing error unchanged, and nothing else in the store: the task is reported as
  cancelled once, as failed ever after, and cannot be cancelled again. No event tells anybody, the
  pending decision and the timer of the workflow stay, and the stored workflow no longer is one that
  the engine could have left, since those that failed carry an error.
\<close>

theorem cancel_task_effect:
  assumes "reliable_workflow_store kv view" and "bucket_ok (view (nd_store n))"
    and "view (nd_store n) tid = Some (Json st, q)" and "\<not> terminal st"
  shows "\<exists>task n' st' q'. CancelTask env kv tid n = (Inr task, n') \<and> tk_ID task = tid \<and> tu_State (tk_Status task) = TaskStateCanceled \<and>
    view (nd_store n') = (view (nd_store n))(tid \<mapsto> (Json st', q')) \<and> ws_Status st' = StatusFailed \<and> ws_Error st' = None \<and>
    ws_StepResults st' = ws_StepResults st \<and> \<not> bucket_ok (view (nd_store n')) \<and> w_sent (en_world (nd_env n')) = w_sent (en_world (nd_env n)) \<and>
    nd_timeouts n' = nd_timeouts n \<and> nd_pending n' = nd_pending n \<and>
    map_sum id (\<lambda>t. tu_State (tk_Status t)) (GetTask env kv tid n') = Inr TaskStateFailed \<and>
    CancelTask env kv tid n' = (Inl (A2AError ErrCodeTaskNotCancelable ''task already in terminal state''), n')"
proof -
  obtain ts n1 where t: "now (a2_services env) n = (ts, n1)" by fastforce
  have f1: "nd_store n1 = nd_store n" "nd_timeouts n1 = nd_timeouts n" "nd_pending n1 = nd_pending n"
    "w_sent (en_world (nd_env n1)) = w_sent (en_world (nd_env n))"
    using t node_frame(7-9) [of "a2_services env" n] now_frame [of "a2_services env" n] by simp_all
  let ?st = "st\<lparr>ws_Status := StatusFailed, ws_UpdatedAt := ts\<rparr>"
  have ok: "wf_ok tid st" by (rule bucket_okD [OF assms(2,3)])
  have p: "persisted ?st = ?st" by (rule persisted_keep [OF wf_ok_persisted [OF ok]]) simp
  have e: "ws_Error st = None" using ok assms(4) by (cases "ws_Status st") (auto simp: wf_ok_def terminal_def)
  obtain n2 r where u: "node_Update kv tid ?st q n1 = (None, n2)" "view (nd_store n2) = (view (nd_store n))(tid \<mapsto> (Json ?st, r))"
    "nd_env n2 = nd_env n1" "nd_timeouts n2 = nd_timeouts n1" "nd_pending n2 = nd_pending n1"
    using reliable_workflow_store.node_Update_current [OF assms(1), of n1 tid "Json st" q ?st] assms(3) f1(1) p by metis
  obtain status n3 where s: "NewTaskStatus env TaskStateCanceled n2 = (status, n3)" by fastforce
  note f3 = NewTaskStatus_frame [of env TaskStateCanceled n2, unfolded s fst_conv snd_conv]
  have g: "store_Get kv tid (nd_store n) = Inr (st, q)" "store_Get kv tid (nd_store n3) = Inr (?st, r)"
    using reliable_workflow_store.store_Get_present [OF assms(1)] assms(3) u(2) f3(1) by simp_all
  have c: "CancelTask env kv tid n = (Inr \<lparr>tk_ID = tid, tk_Status = status, tk_Artifacts = []\<rparr>, n3)"
    using assms(4) g(1) t u(1) s by (simp add: CancelTask_def terminal_def)
  have nb: "\<not> bucket_ok (view (nd_store n3))"
  proof
    assume "bucket_ok (view (nd_store n3))"
    from bucket_okD [OF this, of tid ?st r] u(2) f3(1) show False using e by (simp add: wf_ok_def)
  qed
  have "GetTask env kv tid n3 = Inr \<lparr>tk_ID = tid, tk_Status = workflowStatusToTaskStatus env ?st, tk_Artifacts = []\<rparr>"
    using g(2) by (simp add: GetTask_def)
  moreover have "CancelTask env kv tid n3 = (Inl (A2AError ErrCodeTaskNotCancelable ''task already in terminal state''), n3)"
    using g(2) by (simp add: CancelTask_def)
  ultimately show ?thesis using c nb e u f1 f3
    by (intro exI [of _ "\<lparr>tk_ID = tid, tk_Status = status, tk_Artifacts = []\<rparr>"] exI [of _ n3] exI [of _ ?st] exI [of _ r])
      (simp add: workflowStatusToTaskStatus_def)
qed

theorem cancel_task_effect_witness:
  "\<exists>n'. map_sum id (\<lambda>t. tu_State (tk_Status t)) (GetTask ex_bridge mem_ops ''w'' n') = Inr TaskStateFailed \<and>
    n' = snd (CancelTask ex_bridge mem_ops ''w'' (wf_node (wf_bucket (wf_state [False]))))"
proof -
  have "\<not> terminal (wf_state [False])" by (simp add: terminal_def wf_state_def initial_state_def)
  from cancel_task_effect [OF mem_rwf.reliable_workflow_store_axioms wf_bucket_ok [OF wf_state_ok [of "[False]"]] wf_view this, of ex_bridge]
  show ?thesis by auto
qed

section \<open>Cards\<close>

lemma dedupSkills_ids: "sk_ID ` set (dedupSkills seen skills) = sk_ID ` set skills - set seen \<and> distinct (map sk_ID (dedupSkills seen skills))"
  by (induction seen skills rule: dedupSkills.induct) auto

lemma deduplicateSkills_ids: "sk_ID ` set (deduplicateSkills skills) = sk_ID ` set skills" "distinct (map sk_ID (deduplicateSkills skills))"
  using dedupSkills_ids [of "[]" skills] by (simp_all add: deduplicateSkills_def)

text \<open>A card offers each capability of the agents exactly once.\<close>

lemma card_skills:
  "sk_ID ` set (ca_Skills (GenerateAgentCard agents url port)) = cap_Name ` (\<Union>a\<in>set agents. set (reg_Capabilities a))"
  "distinct (map sk_ID (ca_Skills (GenerateAgentCard agents url port)))"
  by (simp_all add: GenerateAgentCard_def Let_def deduplicateSkills_ids) (simp add: CapabilityToSkill_def image_comp o_def)

lemma vendor_name: "IsVendor NewStandardCatalog (''a2a.'' @ s)"
proof -
  have "''a2a'' \<notin> set (map tc_Name standardCategories)" by code_simp
  then show ?thesis unfolding IsVendor_standard_iff by (intro exI [of _ "''a2a''"] exI [of _ s]) simp
qed

text \<open>
  Imported without a manual mapping: a standard skill keeps its name, every other one gets a vendor
  name or is left out, and what is imported can be registered and reached.
\<close>

lemma resolve_standard:
  assumes "xa_SkillsMapping cfg = Map.empty"
  shows "Lookup NewStandardCatalog (sk_ID skill) \<noteq> None \<Longrightarrow> resolveCapabilityName (Some NewStandardCatalog) cfg skill = sk_ID skill"
    and "Lookup NewStandardCatalog (sk_ID skill) = None \<Longrightarrow> resolveCapabilityName (Some NewStandardCatalog) cfg skill \<noteq> [] \<Longrightarrow>
      IsVendor NewStandardCatalog (resolveCapabilityName (Some NewStandardCatalog) cfg skill)"
  using assms by (simp_all add: resolveCapabilityName_def Let_def vendor_name [simplified] split: if_splits)

lemma standard_not_empty: "Lookup NewStandardCatalog [] = None"
  by (auto simp: Lookup_standard map_of_eq_None_iff tax_defs)

lemma mapSkills_standard_names:
  assumes "xa_SkillsMapping cfg = Map.empty"
  shows "filter (\<lambda>i. Lookup NewStandardCatalog i \<noteq> None) (map cap_Name (mapSkills (Some NewStandardCatalog) cfg skills)) =
    filter (\<lambda>i. Lookup NewStandardCatalog i \<noteq> None) (map sk_ID skills)"
proof (induction skills)
  case (Cons skill skills)
  show ?case
  proof (cases "Lookup NewStandardCatalog (sk_ID skill) = None")
    case True
    then have "resolveCapabilityName (Some NewStandardCatalog) cfg skill \<noteq> [] \<Longrightarrow>
        Lookup NewStandardCatalog (resolveCapabilityName (Some NewStandardCatalog) cfg skill) = None"
      using resolve_standard(2) [OF assms] by (simp add: IsVendor_def)
    then show ?thesis using Cons True by (simp add: Let_def)
  next
    case False
    moreover from this have "sk_ID skill \<noteq> []" using standard_not_empty by metis
    ultimately show ?thesis using Cons resolve_standard(1) [OF assms False] by (simp add: Let_def)
  qed
qed simp

lemma mapSkills_caps:
  assumes "xa_SkillsMapping cfg = Map.empty" and "c \<in> set (mapSkills (Some NewStandardCatalog) cfg skills)"
  shows "Validate NewStandardCatalog (cap_Name c) = None \<and> cap_InputTypes c \<noteq> [] \<and> cap_OutputTypes c \<noteq> [] \<and>
    cap_Parameters c ''a2a_endpoint'' = Some (xa_Endpoint cfg)"
  using assms(2)
proof (induction skills)
  case (Cons skill skills)
  have "Validate NewStandardCatalog (resolveCapabilityName (Some NewStandardCatalog) cfg skill) = None"
    if "resolveCapabilityName (Some NewStandardCatalog) cfg skill \<noteq> []"
  proof (cases "Lookup NewStandardCatalog (sk_ID skill) = None")
    case True
    then show ?thesis using resolve_standard(2) [OF assms(1) True] that by (simp add: IsVendor_def)
  next
    case False
    then show ?thesis using resolve_standard(1) [OF assms(1) False] by (simp add: Validate_def Lookup_def)
  qed
  then show ?case using Cons by (auto simp: Let_def split: if_splits)
qed simp

lemma mapCapabilities_accepts:
  assumes "\<And>c. c \<in> set caps \<Longrightarrow> Validate NewStandardCatalog (cap_Name c) = None \<and> cap_InputTypes c \<noteq> [] \<and> cap_OutputTypes c \<noteq> []"
  shows "\<exists>caps' c'. mapCapabilities NewStandardCatalog ckv caps c0 = (Inr caps', c') \<and> map cap_Name caps' = map cap_Name caps \<and>
    map cap_Parameters caps' = map cap_Parameters caps"
  using assms
proof (induction caps arbitrary: c0)
  case (Cons a caps)
  define c1 where "c1 = (case ckv of Some kv \<Rightarrow> if Lookup NewStandardCatalog (cap_Name a) = None
    then storeVendorCapability kv (of_tax (AutoMap NewStandardCatalog (to_tax a))) c0 else c0 | None \<Rightarrow> c0)"
  from Cons.IH [of c1] Cons.prems obtain caps' c' where "mapCapabilities NewStandardCatalog ckv caps c1 = (Inr caps', c')"
    "map cap_Name caps' = map cap_Name caps" "map cap_Parameters caps' = map cap_Parameters caps" by auto
  moreover have "cap_Name (of_tax (AutoMap NewStandardCatalog (to_tax a))) = cap_Name a"
    "cap_Parameters (of_tax (AutoMap NewStandardCatalog (to_tax a))) = cap_Parameters a"
    by (simp_all add: of_tax_def to_tax_def AutoMap_def split: option.split)
  ultimately show ?case using Cons.prems [of a] by (simp add: Let_def c1_def)
qed simp

lemma endpoint_of_all:
  assumes "\<And>c. c \<in> set (reg_Capabilities reg) \<Longrightarrow> cap_Parameters c ''a2a_endpoint'' = Some ep" and "name \<in> cap_Name ` set (reg_Capabilities reg)"
  shows "a2aEndpointFromAgent reg name = ep"
proof -
  obtain c where "find (\<lambda>c. cap_Name c = name) (reg_Capabilities reg) = Some c" using assms(2) by (fastforce simp: find_None_iff)
  moreover from this have "c \<in> set (reg_Capabilities reg)" by (metis find_Some_iff nth_mem)
  ultimately show ?thesis using assms(1) by (simp add: a2aEndpointFromAgent_def)
qed


text \<open>
  C19. A node that onboards the card of another one can use its standard capabilities under their own
  names: when the card lists them and no manual mapping interferes, the onboarding succeeds and
  stores one active agent of origin \<open>a2a\<close> that offers each standard capability of the other
  node's agents exactly once and sends its tasks to the configured endpoint.
\<close>

theorem card_round_trip:
  assumes "reliable_agents r view" and "kr_catalog r = Some NewStandardCatalog" and "xa_SkillsMapping cfg = Map.empty"
    and "fetchAgentCard get (xa_Endpoint cfg) = Inr (GenerateAgentCard agents url port)"
    and "agent \<in> set agents" and "c \<in> set (reg_Capabilities agent)" and "Lookup NewStandardCatalog (cap_Name c) \<noteq> None"
  shows "\<exists>s' k' reg q. OnboardExternalAgent (Some NewStandardCatalog) r cfg get ts (s, k) = (Inr (agentIDForExternal (xa_Name cfg)), (s', k')) \<and>
    view s' = (view s)(agentIDForExternal (xa_Name cfg) \<mapsto> (Json reg, q)) \<and> reg_Status reg = StatusActive \<and> reg_Origin reg = ''a2a'' \<and>
    length (filter (\<lambda>d. cap_Name d = cap_Name c) (reg_Capabilities reg)) = 1 \<and> a2aEndpointFromAgent reg (cap_Name c) = xa_Endpoint cfg"
proof -
  let ?skills = "ca_Skills (GenerateAgentCard agents url port)"
  let ?caps = "mapSkills (Some NewStandardCatalog) cfg ?skills"
  let ?std = "\<lambda>i. Lookup NewStandardCatalog i \<noteq> None"
  note caps = mapSkills_caps [OF assms(3)]
  have "cap_Name c \<in> set (filter ?std (map sk_ID ?skills))" using assms(5-7) card_skills(1) [of agents url port] by auto
  moreover have "distinct (filter ?std (map sk_ID ?skills))" using card_skills(2) by (rule distinct_filter)
  ultimately have names: "cap_Name c \<in> set (filter ?std (map cap_Name ?caps))" "distinct (filter ?std (map cap_Name ?caps))"
    unfolding mapSkills_standard_names [OF assms(3)] by simp_all
  obtain caps' k' where m: "mapCapabilities NewStandardCatalog (kr_catalogKV r) ?caps k = (Inr caps', k')"
    "map cap_Name caps' = map cap_Name ?caps" "map cap_Parameters caps' = map cap_Parameters ?caps"
    using mapCapabilities_accepts [of ?caps "kr_catalogKV r" k] caps by blast
  let ?reg = "\<lparr>reg_AgentID = agentIDForExternal (xa_Name cfg), reg_AgentType = ''a2a-virtual'', reg_Version = ''1.0.0'', reg_Capabilities = caps',
    reg_Labels = [''a2a_endpoint'' \<mapsto> xa_Endpoint cfg, ''a2a_name'' \<mapsto> xa_Name cfg], reg_Status = StatusActive,
    reg_LastSeen = ts, reg_MissedHeartbeats = 0, reg_NodeID = ''a2a-gateway'', reg_Origin = ''a2a'', reg_Revision = 0\<rparr>"
  obtain q s' where u: "upsert (kr_kv r) (agentIDForExternal (xa_Name cfg)) ?reg s = (Inr q, s')"
    "view s' = (view s)(agentIDForExternal (xa_Name cfg) \<mapsto> (Json ?reg, q))"
    using reliable_agents.upsert_reliable [OF assms(1)] by metis
  have ne: "?caps \<noteq> []" "agentIDForExternal (xa_Name cfg) \<noteq> []" using names(1) by (auto simp: agentIDForExternal_def)
  have on: "OnboardExternalAgent (Some NewStandardCatalog) r cfg get ts (s, k) = (Inr (agentIDForExternal (xa_Name cfg)), (s', k'))"
    using assms(2,4) m(1) u(1) ne by (simp add: OnboardExternalAgent_def Register_def Let_def)
  have "cap_Parameters d ''a2a_endpoint'' = Some (xa_Endpoint cfg)" if d: "d \<in> set caps'" for d
  proof -
    from d have "cap_Parameters d \<in> set (map cap_Parameters caps')" by simp
    then obtain e where "e \<in> set ?caps" "cap_Parameters d = cap_Parameters e" unfolding m(3) set_map by (rule imageE)
    then show ?thesis using caps by simp
  qed
  then have ep: "a2aEndpointFromAgent ?reg (cap_Name c) = xa_Endpoint cfg"
    using endpoint_of_all [of ?reg "xa_Endpoint cfg" "cap_Name c"] names(1)
    by (simp only: set_map [symmetric] AgentRegistration.simps m(2) set_filter) simp
  have "length (filter (\<lambda>d. cap_Name d = cap_Name c) caps') = count_list (filter ?std (map cap_Name ?caps)) (cap_Name c)"
    by (simp only: length_filter_key m(2) count_list_filter [of ?std, OF assms(7)])
  also have "\<dots> = 1" using names by (rule count_list_distinct [rotated])
  finally show ?thesis using on u(2) ep by (intro exI [of _ s'] exI [of _ k'] exI [of _ ?reg] exI [of _ q]) simp
qed

definition ex_offered :: "string \<Rightarrow> Capability" where
  "ex_offered name = \<lparr>cap_Name = name, cap_Version = ''1.0.0'', cap_Description = [], cap_Parameters = Map.empty, cap_Category = [], cap_Action = [],
     cap_InputTypes = [], cap_OutputTypes = []\<rparr>"

definition ex_external :: ExternalAgentConfig where
  "ex_external = \<lparr>xa_Name = ''Peer'', xa_Endpoint = ''http://peer/'', xa_PollInterval = 0, xa_SkillsMapping = Map.empty\<rparr>"

text \<open>A peer with two capabilities, one of them standard.\<close>

definition ex_remote_agent :: AgentRegistration where
  "ex_remote_agent = (ex_registration ''p'')\<lparr>reg_Capabilities := [ex_offered ''translate'', ex_offered ''nlp.qa'']\<rparr>"

definition ex_get :: http_get where
  "ex_get url = (if url = ''http://peer/.well-known/agent-card.json'' then Inr (200, Inr (GenerateAgentCard [ex_remote_agent] [] 8090)) else Inl [])"

lemma ex_fetch: "fetchAgentCard ex_get (xa_Endpoint ex_external) = Inr (GenerateAgentCard [ex_remote_agent] [] 8090)"
  by (simp add: fetchAgentCard_def ex_get_def ex_external_def TrimRightSlash_def)

theorem card_round_trip_witness:
  "\<exists>s' k' reg q. OnboardExternalAgent (Some NewStandardCatalog) (mem_registry 3 6 (Some NewStandardCatalog)) ex_external ex_get 7 (empty_bucket, empty_bucket) =
      (Inr ''a2a-ext-peer'', (s', k')) \<and> mem_view s' = (mem_view empty_bucket)(''a2a-ext-peer'' \<mapsto> (Json reg, q)) \<and>
    a2aEndpointFromAgent reg ''nlp.qa'' = ''http://peer/''"
proof -
  let ?r = "mem_registry 3 6 (Some NewStandardCatalog)"
  have h: "kr_catalog ?r = Some NewStandardCatalog" "xa_SkillsMapping ex_external = Map.empty" "ex_remote_agent \<in> set [ex_remote_agent]"
    "ex_offered ''nlp.qa'' \<in> set (reg_Capabilities ex_remote_agent)"
    by (simp_all add: mem_registry_def ex_external_def ex_remote_agent_def)
  have l: "Lookup NewStandardCatalog (cap_Name (ex_offered ''nlp.qa'')) \<noteq> None" unfolding ex_offered_def Capability.simps by code_simp
  have n: "agentIDForExternal (xa_Name ex_external) = ''a2a-ext-peer''"
    by (simp add: agentIDForExternal_def sanitizeSegment_def to_lower_def segment_char_def TrimHyphens_def ex_external_def char_of_def bit_0 Let_def)
  have "cap_Name (ex_offered ''nlp.qa'') = ''nlp.qa''" "xa_Endpoint ex_external = ''http://peer/''" by (simp_all add: ex_offered_def ex_external_def)
  then show ?thesis
    using card_round_trip [OF mem_agents.reliable_agents_axioms h(1,2) ex_fetch h(3,4) l, of 7 empty_bucket empty_bucket] unfolding n
    by (metis (no_types, lifting))
qed

section \<open>Tasks for external agents\<close>

text \<open>What the JSON-RPC front of a peer makes of the outcome of a request, as its caller decodes it.\<close>

definition peer_reply :: "'b a2a_env \<Rightarrow> task_error + 'b Task \<Rightarrow> 'b reply" where
  "peer_reply env res = (case jp_Answer (respond_with env () res) of RpcResult task \<Rightarrow> ReplyTask task | RpcError code message \<Rightarrow> ReplyError code message)"

text \<open>
  An external agent is asked for a skill under the name the skill has here, not under its own:
  when the peer behind the endpoint, itself a node of this kind, has no agent for the local name,
  the task is refused with the peer's answer that there is no such skill. So a skill that was
  imported under a vendor name cannot be used, although the peer offers it.
\<close>

theorem renamed_skill_refused:
  assumes "tc_Skill (sm_Configuration params) \<noteq> []" and "ri_find reg (tc_Skill (sm_Configuration params)) [] = Inr (agent # agents)"
    and "reg_Origin agent = ''a2a''" and "a2aEndpointFromAgent agent (tc_Skill (sm_Configuration params)) = ep" and "ep \<noteq> []"
    and "a2_message env (sm_Message params) \<noteq> None"
    and "\<And>i req. a2_post env i (TrimRightSlash ep @ ''/'') (OutSend req params) = Inr (peer_reply penv (fst (CreateTask penv peer params ppolls m)))"
    and "ri_find peer (tc_Skill (sm_Configuration params)) [] = Inr []"
  shows "fst (CreateTask env reg params polls n) =
    Inl (A2AError ErrCodeSkillNotFound (''no agent found for skill '' @ sv_quote (a2_services penv) (tc_Skill (sm_Configuration params))))"
  using assms
  by (simp add: CreateTask_def dispatchToVirtualAgent_def post_def peer_reply_def respond_with_def writeJSONRPCFromError_def writeJSONRPC_def
      case_prod_unfold Let_def)

text \<open>The peer of the example, imported: its own skill has a new name here.\<close>

definition ex_import :: AgentRegistration where
  "ex_import = (ex_registration ''a2a-ext-peer'')\<lparr>reg_Origin := ''a2a'',
     reg_Capabilities := mapSkills (Some NewStandardCatalog) ex_external (ca_Skills (GenerateAgentCard [ex_remote_agent] [] 8090))\<rparr>"

definition ex_caller :: "nat a2a_env" where
  "ex_caller = ex_bridge\<lparr>a2_post := \<lambda>_ _ req. case req of
     OutSend _ params \<Rightarrow> Inr (peer_reply ex_bridge (fst (CreateTask ex_bridge (ex_directory\<lparr>ri_find := \<lambda>name _. Inr (if name = ''translate'' then [ex_remote_agent] else [])\<rparr>)
       params [] (wf_node ())))) | _ \<Rightarrow> Inl []\<rparr>"

lemmas segment_defs = sanitizeSegment_def to_lower_def segment_char_def TrimHyphens_def Let_def

lemma ex_resolve: "resolveCapabilityName (Some NewStandardCatalog) ex_external (CapabilityToSkill (ex_offered ''translate'')) = ''a2a.peer.translate''"
proof -
  have "Lookup NewStandardCatalog ''translate'' = None" by code_simp
  moreover have "Validate NewStandardCatalog ''a2a.peer.translate'' = None" using vendor_name [of "''peer.translate''"] by (simp add: IsVendor_def)
  moreover have "sanitizeSegment ''Peer'' = ''peer''" "sanitizeSegment ''translate'' = ''translate''" by (simp_all add: segment_defs char_of_def bit_0)
  ultimately show ?thesis by (simp add: resolveCapabilityName_def ex_external_def CapabilityToSkill_def ex_offered_def)
qed

lemma ex_import_endpoint: "a2aEndpointFromAgent ex_import ''a2a.peer.translate'' = ''http://peer/''"
proof -
  have "reg_Capabilities ex_import = mapSkills (Some NewStandardCatalog) ex_external [CapabilityToSkill (ex_offered ''translate''), CapabilityToSkill (ex_offered ''nlp.qa'')]"
    by (simp add: ex_import_def GenerateAgentCard_def ex_remote_agent_def deduplicateSkills_def CapabilityToSkill_def ex_offered_def)
  then show ?thesis by (simp add: a2aEndpointFromAgent_def ex_resolve ex_external_def [THEN arg_cong [where f = xa_Endpoint]])
qed

theorem renamed_skill_refused_witness:
  "fst (CreateTask ex_caller (ex_directory\<lparr>ri_find := \<lambda>_ _. Inr [ex_import]\<rparr>) (ex_params ''a2a.peer.translate'') [] (wf_node ())) =
     Inl (A2AError ErrCodeSkillNotFound ''no agent found for skill a2a.peer.translate'')"
proof -
  let ?peer = "ex_directory\<lparr>ri_find := \<lambda>name _. Inr (if name = ''translate'' then [ex_remote_agent] else [])\<rparr>"
  have "fst (CreateTask ex_caller (ex_directory\<lparr>ri_find := \<lambda>_ _. Inr [ex_import]\<rparr>) (ex_params ''a2a.peer.translate'') [] (wf_node ())) =
    Inl (A2AError ErrCodeSkillNotFound (''no agent found for skill '' @ sv_quote (a2_services ex_bridge) (tc_Skill (sm_Configuration (ex_params ''a2a.peer.translate'')))))"
    by (rule renamed_skill_refused [where ep = "''http://peer/''" and agent = ex_import and agents = "[]" and peer = ?peer and ppolls = "[]" and m = "wf_node ()"])
      (simp_all add: ex_params_def ex_caller_def ex_bridge_def ex_import_endpoint, simp add: ex_import_def)
  then show ?thesis by (simp add: ex_params_def ex_bridge_def wf_services_def null_services_def)
qed

section \<open>Polling\<close>

context reliable_agents
begin

lemma writeBack_present:
  assumes "view s k = Some (v, q)"
  obtains rv s' where "writeBack r k reg q s = (Inr rv, s')" "view s' = (view s)(k \<mapsto> (Json reg, rv))"
proof -
  obtain rv s' where u: "kv_update (kr_kv r) k (Json reg) q s = (Inr rv, s')" using update_match [OF assms] by blast
  then show thesis using that [of rv s'] update_ok [OF u] by (simp add: writeBack_def)
qed

text \<open>One tick, by what the network answers and the status of the agent.\<close>

lemma checkHealth_view:
  assumes "view s k = Some (Json reg, q)"
  shows "\<exists>q'. view (checkHealth r k ep get ts s) = (view s)(k \<mapsto> (Json (case fetchAgentCard get ep of
      Inl _ \<Rightarrow> miss (kr_UnhealthyThreshold r) (kr_DeadThreshold r) (reg\<lparr>reg_Revision := q\<rparr>)
    | Inr _ \<Rightarrow> if reg_Status reg \<noteq> StatusActive then reg\<lparr>reg_Revision := q, reg_Status := StatusActive\<rparr> else beat ts (reg\<lparr>reg_Revision := q\<rparr>)), q'))"
proof -
  note g = Get_present [OF assms]
  show ?thesis
  proof (cases "fetchAgentCard get ep")
    case (Inl err)
    let ?reg = "miss (kr_UnhealthyThreshold r) (kr_DeadThreshold r) (reg\<lparr>reg_Revision := q\<rparr>)"
    obtain rv s' where "IncrementMissedHeartbeats r k q s = (Inr (reg_Status ?reg, rv), s')" "view s' = (view s)(k \<mapsto> (Json ?reg, rv))"
      using Increment_present [OF assms] .
    then show ?thesis using g Inl by (intro exI [of _ rv]) (simp add: checkHealth_def)
  next
    case (Inr c)
    let ?reg = "if reg_Status reg \<noteq> StatusActive then reg\<lparr>reg_Revision := q, reg_Status := StatusActive\<rparr> else beat ts (reg\<lparr>reg_Revision := q\<rparr>)"
    obtain rv s' where "writeBack r k ?reg q s = (Inr rv, s')" "view s' = (view s)(k \<mapsto> (Json ?reg, rv))" using writeBack_present [OF assms] .
    then show ?thesis using g Inr by (auto simp: checkHealth_def UpdateStatus_def RecordHeartbeat_def split: if_splits)
  qed
qed

end

text \<open>
  An external agent that answers again is back after one poll, whatever its status, even DEAD, and
  nothing else in the registry changes; but only the second answered poll forgets the polls missed
  before. An agent that had missed enough of them is UNHEALTHY again when it misses the very next.
\<close>

theorem polling_recovers_in_two:
  assumes "reliable_agents r view" and "view s k = Some (Json reg, q)" and "reg_Status reg \<noteq> StatusActive"
    and "fetchAgentCard up ep = Inr crd" and "fetchAgentCard down ep = Inl err"
    and "kr_UnhealthyThreshold r \<le> reg_MissedHeartbeats reg" and "0 \<le> reg_MissedHeartbeats reg" and "reg_MissedHeartbeats reg < 2 ^ 31 - 1"
  shows "\<exists>r1 r2 r3 q1 q2 q3.
    view (StartHealthPolling r k ep [WakeTick up t] s) = (view s)(k \<mapsto> (Json r1, q1)) \<and> reg_Status r1 = StatusActive \<and>
      reg_MissedHeartbeats r1 = reg_MissedHeartbeats reg \<and> reg_LastSeen r1 = reg_LastSeen reg \<and>
    view (StartHealthPolling r k ep [WakeTick up t, WakeTick up t'] s) = (view s)(k \<mapsto> (Json r2, q2)) \<and> reg_Status r2 = StatusActive \<and>
      reg_MissedHeartbeats r2 = 0 \<and> reg_LastSeen r2 = t' \<and>
    view (StartHealthPolling r k ep [WakeTick up t, WakeTick down t'] s) = (view s)(k \<mapsto> (Json r3, q3)) \<and> reg_Status r3 = StatusUnhealthy"
proof -
  note ch = reliable_agents.checkHealth_view [OF assms(1), of _ k _ _ ep]
  let ?s1 = "checkHealth r k ep up t s" and ?r1 = "reg\<lparr>reg_Revision := q, reg_Status := StatusActive\<rparr>"
  obtain q1 where v1: "view ?s1 = (view s)(k \<mapsto> (Json ?r1, q1))" using ch [OF assms(2), of up t] assms(3,4) by auto
  then have e: "view ?s1 k = Some (Json ?r1, q1)" by simp
  obtain q2 where v2: "view (checkHealth r k ep up t' ?s1) = (view s)(k \<mapsto> (Json (beat t' (?r1\<lparr>reg_Revision := q1\<rparr>)), q2))"
    using ch [OF e, of up t'] assms(4) v1 by auto
  let ?r3 = "miss (kr_UnhealthyThreshold r) (kr_DeadThreshold r) (?r1\<lparr>reg_Revision := q1\<rparr>)"
  obtain q3 where v3: "view (checkHealth r k ep down t' ?s1) = (view s)(k \<mapsto> (Json ?r3, q3))"
    using ch [OF e, of down t'] assms(5) v1 by auto
  have "wrap32 (reg_MissedHeartbeats reg + 1) = reg_MissedHeartbeats reg + 1" by (rule wrap32_id) (use assms(7,8) in simp_all)
  then have "reg_Status ?r3 = StatusUnhealthy" using assms(6) by (simp add: miss_def Let_def)
  then show ?thesis using v1 v2 v3
    by (intro exI [of _ ?r1] exI [of _ "beat t' (?r1\<lparr>reg_Revision := q1\<rparr>)"] exI [of _ ?r3] exI [of _ q1] exI [of _ q2] exI [of _ q3]) (simp add: beat_def)
qed

theorem polling_recovers_in_two_witness:
  "\<exists>r1 q1. mem_view (StartHealthPolling (mem_registry 3 6 None) ''a1'' (xa_Endpoint ex_external) [WakeTick ex_get 7]
      \<lparr>bk_entries = [(''a1'', Json ((ex_registration ''a1'')\<lparr>reg_Status := StatusDead, reg_MissedHeartbeats := 6\<rparr>), 1)], bk_seq = 1\<rparr>) ''a1'' =
    Some (Json r1, q1) \<and> reg_Status r1 = StatusActive \<and> reg_MissedHeartbeats r1 = 6"
proof -
  let ?reg = "(ex_registration ''a1'')\<lparr>reg_Status := StatusDead, reg_MissedHeartbeats := 6\<rparr>"
  let ?s = "\<lparr>bk_entries = [(''a1'', Json ?reg, 1)], bk_seq = 1\<rparr>"
  have v: "mem_view ?s ''a1'' = Some (Json ?reg, 1)" by (simp add: mem_view_def)
  have d: "fetchAgentCard (\<lambda>_. Inl []) (xa_Endpoint ex_external) = Inl (GetFailed [])" by (simp add: fetchAgentCard_def)
  let ?down = "\<lambda>_. Inl [] :: string + nat \<times> (string + AgentCard)"
  have "reg_Status ?reg \<noteq> StatusActive" "kr_UnhealthyThreshold (mem_registry 3 6 None) \<le> reg_MissedHeartbeats ?reg" "0 \<le> reg_MissedHeartbeats ?reg"
    "reg_MissedHeartbeats ?reg < 2 ^ 31 - 1" by (simp_all add: mem_registry_def)
  note polling_recovers_in_two [where r = "mem_registry 3 6 None" and view = mem_view and s = ?s and up = ex_get and down = ?down and t = 7,
      OF mem_agents.reliable_agents_axioms v this(1) ex_fetch d this(2-4)]
  then obtain r1 q1 where "mem_view (StartHealthPolling (mem_registry 3 6 None) ''a1'' (xa_Endpoint ex_external) [WakeTick ex_get 7] ?s) =
      (mem_view ?s)(''a1'' \<mapsto> (Json r1, q1))" "reg_Status r1 = StatusActive" "reg_MissedHeartbeats r1 = reg_MissedHeartbeats ?reg" by blast
  then show ?thesis by simp
qed

section \<open>Authentication\<close>

text \<open>Without the configured key no request changes anything, and the most it gets is the card.\<close>

lemma serve_needs_key:
  assumes "psk \<noteq> []" and "extractToken r \<noteq> psk"
  shows "snd (serve env de reg kv psk port r polls n) = n \<and>
    fst (serve env de reg kv psk port r polls n) \<in>
      range HttpCard \<union> {HttpError 500 ''internal error'', HttpError 405 ''Method Not Allowed'', HttpRpc (writeJSONRPC None (RpcError ErrCodeInvalidRequest ''unauthorized''))}"
  using assms by (auto simp: serve_def authMiddleware_def split: sum.split)

end
