(* ===== verification/Sidecar.thy ===== *)
theory Sidecar
  imports Sdk Watchers
begin

text \<open>
  The sidecar (\<open>sidecar\<close>), which lets agents in other languages take part over HTTP: managed agents with
  their streams of events, publication, and the translation of payloads. Managed agents and
  connections are shared between handlers, so they live in stores and are named by their address; a
  connection's goroutines are cut where they block. A send on a closed channel and the closing of
  one panic, which is the result \<open>None\<close>. JSON and its translation to protobuf are parameters.
\<close>

section \<open>Payload schemas\<close>

definition payloadSchemas :: "(string \<times> string) list" where
  "payloadSchemas = [(''agent.register'', ''AgentRegisterPayload''), (''agent.unregister'', ''AgentUnregisterPayload''),
     (''agent.error'', ''AgentErrorPayload''), (''agent.health.ping'', ''HealthPingPayload''), (''agent.health.pong'', ''HealthPongPayload''),
     (''agent.capability.announce'', ''CapabilityAnnouncePayload''), (''agent.discovery.request'', ''DiscoveryRequestPayload''),
     (''agent.discovery.response'', ''DiscoveryResponsePayload''), (''workflow.start'', ''WorkflowStartPayload''),
     (''workflow.step'', ''WorkflowStepPayload''), (''workflow.step.result'', ''WorkflowStepResultPayload''),
     (''workflow.complete'', ''WorkflowCompletePayload''), (''workflow.failed'', ''WorkflowFailedPayload''),
     (''workflow.state.request'', ''WorkflowStateRequestPayload''), (''workflow.state.response'', ''WorkflowStateResponsePayload''),
     (''human.decision.request'', ''HumanDecisionRequestPayload''), (''human.decision.response'', ''HumanDecisionResponsePayload''),
     (''decision.conflict'', ''DecisionConflictPayload''), (''decision.resolved'', ''DecisionResolvedPayload''),
     (''federation.node.register'', ''NodeRegisterPayload''), (''federation.node.unregister'', ''NodeUnregisterPayload''),
     (''federation.node.health.ping'', ''NodeHealthPingPayload''), (''federation.node.health.pong'', ''NodeHealthPongPayload''),
     (''federation.capability.announce'', ''FederationCapabilityPayload''), (''federation.capability.remove'', ''FederationCapabilityRemovePayload''),
     (''federation.relay'', ''FederationRelayPayload''), (''simulation.start'', ''SimulationStartPayload''),
     (''simulation.stop'', ''SimulationStopPayload''), (''simulation.inject_event'', ''SimulationInjectEventPayload''),
     (''simulation.replay.start'', ''SimulationReplayStartPayload''), (''simulation.replay.stop'', ''SimulationReplayStopPayload''),
     (''simulation.replay.complete'', ''SimulationReplayCompletePayload'')]"

type_synonym PayloadRegistry = "string \<rightharpoonup> string"

definition NewPayloadRegistry :: PayloadRegistry where
  "NewPayloadRegistry = map_of payloadSchemas"

definition normalizeEventType :: "string \<Rightarrow> string" where
  "normalizeEventType eventType =
     (if HasPrefix eventType ''workflow.''
      then (let rest = drop (length ''workflow.'') eventType in
            case IndexByte CHR ''.'' rest of
              None \<Rightarrow> eventType
            | Some dot \<Rightarrow> (let suffix = drop (dot + 1) rest in if HasPrefix suffix ''workflow.'' then suffix else eventType))
      else if HasPrefix eventType ''agent.direct.''
      then (let rest = drop (length ''agent.direct.'') eventType in
            case IndexByte CHR ''.'' rest of Some dot \<Rightarrow> drop (dot + 1) rest | None \<Rightarrow> eventType)
      else eventType)"

text \<open>The constructor of an empty message is the name of its type.\<close>

definition schema_New :: "PayloadRegistry \<Rightarrow> string \<Rightarrow> string option" where
  "schema_New r eventType = r (normalizeEventType eventType)"

definition schema_Has :: "PayloadRegistry \<Rightarrow> string \<Rightarrow> bool" where
  "schema_Has r eventType \<longleftrightarrow> r (normalizeEventType eventType) \<noteq> None"

text \<open>The two directions of the codec, by the type of the message; each may fail.\<close>

record ('j, 'b) json_codec =
  jc_toProto :: "string \<Rightarrow> 'j \<Rightarrow> 'b option"
  jc_toJSON :: "string \<Rightarrow> 'b \<Rightarrow> 'j option"

definition JSONToProto :: "('j, 'b) json_codec \<Rightarrow> PayloadRegistry \<Rightarrow> string \<Rightarrow> 'j \<Rightarrow> 'b option" where
  "JSONToProto jc r eventType json = Option.bind (schema_New r eventType) (\<lambda>msg. jc_toProto jc msg json)"

definition ProtoToJSON :: "('j, 'b) json_codec \<Rightarrow> PayloadRegistry \<Rightarrow> string \<Rightarrow> 'b \<Rightarrow> 'j option" where
  "ProtoToJSON jc r eventType data = Option.bind (schema_New r eventType) (\<lambda>msg. jc_toJSON jc msg data)"

section \<open>Types\<close>

datatype ManagedAgentState = ManagedAgentRegistering | ManagedAgentActive | ManagedAgentUnreachable | ManagedAgentDeregistered

text \<open>An event without content has no data.\<close>

record 'j sseEvent =
  se_ID :: string
  se_EventType :: string
  se_Data :: "'j option"

datatype 'j frame = ConnectedFrame string | EventFrame "'j sseEvent" | KeepaliveFrame

record 'j wsOutgoingMessage =
  wo_Type :: string
  wo_EventID :: string
  wo_EventType :: string
  wo_Payload :: "'j option"
  wo_Message :: string

record 'j wsMessage =
  wm_msgType :: string
  wm_data :: "'j wsOutgoingMessage"

record 'j wsIncomingMessage =
  wi_Type :: string
  wi_EventType :: string
  wi_Payload :: 'j
  wi_Metadata :: "string \<rightharpoonup> string"
  wi_EventID :: string

text \<open>
  A connection is the client the handler has created together with its goroutine: the agent it was
  opened for, by address, the channels, whether its subscription to the bus is in force, and what
  was written to the network.
\<close>

record 'j SSEClient =
  sn_ClientID :: string
  sn_AgentID :: string
  sn_ConnectedAt :: int
  sn_LastEventID :: string
  sn_Channel :: "'j sseEvent chan"
  sn_agent :: nat
  sn_sub :: bool
  sn_out :: "'j frame list"

record 'j WSClient =
  wn_ClientID :: string
  wn_AgentID :: string
  wn_ConnectedAt :: int
  wn_LastEventID :: string
  wn_send :: "'j wsMessage chan"
  wn_done :: bool
  wn_agent :: nat
  wn_sub :: bool
  wn_reading :: bool
  wn_writing :: bool
  wn_out :: "'j wsOutgoingMessage list"

text \<open>\<open>ma_ctxDone\<close> tells whether the context the SDK agent was started under has ended.\<close>

record 'b ManagedAgent =
  ma_AgentID :: string
  ma_Name :: string
  ma_AgentType :: string
  ma_Version :: string
  ma_Capabilities :: "sdk_Capability list"
  ma_Labels :: "(string \<times> string) list"
  ma_State :: ManagedAgentState
  ma_SDKAgent :: "'b Agent"
  ma_CallbackURL :: string
  ma_RegisteredAt :: int
  ma_LastActivity :: int
  ma_sseClients :: "(string \<times> nat) list"
  ma_wsClients :: "(string \<times> nat) list"
  ma_ctxDone :: bool

text \<open>
  The manager with the stores: \<open>sd_agents\<close> is the map of the registered agents, \<open>sd_unlinked\<close> those
  that a running \<open>Deregister\<close> has taken out of it but not yet closed.
\<close>

record ('j, 'b) AgentManager =
  sd_maxAgents :: int
  sd_agents :: "(string \<times> nat) list"
  sd_heap :: "'b ManagedAgent list"
  sd_unlinked :: "nat list"
  sd_sse :: "'j SSEClient list"
  sd_ws :: "'j WSClient list"
  sd_world :: "'b world"

definition NewAgentManager :: "int \<Rightarrow> 'b world \<Rightarrow> ('j, 'b) AgentManager" where
  "NewAgentManager maxAgents w = \<lparr>sd_maxAgents = maxAgents, sd_agents = [], sd_heap = [], sd_unlinked = [], sd_sse = [], sd_ws = [], sd_world = w\<rparr>"

record CapabilitySpec =
  cs_Name :: string
  cs_Version :: string
  cs_Description :: string
  cs_Parameters :: "string \<rightharpoonup> string"

record RegisterRequest =
  rr_AgentID :: string
  rr_Name :: string
  rr_AgentType :: string
  rr_Version :: string
  rr_Capabilities :: "CapabilitySpec list"
  rr_Labels :: "(string \<times> string) list"
  rr_CallbackURL :: string

record 'j PublishRequest =
  pr_EventType :: string
  pr_Payload :: 'j
  pr_Metadata :: "string \<rightharpoonup> string"

datatype manager_error = ErrAgentAlreadyExists | ErrAgentNotFound | ErrMaxAgentsReached | SdkError agent_error

section \<open>Connections of an agent\<close>

definition HasConnections :: "'b ManagedAgent \<Rightarrow> bool" where
  "HasConnections a \<longleftrightarrow> ma_sseClients a \<noteq> [] \<or> ma_wsClients a \<noteq> []"

definition checkLiveness :: "'b ManagedAgent \<Rightarrow> 'b ManagedAgent" where
  "checkLiveness a = (if ma_State a = ManagedAgentActive \<and> \<not> HasConnections a \<and> ma_CallbackURL a = []
     then a\<lparr>ma_State := ManagedAgentUnreachable\<rparr> else a)"

definition revive :: "'b ManagedAgent \<Rightarrow> 'b ManagedAgent" where
  "revive a = (if ma_State a = ManagedAgentUnreachable then a\<lparr>ma_State := ManagedAgentActive\<rparr> else a)"

definition AddSSEClient :: "string \<Rightarrow> nat \<Rightarrow> 'b ManagedAgent \<Rightarrow> 'b ManagedAgent" where
  "AddSSEClient clientID c a = revive (a\<lparr>ma_sseClients := AList.update clientID c (ma_sseClients a)\<rparr>)"

definition RemoveSSEClient :: "string \<Rightarrow> 'b ManagedAgent \<Rightarrow> 'b ManagedAgent" where
  "RemoveSSEClient clientID a = checkLiveness (a\<lparr>ma_sseClients := AList.delete clientID (ma_sseClients a)\<rparr>)"

definition AddWSClient :: "string \<Rightarrow> nat \<Rightarrow> 'b ManagedAgent \<Rightarrow> 'b ManagedAgent" where
  "AddWSClient clientID c a = revive (a\<lparr>ma_wsClients := AList.update clientID c (ma_wsClients a)\<rparr>)"

definition RemoveWSClient :: "string \<Rightarrow> 'b ManagedAgent \<Rightarrow> 'b ManagedAgent" where
  "RemoveWSClient clientID a = checkLiveness (a\<lparr>ma_wsClients := AList.delete clientID (ma_wsClients a)\<rparr>)"

definition on_agent :: "nat \<Rightarrow> ('b ManagedAgent \<Rightarrow> 'b ManagedAgent) \<Rightarrow> ('j, 'b) AgentManager \<Rightarrow> ('j, 'b) AgentManager" where
  "on_agent a f m = m\<lparr>sd_heap := (sd_heap m)[a := f (sd_heap m ! a)]\<rparr>"

text \<open>Both kinds of channel hold 32 values; a full one is skipped.\<close>

definition enqueue :: "'v \<Rightarrow> 'v chan \<Rightarrow> 'v chan" where
  "enqueue v ch = (if length (ch_buf ch) < 32 then ch\<lparr>ch_buf := ch_buf ch @ [v]\<rparr> else ch)"

fun FanOutSSE :: "'j sseEvent \<Rightarrow> (string \<times> nat) list \<Rightarrow> 'j SSEClient list \<Rightarrow> 'j SSEClient list option" where
  "FanOutSSE evt [] cs = Some cs"
| "FanOutSSE evt ((_, i) # clients) cs =
     (if ch_closed (sn_Channel (cs ! i)) then None
      else FanOutSSE evt clients (cs[i := (cs ! i)\<lparr>sn_Channel := enqueue evt (sn_Channel (cs ! i))\<rparr>]))"

text \<open>The channel of a WebSocket client is never closed.\<close>

fun FanOutWS :: "'j wsMessage \<Rightarrow> (string \<times> nat) list \<Rightarrow> 'j WSClient list \<Rightarrow> 'j WSClient list" where
  "FanOutWS msg [] cs = cs"
| "FanOutWS msg ((_, i) # clients) cs = FanOutWS msg clients (cs[i := (cs ! i)\<lparr>wn_send := enqueue msg (wn_send (cs ! i))\<rparr>])"

section \<open>The agent manager\<close>

text \<open>Steps are meant for the external agent, so the handler of the SDK agent returns nothing at once.\<close>

definition noop :: "'b services \<Rightarrow> 'b StepHandler" where
  "noop sv = (\<lambda>_ _. Returned (sv_nil sv) None)"

definition spec_cap :: "CapabilitySpec \<Rightarrow> sdk_Capability" where
  "spec_cap c = \<lparr>sc_Name = cs_Name c, sc_Version = cs_Version c, sc_Description = cs_Description c, sc_Parameters = cs_Parameters c,
     sc_Category = [], sc_Action = [], sc_InputTypes = [], sc_OutputTypes = []\<rparr>"

definition manager_Register :: "'b services \<Rightarrow> RegisterRequest \<Rightarrow> ('j, 'b) AgentManager \<Rightarrow> (manager_error + nat) \<times> ('j, 'b) AgentManager" where
  "manager_Register sv req m =
     (if map_of (sd_agents m) (rr_AgentID req) \<noteq> None then (Inl ErrAgentAlreadyExists, m)
      else if sd_maxAgents m \<le> int (length (sd_agents m)) then (Inl ErrMaxAgentsReached, m)
      else
        (let caps = map spec_cap (rr_Capabilities req);
             opts = [WithEventBus True] @ (if rr_Labels req \<noteq> [] then [WithLabels (map_of (rr_Labels req))] else [])
         in case NewWithID (rr_AgentID req) (rr_Name req) (rr_AgentType req) (rr_Version req) opts of
              Inl err \<Rightarrow> (Inl (SdkError err), m)
            | Inr sdkAgent \<Rightarrow>
                (case sdk_Start sv (\<lambda>_. False) (fold (\<lambda>c. Handle c (noop sv)) caps sdkAgent) (sd_world m) of
                   (Some err, _, w1) \<Rightarrow> (Inl (SdkError err), m\<lparr>sd_world := w1\<rparr>)
                 | (None, started, w1) \<Rightarrow>
                     (let (t1, w2) = time_now sv w1; (t2, w3) = time_now sv w2;
                          ma = \<lparr>ma_AgentID = rr_AgentID req, ma_Name = rr_Name req, ma_AgentType = rr_AgentType req, ma_Version = rr_Version req,
                            ma_Capabilities = caps, ma_Labels = rr_Labels req, ma_State = ManagedAgentActive, ma_SDKAgent = started,
                            ma_CallbackURL = rr_CallbackURL req, ma_RegisteredAt = t1, ma_LastActivity = t2, ma_sseClients = [], ma_wsClients = [],
                            ma_ctxDone = False\<rparr>
                      in (Inr (length (sd_heap m)), m\<lparr>sd_world := w3, sd_heap := sd_heap m @ [ma],
                            sd_agents := AList.update (rr_AgentID req) (length (sd_heap m)) (sd_agents m)\<rparr>)))))"

fun closeSSE :: "(string \<times> nat) list \<Rightarrow> 'j SSEClient list \<Rightarrow> 'j SSEClient list option" where
  "closeSSE [] cs = Some cs"
| "closeSSE ((_, i) # clients) cs =
     (if ch_closed (sn_Channel (cs ! i)) then None
      else closeSSE clients (cs[i := (cs ! i)\<lparr>sn_Channel := (sn_Channel (cs ! i))\<lparr>ch_closed := True\<rparr>\<rparr>]))"

fun closeWS :: "(string \<times> nat) list \<Rightarrow> 'j WSClient list \<Rightarrow> 'j WSClient list" where
  "closeWS [] cs = cs"
| "closeWS ((_, i) # clients) cs = closeWS clients (cs[i := (cs ! i)\<lparr>wn_done := True\<rparr>])"

text \<open>\<open>Deregister\<close> takes the agent out of the map under one lock and closes it under another.\<close>

definition Deregister_unlink :: "string \<Rightarrow> ('j, 'b) AgentManager \<Rightarrow> manager_error option \<times> ('j, 'b) AgentManager" where
  "Deregister_unlink agentID m =
     (case map_of (sd_agents m) agentID of
        None \<Rightarrow> (Some ErrAgentNotFound, m)
      | Some a \<Rightarrow> (None, m\<lparr>sd_agents := AList.delete agentID (sd_agents m), sd_unlinked := a # sd_unlinked m\<rparr>))"

definition Deregister_close :: "nat \<Rightarrow> ('j, 'b) AgentManager \<Rightarrow> ('j, 'b) AgentManager option" where
  "Deregister_close a m =
     (let ma = sd_heap m ! a in
      map_option (\<lambda>cs. m\<lparr>sd_sse := cs, sd_ws := closeWS (ma_wsClients ma) (sd_ws m), sd_unlinked := remove1 a (sd_unlinked m),
          sd_heap := (sd_heap m)[a := ma\<lparr>ma_State := ManagedAgentDeregistered, ma_sseClients := [], ma_wsClients := [],
            ma_ctxDone := True, ma_SDKAgent := beginStop (ma_SDKAgent ma)\<rparr>]\<rparr>)
        (closeSSE (ma_sseClients ma) (sd_sse m)))"

text \<open>The end of \<open>Stop\<close>: the agent's goroutines have finished or the time is up.\<close>

definition Deregister_stop :: "'b services \<Rightarrow> nat \<Rightarrow> ('j, 'b) AgentManager \<Rightarrow> ('j, 'b) AgentManager" where
  "Deregister_stop sv a m =
     (let ma = sd_heap m ! a in
      if ag_state (ma_SDKAgent ma) \<noteq> AgentStateStopping then m
      else (let (sdkAgent, w) = finishStop sv (ma_SDKAgent ma) (sd_world m)
            in m\<lparr>sd_world := w, sd_heap := (sd_heap m)[a := ma\<lparr>ma_SDKAgent := sdkAgent\<rparr>]\<rparr>))"

definition manager_Deregister :: "'b services \<Rightarrow> string \<Rightarrow> ('j, 'b) AgentManager \<Rightarrow> (manager_error option \<times> ('j, 'b) AgentManager) option" where
  "manager_Deregister sv agentID m =
     (case map_of (sd_agents m) agentID of
        None \<Rightarrow> Some (Some ErrAgentNotFound, m)
      | Some a \<Rightarrow> map_option (\<lambda>m1. (None, Deregister_stop sv a m1)) (Deregister_close a (snd (Deregister_unlink agentID m))))"

definition manager_Get :: "string \<Rightarrow> ('j, 'b) AgentManager \<Rightarrow> nat option" where
  "manager_Get agentID m = map_of (sd_agents m) agentID"

definition Count :: "('j, 'b) AgentManager \<Rightarrow> nat" where
  "Count m = length (sd_agents m)"

text \<open>The identifiers are read first, each agent is then deregistered if it is still there.\<close>

fun stopEach :: "'b services \<Rightarrow> string list \<Rightarrow> ('j, 'b) AgentManager \<Rightarrow> ('j, 'b) AgentManager option" where
  "stopEach sv [] m = Some m"
| "stopEach sv (i # agentIDs) m = Option.bind (manager_Deregister sv i m) (\<lambda>(_, m1). stopEach sv agentIDs m1)"

definition StopAll :: "'b services \<Rightarrow> ('j, 'b) AgentManager \<Rightarrow> ('j, 'b) AgentManager option" where
  "StopAll sv m = stopEach sv (map fst (sd_agents m)) m"


section \<open>Requests of external agents\<close>

datatype answer = ErrorAnswer nat string string | RegisteredAnswer string int | DeregisteredAnswer string | AcceptedAnswer string
  | AcknowledgedAnswer | HealthAnswer nat int | NoContentAnswer

text \<open>
  The context of a request ends when its handler returns, and with it the context the SDK agent was
  started under. The texts of internal errors are left out.
\<close>

definition registerAnswer :: "'b services \<Rightarrow> RegisterRequest \<Rightarrow> ('j, 'b) AgentManager \<Rightarrow> answer \<times> ('j, 'b) AgentManager" where
  "registerAnswer sv req m =
     (case manager_Register sv req m of
        (Inl ErrAgentAlreadyExists, m1) \<Rightarrow> (ErrorAnswer 409 ''AGENT_CONFLICT'' ''an agent with this ID is already registered'', m1)
      | (Inl ErrMaxAgentsReached, m1) \<Rightarrow> (ErrorAnswer 503 ''SERVICE_UNAVAILABLE'' ''maximum concurrent agent limit reached'', m1)
      | (Inl _, m1) \<Rightarrow> (ErrorAnswer 500 ''INTERNAL_ERROR'' [], m1)
      | (Inr a, m1) \<Rightarrow> (RegisteredAnswer (ma_AgentID (sd_heap m1 ! a)) (ma_RegisteredAt (sd_heap m1 ! a)),
          on_agent a (\<lambda>ma. ma\<lparr>ma_ctxDone := True\<rparr>) m1))"

text \<open>A body that is not valid JSON is \<open>None\<close>.\<close>

definition sidecar_handleRegister :: "'b services \<Rightarrow> RegisterRequest option \<Rightarrow> ('j, 'b) AgentManager \<Rightarrow> answer \<times> ('j, 'b) AgentManager" where
  "sidecar_handleRegister sv body m =
     (case body of
        None \<Rightarrow> (ErrorAnswer 400 ''INVALID_REQUEST'' ''invalid JSON body'', m)
      | Some req \<Rightarrow>
          if rr_Name req = [] then (ErrorAnswer 400 ''MISSING_FIELD'' ''name is required'', m)
          else if rr_AgentType req = [] then (ErrorAnswer 400 ''MISSING_FIELD'' ''agent_type is required'', m)
          else if rr_Version req = [] then (ErrorAnswer 400 ''MISSING_FIELD'' ''version is required'', m)
          else if rr_AgentID req = []
          then (let (uid, w) = new_uuid sv (sd_world m) in registerAnswer sv (req\<lparr>rr_AgentID := uid\<rparr>) (m\<lparr>sd_world := w\<rparr>))
          else registerAnswer sv req m)"

definition handleDeregister :: "'b services \<Rightarrow> string \<Rightarrow> ('j, 'b) AgentManager \<Rightarrow> (answer \<times> ('j, 'b) AgentManager) option" where
  "handleDeregister sv agentID m =
     (if agentID = [] then Some (ErrorAnswer 400 ''MISSING_FIELD'' ''agent ID is required'', m)
      else map_option (\<lambda>(err, m1). (case err of None \<Rightarrow> DeregisteredAnswer agentID | Some _ \<Rightarrow> ErrorAnswer 404 ''AGENT_NOT_FOUND'' ''agent not found'', m1))
        (manager_Deregister sv agentID m))"

text \<open>The event of a publication; its identifier and time are drawn first.\<close>

definition published_event :: "string \<Rightarrow> int \<Rightarrow> string \<Rightarrow> string \<Rightarrow> (string \<rightharpoonup> string) \<Rightarrow> 'b \<Rightarrow> 'b event" where
  "published_event uid ts eventType agentID metadata data = (zero_event data)\<lparr>ev_ID := uid, ev_Type := eventType, ev_SourceAgent := agentID,
     ev_Timestamp := ts, ev_Metadata := metadata\<rparr>"

definition touch_agent :: "'b services \<Rightarrow> nat \<Rightarrow> ('j, 'b) AgentManager \<Rightarrow> ('j, 'b) AgentManager" where
  "touch_agent sv a m = (let (ts, w) = time_now sv (sd_world m) in on_agent a (\<lambda>ma. ma\<lparr>ma_LastActivity := ts\<rparr>) (m\<lparr>sd_world := w\<rparr>))"

text \<open>The part of the handler after the payload has been translated.\<close>

definition publication :: "string \<Rightarrow> int \<Rightarrow> string \<Rightarrow> 'j PublishRequest \<Rightarrow> 'b \<Rightarrow> 'b event" where
  "publication uid ts agentID req data =
     (let event = published_event uid ts (pr_EventType req) agentID (pr_Metadata req) data
      in case pr_Metadata req ''target_agent'' of
           Some v \<Rightarrow> event\<lparr>ev_TargetAgent := v, ev_Metadata := (pr_Metadata req)(''target_agent'' := None)\<rparr>
         | None \<Rightarrow> event)"

definition publishRequest :: "'b services \<Rightarrow> string \<Rightarrow> nat \<Rightarrow> 'j PublishRequest \<Rightarrow> 'b \<Rightarrow> ('j, 'b) AgentManager \<Rightarrow> answer \<times> ('j, 'b) AgentManager" where
  "publishRequest sv agentID a req data m =
     (let (uid, w1) = new_uuid sv (sd_world m); (ts, w2) = time_now sv w1;
          m1 = touch_agent sv a (m\<lparr>sd_world := w2\<rparr>);
          (ok, w3) = bus_publish sv (publication uid ts agentID req data) (sd_world m1)
      in (if ok then AcceptedAnswer uid else ErrorAnswer 500 ''INTERNAL_ERROR'' [], m1\<lparr>sd_world := w3\<rparr>))"

definition handlePublish :: "'b services \<Rightarrow> ('j, 'b) json_codec \<Rightarrow> PayloadRegistry \<Rightarrow> string \<Rightarrow> 'j PublishRequest option \<Rightarrow> ('j, 'b) AgentManager \<Rightarrow>
    answer \<times> ('j, 'b) AgentManager" where
  "handlePublish sv jc reg agentID body m =
     (if agentID = [] then (ErrorAnswer 400 ''MISSING_FIELD'' ''agent ID is required'', m)
      else case manager_Get agentID m of
        None \<Rightarrow> (ErrorAnswer 404 ''NOT_FOUND'' ''agent not found'', m)
      | Some a \<Rightarrow>
          (case body of
             None \<Rightarrow> (ErrorAnswer 400 ''INVALID_REQUEST'' ''invalid JSON body'', m)
           | Some req \<Rightarrow>
               if pr_EventType req = [] then (ErrorAnswer 400 ''MISSING_FIELD'' ''event_type is required'', m)
               else if \<not> schema_Has reg (pr_EventType req)
               then (ErrorAnswer 400 ''UNKNOWN_EVENT_TYPE'' (''event type not registered in payload schema: '' @ pr_EventType req), m)
               else
                 (case JSONToProto jc reg (pr_EventType req) (pr_Payload req) of
                    None \<Rightarrow> (ErrorAnswer 422 ''PAYLOAD_SCHEMA_MISMATCH'' ''payload does not match schema for event type'', m)
                  | Some data \<Rightarrow> publishRequest sv agentID a req data m)))"

definition handleAck :: "string \<Rightarrow> string option \<Rightarrow> ('j, 'b) AgentManager \<Rightarrow> answer" where
  "handleAck agentID body m =
     (if agentID = [] then ErrorAnswer 400 ''MISSING_FIELD'' ''agent ID is required''
      else if manager_Get agentID m = None then ErrorAnswer 404 ''NOT_FOUND'' ''agent not found''
      else case body of
        None \<Rightarrow> ErrorAnswer 400 ''INVALID_REQUEST'' ''invalid JSON body''
      | Some deliveryID \<Rightarrow> if deliveryID = [] then ErrorAnswer 400 ''MISSING_FIELD'' ''delivery_id is required'' else AcknowledgedAnswer)"

definition handleHealth :: "('j, 'b) AgentManager \<Rightarrow> answer" where
  "handleHealth m = HealthAnswer (Count m) (sd_maxAgents m)"

section \<open>Server-sent events\<close>

definition bus_subscribe :: "'b services \<Rightarrow> string \<Rightarrow> ('j, 'b) AgentManager \<Rightarrow> bool \<times> ('j, 'b) AgentManager" where
  "bus_subscribe sv subject m = (let w = sd_world m in (sv_subscribe sv (w_attempts w) subject, m\<lparr>sd_world := w\<lparr>w_attempts := Suc (w_attempts w)\<rparr>\<rparr>))"

text \<open>
  The handler after it has looked up its agent, up to its loop. The lookup is separate, since the
  agent may be deregistered in between.
\<close>

definition openSSE :: "'b services \<Rightarrow> string \<Rightarrow> nat \<Rightarrow> string \<Rightarrow> ('j, 'b) AgentManager \<Rightarrow> answer option \<times> ('j, 'b) AgentManager" where
  "openSSE sv agentID a lastEventID m =
     (let (uid, w1) = new_uuid sv (sd_world m); (ts, w2) = time_now sv w1; i = length (sd_sse m);
          client = \<lparr>sn_ClientID = uid, sn_AgentID = agentID, sn_ConnectedAt = ts, sn_LastEventID = lastEventID,
            sn_Channel = \<lparr>ch_buf = [], ch_closed = False\<rparr>, sn_agent = a, sn_sub = False, sn_out = []\<rparr>;
          m1 = on_agent a (AddSSEClient uid i) (m\<lparr>sd_world := w2, sd_sse := sd_sse m @ [client]\<rparr>);
          (ok, m2) = bus_subscribe sv (directSubject agentID) m1
      in if \<not> ok then (Some (ErrorAnswer 500 ''INTERNAL_ERROR'' ''failed to subscribe to events''), on_agent a (RemoveSSEClient uid) m2)
         else (None, m2\<lparr>sd_sse := (sd_sse m2)[i := client\<lparr>sn_sub := True, sn_out := [ConnectedFrame agentID]\<rparr>]\<rparr>))"

definition handleSubscribeSSE :: "'b services \<Rightarrow> string \<Rightarrow> bool \<Rightarrow> string \<Rightarrow> ('j, 'b) AgentManager \<Rightarrow> answer option \<times> ('j, 'b) AgentManager" where
  "handleSubscribeSSE sv agentID flusher lastEventID m =
     (if agentID = [] then (Some (ErrorAnswer 400 ''MISSING_FIELD'' ''agent ID is required''), m)
      else case manager_Get agentID m of
        None \<Rightarrow> (Some (ErrorAnswer 404 ''NOT_FOUND'' ''agent not found''), m)
      | Some a \<Rightarrow> if \<not> flusher then (Some (ErrorAnswer 500 ''INTERNAL_ERROR'' ''streaming not supported''), m) else openSSE sv agentID a lastEventID m)"

text \<open>What the subscription of connection \<open>i\<close> does with an event.\<close>

definition sseCallback :: "('j, 'b) json_codec \<Rightarrow> PayloadRegistry \<Rightarrow> nat \<Rightarrow> 'b event \<Rightarrow> ('j, 'b) AgentManager \<Rightarrow> ('j, 'b) AgentManager option" where
  "sseCallback jc reg i event m =
     (let normalizedType = normalizeEventType (ev_Type event) in
      case ProtoToJSON jc reg normalizedType (ev_Payload event) of
        None \<Rightarrow> Some m
      | Some json \<Rightarrow> map_option (\<lambda>cs. m\<lparr>sd_sse := cs\<rparr>)
          (FanOutSSE \<lparr>se_ID = ev_ID event, se_EventType = normalizedType, se_Data = Some json\<rparr> (ma_sseClients (sd_heap m ! sn_agent (sd_sse m ! i))) (sd_sse m)))"

text \<open>
  One turn of the loop, by the channel that is ready: the context has ended, the client's channel has
  an event or is closed, or the ticker has fired. A closed channel yields the empty event.
\<close>

datatype sse_wake = SseDone | SseChannel | SseTick

definition sseLoop :: "nat \<Rightarrow> sse_wake \<Rightarrow> ('j, 'b) AgentManager \<Rightarrow> ('j, 'b) AgentManager" where
  "sseLoop i wk m =
     (let c = sd_sse m ! i; write = (\<lambda>evt ch. m\<lparr>sd_sse := (sd_sse m)[i := c\<lparr>sn_Channel := ch, sn_out := sn_out c @ [EventFrame evt], sn_LastEventID := se_ID evt\<rparr>]\<rparr>) in
      if \<not> sn_sub c then m
      else case wk of
        SseDone \<Rightarrow> on_agent (sn_agent c) (RemoveSSEClient (sn_ClientID c)) (m\<lparr>sd_sse := (sd_sse m)[i := c\<lparr>sn_sub := False\<rparr>]\<rparr>)
      | SseChannel \<Rightarrow>
          (case ch_buf (sn_Channel c) of
             evt # rest \<Rightarrow> write evt ((sn_Channel c)\<lparr>ch_buf := rest\<rparr>)
           | [] \<Rightarrow> if ch_closed (sn_Channel c) then write \<lparr>se_ID = [], se_EventType = [], se_Data = None\<rparr> (sn_Channel c) else m)
      | SseTick \<Rightarrow> m\<lparr>sd_sse := (sd_sse m)[i := c\<lparr>sn_out := sn_out c @ [KeepaliveFrame]\<rparr>]\<rparr>)"

section \<open>WebSockets\<close>

datatype ws_error = WsNoEventType | WsUnknownType string | WsUntranslatable | WsPublishFailed

definition wsPublish :: "'b services \<Rightarrow> ('j, 'b) json_codec \<Rightarrow> PayloadRegistry \<Rightarrow> string \<Rightarrow> 'j wsIncomingMessage \<Rightarrow> ('j, 'b) AgentManager \<Rightarrow>
    ws_error option \<times> ('j, 'b) AgentManager" where
  "wsPublish sv jc reg agentID msg m =
     (if wi_EventType msg = [] then (Some WsNoEventType, m)
      else if \<not> schema_Has reg (wi_EventType msg) then (Some (WsUnknownType (wi_EventType msg)), m)
      else
        (case JSONToProto jc reg (wi_EventType msg) (wi_Payload msg) of
           None \<Rightarrow> (Some WsUntranslatable, m)
         | Some data \<Rightarrow>
             (let (uid, w1) = new_uuid sv (sd_world m); (ts, w2) = time_now sv w1;
                  event = published_event uid ts (wi_EventType msg) agentID (wi_Metadata msg) data;
                  event' = (case wi_Metadata msg ''target_agent'' of Some v \<Rightarrow> event\<lparr>ev_TargetAgent := v\<rparr> | None \<Rightarrow> event);
                  (ok, w3) = bus_publish sv event' w2
              in (if ok then None else Some WsPublishFailed, m\<lparr>sd_world := w3\<rparr>))))"

definition ws_text :: "string \<Rightarrow> 'j wsOutgoingMessage" where
  "ws_text s = \<lparr>wo_Type = ''error'', wo_EventID = [], wo_EventType = [], wo_Payload = None, wo_Message = s\<rparr>"

definition openWS :: "'b services \<Rightarrow> string \<Rightarrow> nat \<Rightarrow> string \<Rightarrow> ('j, 'b) AgentManager \<Rightarrow> ('j, 'b) AgentManager" where
  "openWS sv agentID a lastEventID m =
     (let (uid, w1) = new_uuid sv (sd_world m); (ts, w2) = time_now sv w1; i = length (sd_ws m);
          client = \<lparr>wn_ClientID = uid, wn_AgentID = agentID, wn_ConnectedAt = ts, wn_LastEventID = lastEventID,
            wn_send = \<lparr>ch_buf = [], ch_closed = False\<rparr>, wn_done = False, wn_agent = a, wn_sub = False, wn_reading = False, wn_writing = False, wn_out = []\<rparr>;
          m1 = on_agent a (AddWSClient uid i) (m\<lparr>sd_world := w2, sd_ws := sd_ws m @ [client]\<rparr>);
          (ok, m2) = bus_subscribe sv (directSubject agentID) m1
      in if \<not> ok then on_agent a (RemoveWSClient uid) (m2\<lparr>sd_ws := (sd_ws m2)[i := client\<lparr>wn_done := True\<rparr>]\<rparr>)
         else m2\<lparr>sd_ws := (sd_ws m2)[i := client\<lparr>wn_sub := True, wn_reading := True, wn_writing := True,
           wn_out := [\<lparr>wo_Type = ''connected'', wo_EventID = [], wo_EventType = [], wo_Payload = None, wo_Message = ''agent_id='' @ agentID\<rparr>]\<rparr>]\<rparr>)"

definition handleWebSocket :: "'b services \<Rightarrow> string \<Rightarrow> bool \<Rightarrow> string \<Rightarrow> ('j, 'b) AgentManager \<Rightarrow> answer option \<times> ('j, 'b) AgentManager" where
  "handleWebSocket sv agentID upgraded lastEventID m =
     (if agentID = [] then (Some (ErrorAnswer 400 ''MISSING_FIELD'' ''agent ID is required''), m)
      else case manager_Get agentID m of
        None \<Rightarrow> (Some (ErrorAnswer 404 ''NOT_FOUND'' ''agent not found''), m)
      | Some a \<Rightarrow> (None, if \<not> upgraded then m else openWS sv agentID a lastEventID m))"

definition wsCallback :: "('j, 'b) json_codec \<Rightarrow> PayloadRegistry \<Rightarrow> nat \<Rightarrow> 'b event \<Rightarrow> ('j, 'b) AgentManager \<Rightarrow> ('j, 'b) AgentManager" where
  "wsCallback jc reg i event m =
     (let normalizedType = normalizeEventType (ev_Type event) in
      case ProtoToJSON jc reg normalizedType (ev_Payload event) of
        None \<Rightarrow> m
      | Some json \<Rightarrow> m\<lparr>sd_ws := FanOutWS \<lparr>wm_msgType = ''event'', wm_data = \<lparr>wo_Type = ''event'', wo_EventID = ev_ID event, wo_EventType = normalizedType,
            wo_Payload = Some json, wo_Message = []\<rparr>\<rparr> (ma_wsClients (sd_heap m ! wn_agent (sd_ws m ! i))) (sd_ws m)\<rparr>)"

text \<open>The write loop, by the channel that is ready; its ticker only pings.\<close>

datatype ws_wake = WsCtxDone | WsDone | WsSend | WsTick

definition wsWrite :: "nat \<Rightarrow> ws_wake \<Rightarrow> ('j, 'b) AgentManager \<Rightarrow> ('j, 'b) AgentManager" where
  "wsWrite i wk m =
     (let c = sd_ws m ! i; put = (\<lambda>c'. m\<lparr>sd_ws := (sd_ws m)[i := c']\<rparr>) in
      if \<not> wn_writing c then m
      else case wk of
        WsCtxDone \<Rightarrow> if wn_reading c then m else put (c\<lparr>wn_writing := False\<rparr>)
      | WsDone \<Rightarrow> if wn_done c then put (c\<lparr>wn_writing := False\<rparr>) else m
      | WsSend \<Rightarrow>
          (case ch_buf (wn_send c) of
             [] \<Rightarrow> m
           | msg # rest \<Rightarrow> put (c\<lparr>wn_send := (wn_send c)\<lparr>ch_buf := rest\<rparr>, wn_out := wn_out c @ [wm_data msg]\<rparr>))
      | WsTick \<Rightarrow> m)"

text \<open>One message read, or the error that ends the loop and runs the deferred calls.\<close>

definition wsRead :: "'b services \<Rightarrow> ('j, 'b) json_codec \<Rightarrow> (ws_error \<Rightarrow> string) \<Rightarrow> PayloadRegistry \<Rightarrow> nat \<Rightarrow> 'j wsIncomingMessage option \<Rightarrow>
    ('j, 'b) AgentManager \<Rightarrow> ('j, 'b) AgentManager" where
  "wsRead sv jc tx reg i input m =
     (let c = sd_ws m ! i; reply = (\<lambda>s m. m\<lparr>sd_ws := (sd_ws m)[i := (sd_ws m ! i)\<lparr>wn_out := wn_out (sd_ws m ! i) @ [ws_text s]\<rparr>]\<rparr>) in
      if \<not> wn_reading c then m
      else case input of
        None \<Rightarrow> on_agent (wn_agent c) (RemoveWSClient (wn_ClientID c)) (m\<lparr>sd_ws := (sd_ws m)[i := c\<lparr>wn_reading := False, wn_sub := False, wn_done := True\<rparr>]\<rparr>)
      | Some msg \<Rightarrow>
          (let m1 = touch_agent sv (wn_agent c) m in
           if wi_Type msg = ''publish''
           then (case wsPublish sv jc reg (wn_AgentID c) msg m1 of (None, m2) \<Rightarrow> m2 | (Some err, m2) \<Rightarrow> reply (tx err) m2)
           else if wi_Type msg = ''ack'' then m1
           else reply (''unknown message type: '' @ wi_Type msg) m1))"

section \<open>The SDK agents\<close>

text \<open>
  Pings are answered by the SDK agent under the context it was started with; steps run under a
  context of their own. A publication under a context that has ended is refused.
\<close>

definition managed_ping :: "'b services \<Rightarrow> nat \<Rightarrow> 'b event \<Rightarrow> ('j, 'b) AgentManager \<Rightarrow> ('j, 'b) AgentManager" where
  "managed_ping sv a event m =
     (let ma = sd_heap m ! a; sv' = (if ma_ctxDone ma then sv\<lparr>sv_bus := \<lambda>_ _. False\<rparr> else sv)
      in m\<lparr>sd_world := handlePing sv' (ma_SDKAgent ma) event (sd_world m)\<rparr>)"

definition managed_dispatch :: "'b services \<Rightarrow> nat \<Rightarrow> 'b event \<Rightarrow> ('j, 'b) AgentManager \<Rightarrow> ('j, 'b) AgentManager" where
  "managed_dispatch sv a event m = on_agent a (\<lambda>ma. ma\<lparr>ma_SDKAgent := sdk_dispatchStep sv event (ma_SDKAgent ma)\<rparr>) m"

definition managed_work :: "'b services \<Rightarrow> nat \<Rightarrow> nat \<Rightarrow> ('j, 'b) AgentManager \<Rightarrow> ('j, 'b) AgentManager" where
  "managed_work sv a i m =
     (let (ag, w) = run_step sv i (ma_SDKAgent (sd_heap m ! a)) (sd_world m)
      in on_agent a (\<lambda>ma. ma\<lparr>ma_SDKAgent := ag\<rparr>) (m\<lparr>sd_world := w\<rparr>))"

section \<open>Authentication\<close>

definition bearerToken :: "string \<Rightarrow> string \<Rightarrow> string" where
  "bearerToken authorization query = (if HasPrefix authorization ''Bearer '' then drop (length ''Bearer '') authorization else query)"

text \<open>Preflight requests are answered before the key is asked for.\<close>

definition guarded :: "string \<Rightarrow> bool \<Rightarrow> string \<Rightarrow> (('j, 'b) AgentManager \<Rightarrow> answer \<times> ('j, 'b) AgentManager) \<Rightarrow> ('j, 'b) AgentManager \<Rightarrow>
    answer \<times> ('j, 'b) AgentManager" where
  "guarded psk preflight token h m =
     (if preflight then (NoContentAnswer, m)
      else if psk \<noteq> [] \<and> token \<noteq> psk then (ErrorAnswer 401 ''UNAUTHORIZED'' ''invalid or missing authentication token'', m)
      else h m)"

end
