(* ===== verification/SidecarProps.thy ===== *)
theory SidecarProps
  imports Sidecar
begin

text \<open>
  Properties of the sidecar: what holds in every interleaving of its handlers, connections and agents,
  in particular that no channel is closed twice or sent on after it was closed; that a publication
  reaches the streams of its target with its content; and where events are delivered too often, not
  at all, or without end.
\<close>

section \<open>Runs of the sidecar\<close>

text \<open>
  Everything that may happen, one step at a time. A connection is opened for any agent that has ever
  been registered, since the lookup may be long past.
\<close>

inductive sidecar_step :: "'b services \<Rightarrow> ('j, 'b) json_codec \<Rightarrow> (ws_error \<Rightarrow> string) \<Rightarrow> PayloadRegistry \<Rightarrow>
    ('j, 'b) AgentManager \<Rightarrow> ('j, 'b) AgentManager \<Rightarrow> bool" for sv jc tx reg where
  ss_register: "sidecar_step sv jc tx reg m (snd (sidecar_handleRegister sv body m))"
| ss_unlink: "sidecar_step sv jc tx reg m (snd (Deregister_unlink agentID m))"
| ss_close: "a \<in> set (sd_unlinked m) \<Longrightarrow> Deregister_close a m = Some m' \<Longrightarrow> sidecar_step sv jc tx reg m m'"
| ss_stop: "a < length (sd_heap m) \<Longrightarrow> sidecar_step sv jc tx reg m (Deregister_stop sv a m)"
| ss_publish: "sidecar_step sv jc tx reg m (snd (handlePublish sv jc reg agentID pbody m))"
| ss_open_sse: "a < length (sd_heap m) \<Longrightarrow> sidecar_step sv jc tx reg m (snd (openSSE sv (ma_AgentID (sd_heap m ! a)) a l m))"
| ss_sse_event: "i < length (sd_sse m) \<Longrightarrow> sn_sub (sd_sse m ! i) \<Longrightarrow> sseCallback jc reg i event m = Some m' \<Longrightarrow> sidecar_step sv jc tx reg m m'"
| ss_sse_loop: "i < length (sd_sse m) \<Longrightarrow> sidecar_step sv jc tx reg m (sseLoop i swk m)"
| ss_open_ws: "a < length (sd_heap m) \<Longrightarrow> sidecar_step sv jc tx reg m (openWS sv (ma_AgentID (sd_heap m ! a)) a l m)"
| ss_ws_event: "i < length (sd_ws m) \<Longrightarrow> wn_sub (sd_ws m ! i) \<Longrightarrow> sidecar_step sv jc tx reg m (wsCallback jc reg i event m)"
| ss_ws_write: "i < length (sd_ws m) \<Longrightarrow> sidecar_step sv jc tx reg m (wsWrite i wk m)"
| ss_ws_read: "i < length (sd_ws m) \<Longrightarrow> sidecar_step sv jc tx reg m (wsRead sv jc tx reg i input m)"
| ss_ping: "a < length (sd_heap m) \<Longrightarrow> sidecar_step sv jc tx reg m (managed_ping sv a event m)"
| ss_dispatch: "a < length (sd_heap m) \<Longrightarrow> sidecar_step sv jc tx reg m (managed_dispatch sv a event m)"
| ss_work: "a < length (sd_heap m) \<Longrightarrow> sidecar_step sv jc tx reg m (managed_work sv a i m)"

section \<open>The invariant\<close>

text \<open>
  The clients listed by an agent are connections of that agent, under their own identifiers, and
  still open; an unreachable agent has none.
\<close>

definition agent_ok :: "'j SSEClient list \<Rightarrow> 'j WSClient list \<Rightarrow> nat \<Rightarrow> 'b ManagedAgent \<Rightarrow> bool" where
  "agent_ok ss ws a ma \<longleftrightarrow>
     distinct (map fst (ma_sseClients ma)) \<and> distinct (map fst (ma_wsClients ma)) \<and>
     (\<forall>cid i. (cid, i) \<in> set (ma_sseClients ma) \<longrightarrow>
        i < length ss \<and> sn_agent (ss ! i) = a \<and> sn_ClientID (ss ! i) = cid \<and> \<not> ch_closed (sn_Channel (ss ! i))) \<and>
     (\<forall>cid i. (cid, i) \<in> set (ma_wsClients ma) \<longrightarrow>
        i < length ws \<and> wn_agent (ws ! i) = a \<and> wn_ClientID (ws ! i) = cid \<and> \<not> wn_done (ws ! i)) \<and>
     (ma_State ma = ManagedAgentUnreachable \<longrightarrow> \<not> HasConnections ma \<and> ma_CallbackURL ma = [])"

text \<open>
  The registered agents are distinct, as many as allowed, kept under their own identifiers, and
  together with those being deregistered exactly the ones that are not marked as deregistered.
\<close>

definition agents_ok :: "int \<Rightarrow> (string \<times> nat) list \<Rightarrow> nat list \<Rightarrow> 'b ManagedAgent list \<Rightarrow> bool" where
  "agents_ok mx agents unlinked heap \<longleftrightarrow>
     distinct (map fst agents) \<and> distinct (map snd agents @ unlinked) \<and> int (length agents) \<le> max 0 mx \<and>
     (\<forall>k a. (k, a) \<in> set agents \<longrightarrow> a < length heap \<and> ma_AgentID (heap ! a) = k) \<and> (\<forall>a\<in>set unlinked. a < length heap) \<and>
     (\<forall>a<length heap. ma_State (heap ! a) = ManagedAgentDeregistered \<longleftrightarrow> a \<notin> set (map snd agents @ unlinked))"

definition sidecar_ok :: "('j, 'b) AgentManager \<Rightarrow> bool" where
  "sidecar_ok m \<longleftrightarrow> agents_ok (sd_maxAgents m) (sd_agents m) (sd_unlinked m) (sd_heap m) \<and>
     (\<forall>a<length (sd_heap m). agent_ok (sd_sse m) (sd_ws m) a (sd_heap m ! a)) \<and>
     (\<forall>c\<in>set (sd_sse m). sn_agent c < length (sd_heap m)) \<and> (\<forall>c\<in>set (sd_ws m). wn_agent c < length (sd_heap m))"

lemma NewAgentManager_ok: "sidecar_ok (NewAgentManager mx w)"
  by (simp add: sidecar_ok_def agents_ok_def NewAgentManager_def)

lemma agent_ok_sse: "agent_ok ss ws a ma \<Longrightarrow> (cid, i) \<in> set (ma_sseClients ma) \<Longrightarrow>
    i < length ss \<and> sn_agent (ss ! i) = a \<and> sn_ClientID (ss ! i) = cid \<and> \<not> ch_closed (sn_Channel (ss ! i))"
  by (simp add: agent_ok_def)

lemma agent_ok_ws: "agent_ok ss ws a ma \<Longrightarrow> (cid, i) \<in> set (ma_wsClients ma) \<Longrightarrow>
    i < length ws \<and> wn_agent (ws ! i) = a \<and> wn_ClientID (ws ! i) = cid \<and> \<not> wn_done (ws ! i)"
  by (simp add: agent_ok_def)

lemma sidecar_ok_agent: "sidecar_ok m \<Longrightarrow> a < length (sd_heap m) \<Longrightarrow> agent_ok (sd_sse m) (sd_ws m) a (sd_heap m ! a)"
  by (simp add: sidecar_ok_def)

text \<open>What an update of the connections has to keep for the agents that list them.\<close>

definition sse_keeps :: "nat set \<Rightarrow> 'j SSEClient list \<Rightarrow> 'j SSEClient list \<Rightarrow> bool" where
  "sse_keeps A ss ss' \<longleftrightarrow> length ss \<le> length ss' \<and> (\<forall>i<length ss. sn_agent (ss' ! i) = sn_agent (ss ! i) \<and> sn_ClientID (ss' ! i) = sn_ClientID (ss ! i) \<and>
     (sn_agent (ss ! i) \<notin> A \<longrightarrow> ch_closed (sn_Channel (ss' ! i)) = ch_closed (sn_Channel (ss ! i))))"

definition ws_keeps :: "nat set \<Rightarrow> 'j WSClient list \<Rightarrow> 'j WSClient list \<Rightarrow> bool" where
  "ws_keeps A ws ws' \<longleftrightarrow> length ws \<le> length ws' \<and> (\<forall>i<length ws. wn_agent (ws' ! i) = wn_agent (ws ! i) \<and> wn_ClientID (ws' ! i) = wn_ClientID (ws ! i) \<and>
     (wn_agent (ws ! i) \<notin> A \<longrightarrow> wn_done (ws' ! i) = wn_done (ws ! i)))"

lemma keeps_refl [simp]: "sse_keeps A ss ss" "ws_keeps A ws ws"
  by (simp_all add: sse_keeps_def ws_keeps_def)

lemma agent_ok_keeps:
  assumes "agent_ok ss ws a ma" and "sse_keeps A ss ss'" and "ws_keeps A ws ws'" and "a \<notin> A"
  shows "agent_ok ss' ws' a ma"
proof -
  have "i < length ss' \<and> sn_agent (ss' ! i) = a \<and> sn_ClientID (ss' ! i) = cid \<and> \<not> ch_closed (sn_Channel (ss' ! i))"
    if "(cid, i) \<in> set (ma_sseClients ma)" for cid i
    using agent_ok_sse [OF assms(1) that] assms(2,4) by (auto simp: sse_keeps_def)
  moreover have "i < length ws' \<and> wn_agent (ws' ! i) = a \<and> wn_ClientID (ws' ! i) = cid \<and> \<not> wn_done (ws' ! i)"
    if "(cid, i) \<in> set (ma_wsClients ma)" for cid i
    using agent_ok_ws [OF assms(1) that] assms(3,4) by (auto simp: ws_keeps_def)
  ultimately show ?thesis using assms(1) unfolding agent_ok_def by simp
qed

text \<open>What an update of an agent has to keep.\<close>

definition agent_keeps :: "'b ManagedAgent \<Rightarrow> 'b ManagedAgent \<Rightarrow> bool" where
  "agent_keeps ma ma' \<longleftrightarrow> ma_AgentID ma' = ma_AgentID ma \<and> (ma_State ma' = ManagedAgentDeregistered \<longleftrightarrow> ma_State ma = ManagedAgentDeregistered)"

lemma agents_ok_upd:
  assumes "agents_ok mx agents unlinked heap" and "a < length heap" and "agent_keeps (heap ! a) ma"
  shows "agents_ok mx agents unlinked (heap[a := ma])"
proof -
  have "ma_AgentID (heap[a := ma] ! b) = ma_AgentID (heap ! b)"
    "ma_State (heap[a := ma] ! b) = ManagedAgentDeregistered \<longleftrightarrow> ma_State (heap ! b) = ManagedAgentDeregistered" if "b < length heap" for b
    using assms(2,3) that by (cases "a = b"; simp add: agent_keeps_def)+
  then show ?thesis using assms(1) unfolding agents_ok_def by auto
qed

text \<open>One agent and the connections change, where every other agent sees its connections unchanged.\<close>

lemma sidecar_ok_change:
  assumes ok: "sidecar_ok m" and h: "sd_heap m' = (sd_heap m)[a := ma]"
    and as: "agents_ok (sd_maxAgents m') (sd_agents m') (sd_unlinked m') (sd_heap m')"
    and s: "sse_keeps {a} (sd_sse m) (sd_sse m')" "ws_keeps {a} (sd_ws m) (sd_ws m')" and ag: "agent_ok (sd_sse m') (sd_ws m') a ma"
    and c: "\<forall>c\<in>set (sd_sse m'). sn_agent c < length (sd_heap m)" "\<forall>c\<in>set (sd_ws m'). wn_agent c < length (sd_heap m)"
  shows "sidecar_ok m'"
proof -
  have "agent_ok (sd_sse m') (sd_ws m') b (sd_heap m' ! b)" if "b < length (sd_heap m')" for b
  proof (cases "b = a")
    case False
    then show ?thesis using agent_ok_keeps [OF sidecar_ok_agent [OF ok, of b] s] that h by simp
  qed (use ag h that in simp)
  then show ?thesis using h as c by (simp add: sidecar_ok_def)
qed

lemma sidecar_ok_upd:
  assumes "sidecar_ok m" and "a < length (sd_heap m)" and "agent_keeps (sd_heap m ! a) ma"
    and "sd_maxAgents m' = sd_maxAgents m" "sd_agents m' = sd_agents m" "sd_unlinked m' = sd_unlinked m" "sd_heap m' = (sd_heap m)[a := ma]"
    and "sse_keeps {a} (sd_sse m) (sd_sse m')" "ws_keeps {a} (sd_ws m) (sd_ws m')" and "agent_ok (sd_sse m') (sd_ws m') a ma"
    and "\<forall>c\<in>set (sd_sse m'). sn_agent c < length (sd_heap m)" "\<forall>c\<in>set (sd_ws m'). wn_agent c < length (sd_heap m)"
  shows "sidecar_ok m'"
  by (rule sidecar_ok_change [OF assms(1,7)]) (use assms agents_ok_upd [OF _ assms(2,3)] in \<open>auto simp: sidecar_ok_def\<close>)

lemma agent_keeps_refl [simp]: "agent_keeps ma ma"
  by (simp add: agent_keeps_def)

lemma agent_ok_fields:
  assumes "agent_ok ss ws a ma" and "ma_sseClients ma' = ma_sseClients ma" and "ma_wsClients ma' = ma_wsClients ma"
    and "ma_State ma' = ma_State ma" and "ma_CallbackURL ma' = ma_CallbackURL ma"
  shows "agent_ok ss ws a ma'"
  using assms by (simp add: agent_ok_def HasConnections_def)

text \<open>A change of what the invariant does not speak of.\<close>

definition quiet :: "'b ManagedAgent \<Rightarrow> 'b ManagedAgent \<Rightarrow> bool" where
  "quiet ma ma' \<longleftrightarrow> ma_AgentID ma' = ma_AgentID ma \<and> ma_State ma' = ma_State ma \<and> ma_CallbackURL ma' = ma_CallbackURL ma \<and>
     ma_sseClients ma' = ma_sseClients ma \<and> ma_wsClients ma' = ma_wsClients ma"

lemma sidecar_ok_quiet:
  assumes "sidecar_ok m" and "a < length (sd_heap m)" and "quiet (sd_heap m ! a) ma"
  shows "sidecar_ok (m\<lparr>sd_world := w, sd_heap := (sd_heap m)[a := ma]\<rparr>)"
  by (rule sidecar_ok_upd [OF assms(1,2)], use assms in \<open>auto simp: quiet_def agent_keeps_def sidecar_ok_def intro: agent_ok_fields\<close>)

lemma sidecar_ok_world: "sidecar_ok (m\<lparr>sd_world := w\<rparr>) = sidecar_ok m"
  by (simp add: sidecar_ok_def)

lemma on_agent_quiet: "sidecar_ok m \<Longrightarrow> a < length (sd_heap m) \<Longrightarrow> quiet (sd_heap m ! a) (f (sd_heap m ! a)) \<Longrightarrow> sidecar_ok (on_agent a f m)"
  using sidecar_ok_quiet [of m a _ "sd_world m"] by (simp add: on_agent_def)

section \<open>Every step keeps the invariant\<close>

lemma touch_agent_ok: "sidecar_ok m \<Longrightarrow> a < length (sd_heap m) \<Longrightarrow> sidecar_ok (touch_agent sv a m)"
  by (simp add: touch_agent_def case_prod_unfold Let_def on_agent_quiet sidecar_ok_world quiet_def)

lemma manager_Get_bound: "sidecar_ok m \<Longrightarrow> manager_Get k m = Some a \<Longrightarrow> a < length (sd_heap m)"
  by (auto simp: sidecar_ok_def agents_ok_def manager_Get_def dest: map_of_SomeD)

lemma handlePublish_ok: "sidecar_ok m \<Longrightarrow> sidecar_ok (snd (handlePublish sv jc reg agentID body m))"
  by (auto simp: handlePublish_def publishRequest_def case_prod_unfold Let_def sidecar_ok_world touch_agent_ok manager_Get_bound split: option.split)

lemma wsPublish_state: "snd (wsPublish sv jc reg agentID msg m) = m\<lparr>sd_world := sd_world (snd (wsPublish sv jc reg agentID msg m))\<rparr>"
  by (simp add: wsPublish_def case_prod_unfold Let_def split: option.split)

lemma agents_ok_append:
  assumes "agents_ok mx agents unlinked heap" and "int (length agents) < mx" and "k \<notin> fst ` set agents" and "ma_AgentID ma = k" and "ma_State ma = ManagedAgentActive"
  shows "agents_ok mx (AList.update k (length heap) agents) unlinked (heap @ [ma])"
proof -
  have u: "AList.update k (length heap) agents = agents @ [(k, length heap)]" using assms(3) by (induction agents) auto
  have "a < length heap" if "a \<in> set (map snd agents @ unlinked)" for a using assms(1) that by (auto simp: agents_ok_def)
  then have "length heap \<notin> set (map snd agents @ unlinked)" by blast
  then show ?thesis using assms unfolding u agents_ok_def by (auto simp: nth_append less_Suc_eq dest: image_eqI)
qed

lemma manager_Register_cases:
  fixes sv :: "'b services" and m :: "('j, 'b) AgentManager"
  assumes "manager_Register sv req m = (res, m')"
  obtains w err where "m' = m\<lparr>sd_world := w\<rparr>" "res = Inl err"
  | w ma where "m' = m\<lparr>sd_world := w, sd_heap := sd_heap m @ [ma], sd_agents := AList.update (rr_AgentID req) (length (sd_heap m)) (sd_agents m)\<rparr>"
      "res = Inr (length (sd_heap m))" "map_of (sd_agents m) (rr_AgentID req) = None" "int (length (sd_agents m)) < sd_maxAgents m"
      "ma_AgentID ma = rr_AgentID req" "ma_State ma = ManagedAgentActive" "ma_sseClients ma = []" "ma_wsClients ma = []" "\<not> ma_ctxDone ma"
proof (cases "map_of (sd_agents m) (rr_AgentID req) \<noteq> None \<or> sd_maxAgents m \<le> int (length (sd_agents m))")
  case True
  then show thesis using assms that(1) [of "sd_world m"] by (auto simp: manager_Register_def split: if_splits)
next
  case False
  let ?opts = "[WithEventBus True] @ (if rr_Labels req \<noteq> [] then [WithLabels (map_of (rr_Labels req))] else [])"
  show thesis
  proof (cases "NewWithID (rr_AgentID req) (rr_Name req) (rr_AgentType req) (rr_Version req) ?opts :: agent_error + 'b Agent")
    case (Inl err)
    then show thesis using assms False that(1) [of "sd_world m"] by (auto simp: manager_Register_def Let_def)
  next
    case (Inr sdkAgent)
    let ?start = "sdk_Start sv (\<lambda>_. False) (fold (\<lambda>c. Handle c (noop sv)) (map spec_cap (rr_Capabilities req)) sdkAgent) (sd_world m)"
    obtain err started w1 where st: "?start = (err, started, w1)" by (metis prod.collapse)
    show thesis
    proof (cases err)
      case None
      from assms False Inr st None show thesis
        by (simp add: manager_Register_def Let_def case_prod_unfold) (rule that(2), auto)
    next
      case (Some x)
      from assms False Inr st Some show thesis
        by (simp add: manager_Register_def Let_def) (rule that(1), auto)
    qed
  qed
qed

lemma sidecar_ok_register:
  assumes "sidecar_ok m" and "map_of (sd_agents m) k = None" and "int (length (sd_agents m)) < sd_maxAgents m"
    and "ma_AgentID ma = k" and "ma_State ma = ManagedAgentActive" and "ma_sseClients ma = []" and "ma_wsClients ma = []"
  shows "sidecar_ok (m\<lparr>sd_world := w, sd_heap := sd_heap m @ [ma], sd_agents := AList.update k (length (sd_heap m)) (sd_agents m)\<rparr>)"
proof -
  have "agents_ok (sd_maxAgents m) (AList.update k (length (sd_heap m)) (sd_agents m)) (sd_unlinked m) (sd_heap m @ [ma])"
    by (rule agents_ok_append) (use assms in \<open>auto simp: sidecar_ok_def map_of_eq_None_iff\<close>)
  moreover have "agent_ok (sd_sse m) (sd_ws m) a ((sd_heap m @ [ma]) ! a)" if "a < Suc (length (sd_heap m))" for a
    using assms that by (auto simp: sidecar_ok_def nth_append less_Suc_eq agent_ok_def)
  ultimately show ?thesis using assms(1) by (auto simp: sidecar_ok_def)
qed

lemma registerAnswer_ok:
  assumes ok: "sidecar_ok m"
  shows "sidecar_ok (snd (registerAnswer sv req m))"
proof -
  obtain res m1 where r: "manager_Register sv req m = (res, m1)" by fastforce
  then show ?thesis
  proof (cases rule: manager_Register_cases)
    case (1 w err)
    then show ?thesis using ok r by (auto simp: registerAnswer_def sidecar_ok_world split: manager_error.split)
  next
    case (2 w ma)
    then have "sidecar_ok m1" using sidecar_ok_register [OF ok] by simp
    moreover have "length (sd_heap m) < length (sd_heap m1)" using 2 by simp
    ultimately show ?thesis using 2 r by (simp add: registerAnswer_def on_agent_quiet quiet_def)
  qed
qed

lemma sidecar_handleRegister_ok: "sidecar_ok m \<Longrightarrow> sidecar_ok (snd (sidecar_handleRegister sv body m))"
  by (auto simp: sidecar_handleRegister_def case_prod_unfold Let_def sidecar_ok_world registerAnswer_ok split: option.split)

lemma mset_snd_delete: "distinct (map fst xs) \<Longrightarrow> map_of xs k = Some v \<Longrightarrow> mset (map snd xs) = add_mset v (mset (map snd (AList.delete k xs)))"
proof (induction xs)
  case (Cons x xs)
  show ?case
  proof (cases "fst x = k")
    case True
    then have "AList.delete k xs = xs" using Cons.prems(1) by (auto intro: AList.delete_id simp: image_iff)
    then show ?thesis using True Cons.prems by (cases x) (auto simp: AList.delete_eq)
  next
    case False
    then show ?thesis using Cons by (cases x) (auto simp: AList.delete_eq)
  qed
qed simp

lemma Deregister_unlink_ok:
  assumes "sidecar_ok m"
  shows "sidecar_ok (snd (Deregister_unlink agentID m))"
proof (cases "map_of (sd_agents m) agentID")
  case (Some a)
  let ?d = "AList.delete agentID (sd_agents m)"
  have ok: "agents_ok (sd_maxAgents m) (sd_agents m) (sd_unlinked m) (sd_heap m)" using assms by (simp add: sidecar_ok_def)
  then have "mset (map snd (sd_agents m) @ sd_unlinked m) = mset (map snd ?d @ a # sd_unlinked m)"
    using mset_snd_delete [OF _ Some] by (simp add: agents_ok_def)
  then have p: "distinct (map snd ?d @ a # sd_unlinked m)" "set (map snd ?d @ a # sd_unlinked m) = set (map snd (sd_agents m) @ sd_unlinked m)"
    using ok mset_eq_imp_distinct_iff mset_eq_setD unfolding agents_ok_def by metis+
  have sub: "set ?d \<subseteq> set (sd_agents m)" "length ?d \<le> length (sd_agents m)" by (auto simp: AList.delete_eq)
  have "a < length (sd_heap m)" using ok map_of_SomeD [OF Some] by (auto simp: agents_ok_def)
  moreover have "distinct (map fst ?d)" using ok by (simp add: agents_ok_def AList.distinct_delete)
  ultimately have "agents_ok (sd_maxAgents m) ?d (a # sd_unlinked m) (sd_heap m)"
    using ok sub p unfolding agents_ok_def by (auto 0 3)
  then show ?thesis using Some assms by (simp add: Deregister_unlink_def sidecar_ok_def)
qed (use assms in \<open>simp add: Deregister_unlink_def\<close>)

text \<open>Closing and sending, client by client, on connections that are open and distinct.\<close>

lemma closeSSE_open:
  assumes "distinct (map snd clients)" and "\<And>cid i. (cid, i) \<in> set clients \<Longrightarrow> i < length cs \<and> \<not> ch_closed (sn_Channel (cs ! i))"
  shows "\<exists>cs'. closeSSE clients cs = Some cs' \<and> length cs' = length cs \<and> (\<forall>j<length cs. cs' ! j =
    (if j \<in> snd ` set clients then (cs ! j)\<lparr>sn_Channel := (sn_Channel (cs ! j))\<lparr>ch_closed := True\<rparr>\<rparr> else cs ! j))"
  using assms
proof (induction clients arbitrary: cs)
  case (Cons x clients)
  obtain cid i where x: "x = (cid, i)" by fastforce
  let ?cs = "cs[i := (cs ! i)\<lparr>sn_Channel := (sn_Channel (cs ! i))\<lparr>ch_closed := True\<rparr>\<rparr>]"
  have i: "i < length cs" "\<not> ch_closed (sn_Channel (cs ! i))" "i \<notin> snd ` set clients" using Cons.prems x by (auto simp: image_iff)
  have "j < length ?cs \<and> \<not> ch_closed (sn_Channel (?cs ! j))" if "(c, j) \<in> set clients" for c j
  proof -
    have "j \<noteq> i" using that i(3) by force
    then show ?thesis using Cons.prems(2) [of c j] that by simp
  qed
  with Cons.IH [of ?cs] Cons.prems(1) x obtain cs' where "closeSSE clients ?cs = Some cs'" "length cs' = length cs"
    "\<forall>j<length cs. cs' ! j = (if j \<in> snd ` set clients then (?cs ! j)\<lparr>sn_Channel := (sn_Channel (?cs ! j))\<lparr>ch_closed := True\<rparr>\<rparr> else ?cs ! j)"
    by auto
  then show ?case using i x by (auto simp: nth_list_update)
qed simp

lemma FanOutSSE_open:
  assumes "distinct (map snd clients)" and "\<And>cid i. (cid, i) \<in> set clients \<Longrightarrow> i < length cs \<and> \<not> ch_closed (sn_Channel (cs ! i))"
  shows "\<exists>cs'. FanOutSSE evt clients cs = Some cs' \<and> length cs' = length cs \<and> (\<forall>j<length cs. cs' ! j =
    (if j \<in> snd ` set clients then (cs ! j)\<lparr>sn_Channel := enqueue evt (sn_Channel (cs ! j))\<rparr> else cs ! j))"
  using assms
proof (induction clients arbitrary: cs)
  case (Cons x clients)
  obtain cid i where x: "x = (cid, i)" by fastforce
  let ?cs = "cs[i := (cs ! i)\<lparr>sn_Channel := enqueue evt (sn_Channel (cs ! i))\<rparr>]"
  have i: "i < length cs" "\<not> ch_closed (sn_Channel (cs ! i))" "i \<notin> snd ` set clients" using Cons.prems x by (auto simp: image_iff)
  have "j < length ?cs \<and> \<not> ch_closed (sn_Channel (?cs ! j))" if "(c, j) \<in> set clients" for c j
  proof -
    have "j \<noteq> i" using that i(3) by force
    then show ?thesis using Cons.prems(2) [of c j] that by simp
  qed
  with Cons.IH [of ?cs] Cons.prems(1) x obtain cs' where "FanOutSSE evt clients ?cs = Some cs'" "length cs' = length cs"
    "\<forall>j<length cs. cs' ! j = (if j \<in> snd ` set clients then (?cs ! j)\<lparr>sn_Channel := enqueue evt (sn_Channel (?cs ! j))\<rparr> else ?cs ! j)"
    by auto
  then show ?case using i x by (auto simp: nth_list_update)
qed simp

lemma nth_update: "xs[b := x] ! i = (if b = i \<and> b < length xs then x else xs ! i)"
  by (cases "b < length xs") (simp_all add: nth_list_update list_update_beyond)

lemma length_WS [simp]: "length (closeWS clients ws) = length ws" "length (FanOutWS msg clients ws) = length ws"
  by (induction clients arbitrary: ws) auto

lemma closeWS_nth:
  assumes "i < length ws"
  shows "wn_agent (closeWS clients ws ! i) = wn_agent (ws ! i)" "wn_ClientID (closeWS clients ws ! i) = wn_ClientID (ws ! i)"
    "wn_done (closeWS clients ws ! i) = (wn_done (ws ! i) \<or> i \<in> snd ` set clients)"
  using assms by (induction clients arbitrary: ws) (force simp: nth_update split: if_splits)+

lemma FanOutWS_nth:
  assumes "i < length ws"
  shows "wn_agent (FanOutWS msg clients ws ! i) = wn_agent (ws ! i)" "wn_ClientID (FanOutWS msg clients ws ! i) = wn_ClientID (ws ! i)"
    "wn_done (FanOutWS msg clients ws ! i) = wn_done (ws ! i)"
  using assms by (induction clients arbitrary: ws) (force simp: nth_update split: if_splits)+

lemma agent_ok_distinct: "agent_ok ss ws a ma \<Longrightarrow> distinct (map snd (ma_sseClients ma))"
proof -
  assume ok: "agent_ok ss ws a ma"
  have "inj_on snd (set (ma_sseClients ma))"
    by (rule inj_onI) (metis agent_ok_sse [OF ok] prod.collapse)
  moreover have "distinct (ma_sseClients ma)" using ok by (auto simp: agent_ok_def distinct_map)
  ultimately show ?thesis by (simp add: distinct_map)
qed

lemma Deregister_close_ok:
  assumes ok: "sidecar_ok m" and a: "a \<in> set (sd_unlinked m)"
  shows "\<exists>m'. Deregister_close a m = Some m' \<and> sidecar_ok m'"
proof -
  let ?ma = "sd_heap m ! a" and ?s = "\<lambda>m. agents_ok (sd_maxAgents m) (sd_agents m) (sd_unlinked m) (sd_heap m)"
  have as: "?s m" and al: "a < length (sd_heap m)" using ok a by (auto simp: sidecar_ok_def agents_ok_def)
  note ag = sidecar_ok_agent [OF ok al]
  obtain cs where c: "closeSSE (ma_sseClients ?ma) (sd_sse m) = Some cs" "length cs = length (sd_sse m)"
    "\<forall>j<length (sd_sse m). cs ! j = (if j \<in> snd ` set (ma_sseClients ?ma)
      then (sd_sse m ! j)\<lparr>sn_Channel := (sn_Channel (sd_sse m ! j))\<lparr>ch_closed := True\<rparr>\<rparr> else sd_sse m ! j)"
    using closeSSE_open [OF agent_ok_distinct [OF ag], of "sd_sse m"] agent_ok_sse [OF ag] by blast
  let ?new = "?ma\<lparr>ma_State := ManagedAgentDeregistered, ma_sseClients := [], ma_wsClients := [], ma_ctxDone := True, ma_SDKAgent := beginStop (ma_SDKAgent ?ma)\<rparr>"
  let ?m = "m\<lparr>sd_sse := cs, sd_ws := closeWS (ma_wsClients ?ma) (sd_ws m), sd_unlinked := remove1 a (sd_unlinked m), sd_heap := (sd_heap m)[a := ?new]\<rparr>"
  have d: "Deregister_close a m = Some ?m" using c(1) by (simp add: Deregister_close_def Let_def)
  have own: "j \<notin> snd ` set (ma_sseClients ?ma)" if "sn_agent (sd_sse m ! j) \<noteq> a" for j using agent_ok_sse [OF ag] that by force
  have own': "j \<notin> snd ` set (ma_wsClients ?ma)" if "wn_agent (sd_ws m ! j) \<noteq> a" for j using agent_ok_ws [OF ag] that by force
  have "sidecar_ok ?m"
  proof (rule sidecar_ok_change [OF ok])
    show "sd_heap ?m = (sd_heap m)[a := ?new]" by simp
    show "?s ?m" using as a al unfolding agents_ok_def by (auto simp: nth_list_update dest: distinct_remove1)
    show "sse_keeps {a} (sd_sse m) (sd_sse ?m)" using c(2,3) own by (auto simp: sse_keeps_def)
    show "ws_keeps {a} (sd_ws m) (sd_ws ?m)" using own' by (auto simp: ws_keeps_def closeWS_nth)
    show "agent_ok (sd_sse ?m) (sd_ws ?m) a ?new" by (simp add: agent_ok_def)
    show "\<forall>c\<in>set (sd_sse ?m). sn_agent c < length (sd_heap m)" using ok c(2,3) by (auto simp: sidecar_ok_def all_set_conv_all_nth)
    show "\<forall>c\<in>set (sd_ws ?m). wn_agent c < length (sd_heap m)" using ok by (auto simp: sidecar_ok_def all_set_conv_all_nth closeWS_nth)
  qed
  then show ?thesis using d by blast
qed

lemma Deregister_stop_ok: "sidecar_ok m \<Longrightarrow> a < length (sd_heap m) \<Longrightarrow> sidecar_ok (Deregister_stop sv a m)"
  by (simp add: Deregister_stop_def case_prod_unfold Let_def sidecar_ok_quiet quiet_def)

text \<open>Changes of connections that keep what the agents rely on.\<close>

lemma sidecar_ok_conns:
  assumes ok: "sidecar_ok m" and s: "sse_keeps {} (sd_sse m) ss" "length ss = length (sd_sse m)" and w: "ws_keeps {} (sd_ws m) ws" "length ws = length (sd_ws m)"
  shows "sidecar_ok (m\<lparr>sd_sse := ss, sd_ws := ws\<rparr>)"
proof -
  have "agent_ok ss ws a (sd_heap m ! a)" if "a < length (sd_heap m)" for a
    using agent_ok_keeps [OF sidecar_ok_agent [OF ok that] s(1) w(1)] by simp
  moreover have "\<forall>c\<in>set ss. sn_agent c < length (sd_heap m)" using ok s by (auto simp: sidecar_ok_def all_set_conv_all_nth sse_keeps_def)
  moreover have "\<forall>c\<in>set ws. wn_agent c < length (sd_heap m)" using ok w by (auto simp: sidecar_ok_def all_set_conv_all_nth ws_keeps_def)
  ultimately show ?thesis using ok by (simp add: sidecar_ok_def)
qed

lemma sidecar_ok_sse:
  assumes "sidecar_ok m" and "sn_agent c = sn_agent (sd_sse m ! i)" and "sn_ClientID c = sn_ClientID (sd_sse m ! i)"
    and "ch_closed (sn_Channel c) = ch_closed (sn_Channel (sd_sse m ! i))"
  shows "sidecar_ok (m\<lparr>sd_sse := (sd_sse m)[i := c]\<rparr>)"
  using sidecar_ok_conns [OF assms(1), of "(sd_sse m)[i := c]" "sd_ws m"] assms(2-4) by (simp add: sse_keeps_def nth_update)

lemma sidecar_ok_ws:
  assumes "sidecar_ok m" and "wn_agent c = wn_agent (sd_ws m ! i)" and "wn_ClientID c = wn_ClientID (sd_ws m ! i)"
    and "wn_done c = wn_done (sd_ws m ! i)"
  shows "sidecar_ok (m\<lparr>sd_ws := (sd_ws m)[i := c]\<rparr>)"
  using sidecar_ok_conns [OF assms(1), of "sd_sse m" "(sd_ws m)[i := c]"] assms(2-4) by (simp add: ws_keeps_def nth_update)

lemma enqueue_closed [simp]: "ch_closed (enqueue v ch) = ch_closed ch"
  by (simp add: enqueue_def)

lemma sseCallback_ok:
  assumes ok: "sidecar_ok m" and i: "i < length (sd_sse m)"
  shows "\<exists>m'. sseCallback jc reg i event m = Some m' \<and> sidecar_ok m'"
proof (cases "ProtoToJSON jc reg (normalizeEventType (ev_Type event)) (ev_Payload event)")
  case (Some json)
  let ?a = "sn_agent (sd_sse m ! i)"
  have "?a < length (sd_heap m)" using ok i by (simp add: sidecar_ok_def)
  note ag = sidecar_ok_agent [OF ok this]
  let ?evt = "\<lparr>se_ID = ev_ID event, se_EventType = normalizeEventType (ev_Type event), se_Data = Some json\<rparr>"
  obtain cs where c: "FanOutSSE ?evt (ma_sseClients (sd_heap m ! ?a)) (sd_sse m) = Some cs" "length cs = length (sd_sse m)"
    "\<forall>j<length (sd_sse m). cs ! j = (if j \<in> snd ` set (ma_sseClients (sd_heap m ! ?a))
      then (sd_sse m ! j)\<lparr>sn_Channel := enqueue ?evt (sn_Channel (sd_sse m ! j))\<rparr> else sd_sse m ! j)"
    using FanOutSSE_open [OF agent_ok_distinct [OF ag], of "sd_sse m" ?evt] agent_ok_sse [OF ag] by blast
  then have "sse_keeps {} (sd_sse m) cs" by (auto simp: sse_keeps_def)
  from sidecar_ok_conns [OF ok this c(2), of "sd_ws m"] show ?thesis using c(1) Some by (simp add: sseCallback_def Let_def)
qed (use ok in \<open>simp add: sseCallback_def Let_def\<close>)

lemma wsCallback_ok: "sidecar_ok m \<Longrightarrow> sidecar_ok (wsCallback jc reg i event m)"
  using sidecar_ok_conns [of m "sd_sse m"] by (auto simp: wsCallback_def Let_def ws_keeps_def FanOutWS_nth split: option.split)

text \<open>Connecting and disconnecting.\<close>

lemma set_update_distinct: "distinct (map fst xs) \<Longrightarrow> set (AList.update k v xs) = insert (k, v) {e \<in> set xs. fst e \<noteq> k}"
  by (induction xs) (auto simp: image_iff)

lemma set_delete: "set (AList.delete k xs) = {e \<in> set xs. fst e \<noteq> k}"
  by (auto simp: AList.delete_eq)

lemma agent_keeps_conns [simp]: "agent_keeps ma (AddSSEClient cid i ma)" "agent_keeps ma (RemoveSSEClient cid ma)"
  "agent_keeps ma (AddWSClient cid i ma)" "agent_keeps ma (RemoveWSClient cid ma)"
  by (simp_all add: agent_keeps_def AddSSEClient_def RemoveSSEClient_def AddWSClient_def RemoveWSClient_def revive_def checkLiveness_def)

lemma AddSSEClient_ok:
  assumes "agent_ok ss ws a ma" and "sn_agent c = a" "sn_ClientID c = cid" "\<not> ch_closed (sn_Channel c)"
  shows "agent_ok (ss @ [c]) ws a (AddSSEClient cid (length ss) ma)"
  using assms by (auto simp: agent_ok_def AddSSEClient_def revive_def set_update_distinct AList.distinct_update nth_append)

lemma AddWSClient_ok:
  assumes "agent_ok ss ws a ma" and "wn_agent c = a" "wn_ClientID c = cid" "\<not> wn_done c"
  shows "agent_ok ss (ws @ [c]) a (AddWSClient cid (length ws) ma)"
  using assms by (auto simp: agent_ok_def AddWSClient_def revive_def set_update_distinct AList.distinct_update nth_append)

lemma RemoveSSEClient_ok:
  assumes "agent_ok ss ws a ma" and "\<And>i. i < length ss \<Longrightarrow> sn_ClientID (ss ! i) \<noteq> cid \<Longrightarrow> ss' ! i = ss ! i" and "length ss \<le> length ss'"
  shows "agent_ok ss' ws a (RemoveSSEClient cid ma)"
proof -
  have "i < length ss' \<and> sn_agent (ss' ! i) = a \<and> sn_ClientID (ss' ! i) = k \<and> \<not> ch_closed (sn_Channel (ss' ! i))"
    if "(k, i) \<in> set (ma_sseClients ma)" "k \<noteq> cid" for k i
    using agent_ok_sse [OF assms(1) that(1)] assms(2,3) that(2) by auto
  then show ?thesis using assms(1)
    by (auto simp: agent_ok_def RemoveSSEClient_def checkLiveness_def HasConnections_def set_delete AList.distinct_delete)
qed

lemma RemoveWSClient_ok:
  assumes "agent_ok ss ws a ma" and "\<And>i. i < length ws \<Longrightarrow> wn_ClientID (ws ! i) \<noteq> cid \<Longrightarrow> ws' ! i = ws ! i" and "length ws \<le> length ws'"
  shows "agent_ok ss ws' a (RemoveWSClient cid ma)"
proof -
  have "i < length ws' \<and> wn_agent (ws' ! i) = a \<and> wn_ClientID (ws' ! i) = k \<and> \<not> wn_done (ws' ! i)"
    if "(k, i) \<in> set (ma_wsClients ma)" "k \<noteq> cid" for k i
    using agent_ok_ws [OF assms(1) that(1)] assms(2,3) that(2) by auto
  then show ?thesis using assms(1)
    by (auto simp: agent_ok_def RemoveWSClient_def checkLiveness_def HasConnections_def set_delete AList.distinct_delete)
qed

lemma connect_sse_ok:
  assumes ok: "sidecar_ok m" and a: "a < length (sd_heap m)" and c: "sn_agent c = a" "sn_ClientID c = cid" "\<not> ch_closed (sn_Channel c)"
  shows "sidecar_ok (on_agent a (AddSSEClient cid (length (sd_sse m))) (m\<lparr>sd_world := w, sd_sse := sd_sse m @ [c]\<rparr>))"
proof (rule sidecar_ok_upd [OF ok a, of "AddSSEClient cid (length (sd_sse m)) (sd_heap m ! a)"])
  show "agent_ok (sd_sse (on_agent a (AddSSEClient cid (length (sd_sse m))) (m\<lparr>sd_world := w, sd_sse := sd_sse m @ [c]\<rparr>)))
     (sd_ws (on_agent a (AddSSEClient cid (length (sd_sse m))) (m\<lparr>sd_world := w, sd_sse := sd_sse m @ [c]\<rparr>))) a
     (AddSSEClient cid (length (sd_sse m)) (sd_heap m ! a))"
    using AddSSEClient_ok [OF sidecar_ok_agent [OF ok a] c] by (simp add: on_agent_def)
qed (use ok a c in \<open>auto simp: on_agent_def sse_keeps_def ws_keeps_def nth_append sidecar_ok_def\<close>)

lemma connect_ws_ok:
  assumes ok: "sidecar_ok m" and a: "a < length (sd_heap m)" and c: "wn_agent c = a" "wn_ClientID c = cid" "\<not> wn_done c"
  shows "sidecar_ok (on_agent a (AddWSClient cid (length (sd_ws m))) (m\<lparr>sd_world := w, sd_ws := sd_ws m @ [c]\<rparr>))"
proof (rule sidecar_ok_upd [OF ok a, of "AddWSClient cid (length (sd_ws m)) (sd_heap m ! a)"])
  show "agent_ok (sd_sse (on_agent a (AddWSClient cid (length (sd_ws m))) (m\<lparr>sd_world := w, sd_ws := sd_ws m @ [c]\<rparr>)))
     (sd_ws (on_agent a (AddWSClient cid (length (sd_ws m))) (m\<lparr>sd_world := w, sd_ws := sd_ws m @ [c]\<rparr>))) a
     (AddWSClient cid (length (sd_ws m)) (sd_heap m ! a))"
    using AddWSClient_ok [OF sidecar_ok_agent [OF ok a] c] by (simp add: on_agent_def)
qed (use ok a c in \<open>auto simp: on_agent_def sse_keeps_def ws_keeps_def nth_append sidecar_ok_def\<close>)

lemma disconnect_sse_ok:
  assumes ok: "sidecar_ok m" and a: "a < length (sd_heap m)"
  shows "sidecar_ok (on_agent a (RemoveSSEClient cid) m)"
  by (rule sidecar_ok_upd [OF ok a, of "RemoveSSEClient cid (sd_heap m ! a)"])
    (use ok a RemoveSSEClient_ok [OF sidecar_ok_agent [OF ok a], of cid "sd_sse m"] in \<open>auto simp: on_agent_def sidecar_ok_def\<close>)

text \<open>Ending a WebSocket: the connection is marked as done and leaves its agent.\<close>

lemma disconnect_ws_ok:
  assumes ok: "sidecar_ok m" and i: "i < length (sd_ws m)" and c: "wn_agent c = wn_agent (sd_ws m ! i)" "wn_ClientID c = wn_ClientID (sd_ws m ! i)"
  shows "sidecar_ok (on_agent (wn_agent (sd_ws m ! i)) (RemoveWSClient (wn_ClientID (sd_ws m ! i))) (m\<lparr>sd_ws := (sd_ws m)[i := c]\<rparr>))"
proof -
  let ?a = "wn_agent (sd_ws m ! i)" and ?cid = "wn_ClientID (sd_ws m ! i)"
  have a: "?a < length (sd_heap m)" using ok i by (simp add: sidecar_ok_def)
  have "(sd_ws m)[i := c] ! j = sd_ws m ! j" if "wn_ClientID (sd_ws m ! j) \<noteq> ?cid" for j using that by (auto simp: nth_update)
  then have "agent_ok (sd_sse m) ((sd_ws m)[i := c]) ?a (RemoveWSClient ?cid (sd_heap m ! ?a))"
    using RemoveWSClient_ok [OF sidecar_ok_agent [OF ok a], of ?cid "(sd_ws m)[i := c]"] by simp
  moreover have "wn_agent d < length (sd_heap m)" if "d \<in> set ((sd_ws m)[i := c])" for d
    using set_update_subset_insert [of "sd_ws m" i c] that ok c(1) a by (auto simp: sidecar_ok_def)
  ultimately show ?thesis
    by (intro sidecar_ok_upd [OF ok a, of "RemoveWSClient ?cid (sd_heap m ! ?a)"])
      (use ok c in \<open>auto simp: on_agent_def sidecar_ok_def ws_keeps_def nth_update\<close>)
qed

lemma bus_subscribe_state: "snd (bus_subscribe sv subject m) = m\<lparr>sd_world := sd_world (snd (bus_subscribe sv subject m))\<rparr>"
  by (simp add: bus_subscribe_def Let_def)

lemma bus_subscribe_ok: "bus_subscribe sv subject m = (ok, m') \<Longrightarrow> sidecar_ok m' = sidecar_ok m \<and> sd_heap m' = sd_heap m \<and> sd_sse m' = sd_sse m \<and> sd_ws m' = sd_ws m"
  by (auto simp: bus_subscribe_def Let_def sidecar_ok_world)

lemma openSSE_ok:
  assumes ok: "sidecar_ok m" and a: "a < length (sd_heap m)"
  shows "sidecar_ok (snd (openSSE sv agentID a l m))"
proof -
  obtain uid w1 ts w2 where w: "new_uuid sv (sd_world m) = (uid, w1)" "time_now sv w1 = (ts, w2)" by (metis prod.collapse)
  let ?i = "length (sd_sse m)"
  let ?c = "\<lparr>sn_ClientID = uid, sn_AgentID = agentID, sn_ConnectedAt = ts, sn_LastEventID = l, sn_Channel = \<lparr>ch_buf = [], ch_closed = False\<rparr>,
    sn_agent = a, sn_sub = False, sn_out = []\<rparr>"
  let ?m1 = "on_agent a (AddSSEClient uid ?i) (m\<lparr>sd_world := w2, sd_sse := sd_sse m @ [?c]\<rparr>)"
  obtain b m2 where s: "bus_subscribe sv (directSubject agentID) ?m1 = (b, m2)" by fastforce
  have ok2: "sidecar_ok m2" using bus_subscribe_ok [OF s] connect_sse_ok [OF ok a, of ?c uid w2] by simp
  have h: "length (sd_heap m2) = length (sd_heap m)" "sd_sse m2 ! ?i = ?c" using bus_subscribe_ok [OF s] by (simp_all add: on_agent_def)
  then have "sidecar_ok (on_agent a (RemoveSSEClient uid) m2)" using disconnect_sse_ok [OF ok2] a by simp
  moreover have "sidecar_ok (m2\<lparr>sd_sse := (sd_sse m2)[?i := ?c\<lparr>sn_sub := True, sn_out := [ConnectedFrame agentID]\<rparr>]\<rparr>)"
    by (rule sidecar_ok_sse [OF ok2]) (simp_all add: h(2))
  ultimately show ?thesis using w s by (simp add: openSSE_def Let_def)
qed

lemma openWS_ok:
  assumes ok: "sidecar_ok m" and a: "a < length (sd_heap m)"
  shows "sidecar_ok (openWS sv agentID a l m)"
proof -
  obtain uid w1 ts w2 where w: "new_uuid sv (sd_world m) = (uid, w1)" "time_now sv w1 = (ts, w2)" by (metis prod.collapse)
  let ?i = "length (sd_ws m)"
  let ?c = "\<lparr>wn_ClientID = uid, wn_AgentID = agentID, wn_ConnectedAt = ts, wn_LastEventID = l, wn_send = \<lparr>ch_buf = [], ch_closed = False\<rparr>,
    wn_done = False, wn_agent = a, wn_sub = False, wn_reading = False, wn_writing = False, wn_out = []\<rparr>"
  let ?m1 = "on_agent a (AddWSClient uid ?i) (m\<lparr>sd_world := w2, sd_ws := sd_ws m @ [?c]\<rparr>)"
  obtain b m2 where s: "bus_subscribe sv (directSubject agentID) ?m1 = (b, m2)" by fastforce
  have ok2: "sidecar_ok m2" using bus_subscribe_ok [OF s] connect_ws_ok [OF ok a, of ?c uid w2] by simp
  have h: "sd_ws m2 ! ?i = ?c" "?i < length (sd_ws m2)" using bus_subscribe_ok [OF s] by (simp_all add: on_agent_def)
  have "sidecar_ok (on_agent a (RemoveWSClient uid) (m2\<lparr>sd_ws := (sd_ws m2)[?i := ?c\<lparr>wn_done := True\<rparr>]\<rparr>))"
    using disconnect_ws_ok [OF ok2 h(2), of "?c\<lparr>wn_done := True\<rparr>"] unfolding h(1) by simp
  moreover have "sidecar_ok (m2\<lparr>sd_ws := (sd_ws m2)[?i := ?c\<lparr>wn_sub := True, wn_reading := True, wn_writing := True, wn_out := x\<rparr>]\<rparr>)" for x
    by (rule sidecar_ok_ws [OF ok2]) (simp_all add: h(1))
  ultimately show ?thesis using w s by (simp add: openWS_def Let_def)
qed

lemma sseLoop_ok:
  assumes ok: "sidecar_ok m" and i: "i < length (sd_sse m)"
  shows "sidecar_ok (sseLoop i wk m)"
proof -
  let ?c = "sd_sse m ! i"
  have upd: "sidecar_ok (m\<lparr>sd_sse := (sd_sse m)[i := c]\<rparr>)"
    if "sn_agent c = sn_agent ?c" "sn_ClientID c = sn_ClientID ?c" "ch_closed (sn_Channel c) = ch_closed (sn_Channel ?c)" for c
    by (rule sidecar_ok_sse [OF ok]) (use that in simp_all)
  have "sn_agent ?c < length (sd_heap m)" using ok i by (simp add: sidecar_ok_def)
  then have "sidecar_ok (on_agent (sn_agent ?c) (RemoveSSEClient (sn_ClientID ?c)) (m\<lparr>sd_sse := (sd_sse m)[i := ?c\<lparr>sn_sub := False\<rparr>]\<rparr>))"
    using disconnect_sse_ok [OF upd [of "?c\<lparr>sn_sub := False\<rparr>"]] by simp
  then show ?thesis using ok upd by (cases wk) (auto simp: sseLoop_def Let_def split: list.split)
qed

lemma wsWrite_ok: "sidecar_ok m \<Longrightarrow> sidecar_ok (wsWrite i wk m)"
  using sidecar_ok_ws [of m _ i] by (cases wk) (auto simp: wsWrite_def Let_def split: list.split)

lemma wsRead_ok:
  assumes ok: "sidecar_ok m" and i: "i < length (sd_ws m)"
  shows "sidecar_ok (wsRead sv jc tx reg i input m)"
proof (cases input)
  case None
  then show ?thesis using ok disconnect_ws_ok [OF ok i, of "(sd_ws m ! i)\<lparr>wn_reading := False, wn_sub := False, wn_done := True\<rparr>"]
    by (simp add: wsRead_def Let_def)
next
  case (Some msg)
  have a: "wn_agent (sd_ws m ! i) < length (sd_heap m)" using ok i by (simp add: sidecar_ok_def)
  let ?m1 = "touch_agent sv (wn_agent (sd_ws m ! i)) m"
  have ok1: "sidecar_ok ?m1" by (rule touch_agent_ok [OF ok a])
  have reply: "sidecar_ok (n\<lparr>sd_ws := (sd_ws n)[i := (sd_ws n ! i)\<lparr>wn_out := x\<rparr>]\<rparr>)" if "sidecar_ok n" for n x
    by (rule sidecar_ok_ws [OF that]) simp_all
  obtain res n where p: "wsPublish sv jc reg (wn_AgentID (sd_ws m ! i)) msg ?m1 = (res, n)" by fastforce
  then have "sidecar_ok n" using wsPublish_state [of sv jc reg "wn_AgentID (sd_ws m ! i)" msg ?m1] ok1 sidecar_ok_world by (metis snd_conv)
  then show ?thesis using Some ok ok1 p reply by (auto simp: wsRead_def Let_def split: option.split)
qed

lemma managed_ok:
  assumes "sidecar_ok m" and "a < length (sd_heap m)"
  shows "sidecar_ok (managed_ping sv a event m)" and "sidecar_ok (managed_dispatch sv a event m)" and "sidecar_ok (managed_work sv a i m)"
  using assms by (simp_all add: managed_ping_def managed_dispatch_def managed_work_def case_prod_unfold Let_def sidecar_ok_world on_agent_quiet quiet_def)

interpretation sidecar_inv: step_invariant "sidecar_step sv jc tx reg" sidecar_ok for sv jc tx reg
proof
  fix m m'
  assume "sidecar_step sv jc tx reg m m'" and "sidecar_ok m"
  then show "sidecar_ok m'"
  proof (cases rule: sidecar_step.cases)
    case (ss_close a)
    then show ?thesis using Deregister_close_ok [OF \<open>sidecar_ok m\<close> ss_close(1)] by simp
  next
    case (ss_sse_event i event)
    then show ?thesis using sseCallback_ok [OF \<open>sidecar_ok m\<close> ss_sse_event(1), of jc reg event] by simp
  qed (simp_all add: sidecar_handleRegister_ok Deregister_unlink_ok Deregister_stop_ok handlePublish_ok openSSE_ok sseLoop_ok openWS_ok wsCallback_ok wsWrite_ok
      wsRead_ok managed_ok)
qed

lemma registerAnswer_max: "sd_maxAgents (snd (registerAnswer sv req m)) = sd_maxAgents m"
proof -
  obtain res m1 where r: "manager_Register sv req m = (res, m1)" by fastforce
  then show ?thesis
    by (cases rule: manager_Register_cases) (use r in \<open>auto simp: registerAnswer_def on_agent_def split: manager_error.split\<close>)
qed

lemma wsPublish_max: "sd_maxAgents (snd (wsPublish sv jc reg agentID msg m)) = sd_maxAgents m"
  by (subst wsPublish_state) simp

interpretation sidecar_max: step_invariant "sidecar_step sv jc tx reg" "\<lambda>m. sd_maxAgents m = mx" for sv jc tx reg mx
proof
  fix m m'
  assume "sidecar_step sv jc tx reg m m'" and "sd_maxAgents m = mx"
  then show "sd_maxAgents m' = mx"
  proof (cases rule: sidecar_step.cases)
    case (ss_ws_read i input)
    then show ?thesis using \<open>sd_maxAgents m = mx\<close> wsPublish_max [of sv jc reg]
      by (auto simp: wsRead_def touch_agent_def on_agent_def Let_def case_prod_unfold split: option.split)
  qed (auto simp: sidecar_handleRegister_def registerAnswer_max Deregister_unlink_def Deregister_close_def Deregister_stop_def handlePublish_def publishRequest_def openSSE_def
      sseCallback_def sseLoop_def openWS_def wsCallback_def wsWrite_def managed_ping_def managed_dispatch_def managed_work_def on_agent_def
      touch_agent_def bus_subscribe_def Let_def case_prod_unfold split: option.splits list.split sse_wake.split ws_wake.split)
qed

text \<open>
  C20. In every interleaving of requests, connections, deliveries and shutdowns the sidecar never has
  more agents than configured, keeps each once and under its own identifier, calls an agent
  unreachable only when it has neither a connection nor a callback, and never panics: no channel is
  closed twice and no event is sent on a closed one.
\<close>

theorem sidecar_invariant:
  assumes "(sidecar_step sv jc tx reg)\<^sup>*\<^sup>* (NewAgentManager mx w) m"
  shows "int (Count m) \<le> max 0 mx \<and> distinct (map fst (sd_agents m)) \<and>
    (\<forall>k a. (k, a) \<in> set (sd_agents m) \<longrightarrow> ma_AgentID (sd_heap m ! a) = k \<and> ma_State (sd_heap m ! a) \<noteq> ManagedAgentDeregistered) \<and>
    (\<forall>a<length (sd_heap m). ma_State (sd_heap m ! a) = ManagedAgentUnreachable \<longrightarrow> \<not> HasConnections (sd_heap m ! a) \<and> ma_CallbackURL (sd_heap m ! a) = []) \<and>
    (\<forall>a\<in>set (sd_unlinked m). Deregister_close a m \<noteq> None) \<and> (\<forall>i<length (sd_sse m). sseCallback jc reg i event m \<noteq> None)"
proof -
  have ok: "sidecar_ok m" using sidecar_inv.run_keeps [OF assms NewAgentManager_ok] .
  have mx: "sd_maxAgents m = mx" using sidecar_max.run_keeps [OF assms] by (simp add: NewAgentManager_def)
  have "agents_ok mx (sd_agents m) (sd_unlinked m) (sd_heap m)" using ok mx by (simp add: sidecar_ok_def)
  then have "int (Count m) \<le> max 0 mx \<and> distinct (map fst (sd_agents m)) \<and>
    (\<forall>k a. (k, a) \<in> set (sd_agents m) \<longrightarrow> ma_AgentID (sd_heap m ! a) = k \<and> ma_State (sd_heap m ! a) \<noteq> ManagedAgentDeregistered)"
    unfolding agents_ok_def Count_def by (auto intro: rev_image_eqI)
  moreover have "\<forall>a<length (sd_heap m). ma_State (sd_heap m ! a) = ManagedAgentUnreachable \<longrightarrow> \<not> HasConnections (sd_heap m ! a) \<and> ma_CallbackURL (sd_heap m ! a) = []"
    using sidecar_ok_agent [OF ok] by (simp add: agent_ok_def)
  moreover have "\<forall>a\<in>set (sd_unlinked m). Deregister_close a m \<noteq> None" using Deregister_close_ok [OF ok] by fastforce
  moreover have "\<forall>i<length (sd_sse m). sseCallback jc reg i event m \<noteq> None" using sseCallback_ok [OF ok] by fastforce
  ultimately show ?thesis by simp
qed

text \<open>An agent that registers over the example services.\<close>

definition ex_register :: RegisterRequest where
  "ex_register = \<lparr>rr_AgentID = ''x'', rr_Name = ''n'', rr_AgentType = ''t'', rr_Version = ''1'',
     rr_Capabilities = [\<lparr>cs_Name = ''c'', cs_Version = ''1'', cs_Description = [], cs_Parameters = Map.empty\<rparr>], rr_Labels = [], rr_CallbackURL = []\<rparr>"

definition ex_sidecar :: "(nat, nat) AgentManager" where
  "ex_sidecar = snd (sidecar_handleRegister (null_services 0) (Some ex_register) (NewAgentManager 1 empty_world))"

definition ex_json_codec :: "(nat, nat) json_codec" where
  "ex_json_codec = \<lparr>jc_toProto = (\<lambda>_. Some), jc_toJSON = (\<lambda>_. Some)\<rparr>"

theorem sidecar_invariant_witness: "Count ex_sidecar = 1 \<and> int (Count ex_sidecar) \<le> max 0 1"
proof -
  have "(sidecar_step (null_services 0) ex_json_codec (\<lambda>_. []) NewPayloadRegistry)\<^sup>*\<^sup>* (NewAgentManager 1 empty_world) ex_sidecar"
    unfolding ex_sidecar_def by (rule r_into_rtranclp) (rule ss_register)
  from sidecar_invariant [OF this] have "int (Count ex_sidecar) \<le> max 0 1" by blast
  moreover have "Count ex_sidecar = 1" by code_simp
  ultimately show ?thesis by blast
qed

section \<open>Event types\<close>

lemma HasPrefix_append [simp]: "HasPrefix (p @ s) p"
  by (simp add: HasPrefix_def)

lemma IndexByte_append: "c \<notin> set s \<Longrightarrow> IndexByte c (s @ c # t) = Some (length s)"
  by (induction s) auto

lemma normalize_direct: "CHR ''.'' \<notin> set k \<Longrightarrow> normalizeEventType (''agent.direct.'' @ k @ ''.'' @ t) = t"
  by (simp add: normalizeEventType_def HasPrefix_def IndexByte_append Let_def)

lemma normalize_workflow: "CHR ''.'' \<notin> set k \<Longrightarrow> HasPrefix t ''workflow.'' \<Longrightarrow> normalizeEventType (''workflow.'' @ k @ ''.'' @ t) = t"
  by (simp add: normalizeEventType_def IndexByte_append Let_def) (simp add: HasPrefix_def)

lemma normalize_known: "NewPayloadRegistry t = Some msg \<Longrightarrow> normalizeEventType t = t"
proof -
  assume "NewPayloadRegistry t = Some msg"
  then have "(t, msg) \<in> set payloadSchemas" unfolding NewPayloadRegistry_def by (rule map_of_SomeD)
  moreover have "list_all (\<lambda>e. normalizeEventType (fst e) = fst e) payloadSchemas" by code_simp
  ultimately show ?thesis by (auto simp: list_all_iff)
qed

section \<open>From one agent to the stream of another\<close>

text \<open>What an accepted publication has sent.\<close>

lemma publication_simps [simp]: "ev_ID (publication uid ts k req data) = uid" "ev_Type (publication uid ts k req data) = pr_EventType req"
  "ev_Payload (publication uid ts k req data) = data" "ev_SourceAgent (publication uid ts k req data) = k" "ev_WorkflowID (publication uid ts k req data) = []"
  by (simp_all add: publication_def published_event_def zero_event_def Let_def split: option.split)

lemma touch_agent_simps [simp]: "sd_sse (touch_agent sv a m) = sd_sse m" "w_sent (sd_world (touch_agent sv a m)) = w_sent (sd_world m)"
  "map ma_sseClients (sd_heap (touch_agent sv a m)) = map ma_sseClients (sd_heap m)"
proof -
  have "map ma_sseClients ((sd_heap m)[a := (sd_heap m ! a)\<lparr>ma_LastActivity := ts\<rparr>]) = map ma_sseClients (sd_heap m)" for ts
    by (cases "a < length (sd_heap m)") (simp_all add: map_update list_update_same_conv list_update_beyond)
  then show "map ma_sseClients (sd_heap (touch_agent sv a m)) = map ma_sseClients (sd_heap m)"
    by (simp add: touch_agent_def on_agent_def case_prod_unfold Let_def)
qed (simp_all add: touch_agent_def on_agent_def time_now_def Let_def)

lemma handlePublish_accepted:
  assumes "handlePublish sv jc reg agentID body m = (AcceptedAnswer uid, m')"
  obtains req data ts where "body = Some req" "JSONToProto jc reg (pr_EventType req) (pr_Payload req) = Some data"
    "w_sent (sd_world m') = w_sent (sd_world m) @ [publication uid ts agentID req data]"
    "sd_sse m' = sd_sse m" "map ma_sseClients (sd_heap m') = map ma_sseClients (sd_heap m)"
proof -
  obtain a req data where c: "manager_Get agentID m = Some a" "body = Some req" "JSONToProto jc reg (pr_EventType req) (pr_Payload req) = Some data"
    "publishRequest sv agentID a req data m = (AcceptedAnswer uid, m')"
    using assms by (auto simp: handlePublish_def split: option.splits if_splits)
  from c(4) show thesis
    by (auto simp: publishRequest_def case_prod_unfold bus_publish_def new_uuid_def time_now_def Let_def split: if_splits
        intro!: that [OF c(2,3)])
qed


text \<open>The example agent with one open stream, publishing for itself.\<close>

definition ex_streaming :: "(nat, nat) AgentManager" where
  "ex_streaming = snd (handleSubscribeSSE (null_services 0) ''x'' True [] ex_sidecar)"

definition ex_publish :: "nat PublishRequest" where
  "ex_publish = \<lparr>pr_EventType = ''agent.direct.x.workflow.step'', pr_Payload = 7, pr_Metadata = Map.empty\<rparr>"

definition ex_published :: "answer \<times> (nat, nat) AgentManager" where
  "ex_published = handlePublish (null_services 0) ex_json_codec NewPayloadRegistry ''x'' (Some ex_publish) ex_streaming"

lemma ex_streaming_runs: "fst ex_published = AcceptedAnswer ''uuu''" "length (w_sent (sd_world (snd ex_published))) = Suc (length (w_sent (sd_world ex_streaming)))"
  "length (sd_sse ex_streaming) = 1" "length (sd_heap ex_streaming) = 1"
  "sn_sub (sd_sse ex_streaming ! 0)" "sn_agent (sd_sse ex_streaming ! 0) = 0" "ch_buf (sn_Channel (sd_sse ex_streaming ! 0)) = []"
  "\<not> ch_closed (sn_Channel (sd_sse ex_streaming ! 0))" "ma_sseClients (sd_heap ex_streaming ! 0) = [(''uu'', 0)]" "sn_out (sd_sse ex_streaming ! 0) = [ConnectedFrame ''x'']"
  by code_simp+


section \<open>One event, many copies\<close>

text \<open>The bus hands an event to the subscriptions of the connections \<open>is\<close> in turn.\<close>

fun deliverEach :: "('j, 'b) json_codec \<Rightarrow> PayloadRegistry \<Rightarrow> 'b event \<Rightarrow> nat list \<Rightarrow> ('j, 'b) AgentManager \<Rightarrow> ('j, 'b) AgentManager option" where
  "deliverEach jc reg event [] m = Some m"
| "deliverEach jc reg event (i # conns) m = Option.bind (sseCallback jc reg i event m) (deliverEach jc reg event conns)"

lemma sseCallback_effect:
  assumes ok: "sidecar_ok m" and i: "i < length (sd_sse m)" and a: "sn_agent (sd_sse m ! i) = a"
    and j: "ProtoToJSON jc reg (normalizeEventType (ev_Type event)) (ev_Payload event) = Some json"
  obtains m' where "sseCallback jc reg i event m = Some m'" "sidecar_ok m'" "sd_heap m' = sd_heap m" "length (sd_sse m') = length (sd_sse m)"
    "\<forall>k<length (sd_sse m). sd_sse m' ! k = (if k \<in> snd ` set (ma_sseClients (sd_heap m ! a))
      then (sd_sse m ! k)\<lparr>sn_Channel := enqueue \<lparr>se_ID = ev_ID event, se_EventType = normalizeEventType (ev_Type event), se_Data = Some json\<rparr> (sn_Channel (sd_sse m ! k))\<rparr>
      else sd_sse m ! k)"
proof -
  have "a < length (sd_heap m)" using ok i a by (auto simp: sidecar_ok_def)
  note ag = sidecar_ok_agent [OF ok this]
  let ?evt = "\<lparr>se_ID = ev_ID event, se_EventType = normalizeEventType (ev_Type event), se_Data = Some json\<rparr>"
  obtain cs where c: "FanOutSSE ?evt (ma_sseClients (sd_heap m ! a)) (sd_sse m) = Some cs" "length cs = length (sd_sse m)"
    "\<forall>k<length (sd_sse m). cs ! k = (if k \<in> snd ` set (ma_sseClients (sd_heap m ! a))
      then (sd_sse m ! k)\<lparr>sn_Channel := enqueue ?evt (sn_Channel (sd_sse m ! k))\<rparr> else sd_sse m ! k)"
    using FanOutSSE_open [OF agent_ok_distinct [OF ag], of "sd_sse m" ?evt] agent_ok_sse [OF ag] by blast
  have s: "sseCallback jc reg i event m = Some (m\<lparr>sd_sse := cs\<rparr>)" using c(1) j a by (simp add: sseCallback_def Let_def)
  show thesis by (rule that [OF s]) (use c s sseCallback_ok [OF ok i, of jc reg event] in auto)
qed

lemma deliverEach_effect:
  assumes "sidecar_ok m" and "\<And>i. i \<in> set conns \<Longrightarrow> i < length (sd_sse m) \<and> sn_agent (sd_sse m ! i) = a" and "a < length (sd_heap m)"
    and j: "ProtoToJSON jc reg (normalizeEventType (ev_Type event)) (ev_Payload event) = Some json"
    and "\<And>k. k \<in> snd ` set (ma_sseClients (sd_heap m ! a)) \<Longrightarrow> length (ch_buf (sn_Channel (sd_sse m ! k))) + length conns \<le> 32"
  shows "\<exists>m'. deliverEach jc reg event conns m = Some m' \<and> (\<forall>k. k \<in> snd ` set (ma_sseClients (sd_heap m ! a)) \<longrightarrow>
    ch_buf (sn_Channel (sd_sse m' ! k)) = ch_buf (sn_Channel (sd_sse m ! k)) @
      replicate (length conns) \<lparr>se_ID = ev_ID event, se_EventType = normalizeEventType (ev_Type event), se_Data = Some json\<rparr>)"
  using assms(1-3,5)
proof (induction conns arbitrary: m)
  case (Cons i conns)
  let ?evt = "\<lparr>se_ID = ev_ID event, se_EventType = normalizeEventType (ev_Type event), se_Data = Some json\<rparr>" and ?L = "snd ` set (ma_sseClients (sd_heap m ! a))"
  have i: "i < length (sd_sse m)" "sn_agent (sd_sse m ! i) = a" using Cons.prems(2) by simp_all
  obtain m1 where m1: "sseCallback jc reg i event m = Some m1" "sidecar_ok m1" "sd_heap m1 = sd_heap m" "length (sd_sse m1) = length (sd_sse m)"
    "\<forall>k<length (sd_sse m). sd_sse m1 ! k = (if k \<in> ?L then (sd_sse m ! k)\<lparr>sn_Channel := enqueue ?evt (sn_Channel (sd_sse m ! k))\<rparr> else sd_sse m ! k)"
    using sseCallback_effect [OF Cons.prems(1) i j] .
  have L: "k < length (sd_sse m)" if "k \<in> ?L" for k using agent_ok_sse [OF sidecar_ok_agent [OF Cons.prems(1,3)]] that by force
  have buf: "ch_buf (sn_Channel (sd_sse m1 ! k)) = ch_buf (sn_Channel (sd_sse m ! k)) @ [?evt]" if "k \<in> ?L" for k
    using that m1(5) L [OF that] Cons.prems(4) [OF that] by (simp add: enqueue_def)
  have "k < length (sd_sse m1) \<and> sn_agent (sd_sse m1 ! k) = a" if "k \<in> set conns" for k
    using Cons.prems(2) [of k] that m1(4,5) by simp
  moreover have "length (ch_buf (sn_Channel (sd_sse m1 ! k))) + length conns \<le> 32" if "k \<in> snd ` set (ma_sseClients (sd_heap m1 ! a))" for k
    using Cons.prems(4) [of k] buf that m1(3) by simp
  ultimately obtain m' where "deliverEach jc reg event conns m1 = Some m'"
    "\<forall>k. k \<in> ?L \<longrightarrow> ch_buf (sn_Channel (sd_sse m' ! k)) = ch_buf (sn_Channel (sd_sse m1 ! k)) @ replicate (length conns) ?evt"
    using Cons.IH [OF m1(2)] Cons.prems(3) m1(3) by auto
  then show ?case using m1(1) buf by (intro exI [of _ m']) auto
qed simp

text \<open>
  C35. An agent with several streams gets every event several times on each of them: each connection
  subscribes to the agent's events on its own, and each of these subscriptions sends what it
  receives to all streams of the agent. With \<open>n\<close> streams one event arrives \<open>n\<close> times on every stream.
\<close>

theorem streams_multiply_events:
  assumes "(sidecar_step sv jc tx reg)\<^sup>*\<^sup>* (NewAgentManager mx w) m" and "a < length (sd_heap m)"
    and "conns = map snd (ma_sseClients (sd_heap m ! a))" and "length conns \<le> 32" and "\<forall>i\<in>set conns. ch_buf (sn_Channel (sd_sse m ! i)) = []"
    and "ProtoToJSON jc reg (normalizeEventType (ev_Type event)) (ev_Payload event) = Some json"
  shows "\<exists>m'. deliverEach jc reg event conns m = Some m' \<and> (\<forall>i\<in>set conns. ch_buf (sn_Channel (sd_sse m' ! i)) =
    replicate (length conns) \<lparr>se_ID = ev_ID event, se_EventType = normalizeEventType (ev_Type event), se_Data = Some json\<rparr>)"
proof -
  have ok: "sidecar_ok m" using sidecar_inv.run_keeps [OF assms(1) NewAgentManager_ok] .
  have L: "set conns = snd ` set (ma_sseClients (sd_heap m ! a))" by (simp add: assms(3))
  have "i < length (sd_sse m) \<and> sn_agent (sd_sse m ! i) = a" if "i \<in> set conns" for i
    using agent_ok_sse [OF sidecar_ok_agent [OF ok assms(2)]] that L by force
  then show ?thesis using deliverEach_effect [OF ok _ assms(2,6), of conns] assms(4,5) L by auto
qed

definition ex_two_streams :: "(nat, nat) AgentManager" where
  "ex_two_streams = snd (openSSE (null_services 0) ''x'' 0 [] (snd (openSSE (null_services 0) ''x'' 0 [] ex_sidecar)))"

lemma ex_sidecar_heap: "length (sd_heap ex_sidecar) = 1" "ma_AgentID (sd_heap ex_sidecar ! 0) = ''x''"
  "length (sd_heap (snd (openSSE (null_services 0) ''x'' 0 [] ex_sidecar))) = 1" "ma_AgentID (sd_heap (snd (openSSE (null_services 0) ''x'' 0 [] ex_sidecar)) ! 0) = ''x''"
  by code_simp+

lemma ex_two_streams_reached: "(sidecar_step (null_services 0) ex_json_codec (\<lambda>_. []) NewPayloadRegistry)\<^sup>*\<^sup>* (NewAgentManager 1 empty_world) ex_two_streams"
proof -
  let ?step = "sidecar_step (null_services 0) ex_json_codec (\<lambda>_. []) NewPayloadRegistry" and ?m1 = "snd (openSSE (null_services 0) ''x'' 0 [] ex_sidecar)"
  have "?step (NewAgentManager 1 empty_world) ex_sidecar" unfolding ex_sidecar_def by (rule ss_register)
  moreover have "?step ex_sidecar ?m1" using ss_open_sse [of 0 ex_sidecar "null_services 0" ex_json_codec "\<lambda>_. []" NewPayloadRegistry "[]"] ex_sidecar_heap(1,2) by simp
  moreover have "?step ?m1 ex_two_streams"
    using ss_open_sse [of 0 ?m1 "null_services 0" ex_json_codec "\<lambda>_. []" NewPayloadRegistry "[]"] ex_sidecar_heap(3,4) by (simp add: ex_two_streams_def)
  ultimately show ?thesis by simp
qed

theorem streams_multiply_events_witness:
  "\<exists>m'. deliverEach ex_json_codec NewPayloadRegistry ((zero_event 7)\<lparr>ev_ID := ''e'', ev_Type := ''agent.direct.x.workflow.step''\<rparr>) [0, 1] ex_two_streams = Some m' \<and>
    ch_buf (sn_Channel (sd_sse m' ! 1)) = replicate 2 \<lparr>se_ID = ''e'', se_EventType = ''workflow.step'', se_Data = Some 7\<rparr>"
proof -
  let ?e = "(zero_event 7)\<lparr>ev_ID := ''e'', ev_Type := ''agent.direct.x.workflow.step''\<rparr>"
  have c: "map snd (ma_sseClients (sd_heap ex_two_streams ! 0)) = [0, 1]" "length (sd_heap ex_two_streams) = 1"
    "ch_buf (sn_Channel (sd_sse ex_two_streams ! 0)) = []" "ch_buf (sn_Channel (sd_sse ex_two_streams ! 1)) = []"
    by code_simp+
  have n: "normalizeEventType ''agent.direct.x.workflow.step'' = ''workflow.step''" using normalize_direct [of "''x''" "''workflow.step''"] by simp
  have s: "NewPayloadRegistry ''workflow.step'' = Some ''WorkflowStepPayload''" by code_simp
  have p: "ProtoToJSON ex_json_codec NewPayloadRegistry (normalizeEventType (ev_Type ?e)) (ev_Payload ?e) = Some 7"
    using n s normalize_known [OF s] by (simp add: ProtoToJSON_def schema_New_def ex_json_codec_def zero_event_def)
  have "0 < length (sd_heap ex_two_streams)" "[0, 1] = map snd (ma_sseClients (sd_heap ex_two_streams ! 0))" "length [0, 1 :: nat] \<le> 32"
    "\<forall>i\<in>set [0, 1]. ch_buf (sn_Channel (sd_sse ex_two_streams ! i)) = []" using c by simp_all
  from streams_multiply_events [OF ex_two_streams_reached this p] n show ?thesis by (auto simp: numeral_2_eq_2)
qed

section \<open>Streams of deregistered agents\<close>

text \<open>
  The stream of a deregistered agent does not end: its channel is closed, and reading a closed channel
  yields the empty event at once, so that the loop writes empty events for as long as it runs.
\<close>

theorem closed_stream_spins:
  assumes ok: "sidecar_ok m" and a: "a \<in> set (sd_unlinked m)" and i: "(cid, i) \<in> set (ma_sseClients (sd_heap m ! a))" and s: "sn_sub (sd_sse m ! i)"
    and b: "ch_buf (sn_Channel (sd_sse m ! i)) = []" and d: "Deregister_close a m = Some m'"
  shows "sn_out (sd_sse ((sseLoop i SseChannel ^^ n) m') ! i) = sn_out (sd_sse m ! i) @ replicate n (EventFrame \<lparr>se_ID = [], se_EventType = [], se_Data = None\<rparr>)"
proof -
  have al: "a < length (sd_heap m)" using ok a by (auto simp: sidecar_ok_def agents_ok_def)
  note ag = sidecar_ok_agent [OF ok al]
  obtain cs where c: "closeSSE (ma_sseClients (sd_heap m ! a)) (sd_sse m) = Some cs" "length cs = length (sd_sse m)"
    "\<forall>j<length (sd_sse m). cs ! j = (if j \<in> snd ` set (ma_sseClients (sd_heap m ! a))
      then (sd_sse m ! j)\<lparr>sn_Channel := (sn_Channel (sd_sse m ! j))\<lparr>ch_closed := True\<rparr>\<rparr> else sd_sse m ! j)"
    using closeSSE_open [OF agent_ok_distinct [OF ag], of "sd_sse m"] agent_ok_sse [OF ag] by blast
  have il: "i < length (sd_sse m)" "i \<in> snd ` set (ma_sseClients (sd_heap m ! a))" using agent_ok_sse [OF ag i] i by (auto intro: rev_image_eqI)
  have m': "sd_sse m' = cs" using d c(1) by (auto simp: Deregister_close_def Let_def)
  have "i < length (sd_sse ((sseLoop i SseChannel ^^ n) m')) \<and> sn_sub (sd_sse ((sseLoop i SseChannel ^^ n) m') ! i) \<and>
      ch_buf (sn_Channel (sd_sse ((sseLoop i SseChannel ^^ n) m') ! i)) = [] \<and> ch_closed (sn_Channel (sd_sse ((sseLoop i SseChannel ^^ n) m') ! i)) \<and>
      sn_out (sd_sse ((sseLoop i SseChannel ^^ n) m') ! i) = sn_out (sd_sse m ! i) @ replicate n (EventFrame \<lparr>se_ID = [], se_EventType = [], se_Data = None\<rparr>)"
  proof (induction n)
    case 0
    then show ?case using il c(2,3) m' s b by simp
  next
    case (Suc n)
    then show ?case by (simp add: sseLoop_def Let_def replicate_append_same)
  qed
  then show ?thesis by blast
qed

section \<open>Pings of managed agents\<close>

text \<open>The context of every agent's SDK agent has ended.\<close>

definition contexts_done :: "('j, 'b) AgentManager \<Rightarrow> bool" where
  "contexts_done m \<longleftrightarrow> (\<forall>ma\<in>set (sd_heap m). ma_ctxDone ma)"

lemma contexts_done_upd:
  assumes "contexts_done m" and "sd_heap m' = (sd_heap m)[a := ma]" and "a < length (sd_heap m) \<Longrightarrow> ma_ctxDone (sd_heap m ! a) \<Longrightarrow> ma_ctxDone ma"
  shows "contexts_done m'"
proof (cases "a < length (sd_heap m)")
  case True
  then show ?thesis using assms set_update_subset_insert [of "sd_heap m" a ma] by (auto simp: contexts_done_def)
qed (use assms in \<open>simp add: contexts_done_def list_update_beyond\<close>)

lemma contexts_done_on_agent: "contexts_done m \<Longrightarrow> ma_ctxDone (f (sd_heap m ! a)) = ma_ctxDone (sd_heap m ! a) \<Longrightarrow> contexts_done (on_agent a f m)"
  by (rule contexts_done_upd [of m _ a "f (sd_heap m ! a)"]) (simp_all add: on_agent_def)

lemma contexts_done_heap: "sd_heap m' = sd_heap m \<Longrightarrow> contexts_done m' = contexts_done m"
  by (simp add: contexts_done_def)

lemma contexts_done_fields [simp]: "contexts_done (m\<lparr>sd_world := w\<rparr>) = contexts_done m" "contexts_done (m\<lparr>sd_sse := ss\<rparr>) = contexts_done m"
  "contexts_done (m\<lparr>sd_ws := ws\<rparr>) = contexts_done m" "contexts_done (m\<lparr>sd_agents := ags, sd_unlinked := us\<rparr>) = contexts_done m"
  "contexts_done (m\<lparr>sd_world := w, sd_sse := ss\<rparr>) = contexts_done m" "contexts_done (m\<lparr>sd_world := w, sd_ws := ws\<rparr>) = contexts_done m"
  by (simp_all add: contexts_done_def)

lemma ctxDone_conns [simp]: "ma_ctxDone (AddSSEClient cid i ma) = ma_ctxDone ma" "ma_ctxDone (RemoveSSEClient cid ma) = ma_ctxDone ma"
  "ma_ctxDone (AddWSClient cid i ma) = ma_ctxDone ma" "ma_ctxDone (RemoveWSClient cid ma) = ma_ctxDone ma"
  by (simp_all add: AddSSEClient_def RemoveSSEClient_def AddWSClient_def RemoveWSClient_def revive_def checkLiveness_def)

lemma registerAnswer_ctx:
  assumes "contexts_done m"
  shows "contexts_done (snd (registerAnswer sv req m))"
proof -
  obtain res m1 where r: "manager_Register sv req m = (res, m1)" by fastforce
  then show ?thesis
    by (cases rule: manager_Register_cases)
      (use r assms in \<open>auto simp: registerAnswer_def contexts_done_def on_agent_def list_update_append split: manager_error.split\<close>)
qed

lemma touch_agent_ctx: "contexts_done m \<Longrightarrow> contexts_done (touch_agent sv a m)"
  by (simp add: touch_agent_def case_prod_unfold Let_def contexts_done_on_agent)

lemma wsPublish_heap: "sd_heap (snd (wsPublish sv jc reg agentID msg m)) = sd_heap m"
  by (subst wsPublish_state) simp

lemma bus_subscribe_heap: "sd_heap (snd (bus_subscribe sv subject m)) = sd_heap m"
  by (subst bus_subscribe_state) simp

lemma wsRead_ctx:
  assumes "contexts_done m"
  shows "contexts_done (wsRead sv jc tx reg i input m)"
proof (cases input)
  case None
  then show ?thesis using assms
    by (simp add: wsRead_def Let_def contexts_done_on_agent)
next
  case (Some msg)
  have t: "contexts_done (touch_agent sv (wn_agent (sd_ws m ! i)) m)" using touch_agent_ctx [OF assms] .
  obtain res n where p: "wsPublish sv jc reg (wn_AgentID (sd_ws m ! i)) msg (touch_agent sv (wn_agent (sd_ws m ! i)) m) = (res, n)" by fastforce
  then have "contexts_done n" using t wsPublish_heap contexts_done_heap by (metis snd_conv)
  then show ?thesis using Some assms t p by (auto simp: wsRead_def Let_def contexts_done_def split: option.split)
qed

interpretation sidecar_ctx: step_invariant "sidecar_step sv jc tx reg" contexts_done for sv jc tx reg
proof
  fix m m'
  assume "sidecar_step sv jc tx reg m m'" and c: "contexts_done m"
  note keep = contexts_done_on_agent c
  from \<open>sidecar_step sv jc tx reg m m'\<close> show "contexts_done m'"
  proof (cases rule: sidecar_step.cases)
    case (ss_register body)
    then show ?thesis using c registerAnswer_ctx [OF c] registerAnswer_ctx [of "m\<lparr>sd_world := w\<rparr>" for w]
      by (auto simp: sidecar_handleRegister_def case_prod_unfold Let_def split: option.split)
  next
    case (ss_close a)
    then show ?thesis by (auto simp: Deregister_close_def Let_def intro: contexts_done_upd [OF c])
  next
    case (ss_stop a)
    then show ?thesis using c by (auto simp: Deregister_stop_def Let_def case_prod_unfold intro: contexts_done_upd [OF c])
  next
    case (ss_publish agentID pbody)
    then show ?thesis using c touch_agent_ctx [of "m\<lparr>sd_world := w\<rparr>" for w]
      by (auto simp: handlePublish_def publishRequest_def case_prod_unfold Let_def contexts_done_def split: option.split)
  next
    case (ss_open_sse a l)
    then show ?thesis
      by (auto simp: openSSE_def case_prod_unfold Let_def bus_subscribe_def keep)
  next
    case (ss_open_ws a l)
    then show ?thesis
      by (auto simp: openWS_def case_prod_unfold Let_def bus_subscribe_def keep)
  next
    case (ss_ws_read i input)
    then show ?thesis using wsRead_ctx [OF c] by simp
  next
    case (ss_sse_event i event)
    then show ?thesis using c by (auto simp: sseCallback_def Let_def split: option.splits)
  qed (auto simp: Deregister_unlink_def sseCallback_def sseLoop_def wsCallback_def wsWrite_def managed_ping_def managed_dispatch_def managed_work_def
      keep Let_def case_prod_unfold split: option.splits list.split sse_wake.split ws_wake.split)
qed


lemma managed_ping_silent:
  assumes "contexts_done m" and "a < length (sd_heap m)"
  shows "w_sent (sd_world (managed_ping sv a event m)) = w_sent (sd_world m)"
proof -
  have "ma_ctxDone (sd_heap m ! a)" using assms by (simp add: contexts_done_def)
  then show ?thesis
    by (simp add: managed_ping_def handlePing_def publishHealthPong_def publishOwn_def bus_publish_def Let_def case_prod_unfold new_uuid_def
        time_now_def split: option.split sum.split)
qed

text \<open>
  The agents of the sidecar answer no health ping: the context their SDK agent is started under is
  that of the registration request, which ends with the answer, so that every pong is refused by the
  bus, whatever happens afterwards.
\<close>

theorem managed_agents_never_pong:
  assumes "(sidecar_step sv jc tx reg)\<^sup>*\<^sup>* (NewAgentManager mx w) m" and "a < length (sd_heap m)"
  shows "w_sent (sd_world (managed_ping sv a event m)) = w_sent (sd_world m)"
  by (rule managed_ping_silent [OF sidecar_ctx.run_keeps [OF assms(1)] assms(2)]) (simp add: contexts_done_def NewAgentManager_def)


text \<open>The example agent at a ping that its SDK agent would answer under a context that lasts.\<close>

definition ex_pinged :: "nat services" where
  "ex_pinged = (null_services 0)\<lparr>sv_dec_ping := \<lambda>_. Some \<lparr>hpi_agent_id = ''x'', hpi_sequence = 3\<rparr>\<rparr>"

definition ex_silent :: "(nat, nat) AgentManager" where
  "ex_silent = snd (sidecar_handleRegister ex_pinged (Some ex_register) (NewAgentManager 1 empty_world))"

theorem managed_agents_never_pong_witness:
  "w_sent (sd_world (managed_ping ex_pinged 0 (zero_event 0) ex_silent)) = w_sent (sd_world ex_silent) \<and>
   length (w_sent (handlePing ex_pinged (ma_SDKAgent (sd_heap ex_silent ! 0)) (zero_event 0) empty_world)) = 1"
proof
  have "(sidecar_step ex_pinged ex_json_codec (\<lambda>_. []) NewPayloadRegistry)\<^sup>*\<^sup>* (NewAgentManager 1 empty_world) ex_silent"
    unfolding ex_silent_def by (rule r_into_rtranclp) (rule ss_register)
  moreover have "0 < length (sd_heap ex_silent)" by code_simp
  ultimately show "w_sent (sd_world (managed_ping ex_pinged 0 (zero_event 0) ex_silent)) = w_sent (sd_world ex_silent)" by (rule managed_agents_never_pong)
  show "length (w_sent (handlePing ex_pinged (ma_SDKAgent (sd_heap ex_silent ! 0)) (zero_event 0) empty_world)) = 1" by code_simp
qed

section \<open>The SDK agent of a managed agent\<close>

lemma fold_Handle:
  "ag_capabilities (fold (\<lambda>c. Handle c h) caps a) = fold (\<lambda>c xs. AList.update (sc_Name c) (c, h) xs) caps (ag_capabilities a)"
  "fold (\<lambda>c. Handle c h) caps a = a\<lparr>ag_capabilities := ag_capabilities (fold (\<lambda>c. Handle c h) caps a)\<rparr>"
  by (induction caps arbitrary: a) (simp_all add: Handle_def)

lemma map_of_Handle:
  assumes "k \<in> sc_Name ` set caps \<or> (\<exists>c. map_of xs k = Some (c, h))"
  shows "\<exists>c. map_of (fold (\<lambda>c xs. AList.update (sc_Name c) (c, h) xs) caps xs) k = Some (c, h)"
  using assms by (induction caps arbitrary: xs) (auto simp: update_conv')

lemma sdk_Start_started:
  assumes "sdk_Start sv connect a w = (None, a', w')"
  shows "ag_state a' = AgentStateRunning" and "ag_capabilities a' = ag_capabilities a" and "ag_inFlight a' = ag_inFlight a" and "ag_cache a' = ag_cache a"
    and "ag_id a' = ag_id a"
  using assms by (auto simp: sdk_Start_def Let_def subscribe_bus_def split: if_splits option.splits prod.splits)

text \<open>A registered agent runs, with a handler that returns nothing for each of its capabilities.\<close>

lemma registered_agent:
  fixes sv :: "'b services" and m :: "('j, 'b) AgentManager"
  assumes "manager_Register sv req m = (Inr k, m1)" and "c \<in> set (rr_Capabilities req)"
  obtains ma sc where "k = length (sd_heap m)" "sd_heap m1 = sd_heap m @ [ma]" "ag_state (ma_SDKAgent ma) = AgentStateRunning" "ag_inFlight (ma_SDKAgent ma) = []"
    "\<not> fst (Has i (ag_cache (ma_SDKAgent ma)))" "ag_id (ma_SDKAgent ma) = rr_AgentID req"
    "map_of (ag_capabilities (ma_SDKAgent ma)) (cs_Name c) = Some (sc, noop sv)"
proof -
  let ?opts = "[WithEventBus True] @ (if rr_Labels req \<noteq> [] then [WithLabels (map_of (rr_Labels req))] else [])"
  let ?caps = "map spec_cap (rr_Capabilities req)"
  obtain a where a: "NewWithID (rr_AgentID req) (rr_Name req) (rr_AgentType req) (rr_Version req) ?opts = (Inr a :: agent_error + 'b Agent)"
    using assms(1) by (auto simp: manager_Register_def Let_def split: if_splits sum.splits)
  then have n: "ag_capabilities a = []" "ag_inFlight a = []" "ag_id a = rr_AgentID req" "ag_cache a = newIdempotencyCache (op_idempotencyCacheSize (ag_opts a))"
    by (auto simp: NewWithID_def Let_def split: if_splits)
  let ?b = "fold (\<lambda>c. Handle c (noop sv)) ?caps a"
  obtain err started w1 where st: "sdk_Start sv (\<lambda>_. False) ?b (sd_world m) = (err, started, w1)" by (metis prod.collapse)
  have "err = None" using assms(1) a st by (cases err) (auto simp: manager_Register_def Let_def split: if_splits)
  note s = sdk_Start_started [OF st [unfolded this]]
  have "cs_Name c \<in> sc_Name ` set ?caps" using assms(2) by (force simp: spec_cap_def)
  then obtain sc where sc: "map_of (ag_capabilities started) (cs_Name c) = Some (sc, noop sv)"
    using map_of_Handle [of "cs_Name c" ?caps "[]" "noop sv"] s(2) fold_Handle(1) [of "noop sv" ?caps a] n(1) by auto
  have "ag_inFlight ?b = []" "ag_cache ?b = ag_cache a" "ag_id ?b = rr_AgentID req" using n fold_Handle(2) [of "noop sv" ?caps a]
    by (metis Agent.ext_inject Agent.surjective Agent.update_convs(7))+
  then show thesis using that assms(1) a st \<open>err = None\<close> s sc n
    by (auto simp: manager_Register_def Let_def case_prod_unfold Has_def newIdempotencyCache_def split: if_splits)
qed

section \<open>Shutdown\<close>

lemma manager_Deregister_effect:
  assumes "sidecar_ok m"
  obtains err m1 where "manager_Deregister sv agentID m = Some (err, m1)" "sidecar_ok m1" "sd_agents m1 = AList.delete agentID (sd_agents m)" "sd_unlinked m1 = sd_unlinked m"
proof (cases "map_of (sd_agents m) agentID")
  case None
  then have "AList.delete agentID (sd_agents m) = sd_agents m" by (metis map_of_eq_None_iff AList.delete_id dom_map_of_conv_image_fst domIff)
  then show thesis using that [of "Some ErrAgentNotFound" m] None assms by (simp add: manager_Deregister_def)
next
  case (Some a)
  let ?m0 = "snd (Deregister_unlink agentID m)"
  have u: "?m0 = m\<lparr>sd_agents := AList.delete agentID (sd_agents m), sd_unlinked := a # sd_unlinked m\<rparr>" using Some by (simp add: Deregister_unlink_def)
  obtain m' where c: "Deregister_close a ?m0 = Some m'" "sidecar_ok m'"
    using Deregister_close_ok [OF Deregister_unlink_ok [OF assms], of a agentID] u by auto
  have f: "sd_agents m' = AList.delete agentID (sd_agents m)" "sd_unlinked m' = sd_unlinked m" "length (sd_heap m') = length (sd_heap m)"
    using c(1) u by (auto simp: Deregister_close_def Let_def)
  have "a < length (sd_heap m)" using manager_Get_bound [OF assms, of agentID a] Some by (simp add: manager_Get_def)
  then have "sidecar_ok (Deregister_stop sv a m')" using Deregister_stop_ok [OF c(2)] f(3) by simp
  then show thesis using Some c(1) f by (intro that [of None "Deregister_stop sv a m'"]) (auto simp: manager_Deregister_def Deregister_stop_def Let_def case_prod_unfold)
qed

lemma stopEach_effect:
  assumes "sidecar_ok m"
  shows "\<exists>m'. stopEach sv agentIDs m = Some m' \<and> sidecar_ok m' \<and> sd_agents m' = filter (\<lambda>e. fst e \<notin> set agentIDs) (sd_agents m) \<and> sd_unlinked m' = sd_unlinked m"
  using assms
proof (induction agentIDs arbitrary: m)
  case (Cons k agentIDs)
  obtain err m1 where d: "manager_Deregister sv k m = Some (err, m1)" "sidecar_ok m1" "sd_agents m1 = AList.delete k (sd_agents m)" "sd_unlinked m1 = sd_unlinked m"
    using manager_Deregister_effect [OF Cons.prems] by blast
  have "filter (\<lambda>e. fst e \<notin> set agentIDs) (AList.delete k (sd_agents m)) = filter (\<lambda>e. fst e \<notin> set (k # agentIDs)) (sd_agents m)"
    by (simp add: AList.delete_eq) (rule filter_cong, auto)
  then show ?case using Cons.IH [OF d(2)] d by auto
qed simp

text \<open>
  Shutting the sidecar down deregisters every agent, without a panic, from whatever state it is
  in; what is left are the agents that a request is deregistering at that moment.
\<close>

theorem shutdown_stops_all:
  assumes "(sidecar_step sv jc tx reg)\<^sup>*\<^sup>* (NewAgentManager mx w) m"
  shows "\<exists>m'. StopAll sv m = Some m' \<and> Count m' = 0 \<and>
    (\<forall>a<length (sd_heap m'). ma_State (sd_heap m' ! a) = ManagedAgentDeregistered \<longleftrightarrow> a \<notin> set (sd_unlinked m))"
proof -
  have "sidecar_ok m" using sidecar_inv.run_keeps [OF assms NewAgentManager_ok] .
  from stopEach_effect [OF this, of sv "map fst (sd_agents m)"]
  obtain m' where m': "StopAll sv m = Some m'" "sidecar_ok m'" "sd_agents m' = filter (\<lambda>e. fst e \<notin> set (map fst (sd_agents m))) (sd_agents m)" "sd_unlinked m' = sd_unlinked m"
    by (auto simp: StopAll_def)
  then have "sd_agents m' = []" by (auto simp: filter_empty_conv)
  then show ?thesis using m' by (auto simp: Count_def sidecar_ok_def agents_ok_def)
qed

theorem shutdown_stops_all_witness:
  "Count ex_two_streams = 1 \<and> (\<exists>m'. StopAll (null_services 0) ex_two_streams = Some m' \<and> Count m' = 0)"
proof -
  have "Count ex_two_streams = 1" by code_simp
  then show ?thesis using shutdown_stops_all [OF ex_two_streams_reached] by blast
qed

end
