(* ===== verification/OperatorProps.thy ===== *)
theory OperatorProps
  imports Operator DecisionProps
begin

text \<open>
  Properties of the operator interface: the recovery buffer holds the last events and a client that
  reconnects gets what follows, up to a window in which events are lost; the pages of workflows fit
  together; the counts are right, or never right; the routes clash; and an approval over HTTP
  resumes its workflow.
\<close>

section \<open>The ring buffer\<close>

text \<open>The events the ring can hold: the last ones of a history.\<close>

definition recent :: "operatorEventJSON list \<Rightarrow> operatorEventJSON list" where
  "recent es = drop (length es - operatorRingSize) es"

definition after :: "string \<Rightarrow> operatorEventJSON list \<Rightarrow> operatorEventJSON list option" where
  "after lastID es = (case dropWhile (\<lambda>e. oe_ID e \<noteq> lastID) es of [] \<Rightarrow> None | _ # rest \<Rightarrow> Some rest)"

definition ring_ok :: "operatorEventJSON list \<Rightarrow> OperatorHandler \<Rightarrow> bool" where
  "ring_ok es h \<longleftrightarrow> length (oh_ring h) = operatorRingSize \<and> oh_ringLen h = min operatorRingSize (length es) \<and> oh_ringIdx h = length es mod operatorRingSize \<and>
     (\<forall>j. length es - operatorRingSize \<le> j \<longrightarrow> j < length es \<longrightarrow> oh_ring h ! (j mod operatorRingSize) = es ! j)"

lemma ringSize_pos: "0 < operatorRingSize"
  by (simp add: operatorRingSize_def)

lemma mod_apart: "a < b \<Longrightarrow> b < a + n \<Longrightarrow> a mod n \<noteq> b mod (n :: nat)"
proof
  assume "a < b" "b < a + n" "a mod n = b mod n"
  then have "n dvd b - a" by (metis less_imp_le mod_eq_dvd_iff_nat)
  moreover have "0 < b - a" "b - a < n" using \<open>a < b\<close> \<open>b < a + n\<close> by auto
  ultimately show False using nat_dvd_not_less by blast
qed

lemma ring_ok_new: "ring_ok [] NewOperatorHandler"
  by (simp add: ring_ok_def NewOperatorHandler_def)

lemma ring_ok_append:
  assumes "ring_ok es h"
  shows "ring_ok (es @ [e]) (appendRing e h)"
proof -
  let ?n = "length es"
  have "(oh_ring h)[?n mod operatorRingSize := e] ! (j mod operatorRingSize) = (es @ [e]) ! j" if "Suc ?n - operatorRingSize \<le> j" "j < Suc ?n" for j
  proof (cases "j = ?n")
    case False
    then have "j mod operatorRingSize \<noteq> ?n mod operatorRingSize" using that mod_apart [of j ?n operatorRingSize] by auto
    then show ?thesis using assms that False by (auto simp: ring_ok_def nth_append)
  qed (use assms ringSize_pos in \<open>simp add: ring_ok_def\<close>)
  then show ?thesis using assms by (auto simp: ring_ok_def appendRing_def mod_Suc_eq)
qed

lemma ring_ok_cong: "oh_ring h' = oh_ring h \<Longrightarrow> oh_ringIdx h' = oh_ringIdx h \<Longrightarrow> oh_ringLen h' = oh_ringLen h \<Longrightarrow> ring_ok es h' = ring_ok es h"
  by (simp add: ring_ok_def)

lemma ring_ok_consume: "ring_ok es h \<Longrightarrow> ring_ok (es @ [fst x]) (consumeEvent x h)"
  using ring_ok_append [of es h "fst x"] ring_ok_cong [of "consumeEvent x h" "appendRing (fst x) h"]
  by (simp add: consumeEvent_def case_prod_unfold broadcastToSSE_def trackThroughput_def)

lemma ring_ok_fold: "ring_ok es h \<Longrightarrow> ring_ok (es @ map fst xs) (fold consumeEvent xs h)"
proof (induction xs arbitrary: es h)
  case (Cons x xs)
  then show ?case using Cons.IH [OF ring_ok_consume [OF Cons.prems]] by simp
qed simp

lemma walkRing_list:
  "walkRing ring start lastID idxs (found, result) =
     (let xs = map (\<lambda>i. ring ! ((start + i) mod operatorRingSize)) idxs in
      if found then (True, result @ xs) else case after lastID xs of None \<Rightarrow> (False, result) | Some ys \<Rightarrow> (True, result @ ys))"
proof (induction idxs arbitrary: found result)
  case (Cons i idxs)
  then show ?case by (cases found; cases "oe_ID (ring ! ((start + i) mod operatorRingSize)) = lastID") (simp_all add: after_def Let_def)
qed (simp add: after_def)

lemma ring_ok_recent:
  assumes "ring_ok es h"
  shows "map (\<lambda>i. oh_ring h ! (((if oh_ringLen h = operatorRingSize then oh_ringIdx h else 0) + i) mod operatorRingSize)) [0..<oh_ringLen h] = recent es"
proof (rule nth_equalityI)
  let ?start = "if oh_ringLen h = operatorRingSize then oh_ringIdx h else 0"
  show l: "length (map (\<lambda>i. oh_ring h ! ((?start + i) mod operatorRingSize)) [0..<oh_ringLen h]) = length (recent es)"
    using assms by (simp add: ring_ok_def recent_def)
  fix i assume "i < length (map (\<lambda>i. oh_ring h ! ((?start + i) mod operatorRingSize)) [0..<oh_ringLen h])"
  then have i: "i < oh_ringLen h" by simp
  let ?j = "length es - oh_ringLen h + i"
  have j: "length es - operatorRingSize \<le> ?j" "?j < length es" "oh_ringLen h = min operatorRingSize (length es)" using i assms by (auto simp: ring_ok_def)
  have "(?start + i) mod operatorRingSize = ?j mod operatorRingSize"
  proof (cases "operatorRingSize \<le> length es")
    case True
    then have "?start + i = length es mod operatorRingSize + i" "?j + operatorRingSize = length es + i" using assms j(3) by (auto simp: ring_ok_def)
    then show ?thesis by (metis mod_add_left_eq mod_add_self2)
  next
    case False
    then show ?thesis using j(3) by simp
  qed
  then have "oh_ring h ! ((?start + i) mod operatorRingSize) = es ! ?j" using assms j(1,2) by (simp add: ring_ok_def)
  then show "map (\<lambda>i. oh_ring h ! ((?start + i) mod operatorRingSize)) [0..<oh_ringLen h] ! i = recent es ! i"
    using i j(3) l by (simp add: recent_def min_def add.commute split: if_splits)
qed

text \<open>The recovery buffer is the last part of the history, and the search in it is the search in that part.\<close>

lemma findInRing_recent:
  assumes "ring_ok es h"
  shows "findInRing lastID h = (if es = [] then ([], True) else case after lastID (recent es) of None \<Rightarrow> ([], False) | Some ys \<Rightarrow> (ys, True))"
proof -
  have "oh_ringLen h = 0 \<longleftrightarrow> es = []" using assms ringSize_pos by (auto simp: ring_ok_def min_def split: if_splits)
  then show ?thesis using walkRing_list [of "oh_ring h" "if oh_ringLen h = operatorRingSize then oh_ringIdx h else 0" lastID "[0..<oh_ringLen h]" False "[]"]
    by (auto simp: findInRing_def Let_def ring_ok_recent [OF assms] split: option.split)
qed

section \<open>Clients of the feed\<close>

lemma map_of_broadcast: "map_of (oh_sseClients (broadcastToSSE e h)) c = map_option (\<lambda>buf. if length buf < operatorSSEBufSize then buf @ [e] else buf) (map_of (oh_sseClients h) c)"
proof -
  have "map_of (map (\<lambda>(c, buf). (c, f buf)) xs) c = map_option f (map_of xs c)" for f and xs :: "(string \<times> operatorEventJSON list) list"
    by (induction xs) auto
  then show ?thesis by (simp add: broadcastToSSE_def)
qed

lemma consume_client:
  assumes "map_of (oh_sseClients h) c = Some buf" and "length buf + length xs \<le> operatorSSEBufSize"
  shows "map_of (oh_sseClients (fold consumeEvent xs h)) c = Some (buf @ map fst xs)"
  using assms
proof (induction xs arbitrary: h buf)
  case (Cons x xs)
  have "map_of (oh_sseClients (consumeEvent x h)) c = Some (buf @ [fst x])"
    using Cons.prems by (simp add: consumeEvent_def case_prod_unfold map_of_broadcast trackThroughput_def appendRing_def)
  then show ?case using Cons.IH [of "consumeEvent x h" "buf @ [fst x]"] Cons.prems(2) by simp
qed simp

lemma feed_drains:
  assumes "map_of (oh_sseClients h) c = Some buf"
  shows "fst ((feedTurn c f FeedReady ^^ length buf) (out, h)) = out @ map FeedEvent (filter (eventMatchesFilter f) buf)"
  using assms
proof (induction buf arbitrary: h out)
  case (Cons e buf)
  let ?h = "h\<lparr>oh_sseClients := AList.update c buf (oh_sseClients h)\<rparr>"
  have "feedTurn c f FeedReady (out, h) = (if eventMatchesFilter f e then out @ [FeedEvent e] else out, ?h)" using Cons.prems by (simp add: feedTurn_def)
  moreover have "map_of (oh_sseClients ?h) c = Some buf" by (simp add: map_of_alist_update)
  ultimately show ?case using Cons.IH [of ?h] by (simp add: funpow_Suc_right del: funpow.simps)
qed simp

lemma after_in_recent:
  assumes "es = pre @ e # post" and "oe_ID e = lastID" and "lastID \<notin> oe_ID ` set pre" and "length post < operatorRingSize"
  shows "after lastID (recent es) = Some post"
proof -
  have "recent es = drop (length es - operatorRingSize) pre @ e # post" using assms(1,4) by (simp add: recent_def)
  moreover have "\<forall>x\<in>set (drop (length es - operatorRingSize) pre). oe_ID x \<noteq> lastID" using assms(3) in_set_dropD by fastforce
  ultimately show ?thesis using assms(2) by (simp add: after_def dropWhile_append3 dropWhile_append)
qed


text \<open>Three events with nothing but an identifier; the second arrives while the client reconnects.\<close>

definition ex_feed :: "string \<Rightarrow> operatorEventJSON \<times> int \<times> int" where
  "ex_feed i = (zeroOperatorEvent\<lparr>oe_ID := i\<rparr>, 0, 0)"


section \<open>Throughput\<close>

text \<open>
  The times kept are enough to count the events of the last minute: with a clock that does not go
  back, the times dropped are older than the window.
\<close>

lemma throughput_exact:
  assumes "\<forall>x\<in>set xs. snd (snd x) \<le> t"
  shows "throughputCount t (fold consumeEvent xs NewOperatorHandler) = length (filter (\<lambda>x. t - operatorThroughputWindow \<le> fst (snd x)) xs)"
proof -
  have drp: "filter (\<lambda>x. t - operatorThroughputWindow \<le> x) (dropWhile (\<lambda>x. x < t' - operatorThroughputWindow) ys) =
      filter (\<lambda>x. t - operatorThroughputWindow \<le> x) ys" if "t' \<le> t" for t' and ys :: "int list"
    using that by (induction ys) auto
  have "filter (\<lambda>x. t - operatorThroughputWindow \<le> x) (oh_eventNanos (fold consumeEvent xs h)) =
      filter (\<lambda>x. t - operatorThroughputWindow \<le> x) (oh_eventNanos h) @ filter (\<lambda>x. t - operatorThroughputWindow \<le> x) (map (fst \<circ> snd) xs)" for h
    using assms
  proof (induction xs arbitrary: h)
    case (Cons x xs)
    have "oh_eventNanos (consumeEvent x h) = dropWhile (\<lambda>y. y < snd (snd x) - operatorThroughputWindow) (oh_eventNanos h @ [fst (snd x)])"
      by (simp add: consumeEvent_def case_prod_unfold broadcastToSSE_def trackThroughput_def appendRing_def)
    moreover have "snd (snd x) \<le> t" using Cons.prems by simp
    ultimately show ?case using Cons.IH [of "consumeEvent x h"] Cons.prems drp by simp
  qed simp
  from this [of NewOperatorHandler] show ?thesis by (simp add: throughputCount_def NewOperatorHandler_def filter_map comp_def)
qed

section \<open>Numbers in queries\<close>

lemma digits_append: "digits (s @ t) acc = Option.bind (digits s acc) (digits t)"
  by (induction s arbitrary: acc) (simp_all add: Let_def)

lemma digits_Itoa: "digits (Itoa n) acc = Some (acc * 10 ^ length (Itoa n) + n)"
proof (induction n arbitrary: acc rule: Itoa.induct)
  case (1 n)
  show ?case
  proof (cases "n < 10")
    case True
    then show ?thesis by (simp add: Itoa.simps [of n])
  next
    case False
    have "48 + n mod 10 < 256" by (simp add: add.commute trans_less_add1)
    then show ?thesis using 1 [OF False] False by (simp add: Itoa.simps [of n] digits_append algebra_simps)
  qed
qed

lemma Itoa_hd: "Itoa n \<noteq> [] \<and> hd (Itoa n) \<notin> {CHR ''-'', CHR ''+''}"
proof (induction n rule: Itoa.induct)
  case (1 n)
  show ?case
  proof (cases "n < 10")
    case True
    then have "(of_char (hd (Itoa n)) :: nat) = 48 + n" "Itoa n \<noteq> []" by (simp_all add: Itoa.simps [of n])
    then show ?thesis by auto
  next
    case False
    then show ?thesis using 1 by (simp add: Itoa.simps [of n])
  qed
qed

lemma Atoi_Itoa: "int n < 2 ^ 63 \<Longrightarrow> Atoi (Itoa n) = Some (int n)"
  using Itoa_hd [of n] digits_Itoa [of n 0] by (auto simp: Atoi_def Let_def)

section \<open>Pages of workflows\<close>

text \<open>The workflows that a request asks for, before they are cut into pages.\<close>

definition wantedWorkflows :: "(int \<Rightarrow> string) \<Rightarrow> 'b WorkflowState list \<Rightarrow> api_request \<Rightarrow> workflowJSON list" where
  "wantedWorkflows fmt states r = map (\<lambda>st. stateToJSON fmt st False)
     (filter (\<lambda>st. rq_query r ''status'' = [] \<or> workflowStatusString (ws_Status st) = rq_query r ''status'') states)"

definition pageRequest :: "api_request \<Rightarrow> nat \<Rightarrow> api_request" where
  "pageRequest r k = r\<lparr>rq_query := (rq_query r)(''offset'' := Itoa (k * nat (parseLimit (rq_query r ''limit''))))\<rparr>"

lemma parseLimit_range: "0 < parseLimit s \<and> parseLimit s \<le> 1000"
  by (simp add: parseLimit_def split: option.split)

lemma clamped_page:
  assumes "off = (if int (length w) < int a then int (length w) else int a)" and "till = (if int (length w) < off + int l then int (length w) else off + int l)"
  shows "take (nat (till - off)) (drop (nat off) w) = take l (drop a w)"
  using assms by (cases "length w < a"; cases "length w < a + l") (auto simp: nat_diff_distrib nat_int_add)

lemma handleWorkflows_page:
  assumes "rq_Method r = ''GET''" and "int (k * nat (parseLimit (rq_query r ''limit''))) < 2 ^ 63"
  shows "\<exists>p. handleWorkflows fmt (Inr states) (pageRequest r k) = Inr p \<and> wp_total p = int (length (wantedWorkflows fmt states r)) \<and>
    wp_workflows p = take (nat (parseLimit (rq_query r ''limit''))) (drop (k * nat (parseLimit (rq_query r ''limit''))) (wantedWorkflows fmt states r))"
proof -
  let ?w = "wantedWorkflows fmt states r"
  obtain l where l: "parseLimit (rq_query r ''limit'') = int l" using parseLimit_range [of "rq_query r ''limit''"] by (metis less_imp_le nonneg_int_cases)
  define a where "a = k * l"
  have q: "rq_query (pageRequest r k) ''limit'' = rq_query r ''limit''" "rq_query (pageRequest r k) ''status'' = rq_query r ''status''" "rq_Method (pageRequest r k) = ''GET''"
    "parseOffset (rq_query (pageRequest r k) ''offset'') = int a"
    using assms l by (simp_all add: pageRequest_def parseOffset_def Atoi_Itoa a_def)
  have f: "filter (\<lambda>wf. rq_query r ''status'' = [] \<or> wv_Status wf = rq_query r ''status'') (map (\<lambda>st. stateToJSON fmt st False) states) = ?w"
    by (simp add: wantedWorkflows_def filter_map comp_def stateToJSON_def)
  show ?thesis unfolding handleWorkflows_def Let_def q l
    using f clamped_page [OF refl refl, where a = a and l = l and w = ?w] by (simp add: a_def [symmetric])
qed

text \<open>
  C24. The pages of the list of workflows fit together: asked for one after the other with any limit
  and status, the first \<open>m\<close> pages hold exactly the first workflows of that status, each once, and
  each page tells their total number.
\<close>

theorem workflow_pages_exact:
  assumes "rq_Method r = ''GET''" and "int (m * nat (parseLimit (rq_query r ''limit''))) < 2 ^ 63"
  shows "\<exists>ps. length ps = m \<and> (\<forall>k<m. handleWorkflows fmt (Inr states) (pageRequest r k) = Inr (ps ! k) \<and> wp_total (ps ! k) = int (length (wantedWorkflows fmt states r))) \<and>
    concat (map wp_workflows ps) = take (m * nat (parseLimit (rq_query r ''limit''))) (wantedWorkflows fmt states r)"
  using assms(2)
proof (induction m)
  case (Suc m)
  let ?L = "nat (parseLimit (rq_query r ''limit''))" and ?w = "wantedWorkflows fmt states r"
  have "int (m * ?L) \<le> int (Suc m * ?L)" by (simp only: of_nat_le_iff mult_le_mono1 le_SucI le_refl)
  with Suc.prems have lt: "int (m * ?L) < 2 ^ 63" by linarith
  obtain ps where ps: "length ps = m" "\<forall>k<m. handleWorkflows fmt (Inr states) (pageRequest r k) = Inr (ps ! k) \<and> wp_total (ps ! k) = int (length ?w)"
    "concat (map wp_workflows ps) = take (m * ?L) ?w" using Suc.IH [OF lt] by blast
  obtain p where p: "handleWorkflows fmt (Inr states) (pageRequest r m) = Inr p" "wp_total p = int (length ?w)" "wp_workflows p = take ?L (drop (m * ?L) ?w)"
    using handleWorkflows_page [OF assms(1) lt] by blast
  have "concat (map wp_workflows (ps @ [p])) = take (Suc m * ?L) ?w" using ps(3) p(3) by (simp add: take_add add.commute [of ?L])
  then show ?case using ps p by (intro exI [of _ "ps @ [p]"]) (auto simp: nth_append less_Suc_eq)
qed simp

definition ex_page_request :: api_request where
  "ex_page_request = \<lparr>rq_Method = ''GET'', rq_Path = ''/api/workflows'', rq_query = (\<lambda>k. if k = ''limit'' then ''1'' else [])\<rparr>"

theorem workflow_pages_exact_witness:
  "\<exists>(p1 :: workflow_page) p2. handleWorkflows (\<lambda>_. []) (Inr [wf_state [False], wf_state [True], wf_state []]) (pageRequest ex_page_request 1) = Inr p2 \<and>
    wp_workflows p1 @ wp_workflows p2 = take 2 (wantedWorkflows (\<lambda>_. []) [wf_state [False], wf_state [True], wf_state []] ex_page_request)"
proof -
  have l: "parseLimit (rq_query ex_page_request ''limit'') = 1" and m: "rq_Method ex_page_request = ''GET''" by code_simp+
  have "int (2 * nat (parseLimit (rq_query ex_page_request ''limit''))) < 2 ^ 63" by (simp add: l)
  from workflow_pages_exact [OF m this, of "\<lambda>_. []" "[wf_state [False], wf_state [True], wf_state []]"] obtain ps where
    "length ps = 2" "handleWorkflows (\<lambda>_. []) (Inr [wf_state [False], wf_state [True], wf_state []]) (pageRequest ex_page_request 1) = Inr (ps ! 1)"
      "concat (map wp_workflows ps) = take 2 (wantedWorkflows (\<lambda>_. []) [wf_state [False], wf_state [True], wf_state []] ex_page_request)"
    by (auto simp: l)
  note ps = this
  then obtain p1 p2 where "ps = [p1, p2]" by (auto simp: numeral_2_eq_2 length_Suc_conv)
  then show ?thesis using ps(2,3) by (intro exI [of _ p1] exI [of _ p2]) simp
qed

section \<open>Statistics\<close>

text \<open>Every agent is counted in exactly one of the four groups.\<close>

lemma stats_add_up:
  assumes "handleStats reg wfs n nodes t h r = Inr s"
  shows "st_HealthyCount s + st_DegradedCount s + st_OfflineCount s + st_UnknownCount s = st_TotalAgents s"
proof -
  have "countStatus (\<lambda>s. s = StatusActive) xs + countStatus (\<lambda>s. s = StatusUnhealthy) xs + countStatus (\<lambda>s. s = StatusDead \<or> s = StatusUnregistered) xs +
    countStatus (\<lambda>s. s \<notin> {StatusActive, StatusUnhealthy, StatusDead, StatusUnregistered}) xs = length xs" for xs
    by (induction xs) (auto simp: countStatus_def)
  then show ?thesis using assms by (auto simp: handleStats_def Let_def split: if_splits sum.splits)
qed

text \<open>The health report never counts a node as healthy: it compares with a text no status has.\<close>

lemma no_node_reported_healthy:
  assumes "hr_Federation (snd (healthHandler nodeID started subsystems gateway)) = Some fed"
  shows "fh_HealthyNodes fed = 0"
proof -
  have "node_status_String s \<noteq> ''active''" for s by (cases s) simp_all
  moreover obtain nodes where "gateway = Some nodes" using assms by (auto simp: healthHandler_def Let_def)
  ultimately show ?thesis using assms by (cases nodes; cases "the nodes") (auto simp: healthHandler_def Let_def)
qed

section \<open>Routes\<close>

lemma RegisterRoutes_Some: "RegisterRoutes pats mux \<noteq> None \<longleftrightarrow> distinct pats \<and> set pats \<inter> set mux = {}"
  by (induction pats arbitrary: mux) (auto simp: HandleFunc_def)


section \<open>A decision of an operator\<close>

lemma handleRespond_accepted:
  assumes "handleRespond sv nodeID r (Some req) did n = (Inr x, n')" and "GetPending did n = Some pd" and "actionOf (rp_Action req) = Some action"
  obtains ts data uid ts' where "sv_marshal sv (MDecisionResponse \<lparr>hdr_decision_id = did, hdr_workflow_id = pd_WorkflowID pd, hdr_action = action,
      hdr_operator_id = rp_OperatorID req, hdr_comment = rp_Comment req, hdr_responded_at = ts\<rparr>) = Some data"
    "w_sent (en_world (nd_env n')) = w_sent (en_world (nd_env n)) @ [(zero_event data)\<lparr>ev_ID := uid, ev_Type := ''human.decision.response'', ev_SourceNode := nodeID,
      ev_WorkflowID := pd_WorkflowID pd, ev_Timestamp := ts'\<rparr>]"
    "nd_store n' = nd_store n" "nd_resumeCh n' = nd_resumeCh n" "nd_buffers n' = nd_buffers n"
proof -
  obtain ts n1 where t: "now sv n = (ts, n1)" by fastforce
  let ?p = "\<lparr>hdr_decision_id = did, hdr_workflow_id = pd_WorkflowID pd, hdr_action = action, hdr_operator_id = rp_OperatorID req, hdr_comment = rp_Comment req, hdr_responded_at = ts\<rparr>"
  let ?mk = "\<lambda>data. (zero_event data)\<lparr>ev_Type := ''human.decision.response'', ev_SourceNode := nodeID, ev_WorkflowID := pd_WorkflowID pd\<rparr>"
  obtain err w where em: "emit sv (MDecisionResponse ?p) ?mk (en_world (nd_env n1)) = (err, w)" by fastforce
  then have e: "emit sv (MDecisionResponse ?p) ?mk (en_world (nd_env n1)) = (None, w)" "n' = n1\<lparr>nd_env := (nd_env n1)\<lparr>en_world := w\<rparr>\<rparr>"
    using assms t by (auto simp: handleRespond_def node_emit_def Let_def split: if_splits option.splits publish_error.splits)
  have n1: "w_sent (en_world (nd_env n1)) = w_sent (en_world (nd_env n))" "nd_store n1 = nd_store n" "nd_resumeCh n1 = nd_resumeCh n" "nd_buffers n1 = nd_buffers n"
    using t by (auto simp: now_def time_now_def)
  from e(1) obtain data uid ts' where "sv_marshal sv (MDecisionResponse ?p) = Some data" "w_sent w = w_sent (en_world (nd_env n1)) @ [(?mk data)\<lparr>ev_ID := uid, ev_Timestamp := ts'\<rparr>]"
    by (rule emit_None)
  then show thesis using that [of ts data ts' uid] e(2) n1 by (simp add: zero_event_def)
qed

text \<open>
  C23. An operator's approval over HTTP makes the workflow go on: an accepted request publishes one
  response event; when the engine has handled it and the waiting goroutine has woken up, the decision
  is recorded for the step and the workflow has moved one step forward.
\<close>

theorem operator_approval_resumes:
  assumes "reliable_workflow_store kv view" and "eg_store e = kv" and "bucket_ok (view (nd_store n))"
    and "view (nd_store n) wid = Some (Json st, q)" and "ws_Status st = StatusWaitingHuman" and "ws_PendingDecision st = Some pd"
    and "GetPending (pd_DecisionID pd) n = Some pend" and "pd_WorkflowID pend = wid"
    and "map_of (nd_resumeCh n) wid = Some ch" and "map_of (nd_buffers n) ch = Some None"
    and "\<forall>p d. sv_marshal sv (MDecisionResponse p) = Some d \<longrightarrow> sv_dec_decision sv d = Some p"
    and "ToLower (rp_Action req) = ''approve''" and "handleRespond sv nodeID r (Some req) (pd_DecisionID pd) n = (Inr x, n1)"
  shows "\<exists>event n2 st' q' res. w_sent (en_world (nd_env n1)) = w_sent (en_world (nd_env n)) @ [event] \<and> ev_Type event = ''human.decision.response'' \<and>
    handleDecisionResponse sv e event n1 = (None, n2) \<and> view (nd_store (wake sv e (ch, wid, i) n2)) wid = Some (Json st', q') \<and>
    ws_StepResults st' = ws_StepResults st @ [res] \<and> rs_AgentID res = ''human-operator'' \<and> rs_StepIndex res = i \<and>
    unat (ws_CurrentStep st') = Suc (unat (ws_CurrentStep st))"
proof -
  have "actionOf (rp_Action req) = Some ActionApprove" using assms(12) by (simp add: actionOf_def)
  then obtain ts data uid ts' where h: "sv_marshal sv (MDecisionResponse \<lparr>hdr_decision_id = pd_DecisionID pd, hdr_workflow_id = wid, hdr_action = ActionApprove,
      hdr_operator_id = rp_OperatorID req, hdr_comment = rp_Comment req, hdr_responded_at = ts\<rparr>) = Some data"
    "w_sent (en_world (nd_env n1)) = w_sent (en_world (nd_env n)) @ [(zero_event data)\<lparr>ev_ID := uid, ev_Type := ''human.decision.response'', ev_SourceNode := nodeID,
      ev_WorkflowID := wid, ev_Timestamp := ts'\<rparr>]"
    "nd_store n1 = nd_store n" "nd_resumeCh n1 = nd_resumeCh n" "nd_buffers n1 = nd_buffers n"
    using handleRespond_accepted [OF assms(13,7)] assms(8) by metis
  let ?p = "\<lparr>hdr_decision_id = pd_DecisionID pd, hdr_workflow_id = wid, hdr_action = ActionApprove, hdr_operator_id = rp_OperatorID req, hdr_comment = rp_Comment req,
    hdr_responded_at = ts\<rparr>"
  let ?event = "(zero_event data)\<lparr>ev_ID := uid, ev_Type := ''human.decision.response'', ev_SourceNode := nodeID, ev_WorkflowID := wid, ev_Timestamp := ts'\<rparr>"
  obtain res n2 where pr: "ProcessResponse sv (eg_coordinator e) ?p n1 = (res, n2)" by fastforce
  have d: "handleDecisionResponse sv e ?event n1 = (res, n2)" using assms(11) h(1) pr by (simp add: handleDecisionResponse_def zero_event_def)
  from approval_resumes [OF assms(1,2) _ _ assms(5,6) refl _ _ pr, of q ch i] h(3-5) assms(3,4,9,10)
  have "res = None \<and> (\<exists>st' q' r. view (nd_store (wake sv e (ch, wid, i) n2)) wid = Some (Json st', q') \<and>
    ws_StepResults st' = ws_StepResults st @ [r] \<and> rs_AgentID r = ''human-operator'' \<and> rs_StepIndex r = i \<and>
    unat (ws_CurrentStep st') = Suc (unat (ws_CurrentStep st)))" by simp
  then show ?thesis using d h(2) by fastforce
qed


text \<open>The waiting workflow of the examples, with the decision pending and an operator who approves.\<close>

definition op_payload :: HumanDecisionResponsePayload where
  "op_payload = \<lparr>hdr_decision_id = ''d'', hdr_workflow_id = ''w'', hdr_action = ActionApprove, hdr_operator_id = ''op'', hdr_comment = [], hdr_responded_at = 0\<rparr>"

definition op_services :: "nat services" where
  "op_services = wf_services\<lparr>sv_marshal := \<lambda>m. (case m of MDecisionResponse p \<Rightarrow> if p = op_payload then Some 5 else None | _ \<Rightarrow> Some 0),
     sv_dec_decision := \<lambda>d. if d = 5 then Some op_payload else None\<rparr>"

definition op_pending :: PendingDecision where
  "op_pending = new_decision ''d'' ''w'' (steps_of (wf_state [True, False]) ! 0) 0 0"

definition op_node :: "(nat WorkflowState json bucket, nat) node" where
  "op_node = (wf_node (wf_bucket wf_waiting))\<lparr>nd_pending := [(''d'', op_pending)], nd_resumeCh := [(''w'', 0)], nd_buffers := [(0, None)], nd_waiting := [(0, ''w'', 0)]\<rparr>"

definition op_respond :: "(string \<times> string) http_reply \<times> (nat WorkflowState json bucket, nat) node" where
  "op_respond = handleRespond op_services ''n1'' \<lparr>rq_Method = ''POST'', rq_Path = ''/api/decisions/d/respond'', rq_query = (\<lambda>_. [])\<rparr>
     (Some \<lparr>rp_Action = ''Approve'', rp_OperatorID = ''op'', rp_Comment = []\<rparr>) ''d'' op_node"

theorem operator_approval_resumes_witness:
  "\<exists>event n2 st' q'. w_sent (en_world (nd_env (snd op_respond))) = w_sent (en_world (nd_env op_node)) @ [event] \<and>
    handleDecisionResponse op_services wf_engine event (snd op_respond) = (None, n2) \<and>
    mem_view (nd_store (wake op_services wf_engine (0, ''w'', 0) n2)) ''w'' = Some (Json st', q') \<and> unat (ws_CurrentStep st') = 1"
proof -
  have "fst op_respond = Inr (''d'', ''Approve'')" by code_simp
  then have r: "handleRespond op_services ''n1'' \<lparr>rq_Method = ''POST'', rq_Path = ''/api/decisions/d/respond'', rq_query = (\<lambda>_. [])\<rparr>
     (Some \<lparr>rp_Action = ''Approve'', rp_OperatorID = ''op'', rp_Comment = []\<rparr>) (pd_DecisionID op_pending) op_node = (Inr (''d'', ''Approve''), snd op_respond)"
    by (metis op_respond_def prod.collapse op_pending_def new_decision_def PendingDecision.select_convs(1))
  have ok: "bucket_ok (mem_view (nd_store op_node))" using wf_bucket_ok [OF wf_waiting_ok] by (simp add: op_node_def)
  have v: "mem_view (nd_store op_node) ''w'' = Some (Json wf_waiting, 1)" using wf_view [of wf_waiting] by (simp add: op_node_def)
  have p: "ws_PendingDecision wf_waiting = Some op_pending" using wf_waiting_decision(1) by (simp add: op_pending_def)
  have g: "GetPending (pd_DecisionID op_pending) op_node = Some op_pending" "pd_WorkflowID op_pending = ''w''" "map_of (nd_resumeCh op_node) ''w'' = Some 0"
    "map_of (nd_buffers op_node) 0 = Some None"
    by (simp_all add: GetPending_def op_node_def op_pending_def new_decision_def)
  have c: "\<forall>p d. sv_marshal op_services (MDecisionResponse p) = Some d \<longrightarrow> sv_dec_decision op_services d = Some p" by (simp add: op_services_def)
  have l: "ToLower (rp_Action \<lparr>rp_Action = ''Approve'', rp_OperatorID = ''op'', rp_Comment = []\<rparr>) = ''approve''" by code_simp
  from operator_approval_resumes [OF mem_rwf.reliable_workflow_store_axioms wf_engine_store ok v wf_waiting_decision(2) p g c l r, of 0]
  show ?thesis by (auto simp: wf_waiting_decision)
qed

end
