(* ===== verification/Spec2Isabelle.thy ===== *)
theory Spec2Isabelle
  imports SimulationApi ReplayProps ScenarioProps DecisionProps Discovery Gateway Sdk A2AProps SidecarProps OperatorProps
begin

text \<open>
  Verification of Baran OS, an event-driven runtime for distributed agents. Agents and runtime talk
  through events on a bus; a node keeps its state in key-value buckets, and nodes are joined into a
  federation by a leaf connection.

  \<^bold>\<open>Environment.\<close> What is not part of the repository is a parameter.

  \<^item> The key-value client is \<open>kv_ops\<close> of theory \<open>KV\<close>, with the laws
    of the bucket in the locales \<open>kv_store\<close> (requests may fail, a failed write may or
    may not have happened) and \<open>reliable_kv\<close> (requests are answered); both are
    interpreted, on an in-memory bucket and on the same bucket behind a script of faults.

  \<^item> The bus, the streams, the subscriptions, the federation wire, clock, UUIDs and the
    protobuf codec are \<open>services\<close> of theory \<open>Protocol\<close>; the
    \<open>world\<close> counts the calls, so that each may be answered differently, and records
    what was published and sent. Contexts and their deadlines are not modelled: a call that runs
    into one is a call that fails. Logging is not modelled.

  \<^bold>\<open>Components.\<close>

  \<^item> \<open>Taxonomy\<close> and \<open>Glob\<close>: the capability catalog
    (\<open>core/taxonomy\<close>) and the glob matcher (\<open>core/registry/kv.go\<close>).

  \<^item> \<open>Registry\<close>: the agent registry (\<open>core/registry\<close>), stated in the
    locale \<open>agent_bucket\<close>; what its clients may rely on is the locale
    \<open>agent_directory\<close>.

  \<^item> \<open>Alias\<close> and \<open>AliasSync\<close>: equivalent capability names and their
    exchange between nodes (\<open>core/registry/alias.go\<close>,
    \<open>core/federation/alias_sync.go\<close>), locales \<open>alias_bucket\<close> and
    \<open>reliable_alias\<close>.

  \<^item> \<open>Streams\<close> and \<open>Router\<close>: the mapping of event types to streams,
    the four routing strategies and the relay (\<open>core/router\<close>,
    \<open>core/workflow/stream_manager.go\<close>, \<open>core/federation/relay.go\<close>), locale
    \<open>event_relay\<close>.

  \<^item> \<open>Discovery\<close> and \<open>Health\<close>: discovery requests with the fallback
    to aliases, and the health monitor (\<open>core/discovery\<close>, \<open>core/health\<close>).

  \<^item> \<open>Workflow\<close>, \<open>Coordinator\<close>, \<open>Engine\<close>: workflow
    states and step timers, human decisions, and the engine (\<open>core/workflow\<close>).
    \<open>Lifecycle\<close> is the abstract specification of a workflow, \<open>EngineRuns\<close>
    an interleaving semantics of all handlers, goroutines and timers with the refinement of the
    specification, and \<open>WorkflowProps\<close> and \<open>DecisionProps\<close> hold the
    properties of single handlers.

  \<^item> \<open>Nodes\<close> and \<open>Gateway\<close>: known nodes, their monitor, the
    synchronisation of capabilities, and the gateway (\<open>core/federation\<close>), locales
    \<open>reliable_nodes\<close> and \<open>federation_stores\<close>.

  \<^item> \<open>Idempotency\<close> and \<open>Sdk\<close>: the SDK an agent is built with
    (\<open>sdk\<close>): the cache of processed events, registration, pings, steps with their
    goroutines, start and stop. This theory closes the circle between the engine and such an agent.

  \<^item> \<open>EventStore\<close>, \<open>Watchers\<close>, \<open>Simulation\<close>,
    \<open>Replay\<close> and \<open>Scenario\<close>: the history of streams, the subscribers of a
    session, the injection of synthetic events, and the replay and scenario engines
    (\<open>core/simulation\<close>). A session's goroutine is cut into the steps between which the
    operator, subscribers and other sessions may act; \<open>ReplayProps\<close> and
    \<open>ScenarioProps\<close> hold for every such interleaving. There the end of a context is an
    action, so cancellation is modelled; the length of a wait is not, only that its timer fires.

  \<^item> \<open>A2A\<close> and \<open>A2AProps\<close>: the bridge to the agent-to-agent protocol
    (\<open>a2a\<close>), from the HTTP request to the task: JSON-RPC, tasks over workflows or passed on to
    external agents, the agent card, and the onboarding and polling of external agents. The bridge
    runs in a process of its own; of the engine's node it touches the store and the event log only.

  \<^item> \<open>Sidecar\<close> and \<open>SidecarProps\<close>: the bridge for agents in other languages
    (\<open>sidecar\<close>): payload schemas, managed agents with an SDK agent each, requests, server-sent
    events and WebSockets. Agents and connections live in stores, since handlers and goroutines share
    them; \<open>sidecar_step\<close> lets everything interleave. This theory runs a workflow step
    through such an agent.

  \<^item> \<open>Operator\<close>, \<open>OperatorProps\<close> and \<open>SimulationApi\<close>: the HTTP interface of
    the runtime (\<open>core/runtime\<close>): agents, workflows, capabilities, statistics and nodes, the
    event feed with its ring buffer, the decisions of operators, the health report, and the
    interface of event store, replays and scenarios. A request is its method, path and query, with
    the decoded body as an argument; an answer is an error status or the value that is printed.

  A Go struct is a record, an enumeration a datatype, a fallible call a sum or an option, a map an
  association list or a HOL map, and a loop a recursive function over what it ranges over. A handler
  is one definition from the decoded message to the last call that changes state; where it reads the
  store first and writes later, the part after the read is a definition of its own
  (\<open>acceptResult\<close>, \<open>respond\<close>, \<open>expire\<close>,
  \<open>dispatch\<close>), so that other handlers may run in between. Step indexes are 32-bit
  words, heartbeat counters wrap around at 32 bits, ping sequence numbers are 64-bit words.

  \<^bold>\<open>Bounds.\<close> Two recursions are bounded by constants of the code: the resolution
  of aliases by the depth 5 (\<open>maxAliasDepth\<close>), the retries of a pong by 5
  (\<open>maxRetries\<close>). No other fuel is used. The steps of a replay or scenario session are
  bounded by a count that each of them lowers, so that their ends are theorems.

  \<^bold>\<open>What is shown.\<close> For each component its behaviour on every branch, the
  invariants its operations keep, and the contracts its clients use; across components that a run of
  the engine refines the lifecycle, that announcements, alias changes and relayed events reach a
  peer, that silent agents and nodes are removed on time, that discovery follows aliases, that a
  step makes the full round from the engine through an agent and back, that replays and
  scenarios publish exactly what they should and end, that a node can use the standard
  capabilities of another through its card, that external agents reach each other through the
  sidecar, and that an operator's approval over HTTP moves a workflow on. The remaining properties state what the code does where it falls short of its purpose, each with the
  hypotheses under which it happens.

  \<^bold>\<open>Not modelled.\<close> \<open>core/eventbus/nats\<close> and
  \<open>core/federation/transport.go\<close>, which only call the NATS client; the start-up of the
  gateway; of \<open>core/runtime\<close> the configuration, the wiring of the components (but for their
  routes), the shutdown, the static files and the loops that write notifications to a connection; the ticker loops that start a ping round;
  the configuration and the HTTP listener of \<open>a2a\<close> and of \<open>sidecar\<close>; generated protobuf code, the commands and the examples; the user interface and
  the SDKs in other languages.
\<close>

section \<open>A step through the engine and an agent\<close>

lemma step_round:
  assumes "reliable_workflow_store kv view" and "eg_store e = kv" and "bucket_ok (view (nd_store n))"
    and "view (nd_store n) wid = Some (Json st, q)" and "\<not> terminal st" and "wid \<noteq> []"
    and "steps_of st ! unat (ws_CurrentStep st) = step" and "\<not> sd_HumanApproval step"
    and "ri_find (dr_registry (eg_router e)) (sd_Capability step) [] = Inr (a # as)" and "reg_AgentID a \<noteq> []"
    and "ri_get (dr_registry (eg_router e)) (reg_AgentID a) = Inr (reg, rv)" and "\<not> IsRemote reg"
    and "dispatchStep sv e wid (ws_CurrentStep st) n = (None, n')"
    and "\<forall>p d. sv_marshal sv (MWorkflowStep p) = Some d \<longrightarrow> sv_dec_step sv d = Some p"
    and "\<forall>p d. sv_marshal sv (MWorkflowStepResult p) = Some d \<longrightarrow> sv_dec_step_result sv d = Some p"
    and "w_sent (en_world (nd_env n')) = w_sent (en_world (nd_env n)) @ [x, y]"
    and "ag_state b < AgentStateStopping" and "ag_inFlight b = []" and "\<not> fst (Has (ev_ID y) (ag_cache b))"
    and "map_of (ag_capabilities b) (sd_Capability step) = Some (cap, h)"
    and "\<forall>k ctx. h k ctx = Returned (f (sx_StepName ctx) (sx_Input ctx)) None"
    and "run_step sv 0 (sdk_dispatchStep sv y b) w = (b', w')" and "w_sent w' = w_sent w @ [z]"
  shows "ev_Type y = ''agent.direct.'' @ reg_AgentID a @ ''.workflow.step'' \<and> ev_Type z = ''workflow.'' @ wid @ ''.workflow.step.result'' \<and>
    (\<exists>st' q' res. view (nd_store (snd (handleWorkflowStepResult sv e z n'))) wid = Some (Json st', q') \<and>
      ws_StepResults st' = ws_StepResults st @ [res] \<and> unat (ws_CurrentStep st') = Suc (unat (ws_CurrentStep st)) \<and>
      rs_StepIndex res = ws_CurrentStep st \<and> rs_AgentID res = ag_id b \<and> rs_Result res = f (Workflow.sd_Name step) (sd_Input step))"
proof -
  let ?i = "ws_CurrentStep st"
  have ok: "wf_ok wid st" using bucket_okD [OF assms(3,4)] .
  note bnd = wf_ok_running_bound [OF ok assms(5)]
  obtain ts r x' y' st1 where d: "st1 = st\<lparr>ws_AssignedAgent := reg_AgentID a, ws_UpdatedAt := ts\<rparr>"
    "view (nd_store n') = (view (nd_store n))(wid \<mapsto> (Json (persisted st1), r))"
    "published (nd_env n) (nd_env n') [x', y'] []"
    "sv_marshal sv (MWorkflowStep (step_payload wid st1 step ?i)) = Some (ev_Payload y')"
    "ev_Type y' = ''agent.direct.'' @ reg_AgentID a @ ''.workflow.step''"
    using dispatch_sends [OF assms(1,2,4,6) _ _ _ assms(10-13)] assms(7-9) bnd by metis
  have y: "y' = y" using d(3) assms(16) by (simp add: published_def)
  have p: "persisted st1 = st1" unfolding d(1) by (rule persisted_keep [OF wf_ok_persisted [OF ok]]) simp
  let ?p = "step_payload wid st1 step ?i"
  have ctx: "sx_StepName (buildStepContext sv ?p) = Workflow.sd_Name step" "sx_Input (buildStepContext sv ?p) = sd_Input step"
    by (simp_all add: buildStepContext_def step_payload_def Let_def)
  have "wsp_step ?p = Some (the (wsp_step ?p))" "psd_capability (the (wsp_step ?p)) = sd_Capability step" by (simp_all add: step_payload_def)
  note rep = agent_reply [OF assms(19) _ this(1) _ assms(17,18) _ assms(22,23), of cap h "f (Workflow.sd_Name step) (sd_Input step)", unfolded this(2)]
  have "sv_dec_step sv (ev_Payload y) = Some ?p" using assms(14) d(4) y by blast
  note rep = rep [OF this assms(20)]
  have z: "sv_dec_step_result sv (ev_Payload z) = Some \<lparr>wsr_step_index = ?i, wsr_status = 1, wsr_result = f (Workflow.sd_Name step) (sd_Input step), wsr_error = None\<rparr>"
    "ev_Type z = ''workflow.'' @ wid @ ''.workflow.step.result''" "ev_WorkflowID z = wid" "ev_SourceAgent z = ag_id b"
    using rep assms(15,21) ctx by (simp_all add: step_payload_def)
  have v: "view (nd_store n') (ev_WorkflowID z) = Some (Json st1, r)" using d(2) p z(3) by simp
  have t: "\<not> terminal st1" using assms(5) by (simp add: d(1) terminal_def)
  have "wf_ok wid st1" using wf_trans_ok [OF tr_assign ok] assms(5) by (simp add: d(1))
  then have "bucket_ok (view (nd_store n'))" using assms(3) d(2) p by (auto simp: bucket_ok_def)
  from reliable_workflow_store.handleResult_effect [OF assms(1,2) this v t _ z(1)]
  obtain st' q' ts' where "view (nd_store (snd (handleWorkflowStepResult sv e z n'))) wid = Some (Json st', q')"
    "ws_StepResults st' = ws_StepResults st1 @ [result_of z \<lparr>wsr_step_index = ?i, wsr_status = 1, wsr_result = f (Workflow.sd_Name step) (sd_Input step), wsr_error = None\<rparr> ts']"
    "ws_CurrentStep st' = ws_CurrentStep st1 + 1"
    using assms(6) z(3) by (auto simp: StepStatusFailure_def)
  then show ?thesis using d(1,5) y z bnd by (auto simp: result_of_def)
qed

text \<open>
  C2. A workflow step makes the full round: the engine dispatches the current step of a workflow to a
  local agent, the agent built with the SDK receives the second of the two events, runs the handler
  of the step's capability on the step's input and publishes its result on the subject the engine has
  subscribed to; the engine records exactly that result for that step and agent and moves on by one.
\<close>

theorem step_round_trip:
  assumes "reliable_workflow_store kv view" and "eg_store e = kv" and "bucket_ok (view (nd_store n))"
    and "view (nd_store n) wid = Some (Json st, q)" and "\<not> terminal st" and "wid \<noteq> []"
    and "steps_of st ! unat (ws_CurrentStep st) = step" and "\<not> sd_HumanApproval step"
    and "ri_find (dr_registry (eg_router e)) (sd_Capability step) [] = Inr (a # as)" and "reg_AgentID a \<noteq> []"
    and "ri_get (dr_registry (eg_router e)) (reg_AgentID a) = Inr (reg, rv)" and "\<not> IsRemote reg"
    and "dispatchStep sv e wid (ws_CurrentStep st) n = (None, n')"
    and "\<forall>p d. sv_marshal sv (MWorkflowStep p) = Some d \<longrightarrow> sv_dec_step sv d = Some p"
    and "\<forall>p d. sv_marshal sv (MWorkflowStepResult p) = Some d \<longrightarrow> sv_dec_step_result sv d = Some p"
    and "w_sent (en_world (nd_env n')) = w_sent (en_world (nd_env n)) @ [x, y]"
    and "ag_state b < AgentStateStopping" and "ag_inFlight b = []" and "\<not> fst (Has (ev_ID y) (ag_cache b))"
    and "map_of (ag_capabilities b) (sd_Capability step) = Some (cap, h)"
    and "\<forall>k ctx. h k ctx = Returned (f (sx_StepName ctx) (sx_Input ctx)) None"
    and "run_step sv 0 (sdk_dispatchStep sv y b) w = (b', w')" and "w_sent w' = w_sent w @ [z]"
  shows "ev_Type y = ''agent.direct.'' @ reg_AgentID a @ ''.workflow.step'' \<and> ev_Type z = ''workflow.'' @ wid @ ''.workflow.step.result'' \<and>
    (\<exists>st' q' res. view (nd_store (snd (handleWorkflowStepResult sv e z n'))) wid = Some (Json st', q') \<and>
      ws_StepResults st' = ws_StepResults st @ [res] \<and> unat (ws_CurrentStep st') = Suc (unat (ws_CurrentStep st)) \<and>
      rs_StepIndex res = ws_CurrentStep st \<and> rs_AgentID res = ag_id b \<and> rs_Result res = f (Workflow.sd_Name step) (sd_Input step))"
  by (rule step_round [OF assms])

text \<open>One step of the example workflow, over a codec for its two messages, on an agent that echoes its input.\<close>

definition rt_step :: "nat WorkflowStepPayload" where
  "rt_step = step_payload ''w'' (wf_state [False]) (wd_Steps (ws_Definition (wf_state [False])) ! 0) 0"

definition rt_result :: "nat WorkflowStepResultPayload" where
  "rt_result = \<lparr>wsr_step_index = 0, wsr_status = 1, wsr_result = 0, wsr_error = None\<rparr>"

definition rt_services :: "nat services" where
  "rt_services = (null_services 0)
     \<lparr>sv_marshal := \<lambda>m. (case m of MWorkflowStep p \<Rightarrow> if p = rt_step then Some 1 else None
        | MWorkflowStepResult p \<Rightarrow> if p = rt_result then Some 2 else None | _ \<Rightarrow> Some 0),
      sv_dec_step := \<lambda>d. if d = 1 then Some rt_step else None,
      sv_dec_step_result := \<lambda>d. if d = 2 then Some rt_result else None\<rparr>"

definition rt_agent :: "nat Agent" where
  "rt_agent = Handle (ex_cap\<lparr>sc_Name := ''nlp.qa''\<rparr>) (\<lambda>_ ctx. Returned (sx_Input ctx) None) (ex_agent\<lparr>ag_id := ''a1''\<rparr>)"

definition rt_dispatch :: "wf_error option \<times> (nat WorkflowState json bucket, nat) node" where
  "rt_dispatch = dispatchStep rt_services wf_engine ''w'' 0 (wf_node (wf_bucket (wf_state [False])))"

definition rt_reply :: "nat Agent \<times> nat world" where
  "rt_reply = run_step rt_services 0 (sdk_dispatchStep rt_services (w_sent (en_world (nd_env (snd rt_dispatch))) ! 1) rt_agent) empty_world"

lemma rt_runs: "fst rt_dispatch = None" "length (w_sent (en_world (nd_env (snd rt_dispatch)))) = 2" "length (w_sent (snd rt_reply)) = 1"
  by code_simp+

text \<open>The engine's side of the example.\<close>

lemma rt_step_of: "steps_of (wf_state [False]) ! unat (ws_CurrentStep (wf_state [False])) = wd_Steps (ws_Definition (wf_state [False])) ! 0"
  "ws_CurrentStep (wf_state [False]) = 0" "sd_Capability (wd_Steps (ws_Definition (wf_state [False])) ! 0) = ''nlp.qa''"
  by (simp_all add: wf_state_def initial_state_def)

lemma rt_engine:
  obtains a as reg q x y where
    "ri_find (dr_registry (eg_router wf_engine)) (sd_Capability (wd_Steps (ws_Definition (wf_state [False])) ! 0)) [] = Inr (a # as)" "reg_AgentID a \<noteq> []"
    "ri_get (dr_registry (eg_router wf_engine)) (reg_AgentID a) = Inr (reg, q)" "\<not> IsRemote reg"
    "dispatchStep rt_services wf_engine ''w'' (ws_CurrentStep (wf_state [False])) (wf_node (wf_bucket (wf_state [False]))) = (None, snd rt_dispatch)"
    "w_sent (en_world (nd_env (snd rt_dispatch))) = w_sent (en_world (nd_env (wf_node (wf_bucket (wf_state [False]))))) @ [x, y]"
    "w_sent (en_world (nd_env (snd rt_dispatch))) ! 1 = y"
proof -
  let ?step = "wd_Steps (ws_Definition (wf_state [False])) ! 0"
  have d: "dispatchStep rt_services wf_engine ''w'' (ws_CurrentStep (wf_state [False])) (wf_node (wf_bucket (wf_state [False]))) = (None, snd rt_dispatch)"
    using rt_runs(1) rt_step_of(2) by (metis prod.collapse rt_dispatch_def)
  have "case ri_find (dr_registry (eg_router wf_engine)) (sd_Capability ?step) [] of
      Inr (a # as) \<Rightarrow> reg_AgentID a = ''a1'' | _ \<Rightarrow> False" by code_simp
  then obtain a as where f: "ri_find (dr_registry (eg_router wf_engine)) (sd_Capability ?step) [] = Inr (a # as)" "reg_AgentID a = ''a1''"
    by (auto split: sum.splits list.splits)
  have "case ri_get (dr_registry (eg_router wf_engine)) ''a1'' of Inr (reg, q) \<Rightarrow> \<not> IsRemote reg | Inl _ \<Rightarrow> False" by code_simp
  then obtain reg q where g: "ri_get (dr_registry (eg_router wf_engine)) (reg_AgentID a) = Inr (reg, q)" "\<not> IsRemote reg"
    using f(2) by (auto split: sum.splits)
  obtain x y where xy: "w_sent (en_world (nd_env (snd rt_dispatch))) = [x, y]" using rt_runs(2) by (auto simp: numeral_2_eq_2 length_Suc_conv)
  then have w: "w_sent (en_world (nd_env (snd rt_dispatch))) = w_sent (en_world (nd_env (wf_node (wf_bucket (wf_state [False]))))) @ [x, y]"
    by (simp add: wf_node_def ex_env_def empty_world_def)
  show thesis by (rule that [OF f(1) _ g d w]) (use f(2) xy in simp_all)
qed

lemma rt_codec: "\<forall>p d. sv_marshal rt_services (MWorkflowStep p) = Some d \<longrightarrow> sv_dec_step rt_services d = Some p"
    "\<forall>p d. sv_marshal rt_services (MWorkflowStepResult p) = Some d \<longrightarrow> sv_dec_step_result rt_services d = Some p"
  by (simp_all add: rt_services_def)

lemma rt_state: "\<not> terminal (wf_state [False])" "''w'' \<noteq> []" "\<not> sd_HumanApproval (wd_Steps (ws_Definition (wf_state [False])) ! 0)"
  by (simp_all add: wf_state_def initial_state_def terminal_def)

theorem step_round_trip_witness:
  "\<exists>z st' q'. w_sent (snd rt_reply) = [z] \<and> ev_Type z = ''workflow.w.workflow.step.result'' \<and>
    mem_view (nd_store (snd (handleWorkflowStepResult rt_services wf_engine z (snd rt_dispatch)))) ''w'' = Some (Json st', q') \<and>
    unat (ws_CurrentStep st') = 1"
proof -
  let ?step = "wd_Steps (ws_Definition (wf_state [False])) ! 0"
  obtain a as reg q x y where e: "ri_find (dr_registry (eg_router wf_engine)) (sd_Capability ?step) [] = Inr (a # as)" "reg_AgentID a \<noteq> []"
    "ri_get (dr_registry (eg_router wf_engine)) (reg_AgentID a) = Inr (reg, q)" "\<not> IsRemote reg"
    "dispatchStep rt_services wf_engine ''w'' (ws_CurrentStep (wf_state [False])) (wf_node (wf_bucket (wf_state [False]))) = (None, snd rt_dispatch)"
    "w_sent (en_world (nd_env (snd rt_dispatch))) = w_sent (en_world (nd_env (wf_node (wf_bucket (wf_state [False]))))) @ [x, y]"
    "w_sent (en_world (nd_env (snd rt_dispatch))) ! 1 = y" by (rule rt_engine)
  have rt: "rt_agent = \<lparr>ag_id = ''a1'', ag_name = ''n'', ag_agentType = ''t'', ag_version = ''1'', ag_opts = defaultOptions,
      ag_state = AgentStateRunning, ag_capabilities = [(''c'', ex_cap, \<lambda>_ ctx. Returned (sx_Input ctx) None),
        (''nlp.qa'', ex_cap\<lparr>sc_Name := ''nlp.qa''\<rparr>, \<lambda>_ ctx. Returned (sx_Input ctx) None)], ag_bus = OpenBus,
      ag_ownsBus = False, ag_subs = [], ag_inFlight = [], ag_invocations = 0, ag_cache = newIdempotencyCache 10000\<rparr>"
    by (simp add: rt_agent_def ex_agent_def NewWithID_def Handle_def ex_cap_def defaultOptions_def Let_def)
  have b: "ag_state rt_agent < AgentStateStopping" "ag_inFlight rt_agent = []" "\<not> fst (Has (ev_ID y) (ag_cache rt_agent))"
    "map_of (ag_capabilities rt_agent) (sd_Capability ?step) = Some (ex_cap\<lparr>sc_Name := ''nlp.qa''\<rparr>, \<lambda>_ ctx. Returned (sx_Input ctx) None)"
    by (simp_all add: rt Has_def newIdempotencyCache_def less_AgentState_def rt_step_of(3))
  obtain z where z: "w_sent (snd rt_reply) = [z]" using rt_runs(3) by (auto simp: length_Suc_conv)
  then have r: "run_step rt_services 0 (sdk_dispatchStep rt_services y rt_agent) empty_world = (fst rt_reply, snd rt_reply)"
    "w_sent (snd rt_reply) = w_sent empty_world @ [z]" using e(7) by (simp_all add: rt_reply_def empty_world_def)
  have h: "\<forall>k ctx. (\<lambda>_ ctx. Returned (sx_Input ctx) None) k ctx = Returned ((\<lambda>_ v. v) (sx_StepName ctx) (sx_Input ctx)) None" by simp
  from step_round_trip [OF mem_rwf.reliable_workflow_store_axioms wf_engine_store wf_bucket_ok [OF wf_state_ok] wf_view rt_state(1,2) rt_step_of(1)
      rt_state(3) e(1-5) rt_codec e(6) b h r] rt_step_of(2) z show ?thesis by auto
qed

section \<open>A step for an external agent\<close>

text \<open>
  C34. An external agent cannot answer the steps it is given. A step dispatched to an agent registered
  with the sidecar is answered at once by the sidecar's own agent, which has nothing to say: the
  engine records an empty result for it and moves on. And an event the external agent publishes by a
  request, as the result of a step or otherwise, carries no workflow identifier, so that the engine
  rejects it.
\<close>

theorem external_step_answered_empty:
  assumes "reliable_workflow_store kv view" and "eg_store e = kv" and "bucket_ok (view (nd_store n))"
    and "view (nd_store n) wid = Some (Json st, q)" and "\<not> terminal st" and "wid \<noteq> []"
    and "steps_of st ! unat (ws_CurrentStep st) = step" and "\<not> sd_HumanApproval step"
    and "ri_find (dr_registry (eg_router e)) (sd_Capability step) [] = Inr (a # as)" and "reg_AgentID a \<noteq> []"
    and "ri_get (dr_registry (eg_router e)) (reg_AgentID a) = Inr (reg, rv)" and "\<not> IsRemote reg"
    and "dispatchStep sv e wid (ws_CurrentStep st) n = (None, n')"
    and "\<forall>p d. sv_marshal sv (MWorkflowStep p) = Some d \<longrightarrow> sv_dec_step sv d = Some p"
    and "\<forall>p d. sv_marshal sv (MWorkflowStepResult p) = Some d \<longrightarrow> sv_dec_step_result sv d = Some p"
    and "w_sent (en_world (nd_env n')) = w_sent (en_world (nd_env n)) @ [x, y]"
    and "manager_Register sv req m = (Inr k, m1)" and "c \<in> set (rr_Capabilities req)" and "cs_Name c = sd_Capability step"
    and "w_sent (sd_world (managed_work sv k 0 (managed_dispatch sv k y m1))) = w_sent (sd_world m1) @ [z]"
    and "handlePublish sv jc schemas agentID body m2 = (AcceptedAnswer uid, m3)"
  shows "(\<exists>st' q' res. view (nd_store (snd (handleWorkflowStepResult sv e z n'))) wid = Some (Json st', q') \<and>
      ws_StepResults st' = ws_StepResults st @ [res] \<and> unat (ws_CurrentStep st') = Suc (unat (ws_CurrentStep st)) \<and>
      rs_StepIndex res = ws_CurrentStep st \<and> rs_AgentID res = rr_AgentID req \<and> rs_Result res = sv_nil sv) \<and>
    (\<exists>v. w_sent (sd_world m3) = w_sent (sd_world m2) @ [v] \<and> handleWorkflowStepResult sv e v n2 = (Some WfMissingID, n2))"
proof
  obtain ma sc where r: "k = length (sd_heap m)" "sd_heap m1 = sd_heap m @ [ma]" "ag_state (ma_SDKAgent ma) = AgentStateRunning" "ag_inFlight (ma_SDKAgent ma) = []"
    "\<not> fst (Has (ev_ID y) (ag_cache (ma_SDKAgent ma)))" "ag_id (ma_SDKAgent ma) = rr_AgentID req"
    "map_of (ag_capabilities (ma_SDKAgent ma)) (cs_Name c) = Some (sc, noop sv)"
    using registered_agent [OF assms(17,18)] by blast
  let ?b = "ma_SDKAgent ma"
  obtain b' w' where run: "run_step sv 0 (sdk_dispatchStep sv y ?b) (sd_world m1) = (b', w')" by fastforce
  then have sent: "w_sent w' = w_sent (sd_world m1) @ [z]"
    using assms(20) r(1,2) by (simp add: managed_work_def managed_dispatch_def on_agent_def Let_def)
  have "ag_state ?b < AgentStateStopping" using r(3) by (simp add: less_AgentState_def)
  moreover have "map_of (ag_capabilities ?b) (sd_Capability step) = Some (sc, noop sv)" using r(7) assms(19) by simp
  moreover have "\<forall>j ctx. noop sv j ctx = Returned ((\<lambda>_ _. sv_nil sv) (sx_StepName ctx) (sx_Input ctx)) None" by (simp add: noop_def)
  ultimately show "\<exists>st' q' res. view (nd_store (snd (handleWorkflowStepResult sv e z n'))) wid = Some (Json st', q') \<and>
      ws_StepResults st' = ws_StepResults st @ [res] \<and> unat (ws_CurrentStep st') = Suc (unat (ws_CurrentStep st)) \<and>
      rs_StepIndex res = ws_CurrentStep st \<and> rs_AgentID res = rr_AgentID req \<and> rs_Result res = sv_nil sv"
    using step_round [OF assms(1-16) _ r(4,5) _ _ run sent, of sc "noop sv" "\<lambda>_ _. sv_nil sv"] r(6) by auto
  show "\<exists>v. w_sent (sd_world m3) = w_sent (sd_world m2) @ [v] \<and> handleWorkflowStepResult sv e v n2 = (Some WfMissingID, n2)"
    using handlePublish_accepted [OF assms(21)] by (metis handleWorkflowStepResult_def publication_simps(5))
qed


text \<open>An external agent registered for the step of the example.\<close>

definition xs_register :: RegisterRequest where
  "xs_register = ex_register\<lparr>rr_AgentID := ''a1'', rr_Capabilities := [\<lparr>cs_Name = ''nlp.qa'', cs_Version = ''1'', cs_Description = [], cs_Parameters = Map.empty\<rparr>]\<rparr>"

definition xs_registered :: "(manager_error + nat) \<times> (nat, nat) AgentManager" where
  "xs_registered = manager_Register rt_services xs_register (NewAgentManager 1 empty_world)"

definition xs_worked :: "(nat, nat) AgentManager" where
  "xs_worked = managed_work rt_services 0 0 (managed_dispatch rt_services 0 (w_sent (en_world (nd_env (snd rt_dispatch))) ! 1) (snd xs_registered))"

definition xs_published :: "answer \<times> (nat, nat) AgentManager" where
  "xs_published = handlePublish rt_services ex_json_codec NewPayloadRegistry ''a1'' (Some (ex_publish\<lparr>pr_EventType := ''workflow.step.result''\<rparr>)) xs_worked"

lemma xs_runs: "fst xs_registered = Inr 0"
  "length (w_sent (sd_world xs_worked)) = Suc (length (w_sent (sd_world (snd xs_registered))))"
  "case fst xs_published of AcceptedAnswer _ \<Rightarrow> True | _ \<Rightarrow> False"
  by code_simp+


lemma run_step_sends: "\<exists>zs. w_sent (snd (run_step sv i a w)) = w_sent w @ zs"
  by (auto simp: run_step_def publishStepResult_def publishOwn_def bus_publish_def new_uuid_def time_now_def Let_def case_prod_unfold split: option.split sum.split)

theorem external_step_answered_empty_witness:
  "\<exists>z st' q' res. w_sent (sd_world xs_worked) = w_sent (sd_world (snd xs_registered)) @ [z] \<and>
    mem_view (nd_store (snd (handleWorkflowStepResult rt_services wf_engine z (snd rt_dispatch)))) ''w'' = Some (Json st', q') \<and>
    ws_StepResults st' = ws_StepResults (wf_state [False]) @ [res] \<and> rs_AgentID res = ''a1'' \<and> rs_Result res = 0 \<and>
    (\<exists>v. w_sent (sd_world (snd xs_published)) = w_sent (sd_world xs_worked) @ [v] \<and>
      handleWorkflowStepResult rt_services wf_engine v (snd rt_dispatch) = (Some WfMissingID, snd rt_dispatch))"
proof -
  let ?step = "wd_Steps (ws_Definition (wf_state [False])) ! 0"
  obtain a as reg q x y where e: "ri_find (dr_registry (eg_router wf_engine)) (sd_Capability ?step) [] = Inr (a # as)" "reg_AgentID a \<noteq> []"
    "ri_get (dr_registry (eg_router wf_engine)) (reg_AgentID a) = Inr (reg, q)" "\<not> IsRemote reg"
    "dispatchStep rt_services wf_engine ''w'' (ws_CurrentStep (wf_state [False])) (wf_node (wf_bucket (wf_state [False]))) = (None, snd rt_dispatch)"
    "w_sent (en_world (nd_env (snd rt_dispatch))) = w_sent (en_world (nd_env (wf_node (wf_bucket (wf_state [False]))))) @ [x, y]"
    "w_sent (en_world (nd_env (snd rt_dispatch))) ! 1 = y" by (rule rt_engine)
  have r: "manager_Register rt_services xs_register (NewAgentManager 1 empty_world) = (Inr 0, snd xs_registered)"
    using xs_runs(1) by (metis prod.collapse xs_registered_def)
  have c: "\<lparr>cs_Name = ''nlp.qa'', cs_Version = ''1'', cs_Description = [], cs_Parameters = Map.empty\<rparr> \<in> set (rr_Capabilities xs_register)"
    "cs_Name \<lparr>cs_Name = ''nlp.qa'', cs_Version = ''1'', cs_Description = [], cs_Parameters = Map.empty\<rparr> = sd_Capability ?step"
    by (simp_all add: xs_register_def rt_step_of(3))
  have "\<exists>zs. w_sent (sd_world xs_worked) = w_sent (sd_world (snd xs_registered)) @ zs"
    using run_step_sends [of rt_services] by (simp add: xs_worked_def managed_work_def managed_dispatch_def on_agent_def Let_def case_prod_unfold)
  then obtain zs where zs: "w_sent (sd_world xs_worked) = w_sent (sd_world (snd xs_registered)) @ zs" by blast
  then have "length zs = Suc 0" using xs_runs(2) by simp
  then obtain z where z: "w_sent (sd_world xs_worked) = w_sent (sd_world (snd xs_registered)) @ [z]" using zs by (auto simp: length_Suc_conv)
  then have z': "w_sent (sd_world (managed_work rt_services 0 0 (managed_dispatch rt_services 0 y (snd xs_registered)))) = w_sent (sd_world (snd xs_registered)) @ [z]"
    using e(7) by (simp add: xs_worked_def)
  obtain uid where "fst xs_published = AcceptedAnswer uid" using xs_runs(3) by (auto split: answer.splits)
  then have p: "handlePublish rt_services ex_json_codec NewPayloadRegistry ''a1'' (Some (ex_publish\<lparr>pr_EventType := ''workflow.step.result''\<rparr>)) xs_worked =
      (AcceptedAnswer uid, snd xs_published)" by (metis prod.collapse xs_published_def)
  have "sv_nil rt_services = 0" "rr_AgentID xs_register = ''a1''" by (simp_all add: rt_services_def null_services_def xs_register_def)
  moreover note external_step_answered_empty [OF mem_rwf.reliable_workflow_store_axioms wf_engine_store wf_bucket_ok [OF wf_state_ok] wf_view rt_state(1,2) rt_step_of(1)
      rt_state(3) e(1-5) rt_codec e(6) r c z' p, of "snd rt_dispatch"]
  ultimately show ?thesis using z by auto
qed

end
